(* ===== verification/JS_Prelude.thy ===== *)
theory JS_Prelude
  imports Main "HOL-Library.Word"
begin

text \<open>
  What the components share: the JavaScript values the source computes with, and the generic
  lemmas about them.

  \<^item> A thrown \<open>Error\<close> is the value \<open>JsError code message\<close> on the left of a sum; the optional
    code is the \<open>code\<close> property of the \<open>HTTPError\<close>s of the network layer. \<open>bindE\<close>
    sequences computations that may throw, \<open>forE\<close> is \<open>Array.prototype.forEach\<close> with a
    body that may throw, \<open>mapE\<close> is \<open>Array.prototype.map\<close> with such a body.
  \<^item> A plain object used as a dictionary, and a \<open>Map\<close>, are association lists in insertion
    order: assigning an existing key keeps its place, a new key goes to the end, \<open>values\<close>
    and \<open>keys\<close> read in that order. (The keys of the source's dictionaries are UUIDs, service
    ids and similar strings, never the array-index-like keys that a plain object would reorder,
    nor names of \<open>Object.prototype\<close>.)
  \<^item> \<open>undefined\<close> and \<open>null\<close> are \<open>None\<close>. The truthiness of a string is that it is
    not empty, of a number that it is not zero.
  \<^item> A string is a \<open>char list\<close>, one character for one UTF-16 code unit; only code units
    below 256 are represented.
\<close>

subsection \<open>Automation\<close>

named_theorems js_simps \<open>unfolding rules for the JavaScript operators\<close>
named_theorems inv_intros \<open>invariant preservation rules of the components\<close>

subsection \<open>Errors and sequencing\<close>

datatype js_error = JsError (err_code: "int option") (err_message: string)

type_synonym 'a js = "js_error + 'a"

abbreviation throw :: "string \<Rightarrow> 'a js" where
  "throw msg \<equiv> Inl (JsError None msg)"

definition bindE :: "('e + 'a) \<Rightarrow> ('a \<Rightarrow> 'e + 'b) \<Rightarrow> 'e + 'b" where
  "bindE m f = (case m of Inl e \<Rightarrow> Inl e | Inr x \<Rightarrow> f x)"

lemma bindE_simps [simp]: "bindE (Inl e) f = Inl e" "bindE (Inr x) f = f x"
  by (simp_all add: bindE_def)

lemma bindE_eq_Inr: "bindE m f = Inr y \<longleftrightarrow> (\<exists>x. m = Inr x \<and> f x = Inr y)"
  by (simp add: bindE_def split: sum.splits)

lemma bindE_eq_Inl: "bindE m f = Inl e \<longleftrightarrow> m = Inl e \<or> (\<exists>x. m = Inr x \<and> f x = Inl e)"
  by (auto simp add: bindE_def split: sum.splits)

lemma bindE_assoc: "bindE (bindE m f) g = bindE m (\<lambda>x. bindE (f x) g)"
  by (simp add: bindE_def split: sum.splits)

text \<open>\<open>strictAssert\<close> (ts/util/assert.std.ts) throws on \<open>false\<close>, \<open>null\<close> and
  \<open>undefined\<close>, but not on other falsy values.\<close>

definition strictAssert :: "bool \<Rightarrow> string \<Rightarrow> unit js" where
  "strictAssert c msg = (if c then Inr () else throw msg)"

definition strictAssertSome :: "'a option \<Rightarrow> string \<Rightarrow> 'a js" where
  "strictAssertSome v msg = (case v of None \<Rightarrow> throw msg | Some x \<Rightarrow> Inr x)"

lemma strictAssert_eq_Inr [simp]: "strictAssert c msg = Inr u \<longleftrightarrow> c"
  by (simp add: strictAssert_def)

lemma strictAssert_simps [simp]:
  "strictAssert True msg = Inr ()" "strictAssert False msg = throw msg"
  "strictAssertSome (Some x) msg = Inr x" "strictAssertSome None msg = throw msg"
  by (simp_all add: strictAssert_def strictAssertSome_def)

lemma strictAssertSome_eq_Inr: "strictAssertSome v msg = Inr x \<longleftrightarrow> v = Some x"
  by (simp add: strictAssertSome_def split: option.splits)

fun forE :: "('a \<Rightarrow> 's \<Rightarrow> 'e + 's) \<Rightarrow> 'a list \<Rightarrow> 's \<Rightarrow> 'e + 's" where
  "forE f [] s = Inr s"
| "forE f (x # xs) s = bindE (f x s) (forE f xs)"

fun mapE :: "('a \<Rightarrow> 'e + 'b) \<Rightarrow> 'a list \<Rightarrow> 'e + 'b list" where
  "mapE f [] = Inr []"
| "mapE f (x # xs) = bindE (f x) (\<lambda>y. bindE (mapE f xs) (\<lambda>ys. Inr (y # ys)))"

text \<open>An invariant that every iteration keeps holds after the loop, if the loop returns.\<close>

lemma forE_invariant:
  assumes "forE f xs s = Inr t" and "P s"
    and step: "\<And>x s s'. x \<in> set xs \<Longrightarrow> P s \<Longrightarrow> f x s = Inr s' \<Longrightarrow> P s'"
  shows "P t"
  using assms
proof (induction xs arbitrary: s)
  case Nil
  then show ?case by simp
next
  case (Cons x xs)
  from Cons.prems(1) obtain s' where s': "f x s = Inr s'" and rest: "forE f xs s' = Inr t"
    by (auto simp: bindE_eq_Inr)
  have "P s'"
    using Cons.prems(3) [of x s s'] Cons.prems(2) s' by simp
  then show ?case
    using Cons.IH [OF rest] Cons.prems(3) by (meson list.set_intros(2))
qed

text \<open>A loop whose body refines a step on an abstraction of the state refines the fold of that step.\<close>

lemma forE_refines:
  assumes "forE f xs s = Inr t"
    and step: "\<And>x s s'. x \<in> set xs \<Longrightarrow> f x s = Inr s' \<Longrightarrow> alpha s' = g x (alpha s)"
  shows "alpha t = fold g xs (alpha s)"
  using assms
proof (induction xs arbitrary: s)
  case Nil
  then show ?case by simp
next
  case (Cons x xs)
  then obtain s' where "f x s = Inr s'" "forE f xs s' = Inr t"
    by (auto simp: bindE_eq_Inr)
  with Cons show ?case by (metis (no_types, lifting) fold_simps(2) list.set_intros)
qed

lemma forE_append: "forE f (xs @ ys) s = bindE (forE f xs s) (forE f ys)"
proof (induction xs arbitrary: s)
  case Nil
  then show ?case by simp
next
  case (Cons x xs)
  have "forE f (xs @ ys) = (\<lambda>s. bindE (forE f xs s) (forE f ys))"
    using Cons.IH by (rule ext)
  then show ?case by (simp add: bindE_assoc)
qed

lemma forE_total:
  assumes "\<And>x s. x \<in> set xs \<Longrightarrow> f x s = Inr (g x s)"
  shows "forE f xs s = Inr (fold g xs s)"
  using assms by (induction xs arbitrary: s) simp_all

lemma forE_Inl: "forE f xs s = Inl e \<Longrightarrow> \<exists>x \<in> set xs. \<exists>s'. f x s' = Inl e"
  by (induction xs arbitrary: s) (auto simp: bindE_eq_Inl)

lemma mapE_eq_Inr_length: "mapE f xs = Inr ys \<Longrightarrow> length ys = length xs"
  by (induction xs arbitrary: ys) (auto simp: bindE_eq_Inr)

lemma mapE_eq_Inr_nth:
  "mapE f xs = Inr ys \<Longrightarrow> list_all2 (\<lambda>x y. f x = Inr y) xs ys"
  by (induction xs arbitrary: ys) (auto simp: bindE_eq_Inr)

text \<open>A fold keeps what every step keeps.\<close>

lemma fold_keeps:
  assumes "P r" and "\<And>x r. x \<in> set xs \<Longrightarrow> P r \<Longrightarrow> P (f x r)"
  shows "P (fold f xs r)"
  using assms by (induction xs arbitrary: r) simp_all

text \<open>
  Where the source changes a state before it throws, the state is kept next to the result:
  \<open>bindS\<close> is sequencing and \<open>forS\<close> a loop over such operations.
\<close>

definition bindS :: "'s \<times> 'a js \<Rightarrow> ('a \<Rightarrow> 's \<Rightarrow> 's \<times> 'b js) \<Rightarrow> 's \<times> 'b js" where
  "bindS r f = (case r of (s, Inl e) \<Rightarrow> (s, Inl e) | (s, Inr x) \<Rightarrow> f x s)"

fun forS :: "('a \<Rightarrow> 's \<Rightarrow> 's \<times> unit js) \<Rightarrow> 'a list \<Rightarrow> 's \<Rightarrow> 's \<times> unit js" where
  "forS f [] s = (s, Inr ())"
| "forS f (x # xs) s = bindS (f x s) (\<lambda>_. forS f xs)"

lemma bindS_cases:
  obtains (Error) e where "snd r = Inl e" "bindS r f = (fst r, Inl e)"
  | (Value) x where "snd r = Inr x" "bindS r f = f x (fst r)"
  by (cases r; cases "snd r") (auto simp: bindS_def)

lemma bindS_simps [simp]: "bindS (s, Inl e) f = (s, Inl e)" "bindS (s, Inr x) f = f x s"
  by (simp_all add: bindS_def)

lemma fst_bindS: "fst (bindS r f) = (case snd r of Inl _ \<Rightarrow> fst r | Inr x \<Rightarrow> fst (f x (fst r)))"
  by (cases r) (auto simp: bindS_def split: sum.split)

lemma bindS_inv:
  "P (fst r) \<Longrightarrow> (\<And>x. snd r = Inr x \<Longrightarrow> P (fst r) \<Longrightarrow> P (fst (f x (fst r)))) \<Longrightarrow> P (fst (bindS r f))"
  by (simp add: fst_bindS split: sum.split)

lemma forS_keeps:
  assumes "P s" and "\<And>x s. x \<in> set xs \<Longrightarrow> P s \<Longrightarrow> P (fst (f x s))"
  shows "P (fst (forS f xs s))"
  using assms by (induction xs arbitrary: s) (auto intro: bindS_inv [where P = P])

subsection \<open>Truthiness and default operators\<close>

definition truthy_str :: "string option \<Rightarrow> bool" where
  [js_simps]: "truthy_str v = (case v of None \<Rightarrow> False | Some s \<Rightarrow> s \<noteq> [])"

definition truthy_num :: "int option \<Rightarrow> bool" where
  [js_simps]: "truthy_num v = (case v of None \<Rightarrow> False | Some n \<Rightarrow> n \<noteq> 0)"

definition truthy_bool :: "bool option \<Rightarrow> bool" where
  [js_simps]: "truthy_bool v = (v = Some True)"

definition or_num :: "int \<Rightarrow> int \<Rightarrow> int" where
  [js_simps]: "or_num n d = (if n = 0 then d else n)"

definition nullish :: "'a option \<Rightarrow> 'a \<Rightarrow> 'a" where
  [js_simps]: "nullish v d = (case v of None \<Rightarrow> d | Some x \<Rightarrow> x)"

definition or_list :: "'a list option \<Rightarrow> 'a list" where
  [js_simps]: "or_list v = (case v of None \<Rightarrow> [] | Some xs \<Rightarrow> xs)"

lemma nullish_simps [simp]: "nullish None d = d" "nullish (Some x) d = x"
  by (simp_all add: nullish_def)

lemma or_list_simps [simp]: "or_list None = []" "or_list (Some xs) = xs"
  by (simp_all add: or_list_def)

lemma truthy_simps [simp]:
  "\<not> truthy_str None" "truthy_str (Some s) = (s \<noteq> [])"
  "\<not> truthy_num None" "truthy_num (Some n) = (n \<noteq> 0)"
  "\<not> truthy_bool None" "truthy_bool (Some b) = b"
  by (simp_all add: js_simps)

text \<open>\<open>String.prototype.trim\<close>, on the white space code units below 256: tab, the line
  terminators, space and no-break space.\<close>

definition is_js_space :: "char \<Rightarrow> bool" where
  "is_js_space c = (of_char c \<in> {9, 10, 11, 12, 13, 32, 160 :: nat})"

definition js_trim :: "string \<Rightarrow> string" where
  "js_trim s = rev (dropWhile is_js_space (rev (dropWhile is_js_space s)))"

lemma dropWhile_rev_idem:
  "dropWhile P (rev (dropWhile P (rev (dropWhile P s)))) = rev (dropWhile P (rev (dropWhile P s)))"
proof (cases "rev (dropWhile P (rev (dropWhile P s)))")
  case Nil
  show ?thesis unfolding Nil by simp
next
  case (Cons c cs)
  have "dropWhile P s \<noteq> []"
    using Cons by (metis dropWhile.simps(1) list.distinct(1) rev.simps(1))
  moreover have "hd (rev (dropWhile P (rev (dropWhile P s)))) = hd (dropWhile P s)"
  proof -
    have "dropWhile P s = rev (dropWhile P (rev (dropWhile P s))) @ rev (takeWhile P (rev (dropWhile P s)))"
      by (metis rev_append rev_rev_ident takeWhile_dropWhile_id)
    then show ?thesis using Cons by (metis hd_append list.distinct(1))
  qed
  ultimately have "\<not> P c" using Cons hd_dropWhile [of P s] by simp
  then show ?thesis unfolding Cons by simp
qed

lemma js_trim_idem [simp]: "js_trim (js_trim s) = js_trim s"
  by (simp add: js_trim_def dropWhile_rev_idem)

subsection \<open>Dictionaries in insertion order\<close>

type_synonym ('k, 'v) jsmap = "('k \<times> 'v) list"

primrec js_set :: "'k \<Rightarrow> 'v \<Rightarrow> ('k, 'v) jsmap \<Rightarrow> ('k, 'v) jsmap" where
  "js_set k v [] = [(k, v)]"
| "js_set k v (p # ps) = (if fst p = k then (k, v) # ps else p # js_set k v ps)"

definition js_del :: "'k \<Rightarrow> ('k, 'v) jsmap \<Rightarrow> ('k, 'v) jsmap" where
  "js_del k m = filter (\<lambda>p. fst p \<noteq> k) m"

abbreviation js_get :: "('k, 'v) jsmap \<Rightarrow> 'k \<Rightarrow> 'v option" where
  "js_get \<equiv> map_of"

definition js_has :: "('k, 'v) jsmap \<Rightarrow> 'k \<Rightarrow> bool" where
  "js_has m k = (map_of m k \<noteq> None)"

abbreviation js_keys :: "('k, 'v) jsmap \<Rightarrow> 'k list" where
  "js_keys m \<equiv> map fst m"

abbreviation js_values :: "('k, 'v) jsmap \<Rightarrow> 'v list" where
  "js_values m \<equiv> map snd m"

text \<open>\<open>fromPairs\<close> of lodash and \<open>new Map(pairs)\<close>.\<close>

definition js_of_pairs :: "('k \<times> 'v) list \<Rightarrow> ('k, 'v) jsmap" where
  "js_of_pairs ps = fold (\<lambda>(k, v). js_set k v) ps []"

lemma js_get_set: "js_get (js_set k v m) = (js_get m)(k \<mapsto> v)"
  by (induction m) (auto simp: fun_eq_iff)

lemma js_get_del: "js_get (js_del k m) = (js_get m)(k := None)"
  by (induction m) (auto simp: js_del_def fun_eq_iff)

lemma js_keys_set: "js_keys (js_set k v m) = (if k \<in> set (js_keys m) then js_keys m else js_keys m @ [k])"
  by (induction m) auto

lemma js_keys_del: "js_keys (js_del k m) = filter (\<lambda>k'. k' \<noteq> k) (js_keys m)"
  by (induction m) (auto simp: js_del_def)

lemma js_has_iff: "js_has m k \<longleftrightarrow> k \<in> set (js_keys m)"
  by (simp add: js_has_def map_of_eq_None_iff)

lemma set_js_keys [js_simps]:
  "set (js_keys (js_set k v m)) = insert k (set (js_keys m))"
  "set (js_keys (js_del k m)) = set (js_keys m) - {k}"
  by (auto simp: js_keys_set js_keys_del)

definition keyset :: "('k, 'v) jsmap \<Rightarrow> 'k set" where
  "keyset m = set (js_keys m)"

lemma keyset_simps [simp]:
  "keyset [] = {}" "keyset (js_set k v m) = insert k (keyset m)" "keyset (js_del k m) = keyset m - {k}"
  unfolding keyset_def set_js_keys by simp_all

lemma js_has_keyset: "js_has m k \<longleftrightarrow> k \<in> keyset m"
  by (simp add: keyset_def js_has_iff)

lemma js_get_keyset: "js_get m k = Some v \<Longrightarrow> k \<in> keyset m"
  using js_has_keyset [of m k] by (simp add: js_has_def)

lemma js_get_eq_None_iff: "js_get m k = None \<longleftrightarrow> k \<notin> set (js_keys m)"
  by (simp add: map_of_eq_None_iff)

lemma js_del_simps [simp]:
  "js_del k [] = []" "js_del k (p # ps) = (if fst p = k then js_del k ps else p # js_del k ps)"
  by (simp_all add: js_del_def)

lemma js_del_absent: "k \<notin> set (js_keys m) \<Longrightarrow> js_del k m = m"
  by (induction m) auto

lemma set_js_del: "set (js_del k m) = {p \<in> set m. fst p \<noteq> k}"
  by (auto simp: js_del_def)

lemma set_js_set_subset: "set (js_set k v m) \<subseteq> insert (k, v) (set m)"
  by (induction m) auto

text \<open>A \<open>Set\<close> is the list of its elements in insertion order.\<close>

definition set_add :: "'a \<Rightarrow> 'a list \<Rightarrow> 'a list" where
  "set_add x xs = (if x \<in> set xs then xs else xs @ [x])"

lemma set_set_add [simp]: "set (set_add x xs) = insert x (set xs)"
  by (auto simp: set_add_def)

lemma distinct_set_add: "distinct xs \<Longrightarrow> distinct (set_add x xs)"
  by (simp add: set_add_def)

subsection \<open>The interface of dictionaries\<close>

text \<open>
  What the clients of a dictionary rely on: lookup after assignment and deletion, and the order
  of the keys. The facts proved once for every such dictionary: the keys stay distinct, and a
  loop that assigns the pairs of a list ends with the last value of each key.
\<close>

locale keyed_dict =
  fixes empty :: "'m"
    and assign :: "'k \<Rightarrow> 'v \<Rightarrow> 'm \<Rightarrow> 'm"
    and delete :: "'k \<Rightarrow> 'm \<Rightarrow> 'm"
    and lookup :: "'m \<Rightarrow> 'k \<Rightarrow> 'v option"
    and keys :: "'m \<Rightarrow> 'k list"
  assumes lookup_empty: "lookup empty k = None"
    and lookup_assign: "lookup (assign k v m) = (lookup m)(k \<mapsto> v)"
    and lookup_delete: "lookup (delete k m) = (lookup m)(k := None)"
    and keys_empty: "keys empty = []"
    and keys_assign: "keys (assign k v m) = (if k \<in> set (keys m) then keys m else keys m @ [k])"
    and keys_delete: "keys (delete k m) = filter (\<lambda>k'. k' \<noteq> k) (keys m)"
begin

lemma distinct_assign: "distinct (keys m) \<Longrightarrow> distinct (keys (assign k v m))"
  by (simp add: keys_assign)

lemma distinct_delete: "distinct (keys m) \<Longrightarrow> distinct (keys (delete k m))"
  by (simp add: keys_delete)

lemma lookup_fold_assign:
  "lookup (fold (\<lambda>(k, v). assign k v) ps m) = lookup m ++ map_of (rev ps)"
  by (induction ps arbitrary: m) (auto simp: lookup_assign map_add_def fun_eq_iff split: option.splits)

lemma distinct_fold_assign:
  "distinct (keys m) \<Longrightarrow> distinct (keys (fold (\<lambda>(k, v). assign k v) ps m))"
  by (induction ps arbitrary: m) (auto simp: distinct_assign)

lemma keys_fold_assign:
  "set (keys (fold (\<lambda>(k, v). assign k v) ps m)) = set (keys m) \<union> fst ` set ps"
  by (induction ps arbitrary: m) (auto simp: keys_assign split: if_splits)

end

interpretation js: keyed_dict "[]" js_set js_del js_get js_keys
  by unfold_locales (auto simp: js_get_set js_get_del js_keys_set js_keys_del)

lemma js_get_of_pairs: "js_get (js_of_pairs ps) = map_of (rev ps)"
  by (simp add: js_of_pairs_def js.lookup_fold_assign)

lemma distinct_js_of_pairs [simp]: "distinct (js_keys (js_of_pairs ps))"
  by (simp add: js_of_pairs_def js.distinct_fold_assign)

lemma set_keys_js_of_pairs [simp]: "set (js_keys (js_of_pairs ps)) = fst ` set ps"
  using js.keys_fold_assign [of ps "[]"] by (simp add: js_of_pairs_def)

lemma js_set_append: "k \<notin> set (js_keys m) \<Longrightarrow> js_set k v m = m @ [(k, v)]"
  by (induction m) auto

lemma js_of_pairs_distinct: "distinct (map fst ps) \<Longrightarrow> js_of_pairs ps = ps"
proof (induction ps rule: rev_induct)
  case Nil
  then show ?case by (simp add: js_of_pairs_def)
next
  case (snoc p ps)
  then have "js_of_pairs (ps @ [p]) = js_set (fst p) (snd p) ps"
    by (simp add: js_of_pairs_def split_beta)
  with snoc.prems show ?case by (simp add: js_set_append)
qed

text \<open>The dictionaries of the group code are keyed by a field of their values.\<close>

definition keyed_by :: "('v \<Rightarrow> 'k) \<Rightarrow> ('k, 'v) jsmap \<Rightarrow> bool" where
  "keyed_by f m \<longleftrightarrow> distinct (js_keys m) \<and> (\<forall>(k, v) \<in> set m. f v = k)"

lemma keyed_by_of_pairs [inv_intros]: "keyed_by f (js_of_pairs (map (\<lambda>x. (f x, x)) xs))"
proof -
  have "\<forall>(k, v) \<in> set (fold (\<lambda>(k, v). js_set k v) (map (\<lambda>x. (f x, x)) xs) m). f v = k"
    if "\<forall>(k, v) \<in> set m. f v = k" for m
    using that
  proof (induction xs arbitrary: m)
    case Nil
    then show ?case by simp
  next
    case (Cons x xs)
    have "\<forall>(k, v) \<in> set (js_set (f x) x m). f v = k"
      using Cons.prems set_js_set_subset [of "f x" x m] by auto
    then show ?case using Cons.IH by simp
  qed
  from this [of "[]"] show ?thesis by (simp add: keyed_by_def js_of_pairs_def js.distinct_fold_assign)
qed

lemma keyed_by_set [inv_intros]: "keyed_by f m \<Longrightarrow> f v = k \<Longrightarrow> keyed_by f (js_set k v m)"
  using set_js_set_subset [of k v m] by (auto simp: keyed_by_def js.distinct_assign)

lemma keyed_by_del [inv_intros]: "keyed_by f m \<Longrightarrow> keyed_by f (js_del k m)"
  by (auto simp: keyed_by_def js.distinct_delete set_js_del)

lemma keyed_by_values: "keyed_by f m \<Longrightarrow> map f (js_values m) = js_keys m"
  by (induction m) (auto simp: keyed_by_def)

lemma keyed_by_keyset: "keyed_by f m \<Longrightarrow> f ` set (js_values m) = keyset m"
  unfolding keyset_def by (simp only: set_map [symmetric] keyed_by_values)

lemma keyset_of_pairs [simp]: "keyset (js_of_pairs (map (\<lambda>x. (f x, x)) xs)) = f ` set xs"
  unfolding keyset_def set_keys_js_of_pairs by (simp add: image_image)

lemma keyed_by_distinct: "keyed_by f m \<Longrightarrow> distinct (map f (js_values m))"
  by (simp only: keyed_by_values) (simp add: keyed_by_def)

lemma keyed_by_get: "keyed_by f m \<Longrightarrow> js_get m k = Some v \<Longrightarrow> f v = k"
  by (auto simp: keyed_by_def dest: map_of_SomeD)

lemma keyed_by_roundtrip: "keyed_by f m \<Longrightarrow> js_of_pairs (map (\<lambda>x. (f x, x)) (js_values m)) = m"
proof -
  assume k: "keyed_by f m"
  then have "map (\<lambda>x. (f x, x)) (js_values m) = m"
    by (induction m) (auto simp: keyed_by_def)
  with k show ?thesis by (simp add: js_of_pairs_distinct keyed_by_def)
qed

end
