(* ===== verification/Send_State.thy ===== *)
theory Send_State
  imports JS_Prelude "HOL-Library.Multiset"
begin

text \<open>
  The delivery state of a message: ts/messages/MessageSendState.std.ts (the send status of one
  recipient, its reducer, and the queries over all recipients), ts/messages/MessageReadStatus.std.ts
  and ts/MessageSeenStatus.std.ts (the read and seen status of an incoming message),
  ts/messages/migrateLegacySendAttributes.preload.ts and migrateLegacyReadStatus.std.ts (the
  migration of the fields older versions stored), ts/util/resolveStorySendStatus.std.ts (the status
  of a story).

  The three statuses share one interface, the locale \<open>ranked_status\<close>: a rank in a table of numbers
  and a function that picks the higher of two. The facts the components need (the order in which
  receipts arrive does not matter, a status never goes back) are proved there once.
\<close>

section \<open>Statuses with a rank\<close>

locale ranked_status =
  fixes rank :: "'s \<Rightarrow> nat" and higher :: "'s \<Rightarrow> 's \<Rightarrow> 's"
  assumes rank_inj: "rank a = rank b \<Longrightarrow> a = b"
    and higher_eq: "higher a b = (if rank a > rank b then a else b)"
begin

lemma rank_higher: "rank (higher a b) = max (rank a) (rank b)"
  by (simp add: higher_eq max_def)

lemma higher_commute: "higher a b = higher b a"
  by (rule rank_inj) (simp add: rank_higher max.commute)

lemma higher_assoc: "higher (higher a b) c = higher a (higher b c)"
  by (rule rank_inj) (simp add: rank_higher max.assoc)

lemma higher_idem: "higher a a = a"
  by (simp add: higher_eq)

lemma higher_ge: "rank a \<le> rank (higher a b)" "rank b \<le> rank (higher a b)"
  by (simp_all add: rank_higher)

lemma rank_fold: "rank (fold (\<lambda>b a. higher a b) bs a) = fold max (map rank bs) (rank a)"
  by (induction bs arbitrary: a) (simp_all add: rank_higher max.commute)

text \<open>The result of folding in a list of statuses depends only on which statuses it has.\<close>

lemma fold_higher_set:
  assumes "set bs = set cs"
  shows "fold (\<lambda>b a. higher a b) bs a = fold (\<lambda>b a. higher a b) cs a"
proof (rule rank_inj)
  have eq: "fold max (map rank xs) r = Max (insert r (rank ` set xs))" for xs and r :: nat
    by (simp flip: Max.set_eq_fold)
  show "rank (fold (\<lambda>b a. higher a b) bs a) = rank (fold (\<lambda>b a. higher a b) cs a)"
    using assms by (simp add: rank_fold eq)
qed

lemma fold_higher_mem: "fold (\<lambda>b a. higher a b) bs a \<in> insert a (set bs)"
  by (induction bs arbitrary: a) (auto simp: higher_eq)

lemma fold_higher_ge: "rank a \<le> rank (fold (\<lambda>b a. higher a b) bs a)"
  by (induction bs arbitrary: a) (auto intro: le_trans [OF higher_ge(1)])

end

section \<open>The send status of a recipient\<close>

datatype SendStatus = SFailed | SPending | SSent | SDelivered | SRead | SViewed | SSkipped

fun STATUS_NUMBERS :: "SendStatus \<Rightarrow> nat" where
  "STATUS_NUMBERS SFailed = 0"
| "STATUS_NUMBERS SPending = 1"
| "STATUS_NUMBERS SSent = 2"
| "STATUS_NUMBERS SDelivered = 3"
| "STATUS_NUMBERS SRead = 4"
| "STATUS_NUMBERS SViewed = 5"
| "STATUS_NUMBERS SSkipped = 6"

definition maxStatus :: "SendStatus \<Rightarrow> SendStatus \<Rightarrow> SendStatus" where
  "maxStatus a b = (if STATUS_NUMBERS a > STATUS_NUMBERS b then a else b)"

definition isPending :: "SendStatus \<Rightarrow> bool" where
  "isPending status \<longleftrightarrow> status = SPending"

definition isViewed :: "SendStatus \<Rightarrow> bool" where
  "isViewed status \<longleftrightarrow> status = SViewed"

definition isRead :: "SendStatus \<Rightarrow> bool" where
  "isRead status \<longleftrightarrow> STATUS_NUMBERS status \<ge> STATUS_NUMBERS SRead"

definition isDelivered :: "SendStatus \<Rightarrow> bool" where
  "isDelivered status \<longleftrightarrow> STATUS_NUMBERS status \<ge> STATUS_NUMBERS SDelivered"

definition isSent :: "SendStatus \<Rightarrow> bool" where
  "isSent status \<longleftrightarrow> STATUS_NUMBERS status \<ge> STATUS_NUMBERS SSent"

definition isFailed :: "SendStatus \<Rightarrow> bool" where
  "isFailed status \<longleftrightarrow> status = SFailed"

record SendState =
  isAlreadyIncludedInAnotherDistributionList :: "bool option"
  isAllowedToReplyToStory :: "bool option"
  ss_status :: SendStatus
  ss_updatedAt :: "int option"

datatype SendActionType =
  ActFailed | ManuallyRetried | ActSent | GotDeliveryReceipt | GotReadReceipt | GotViewedReceipt

record SendAction =
  sa_type :: SendActionType
  sa_updatedAt :: "int option"

fun STATE_TRANSITIONS :: "SendActionType \<Rightarrow> SendStatus" where
  "STATE_TRANSITIONS ActFailed = SFailed"
| "STATE_TRANSITIONS ManuallyRetried = SPending"
| "STATE_TRANSITIONS ActSent = SSent"
| "STATE_TRANSITIONS GotDeliveryReceipt = SDelivered"
| "STATE_TRANSITIONS GotReadReceipt = SRead"
| "STATE_TRANSITIONS GotViewedReceipt = SViewed"

definition sendStateReducer :: "SendState \<Rightarrow> SendAction \<Rightarrow> SendState" where
  "sendStateReducer state action =
    (let oldStatus = ss_status state;
         newStatus =
           (if oldStatus = SPending \<and> sa_type action = ActFailed then SFailed
            else maxStatus oldStatus (STATE_TRANSITIONS (sa_type action)))
     in if newStatus = oldStatus then state
        else state\<lparr>ss_status := newStatus, ss_updatedAt := sa_updatedAt action\<rparr>)"

interpretation send: ranked_status STATUS_NUMBERS maxStatus
proof unfold_locales
  show "a = b" if "STATUS_NUMBERS a = STATUS_NUMBERS b" for a b
    using that by (cases a; cases b) simp_all
qed (simp add: maxStatus_def)

section \<open>Queries over all recipients\<close>

type_synonym SendStateByConversationId = "(string, SendState) jsmap"

record StatusSummary =
  statuses :: "SendStatus list"
  statusesWithOnlyOneConversationId :: "(SendStatus, string) jsmap"
  sum_length :: nat

definition summarizeStep :: "string \<times> SendState \<Rightarrow> StatusSummary \<Rightarrow> StatusSummary" where
  "summarizeStep entry acc =
    (let (conversationId, st) = entry; status = ss_status st
     in if status \<notin> set (statuses acc)
        then acc\<lparr>statuses := set_add status (statuses acc),
                 statusesWithOnlyOneConversationId :=
                   js_set status conversationId (statusesWithOnlyOneConversationId acc)\<rparr>
        else acc\<lparr>statusesWithOnlyOneConversationId :=
                   js_del status (statusesWithOnlyOneConversationId acc)\<rparr>)"

definition summarizeMessageSendStatuses :: "SendStateByConversationId \<Rightarrow> StatusSummary" where
  "summarizeMessageSendStatuses m =
    (fold summarizeStep m
      \<lparr>statuses = [], statusesWithOnlyOneConversationId = [], sum_length = 0\<rparr>)
      \<lparr>sum_length := length m\<rparr>"

definition getStatusesIgnoringOurConversationId ::
    "SendStateByConversationId \<Rightarrow> string option \<Rightarrow> SendStatus list" where
  "getStatusesIgnoringOurConversationId m ourConversationId =
    (let s = summarizeMessageSendStatuses m
     in filter (\<lambda>status. \<not> (truthy_str ourConversationId \<and>
          js_get (statusesWithOnlyOneConversationId s) status = ourConversationId)) (statuses s))"

definition someSendStatus :: "SendStateByConversationId \<Rightarrow> (SendStatus \<Rightarrow> bool) \<Rightarrow> bool" where
  "someSendStatus m predicate = list_ex predicate (statuses (summarizeMessageSendStatuses m))"

definition someRecipientSendStatus ::
    "SendStateByConversationId \<Rightarrow> string option \<Rightarrow> (SendStatus \<Rightarrow> bool) \<Rightarrow> bool" where
  "someRecipientSendStatus m ourConversationId predicate =
    list_ex predicate (getStatusesIgnoringOurConversationId m ourConversationId)"

definition isNoteToSelf :: "string \<Rightarrow> string option \<Rightarrow> bool" where
  "isNoteToSelf message_conversationId ourConversationId =
    (if truthy_str ourConversationId then Some message_conversationId = ourConversationId else False)"

definition isMessageJustForMe :: "SendStateByConversationId \<Rightarrow> string option \<Rightarrow> bool" where
  "isMessageJustForMe m ourConversationId =
    (case ourConversationId of
       None \<Rightarrow> False
     | Some our \<Rightarrow> sum_length (summarizeMessageSendStatuses m) = 1 \<and> js_has m our)"

definition getHighestSuccessfulRecipientStatus ::
    "SendStateByConversationId \<Rightarrow> string option \<Rightarrow> SendStatus" where
  "getHighestSuccessfulRecipientStatus m ourConversationId =
    fold (\<lambda>status result. maxStatus result status)
      (getStatusesIgnoringOurConversationId m ourConversationId) SPending"

section \<open>Read and seen status of incoming messages\<close>

datatype ReadStatus = RUnread | RRead | RViewed

fun READ_STATUS_NUMBERS :: "ReadStatus \<Rightarrow> nat" where
  "READ_STATUS_NUMBERS RUnread = 0"
| "READ_STATUS_NUMBERS RRead = 1"
| "READ_STATUS_NUMBERS RViewed = 2"

definition maxReadStatus :: "ReadStatus \<Rightarrow> ReadStatus \<Rightarrow> ReadStatus" where
  "maxReadStatus a b = (if READ_STATUS_NUMBERS a > READ_STATUS_NUMBERS b then a else b)"

datatype SeenStatus = NotApplicable | Unseen | Seen

fun SEEN_STATUS_NUMBERS :: "SeenStatus \<Rightarrow> nat" where
  "SEEN_STATUS_NUMBERS NotApplicable = 0"
| "SEEN_STATUS_NUMBERS Unseen = 1"
| "SEEN_STATUS_NUMBERS Seen = 2"

definition maxSeenStatus :: "SeenStatus \<Rightarrow> SeenStatus \<Rightarrow> SeenStatus" where
  "maxSeenStatus a b = (if SEEN_STATUS_NUMBERS a > SEEN_STATUS_NUMBERS b then a else b)"

interpretation read: ranked_status READ_STATUS_NUMBERS maxReadStatus
proof unfold_locales
  show "a = b" if "READ_STATUS_NUMBERS a = READ_STATUS_NUMBERS b" for a b
    using that by (cases a; cases b) simp_all
qed (simp add: maxReadStatus_def)

interpretation seen: ranked_status SEEN_STATUS_NUMBERS maxSeenStatus
proof unfold_locales
  show "a = b" if "SEEN_STATUS_NUMBERS a = SEEN_STATUS_NUMBERS b" for a b
    using that by (cases a; cases b) simp_all
qed (simp add: maxSeenStatus_def)

text \<open>The legacy \<open>unread\<close> attribute is untyped; only its truthiness is read.\<close>

definition migrateLegacyReadStatus :: "ReadStatus option \<Rightarrow> bool \<Rightarrow> ReadStatus option" where
  "migrateLegacyReadStatus readStatus legacyUnread =
    (if readStatus \<noteq> None then None else Some (if legacyUnread then RUnread else RRead))"

section \<open>Migration of the legacy send attributes\<close>

text \<open>
  The legacy attributes are untyped: one that is not an array counts as empty (\<open>None\<close>), and
  elements that are not strings are skipped (\<open>LegacyOther\<close>). The conversation lookup is an
  argument, as in the source; it gives the id of the conversation it finds.
\<close>

datatype legacy_value = LegacyString string | LegacyOther

record LegacyMessage =
  lm_sendState :: "SendStateByConversationId option"
  lm_isOutgoing :: bool
  lm_sent_at :: int
  lm_errors :: "(string option \<times> string option) list option"
  lm_recipients :: "legacy_value list option"
  lm_sent_to :: "legacy_value list option"
  lm_delivered_to :: "legacy_value list option"
  lm_read_by :: "legacy_value list option"
  lm_sent :: bool

definition getConversationIdsFromErrors ::
    "(string option \<times> string option) list option \<Rightarrow> (string option \<Rightarrow> string option) \<Rightarrow> string list" where
  "getConversationIdsFromErrors errors getConversation =
    List.map_filter (\<lambda>(identifier, number).
      (case getConversation identifier of Some c \<Rightarrow> Some c | None \<Rightarrow> getConversation number))
      (or_list errors)"

definition getConversationIdsFromLegacyAttribute ::
    "legacy_value list option \<Rightarrow> (string option \<Rightarrow> string option) \<Rightarrow> string list" where
  "getConversationIdsFromLegacyAttribute rawValue getConversation =
    List.map_filter (\<lambda>v. case v of LegacyString s \<Rightarrow> getConversation (Some s) | LegacyOther \<Rightarrow> None)
      (or_list rawValue)"

definition legacyActions ::
    "LegacyMessage \<Rightarrow> (string option \<Rightarrow> string option) \<Rightarrow> string \<Rightarrow> (SendActionType \<times> string) list" where
  "legacyActions message getConversation ourConversationId =
     map (\<lambda>c. (ActFailed, c)) (getConversationIdsFromErrors (lm_errors message) getConversation) @
     map (\<lambda>c. (ActSent, c)) (getConversationIdsFromLegacyAttribute (lm_sent_to message) getConversation) @
     map (\<lambda>c. (GotDeliveryReceipt, c))
       (getConversationIdsFromLegacyAttribute (lm_delivered_to message) getConversation) @
     map (\<lambda>c. (GotReadReceipt, c))
       (getConversationIdsFromLegacyAttribute (lm_read_by message) getConversation) @
     [(if lm_sent message then ActSent else ActFailed, ourConversationId)]"

definition legacyStep :: "SendState \<Rightarrow> SendActionType \<times> string \<Rightarrow>
    SendStateByConversationId \<Rightarrow> SendStateByConversationId" where
  "legacyStep pendingSendState action m =
    (let (type, conversationId) = action;
         oldSendState = nullish (js_get m conversationId) pendingSendState
     in js_set conversationId
          (sendStateReducer oldSendState \<lparr>sa_type = type, sa_updatedAt = None\<rparr>) m)"

definition migrateLegacySendAttributes ::
    "LegacyMessage \<Rightarrow> (string option \<Rightarrow> string option) \<Rightarrow> string \<Rightarrow> SendStateByConversationId option" where
  "migrateLegacySendAttributes message getConversation ourConversationId =
    (if \<not> (or_list (lm_sendState message) = [] \<and> lm_isOutgoing message) then None
     else
       let pendingSendState =
             \<lparr>isAlreadyIncludedInAnotherDistributionList = None, isAllowedToReplyToStory = None,
              ss_status = SPending, ss_updatedAt = Some (lm_sent_at message)\<rparr>;
           start = js_of_pairs (map (\<lambda>c. (c, pendingSendState))
             (getConversationIdsFromLegacyAttribute (lm_recipients message) getConversation))
       in Some (fold (legacyStep pendingSendState)
            (legacyActions message getConversation ourConversationId) start))"

section \<open>The status of a story\<close>

datatype ResolvedSendStatus = RSFailed | RSPartiallySent | RSSending | RSSent

definition resolveStorySendStatus :: "SendStatus list \<Rightarrow> ResolvedSendStatus" where
  "resolveStorySendStatus sendStates =
    (let anyPending = list_ex isPending sendStates;
         anySent = list_ex isSent sendStates;
         anyFailed = list_ex isFailed sendStates
     in if anyPending then RSSending
        else if anyFailed \<and> anySent then RSPartiallySent
        else if \<not> anyFailed \<and> anySent then RSSent
        else if anyFailed \<and> \<not> anySent then RSFailed
        else RSSent)"

definition reduceStorySendStatus ::
    "ResolvedSendStatus \<Rightarrow> ResolvedSendStatus \<Rightarrow> ResolvedSendStatus" where
  "reduceStorySendStatus currentSendStatus nextSendStatus =
    (if currentSendStatus = RSSending \<or> nextSendStatus = RSSending then RSSending
     else if currentSendStatus = RSFailed \<or> nextSendStatus = RSFailed then RSFailed
     else if currentSendStatus = RSPartiallySent \<or> nextSendStatus = RSPartiallySent
       then RSPartiallySent
     else RSSent)"

section \<open>Lemmas about the reducer\<close>

lemma ss_status_reducer:
  "ss_status (sendStateReducer st a) =
    (if ss_status st = SPending \<and> sa_type a = ActFailed then SFailed
     else maxStatus (ss_status st) (STATE_TRANSITIONS (sa_type a)))"
  by (simp add: sendStateReducer_def Let_def)

text \<open>Without a failure, a run of the reducer takes the maximum of the statuses it is sent.\<close>

lemma ss_status_fold_reducer:
  assumes "ActFailed \<notin> sa_type ` set as"
  shows "ss_status (fold (\<lambda>a st. sendStateReducer st a) as st) =
    fold (\<lambda>b a. maxStatus a b) (map (STATE_TRANSITIONS \<circ> sa_type) as) (ss_status st)"
  using assms by (induction as arbitrary: st) (auto simp: ss_status_reducer)

section \<open>Lemmas about the summary\<close>

lemma statuses_fold:
  "set (statuses (fold summarizeStep m acc)) = set (statuses acc) \<union> (ss_status \<circ> snd) ` set m"
  by (induction m arbitrary: acc) (auto simp: summarizeStep_def Let_def split_beta)

lemma only_one_step:
  "js_get (statusesWithOnlyOneConversationId (summarizeStep e acc)) s =
    (if s = ss_status (snd e) then (if s \<in> set (statuses acc) then None else Some (fst e))
     else js_get (statusesWithOnlyOneConversationId acc) s)"
  by (auto simp: summarizeStep_def Let_def split_beta js_get_set js_get_del)

lemma only_one_fold:
  fixes m :: SendStateByConversationId
  defines "acc0 \<equiv> \<lparr>statuses = [], statusesWithOnlyOneConversationId = [], sum_length = 0\<rparr>"
  shows "js_get (statusesWithOnlyOneConversationId (fold summarizeStep m acc0)) status =
    (case filter (\<lambda>e. ss_status (snd e) = status) m of [e] \<Rightarrow> Some (fst e) | _ \<Rightarrow> None)"
proof (induction m rule: rev_induct)
  case Nil
  then show ?case by (simp add: acc0_def)
next
  case (snoc e m)
  let ?F = "filter (\<lambda>e'. ss_status (snd e') = status) m"
  have mem: "status \<in> set (statuses (fold summarizeStep m acc0)) \<longleftrightarrow> ?F \<noteq> []"
    by (auto simp: statuses_fold acc0_def filter_empty_conv)
  show ?case
  proof (cases "status = ss_status (snd e)")
    case True
    then show ?thesis
      using mem by (cases ?F) (simp_all add: only_one_step split: list.splits)
  next
    case False
    then show ?thesis using snoc by (simp add: only_one_step)
  qed
qed

lemma set_getStatusesIgnoring:
  assumes "distinct (js_keys m)" and "our \<noteq> []"
  shows "set (getStatusesIgnoringOurConversationId m (Some our)) =
    ss_status ` {st. \<exists>c. (c, st) \<in> set m \<and> c \<noteq> our}"
proof -
  let ?F = "\<lambda>s. filter (\<lambda>e. ss_status (snd e) = s) m"
  have only: "js_get (statusesWithOnlyOneConversationId (summarizeMessageSendStatuses m)) s =
      (case ?F s of [e] \<Rightarrow> Some (fst e) | _ \<Rightarrow> None)" for s
    using only_one_fold [of m s] by (simp add: summarizeMessageSendStatuses_def)
  have sts: "set (statuses (summarizeMessageSendStatuses m)) = (ss_status \<circ> snd) ` set m"
    by (simp add: summarizeMessageSendStatuses_def statuses_fold)
  have key: "(case ?F s of [e] \<Rightarrow> Some (fst e) | _ \<Rightarrow> None) = Some our \<longleftrightarrow>
      (\<forall>e \<in> set (?F s). fst e = our)" if "?F s \<noteq> []" for s
  proof
    assume "(case ?F s of [e] \<Rightarrow> Some (fst e) | _ \<Rightarrow> None) = Some our"
    then obtain e where e: "?F s = [e]" "fst e = our"
      by (auto split: list.splits)
    show "\<forall>e \<in> set (?F s). fst e = our" unfolding e(1) by (simp add: e(2))
  next
    assume all: "\<forall>e \<in> set (?F s). fst e = our"
    have "distinct (map fst (?F s))"
      using assms(1) by (simp add: distinct_map inj_on_def distinct_map_filter)
    moreover have "set (map fst (?F s)) \<subseteq> {our}"
      using all by (metis (no_types, lifting) image_subsetI list.set_map singletonI)
    ultimately have "length (?F s) \<le> card {our}"
      by (metis card_mono distinct_card finite.emptyI finite.insertI length_map)
    with that obtain e where e: "?F s = [e]" by (cases "?F s") auto
    have "fst e = our" using all unfolding e by simp
    with e show "(case ?F s of [e] \<Rightarrow> Some (fst e) | _ \<Rightarrow> None) = Some our" by simp
  qed
  show ?thesis
  proof (intro equalityI subsetI)
    fix s assume "s \<in> set (getStatusesIgnoringOurConversationId m (Some our))"
    then have s: "s \<in> (ss_status \<circ> snd) ` set m"
      and n: "(case ?F s of [e] \<Rightarrow> Some (fst e) | _ \<Rightarrow> None) \<noteq> Some our"
      using assms(2)
      by (auto simp: getStatusesIgnoringOurConversationId_def Let_def sts only)
    from s have "?F s \<noteq> []" by (auto simp: filter_empty_conv)
    with n key obtain e where "e \<in> set (?F s)" and "fst e \<noteq> our" by blast
    then have "(fst e, snd e) \<in> set m" "ss_status (snd e) = s" by simp_all
    with \<open>fst e \<noteq> our\<close> show "s \<in> ss_status ` {st. \<exists>c. (c, st) \<in> set m \<and> c \<noteq> our}"
      by blast
  next
    fix s assume "s \<in> ss_status ` {st. \<exists>c. (c, st) \<in> set m \<and> c \<noteq> our}"
    then obtain c st where e: "(c, st) \<in> set m" "c \<noteq> our" "s = ss_status st" by auto
    then have mem: "(c, st) \<in> set (?F s)" by simp
    then have ne: "?F s \<noteq> []" by (metis empty_iff list.set(1))
    have "\<not> (\<forall>e \<in> set (?F s). fst e = our)"
      using mem e(2) by (metis fst_conv)
    with key [OF ne] have "(case ?F s of [e] \<Rightarrow> Some (fst e) | _ \<Rightarrow> None) \<noteq> Some our"
      by blast
    with e show "s \<in> set (getStatusesIgnoringOurConversationId m (Some our))"
      using assms(2) by (force simp: getStatusesIgnoringOurConversationId_def Let_def sts only)
  qed
qed

section \<open>Lemmas about the migration\<close>

text \<open>One conversation sees only the actions addressed to it.\<close>

lemma js_get_fold_legacyStep:
  "js_get (fold (legacyStep p) acts m) c =
    (case filter (\<lambda>a. snd a = c) acts of
       [] \<Rightarrow> js_get m c
     | as \<Rightarrow> Some (fold (\<lambda>a st. sendStateReducer st \<lparr>sa_type = fst a, sa_updatedAt = None\<rparr>) as
         (nullish (js_get m c) p)))"
  by (induction acts arbitrary: m)
     (auto simp: legacyStep_def split_beta Let_def js_get_set split: list.splits)

lemma map_filter_snd_Pair:
  "filter (\<lambda>a. snd a = c) (map (Pair t) cs) = replicate (length (filter (\<lambda>c'. c' = c) cs)) (t, c)"
  by (induction cs) auto

lemma filter_eq_replicate:
  "filter (\<lambda>c'. c' = c) cs = [] \<longleftrightarrow> c \<notin> set cs"
  by (auto simp: filter_empty_conv)

text \<open>The status after a run depends on the statuses alone; repeating an action has the effect
  of doing it once.\<close>

definition nextStatus :: "SendActionType \<Rightarrow> SendStatus \<Rightarrow> SendStatus" where
  "nextStatus t s = (if s = SPending \<and> t = ActFailed then SFailed else maxStatus s (STATE_TRANSITIONS t))"

lemma ss_status_fold_nextStatus:
  "ss_status (fold (\<lambda>a st. sendStateReducer st \<lparr>sa_type = fst a, sa_updatedAt = u\<rparr>) as st) =
    fold nextStatus (map fst as) (ss_status st)"
  by (induction as arbitrary: st) (simp_all add: ss_status_reducer nextStatus_def)

lemma nextStatus_idem: "nextStatus t (nextStatus t s) = nextStatus t s"
  by (cases s; cases t) (simp_all add: nextStatus_def maxStatus_def)

lemma fold_nextStatus_replicate:
  "fold nextStatus (replicate n t) s = (if n = 0 then s else nextStatus t s)"
  by (induction n arbitrary: s) (simp_all add: nextStatus_idem)

definition legacy_evidence :: "bool \<Rightarrow> bool \<Rightarrow> bool \<Rightarrow> bool \<Rightarrow> SendStatus" where
  "legacy_evidence failed sent delivered read =
    (if read then SRead else if delivered then SDelivered else if sent then SSent
     else if failed then SFailed else SPending)"

lemma fold_reducer_blocks:
  fixes nf ns nd nr :: nat
  assumes "ss_status st = SPending"
  shows "ss_status (fold (\<lambda>a st. sendStateReducer st \<lparr>sa_type = fst a, sa_updatedAt = u\<rparr>)
      (replicate nf (ActFailed, c) @ replicate ns (ActSent, c) @
       replicate nd (GotDeliveryReceipt, c) @ replicate nr (GotReadReceipt, c)) st) =
    legacy_evidence (nf > 0) (ns > 0) (nd > 0) (nr > 0)"
  unfolding ss_status_fold_nextStatus map_append map_replicate fold_append comp_def fst_conv
    fold_nextStatus_replicate assms
  by (simp add: nextStatus_def maxStatus_def legacy_evidence_def)

section \<open>Properties\<close>

text \<open>
The order in which receipts arrive does not matter, and a status never goes back: two
runs of \<open>sendStateReducer\<close> that see the same kinds of actions, none of them a failure, end with
the same status, which is at least the one they started from (the claim of the comment on
\<open>SendStatus\<close>, for receipts that overtake each other).
\<close>

theorem receipts_order_irrelevant:
  assumes "sa_type ` set as = sa_type ` set bs" and "ActFailed \<notin> sa_type ` set as"
  shows "ss_status (fold (\<lambda>a st. sendStateReducer st a) as st) =
      ss_status (fold (\<lambda>a st. sendStateReducer st a) bs st)
    \<and> STATUS_NUMBERS (ss_status st) \<le>
      STATUS_NUMBERS (ss_status (fold (\<lambda>a st. sendStateReducer st a) as st))"
proof -
  have "set (map (STATE_TRANSITIONS \<circ> sa_type) as) = set (map (STATE_TRANSITIONS \<circ> sa_type) bs)"
    using assms(1) by (simp flip: image_image)
  then show ?thesis
    using assms
    by (simp add: ss_status_fold_reducer send.fold_higher_ge) (rule send.fold_higher_set, simp)
qed

theorem receipts_order_irrelevant_witness:
  "ss_status (fold (\<lambda>a st. sendStateReducer st a)
      [\<lparr>sa_type = GotReadReceipt, sa_updatedAt = Some 3\<rparr>,
       \<lparr>sa_type = ActSent, sa_updatedAt = Some 4\<rparr>]
      \<lparr>isAlreadyIncludedInAnotherDistributionList = None, isAllowedToReplyToStory = None,
       ss_status = SPending, ss_updatedAt = None\<rparr>) = SRead"
  using receipts_order_irrelevant
    [of "[\<lparr>sa_type = GotReadReceipt, sa_updatedAt = Some 3\<rparr>, \<lparr>sa_type = ActSent, sa_updatedAt = Some 4\<rparr>]"
        "[\<lparr>sa_type = ActSent, sa_updatedAt = Some 1\<rparr>, \<lparr>sa_type = GotReadReceipt, sa_updatedAt = Some 2\<rparr>]"
        "\<lparr>isAlreadyIncludedInAnotherDistributionList = None, isAllowedToReplyToStory = None,
          ss_status = SPending, ss_updatedAt = None\<rparr>"]
  by (simp add: sendStateReducer_def maxStatus_def insert_commute)

text \<open>
The summary that the queries share is exact. For a message with one state per
conversation, \<open>someRecipientSendStatus\<close> holds exactly if some other conversation's status
satisfies the predicate, and \<open>getHighestSuccessfulRecipientStatus\<close> is the highest status of
the other conversations (at least \<open>Pending\<close>), although both only look at the set of statuses
and at the statuses held by a single conversation.
\<close>

theorem recipient_queries_exact:
  assumes "distinct (js_keys m)" and "our \<noteq> []"
  shows "(someRecipientSendStatus m (Some our) P \<longleftrightarrow>
      (\<exists>e. e \<in> set m \<and> fst e \<noteq> our \<and> P (ss_status (snd e))))
    \<and> getHighestSuccessfulRecipientStatus m (Some our) =
      fold (\<lambda>e r. maxStatus r (ss_status (snd e))) (filter (\<lambda>e. fst e \<noteq> our) m) SPending"
proof -
  note others = set_getStatusesIgnoring [OF assms]
  have "getHighestSuccessfulRecipientStatus m (Some our) =
      fold (\<lambda>b a. maxStatus a b) (map (ss_status \<circ> snd) (filter (\<lambda>e. fst e \<noteq> our) m)) SPending"
    unfolding getHighestSuccessfulRecipientStatus_def
    by (rule send.fold_higher_set) (force simp: others)
  then show ?thesis
    by (auto simp: someRecipientSendStatus_def list_ex_iff others fold_map comp_def)
qed

theorem recipient_queries_exact_witness:
  "\<not> someRecipientSendStatus
      [(''me'', \<lparr>isAlreadyIncludedInAnotherDistributionList = None, isAllowedToReplyToStory = None,
         ss_status = SRead, ss_updatedAt = None\<rparr>),
       (''bob'', \<lparr>isAlreadyIncludedInAnotherDistributionList = None, isAllowedToReplyToStory = None,
         ss_status = SSent, ss_updatedAt = None\<rparr>)]
      (Some ''me'') isRead"
  using recipient_queries_exact
    [of "[(''me'', \<lparr>isAlreadyIncludedInAnotherDistributionList = None, isAllowedToReplyToStory = None,
         ss_status = SRead, ss_updatedAt = None\<rparr>),
       (''bob'', \<lparr>isAlreadyIncludedInAnotherDistributionList = None, isAllowedToReplyToStory = None,
         ss_status = SSent, ss_updatedAt = None\<rparr>)]" "''me''" isRead]
  by (auto simp: isRead_def)

text \<open>
The migration of legacy send attributes gives every conversation other than our own the
status its strongest evidence supports: \<open>Read\<close> if it is listed in \<open>read_by\<close>, else
\<open>Delivered\<close> if in \<open>delivered_to\<close>, else \<open>Sent\<close> if in \<open>sent_to\<close>, else \<open>Failed\<close> if
an error names it, else \<open>Pending\<close> if it is only a recipient, and no entry otherwise.
\<close>

theorem migrateLegacySendAttributes_status:
  assumes "migrateLegacySendAttributes message gc our = Some m" and "c \<noteq> our"
  shows "map_option ss_status (js_get m c) =
    (let failed = c \<in> set (getConversationIdsFromErrors (lm_errors message) gc);
         sent = c \<in> set (getConversationIdsFromLegacyAttribute (lm_sent_to message) gc);
         delivered = c \<in> set (getConversationIdsFromLegacyAttribute (lm_delivered_to message) gc);
         read = c \<in> set (getConversationIdsFromLegacyAttribute (lm_read_by message) gc);
         recipient = c \<in> set (getConversationIdsFromLegacyAttribute (lm_recipients message) gc)
     in if failed \<or> sent \<or> delivered \<or> read \<or> recipient
        then Some (legacy_evidence failed sent delivered read) else None)"
proof -
  define p where "p = \<lparr>isAlreadyIncludedInAnotherDistributionList = None,
    isAllowedToReplyToStory = None, ss_status = SPending, ss_updatedAt = Some (lm_sent_at message)\<rparr>"
  let ?n = "\<lambda>cs. length (filter (\<lambda>c'. c' = c) cs)"
  let ?R = "getConversationIdsFromLegacyAttribute (lm_recipients message) gc"
  let ?F = "getConversationIdsFromErrors (lm_errors message) gc"
  let ?S = "getConversationIdsFromLegacyAttribute (lm_sent_to message) gc"
  let ?D = "getConversationIdsFromLegacyAttribute (lm_delivered_to message) gc"
  let ?V = "getConversationIdsFromLegacyAttribute (lm_read_by message) gc"
  define start where "start = js_of_pairs (map (\<lambda>c. (c, p)) ?R)"
  have m: "m = fold (legacyStep p) (legacyActions message gc our) start"
    using assms(1) by (auto simp: migrateLegacySendAttributes_def Let_def p_def start_def split: if_splits)
  have start_get: "js_get start c = (if c \<in> set ?R then Some p else None)"
    by (simp add: start_def js_get_of_pairs rev_map map_of_map_restrict restrict_map_def)
  have acts: "filter (\<lambda>a. snd a = c) (legacyActions message gc our) =
      replicate (?n ?F) (ActFailed, c) @ replicate (?n ?S) (ActSent, c) @
      replicate (?n ?D) (GotDeliveryReceipt, c) @ replicate (?n ?V) (GotReadReceipt, c)"
    using assms(2) by (simp add: legacyActions_def map_filter_snd_Pair)
  have pos: "?n cs > 0 \<longleftrightarrow> c \<in> set cs" for cs
    by (simp add: filter_eq_replicate)
  have pend: "ss_status (nullish (js_get start c) p) = SPending"
    by (simp add: start_get p_def)
  let ?as = "filter (\<lambda>a. snd a = c) (legacyActions message gc our)"
  have none: "?as = [] \<longleftrightarrow> c \<notin> set ?F \<union> set ?S \<union> set ?D \<union> set ?V"
    unfolding acts by (simp add: filter_eq_replicate)
  have "map_option ss_status (js_get m c) = (if ?as = [] then map_option ss_status (js_get start c)
      else Some (legacy_evidence (c \<in> set ?F) (c \<in> set ?S) (c \<in> set ?D) (c \<in> set ?V)))"
    using fold_reducer_blocks [OF pend, of None "?n ?F" c "?n ?S" "?n ?D" "?n ?V"]
    unfolding m js_get_fold_legacyStep pos acts [symmetric] by (cases ?as) simp_all
  then show ?thesis
    unfolding none Let_def start_get by (auto simp: legacy_evidence_def p_def)
qed

theorem migrateLegacySendAttributes_status_witness:
  "\<exists>m. migrateLegacySendAttributes
      \<lparr>lm_sendState = None, lm_isOutgoing = True, lm_sent_at = 7, lm_errors = Some [(Some ''bob'', None)],
       lm_recipients = Some [LegacyString ''bob'', LegacyString ''eve''],
       lm_sent_to = Some [LegacyString ''bob'', LegacyOther], lm_delivered_to = None,
       lm_read_by = None, lm_sent = True\<rparr> (\<lambda>i. i) ''me'' = Some m
    \<and> map_option ss_status (js_get m ''bob'') = Some SSent"
proof -
  define msg where "msg = \<lparr>lm_sendState = None, lm_isOutgoing = True, lm_sent_at = 7,
       lm_errors = Some [(Some ''bob'', None)],
       lm_recipients = Some [LegacyString ''bob'', LegacyString ''eve''],
       lm_sent_to = Some [LegacyString ''bob'', LegacyOther], lm_delivered_to = None,
       lm_read_by = None, lm_sent = True\<rparr>"
  obtain m where m: "migrateLegacySendAttributes msg (\<lambda>i. i) ''me'' = Some m"
    by (simp add: migrateLegacySendAttributes_def msg_def Let_def)
  have "map_option ss_status (js_get m ''bob'') = Some SSent"
    using migrateLegacySendAttributes_status [OF m, of "''bob''"]
    by (simp add: msg_def getConversationIdsFromErrors_def getConversationIdsFromLegacyAttribute_def
        map_filter_def legacy_evidence_def Let_def)
  with m show ?thesis unfolding msg_def by blast
qed

end
