(* ===== verification/Group_Types.thy ===== *)
theory Group_Types
  imports JS_Prelude
begin

text \<open>
  The data of the Groups V2 engine: the attributes of a conversation (ts/model-types.d.ts), the
  decrypted group changes and group states (the types of ts/groups.preload.ts), the change details
  of the timeline (ts/types/groups.std.ts), and the environment the engine runs in.

  Service ids and other strings are \<open>string\<close>, roles and access levels are the numbers of
  protos/Groups.proto, byte arrays are lists of \<open>8 word\<close>. A field that the code guards against
  being missing is an \<open>option\<close> even where its declared type has no \<open>undefined\<close>.

  The environment \<open>env\<close> holds what is not code of this repository (libsignal's group cipher, the
  generated protobuf decoders, hashing and base64) and the services the engine reads (our own
  ids, the conversation controller, the clock, the attachment files, the group server).
\<close>

section \<open>Enumerations of protos/Groups.proto\<close>

type_synonym bytes = "8 word list"

abbreviation (input) ROLE_UNKNOWN :: int where "ROLE_UNKNOWN \<equiv> 0"
abbreviation (input) ROLE_DEFAULT :: int where "ROLE_DEFAULT \<equiv> 1"
abbreviation (input) ROLE_ADMINISTRATOR :: int where "ROLE_ADMINISTRATOR \<equiv> 2"

abbreviation (input) ACCESS_UNKNOWN :: int where "ACCESS_UNKNOWN \<equiv> 0"
abbreviation (input) ACCESS_ANY :: int where "ACCESS_ANY \<equiv> 1"
abbreviation (input) ACCESS_MEMBER :: int where "ACCESS_MEMBER \<equiv> 2"
abbreviation (input) ACCESS_ADMINISTRATOR :: int where "ACCESS_ADMINISTRATOR \<equiv> 3"
abbreviation (input) ACCESS_UNSATISFIABLE :: int where "ACCESS_UNSATISFIABLE \<equiv> 4"

section \<open>Members\<close>

record GroupV2MemberType =
  m_aci :: string
  m_role :: int
  m_joinedAtVersion :: int
  m_labelString :: "string option"
  m_labelEmoji :: "string option"
  m_joinedFromLink :: "bool option"
  m_approvedByAdmin :: "bool option"

record GroupV2PendingMemberType =
  p_addedByUserId :: string
  p_serviceId :: string
  p_timestamp :: int
  p_role :: int

record GroupV2BannedMemberType =
  b_serviceId :: string
  b_timestamp :: int

record GroupV2PendingAdminApprovalType =
  a_aci :: string
  a_timestamp :: int

section \<open>Conversations\<close>

record ContactAvatarType =
  av_path :: "string option"
  av_url :: "string option"
  av_hash :: "string option"
  av_version :: "int option"
  av_localKey :: "string option"
  av_size :: "int option"

record AccessControlType =
  ac_attributes :: int
  ac_members :: int
  ac_addFromInviteLink :: int
  ac_memberLabel :: "int option"

text \<open>The attributes of a conversation that the modelled code reads or writes.\<close>

record ConversationAttributesType =
  c_id :: string
  c_type :: string
  c_groupId :: "string option"
  c_groupVersion :: "int option"
  c_serviceId :: "string option"
  c_e164 :: "string option"
  c_name :: "string option"
  c_systemGivenName :: "string option"
  c_systemFamilyName :: "string option"
  c_profileKey :: "string option"
  c_profileSharing :: "bool option"
  c_removalStage :: "string option"
  c_messageRequestResponseType :: "int option"
  c_sentMessageCount :: "int option"
  c_messageCount :: "int option"
  c_messageCountBeforeMessageRequests :: "int option"
  c_addedBy :: "string option"
  c_left :: "bool option"
  c_members :: "string list option"
  c_masterKey :: "string option"
  c_secretParams :: "string option"
  c_publicParams :: "string option"
  c_revision :: "int option"
  c_accessControl :: "AccessControlType option"
  c_announcementsOnly :: "bool option"
  c_terminated :: "bool option"
  c_avatar :: "ContactAvatarType option"
  c_remoteAvatarUrl :: "string option"
  c_description :: "string option"
  c_expireTimer :: "int option"
  c_membersV2 :: "GroupV2MemberType list option"
  c_pendingMembersV2 :: "GroupV2PendingMemberType list option"
  c_pendingAdminApprovalV2 :: "GroupV2PendingAdminApprovalType list option"
  c_bannedMembersV2 :: "GroupV2BannedMemberType list option"
  c_groupInviteLinkPassword :: "string option"
  c_groupVerifiedNameHash :: "string option"
  c_temporaryMemberCount :: "int option"
  c_isTemporary :: "bool option"

section \<open>Decrypted changes and states\<close>

text \<open>\<open>GroupAttributeBlob\<close> has a \<open>oneof\<close> content that may be missing.\<close>

datatype BlobContent = BlobTitle string | BlobAvatar bytes | BlobTimer int | BlobDescription string

type_synonym GroupAttributeBlob = "BlobContent option"

text \<open>\<open>blob?.content?.title\<close> and so on.\<close>

fun blob_title :: "GroupAttributeBlob option \<Rightarrow> string option" where
  "blob_title (Some (Some (BlobTitle t))) = Some t"
| "blob_title _ = None"

fun blob_avatar :: "GroupAttributeBlob option \<Rightarrow> bytes option" where
  "blob_avatar (Some (Some (BlobAvatar a))) = Some a"
| "blob_avatar _ = None"

fun blob_timer :: "GroupAttributeBlob option \<Rightarrow> int option" where
  "blob_timer (Some (Some (BlobTimer d))) = Some d"
| "blob_timer _ = None"

fun blob_description :: "GroupAttributeBlob option \<Rightarrow> string option" where
  "blob_description (Some (Some (BlobDescription d))) = Some d"
| "blob_description _ = None"

record DecryptedMember =
  dm_userId :: string
  dm_profileKey :: "bytes option"
  dm_role :: int
  dm_joinedAtVersion :: int
  dm_labelEmoji :: "string option"
  dm_labelString :: "string option"

record PendingMemberDetails =
  pd_userId :: string
  pd_role :: "int option"

record DecryptedMemberPendingProfileKey =
  dp_addedByUserId :: string
  dp_timestamp :: int
  dp_member :: "PendingMemberDetails option"

record DecryptedMemberPendingAdminApproval =
  da_userId :: string
  da_profileKey :: "bytes option"
  da_timestamp :: int

record DecryptedModifyMemberLabelAction =
  ml_userId :: string
  ml_labelEmoji :: "string option"
  ml_labelString :: "string option"

record DecryptedAddMember =
  am_added :: "DecryptedMember option"
  am_joinFromInviteLink :: bool

record DecryptedModifyRole =
  mr_userId :: string
  mr_role :: int

record DecryptedProfileKeyAction =
  pk_profileKey :: "bytes option"
  pk_aci :: string

record DecryptedPniPromotion =
  pp_profileKey :: "bytes option"
  pp_aci :: string
  pp_pni :: string

text \<open>The one-field wrappers \<open>{ deletedUserId }\<close> and \<open>{ added }\<close> are their field; the optional
  objects \<open>{ title?: ... }\<close> are an option of an option.\<close>

record DecryptedGroupChangeActions =
  g_version :: "int option"
  g_sourceServiceId :: "string option"
  g_addMembers :: "DecryptedAddMember list option"
  g_deleteMembers :: "string list option"
  g_modifyMemberRoles :: "DecryptedModifyRole list option"
  g_modifyMemberLabels :: "DecryptedModifyMemberLabelAction list option"
  g_modifyMemberProfileKeys :: "DecryptedProfileKeyAction list option"
  g_addMembersPendingProfileKey :: "DecryptedMemberPendingProfileKey option list option"
  g_deleteMembersPendingProfileKey :: "string list option"
  g_promoteMembersPendingProfileKey :: "DecryptedProfileKeyAction list option"
  g_promoteMembersPendingPniAciProfileKey :: "DecryptedPniPromotion list option"
  g_modifyTitle :: "GroupAttributeBlob option option"
  g_modifyDisappearingMessageTimer :: "GroupAttributeBlob option option"
  g_addMembersPendingAdminApproval :: "DecryptedMemberPendingAdminApproval option list option"
  g_deleteMembersPendingAdminApproval :: "string list option"
  g_promoteMembersPendingAdminApproval :: "DecryptedModifyRole list option"
  g_modifyInviteLinkPassword :: "string option option"
  g_modifyDescription :: "GroupAttributeBlob option option"
  g_modifyAnnouncementsOnly :: "bool option"
  g_addMembersBanned :: "GroupV2BannedMemberType list option"
  g_deleteMembersBanned :: "string list option"
  g_modifyAttributesAccess :: "int option"
  g_modifyMemberAccess :: "int option"
  g_modifyAddFromInviteLinkAccess :: "int option"
  g_modifyMemberLabelAccess :: "int option"
  g_modifyAvatar :: "string option"
  g_terminateGroup :: bool

text \<open>A change with a version and no action.\<close>

definition noActions :: "int \<Rightarrow> DecryptedGroupChangeActions" where
  "noActions version =
    \<lparr>g_version = Some version, g_sourceServiceId = None, g_addMembers = None,
     g_deleteMembers = None, g_modifyMemberRoles = None, g_modifyMemberLabels = None,
     g_modifyMemberProfileKeys = None, g_addMembersPendingProfileKey = None,
     g_deleteMembersPendingProfileKey = None, g_promoteMembersPendingProfileKey = None,
     g_promoteMembersPendingPniAciProfileKey = None, g_modifyTitle = None,
     g_modifyDisappearingMessageTimer = None, g_addMembersPendingAdminApproval = None,
     g_deleteMembersPendingAdminApproval = None, g_promoteMembersPendingAdminApproval = None,
     g_modifyInviteLinkPassword = None, g_modifyDescription = None,
     g_modifyAnnouncementsOnly = None, g_addMembersBanned = None, g_deleteMembersBanned = None,
     g_modifyAttributesAccess = None, g_modifyMemberAccess = None,
     g_modifyAddFromInviteLinkAccess = None, g_modifyMemberLabelAccess = None,
     g_modifyAvatar = None, g_terminateGroup = False\<rparr>"

record DecryptedGroupState =
  s_title :: "GroupAttributeBlob option"
  s_disappearingMessagesTimer :: "GroupAttributeBlob option"
  s_accessControl :: "AccessControlType option"
  s_version :: "int option"
  s_members :: "DecryptedMember list option"
  s_membersPendingProfileKey :: "DecryptedMemberPendingProfileKey list option"
  s_membersPendingAdminApproval :: "DecryptedMemberPendingAdminApproval list option"
  s_inviteLinkPassword :: "string option"
  s_description :: "GroupAttributeBlob option"
  s_avatarUrl :: "string option"
  s_announcementsOnly :: "bool option"
  s_membersBanned :: "GroupV2BannedMemberType list option"
  s_terminated :: "bool option"

section \<open>Change details and messages\<close>

datatype GroupV2ChangeDetailType =
    AccessAttributes int
  | AccessMembers int
  | AccessInviteLink int
  | AccessMemberLabel int
  | AnnouncementsOnly bool
  | AvatarChange bool
  | TitleChange "string option"
  | DescriptionChange "bool option" "string option"
  | GroupLinkAdd int
  | GroupLinkReset
  | GroupLinkRemove
  | MemberAdd string
  | MemberAddFromInvite string "string option" "string option"
  | MemberAddFromLink string
  | MemberAddFromAdminApproval string
  | MemberPrivilege string int
  | MemberRemove string
  | PendingAddOne string
  | PendingAddMany nat
  | PendingRemoveOne string "string option"
  | PendingRemoveMany nat "string option"
  | AdminApprovalAddOne string
  | AdminApprovalRemoveOne string
  | AdminApprovalBounce string nat bool
  | SummaryDetail
  | CreateDetail
  | TerminatedDetail

section \<open>The environment\<close>

text \<open>The service id objects of libsignal, and its group cipher.\<close>

datatype ServiceIdObject = AciObject string | PniObject string

record ClientZkGroupCipher =
  zk_decryptServiceId :: "bytes \<Rightarrow> ServiceIdObject js"
  zk_decryptBlob :: "bytes \<Rightarrow> bytes js"
  zk_decryptProfileKey :: "bytes \<Rightarrow> string \<Rightarrow> bytes js"
  zk_encryptServiceId :: "string \<Rightarrow> bytes js"
  zk_encryptBlob :: "bytes \<Rightarrow> bytes js"

record LocalAttachment =
  la_path :: string
  la_localKey :: string
  la_size :: int

record env =
  e_ourAci :: "string option"
  e_ourPni :: "string option"
  ourConversation :: "ConversationAttributesType option"
  getConversation :: "string \<Rightarrow> ConversationAttributesType option"
  date_now :: int
  getClientZkGroupCipher :: "string \<Rightarrow> ClientZkGroupCipher js"
  decodeAttributeBlob :: "bytes \<Rightarrow> GroupAttributeBlob js"
  decodePresentation :: "bytes \<Rightarrow> (bytes \<times> bytes) js"
  toBase64 :: "bytes \<Rightarrow> string"
  fromBase64 :: "string \<Rightarrow> bytes"
  bytesToString :: "bytes \<Rightarrow> string"
  bytesFromString :: "string \<Rightarrow> bytes"
  sha256 :: "bytes \<Rightarrow> bytes"
  computeHash :: "bytes \<Rightarrow> string"
  getGroupAvatar :: "string \<Rightarrow> bytes js"
  deleteAttachment :: "string \<Rightarrow> unit js"
  writeNewAttachmentData :: "bytes \<Rightarrow> LocalAttachment js"

text \<open>\<open>itemStorage.user.getCheckedAci()\<close>.\<close>

definition getCheckedAci :: "env \<Rightarrow> string js" where
  "getCheckedAci E = strictAssertSome (e_ourAci E) ''Must have our own ACI''"

lemma getCheckedAci_simp [simp]: "e_ourAci E = Some u \<Longrightarrow> getCheckedAci E = Inr u"
  by (simp add: getCheckedAci_def)

text \<open>\<open>computeGroupNameHash\<close> (ts/util/Conversation.preload.ts).\<close>

definition computeGroupNameHash :: "env \<Rightarrow> string \<Rightarrow> string" where
  "computeGroupNameHash E name = toBase64 E (sha256 E (bytesFromString E name))"

text \<open>\<open>isEmpty\<close> and \<open>isNotEmpty\<close> of ts/context/Bytes.std.ts.\<close>

definition bytesIsEmpty :: "bytes option \<Rightarrow> bool" where
  "bytesIsEmpty b = (case b of None \<Rightarrow> True | Some d \<Rightarrow> length d = 0)"

definition bytesIsNotEmpty :: "bytes option \<Rightarrow> bool" where
  "bytesIsNotEmpty b = (\<not> bytesIsEmpty b)"

lemma bytesIsNotEmpty_simps [simp]:
  "\<not> bytesIsNotEmpty None" "bytesIsNotEmpty (Some b) = (b \<noteq> [])"
  "bytesIsEmpty v = (\<not> bytesIsNotEmpty v)"
  by (simp_all add: bytesIsNotEmpty_def bytesIsEmpty_def)

section \<open>A concrete environment and group\<close>

text \<open>
  An instance of the parameters on which the properties are evaluated: a cipher and encoders that
  pass bytes and characters through, no known conversations, and a group of the right shape (its
  group id has 32 bytes) without members.
\<close>

definition chars_of_bytes :: "bytes \<Rightarrow> string" where
  "chars_of_bytes = map (\<lambda>w. char_of (unat w))"

definition bytes_of_chars :: "string \<Rightarrow> bytes" where
  "bytes_of_chars = map (\<lambda>c. of_nat (of_char c))"

lemma chars_of_bytes_of_chars [simp]: "chars_of_bytes (bytes_of_chars s) = s"
proof -
  have "char_of (unat (of_nat (of_char c) :: 8 word)) = c" for c
    by (simp add: unat_of_nat)
  then show ?thesis by (simp add: chars_of_bytes_def bytes_of_chars_def comp_def)
qed

definition exampleCipher :: ClientZkGroupCipher where
  "exampleCipher =
    \<lparr>zk_decryptServiceId = (\<lambda>b. Inr (AciObject (chars_of_bytes b))),
     zk_decryptBlob = Inr, zk_decryptProfileKey = (\<lambda>b _. Inr b),
     zk_encryptServiceId = (\<lambda>s. Inr (bytes_of_chars s)), zk_encryptBlob = Inr\<rparr>"

definition exampleEnv :: env where
  "exampleEnv =
    \<lparr>e_ourAci = Some ''us'', e_ourPni = None, ourConversation = None, getConversation = (\<lambda>_. None),
     date_now = 1000, getClientZkGroupCipher = (\<lambda>_. Inr exampleCipher),
     decodeAttributeBlob = (\<lambda>b. Inr (Some (BlobAvatar b))),
     decodePresentation = (\<lambda>b. Inr (b, b)), toBase64 = chars_of_bytes, fromBase64 = bytes_of_chars,
     bytesToString = chars_of_bytes, bytesFromString = bytes_of_chars, sha256 = id,
     computeHash = chars_of_bytes, getGroupAvatar = (\<lambda>url. Inr (bytes_of_chars url)),
     deleteAttachment = (\<lambda>_. Inr ()),
     writeNewAttachmentData = (\<lambda>b. Inr \<lparr>la_path = ''file'', la_localKey = ''key'', la_size = int (length b)\<rparr>)\<rparr>"

definition exampleGroup :: ConversationAttributesType where
  "exampleGroup =
    \<lparr>c_id = ''group'', c_type = ''group'', c_groupId = Some (replicate 32 CHR ''g''),
     c_groupVersion = Some 2, c_serviceId = None, c_e164 = None, c_name = Some ''Name'',
     c_systemGivenName = None, c_systemFamilyName = None, c_profileKey = None,
     c_profileSharing = Some True, c_removalStage = None, c_messageRequestResponseType = None,
     c_sentMessageCount = None, c_messageCount = None, c_messageCountBeforeMessageRequests = None,
     c_addedBy = None, c_left = Some False, c_members = None, c_masterKey = Some ''master'',
     c_secretParams = Some ''secret'', c_publicParams = Some ''public'', c_revision = Some 5,
     c_accessControl = Some \<lparr>ac_attributes = ACCESS_MEMBER, ac_members = ACCESS_MEMBER,
       ac_addFromInviteLink = ACCESS_UNSATISFIABLE, ac_memberLabel = Some ACCESS_MEMBER\<rparr>,
     c_announcementsOnly = Some False, c_terminated = Some False, c_avatar = None,
     c_remoteAvatarUrl = None, c_description = None, c_expireTimer = None, c_membersV2 = Some [],
     c_pendingMembersV2 = Some [], c_pendingAdminApprovalV2 = Some [], c_bannedMembersV2 = Some [],
     c_groupInviteLinkPassword = None, c_groupVerifiedNameHash = None,
     c_temporaryMemberCount = None, c_isTemporary = None\<rparr>"

definition exampleMember :: "string \<Rightarrow> GroupV2MemberType" where
  "exampleMember aci =
    \<lparr>m_aci = aci, m_role = ROLE_DEFAULT, m_joinedAtVersion = 1, m_labelString = None,
     m_labelEmoji = None, m_joinedFromLink = None, m_approvedByAdmin = None\<rparr>"

named_theorems example_defs \<open>the concrete environment and group\<close>
lemmas [example_defs] = exampleCipher_def exampleEnv_def exampleGroup_def exampleMember_def

lemma exampleEnv_simps [simp]:
  "e_ourAci exampleEnv = Some ''us''" "e_ourPni exampleEnv = None" "ourConversation exampleEnv = None"
  "getConversation exampleEnv s = None"
  "getClientZkGroupCipher exampleEnv s = Inr exampleCipher"
  by (simp_all add: exampleEnv_def)

end
