(* ===== verification/Group_Membership.thy ===== *)
theory Group_Membership
  imports Group_Types
begin

text \<open>
  Questions the client asks of service ids, conversations and group memberships:
  ts/types/ServiceId.std.ts, ts/util/isValidUuid.std.ts, ts/util/whatTypeOfConversation.dom.ts,
  ts/util/groupMembershipUtils.preload.ts, ts/util/isConversationAccepted.preload.ts,
  ts/util/isInSystemContacts.std.ts, ts/groups/util.std.ts.
\<close>

section \<open>Service ids\<close>

definition in_range :: "nat \<Rightarrow> nat \<Rightarrow> char \<Rightarrow> bool" where
  "in_range a b c \<longleftrightarrow> a \<le> of_char c \<and> of_char c \<le> b"

definition is_digit :: "char \<Rightarrow> bool" where
  "is_digit = in_range 48 57"

definition is_hex :: "char \<Rightarrow> bool" where
  "is_hex c \<longleftrightarrow> is_digit c \<or> in_range 65 70 c \<or> in_range 97 102 c"

text \<open>\<open>UUID_REGEXP\<close>, one predicate for each character.\<close>

definition UUID_PATTERN :: "(char \<Rightarrow> bool) list" where
  "UUID_PATTERN =
    replicate 8 is_hex @ [\<lambda>c. c = CHR ''-''] @ replicate 4 is_hex @ [\<lambda>c. c = CHR ''-''] @
    [\<lambda>c. c \<in> set ''47''] @ replicate 3 is_hex @ [\<lambda>c. c = CHR ''-''] @
    [\<lambda>c. c \<in> set ''89ABab''] @ replicate 3 is_hex @ [\<lambda>c. c = CHR ''-''] @ replicate 12 is_hex"

definition isValidUuid :: "string \<Rightarrow> bool" where
  "isValidUuid value =
    (if value = ''00000000-0000-0000-0000-000000000000'' then True
     else list_all2 (\<lambda>p c. p c) UUID_PATTERN value)"

definition isAciString :: "string option \<Rightarrow> bool" where
  "isAciString value = (case value of None \<Rightarrow> False | Some v \<Rightarrow> isValidUuid v)"

definition isPniString :: "string option \<Rightarrow> bool" where
  "isPniString value =
    (case value of None \<Rightarrow> False | Some v \<Rightarrow> take 4 v = ''PNI:'')"

definition isServiceIdString :: "string option \<Rightarrow> bool" where
  "isServiceIdString value = (isAciString value \<or> isPniString value)"

definition toTaggedPni :: "string \<Rightarrow> string" where
  "toTaggedPni untagged = ''PNI:'' @ untagged"

text \<open>\<open>toLowerCase\<close> and \<open>replace(/^pni:/, 'PNI:')\<close>; the second changes a prefix only.\<close>

definition to_lower :: "char \<Rightarrow> char" where
  "to_lower c = (if in_range 65 90 c \<or> in_range 192 222 c \<and> of_char c \<noteq> (215 :: nat)
    then char_of (of_char c + 32 :: nat) else c)"

definition toUntaggedPni :: "string \<Rightarrow> string" where
  "toUntaggedPni pni = (if map to_lower (take 4 pni) = ''pni:'' then drop 4 pni else pni)"

definition normalizeServiceId :: "string option \<Rightarrow> string option" where
  "normalizeServiceId rawServiceId =
    (case rawServiceId of None \<Rightarrow> None
     | Some raw \<Rightarrow>
         let lower = map to_lower raw
         in Some (if take 4 lower = ''pni:'' then ''PNI:'' @ drop 4 lower else lower))"

section \<open>Kinds of conversations\<close>

abbreviation (input) ID_V1_LENGTH :: nat where "ID_V1_LENGTH \<equiv> 16"
abbreviation (input) ID_LENGTH :: nat where "ID_LENGTH \<equiv> 32"

datatype ConversationTypes = TypeMe | TypeDirect | TypeGroupV1 | TypeGroupV2

definition isDirectConversation :: "ConversationAttributesType \<Rightarrow> bool" where
  "isDirectConversation attrs \<longleftrightarrow> c_type attrs = ''private'' \<or> c_type attrs = ''direct''"

definition isMe :: "env \<Rightarrow> ConversationAttributesType \<Rightarrow> bool" where
  "isMe E attrs =
    (let us = ourConversation E;
         ourNumber = Option.bind us c_e164;
         ourServiceId = Option.bind us c_serviceId
     in truthy_str (c_e164 attrs) \<and> c_e164 attrs = ourNumber \<or>
        truthy_str (c_serviceId attrs) \<and> c_serviceId attrs = ourServiceId)"

text \<open>\<open>Bytes.fromBinary\<close> gives one byte for each code unit.\<close>

definition isGroupV1 :: "ConversationAttributesType \<Rightarrow> bool" where
  "isGroupV1 attrs =
    (if \<not> truthy_str (c_groupId attrs) then False
     else length (the (c_groupId attrs)) = ID_V1_LENGTH)"

definition isGroupV2 :: "env \<Rightarrow> ConversationAttributesType \<Rightarrow> bool" where
  "isGroupV2 E attrs =
    (if \<not> truthy_str (c_groupId attrs) then False
     else nullish (c_groupVersion attrs) 0 = 2 \<and>
          length (fromBase64 E (the (c_groupId attrs))) = ID_LENGTH)"

definition isGroup :: "env \<Rightarrow> ConversationAttributesType \<Rightarrow> bool" where
  "isGroup E attrs \<longleftrightarrow> isGroupV2 E attrs \<or> isGroupV1 attrs"

definition typeofConversation :: "env \<Rightarrow> ConversationAttributesType \<Rightarrow> ConversationTypes option" where
  "typeofConversation E attrs =
    (if isMe E attrs then Some TypeMe
     else if isDirectConversation attrs then Some TypeDirect
     else if isGroupV2 E attrs then Some TypeGroupV2
     else if isGroupV1 attrs then Some TypeGroupV1
     else None)"

section \<open>Memberships\<close>

definition isMemberPending :: "env \<Rightarrow> ConversationAttributesType \<Rightarrow> string \<Rightarrow> bool" where
  "isMemberPending E attrs serviceId =
    (if \<not> isGroupV2 E attrs then False
     else list_ex (\<lambda>item. p_serviceId item = serviceId) (or_list (c_pendingMembersV2 attrs)))"

definition isMemberBanned :: "env \<Rightarrow> ConversationAttributesType \<Rightarrow> string \<Rightarrow> bool" where
  "isMemberBanned E attrs serviceId =
    (if \<not> isGroupV2 E attrs then False
     else list_ex (\<lambda>item. b_serviceId item = serviceId) (or_list (c_bannedMembersV2 attrs)))"

definition isMemberAwaitingApproval :: "env \<Rightarrow> ConversationAttributesType \<Rightarrow> string \<Rightarrow> bool" where
  "isMemberAwaitingApproval E attrs serviceId =
    (if \<not> isGroupV2 E attrs then False
     else list_ex (\<lambda>item. a_aci item = serviceId) (or_list (c_pendingAdminApprovalV2 attrs)))"

definition isMember :: "env \<Rightarrow> ConversationAttributesType \<Rightarrow> string \<Rightarrow> bool" where
  "isMember E attrs serviceId =
    (if \<not> isGroupV2 E attrs then False
     else list_ex (\<lambda>item. m_aci item = serviceId) (or_list (c_membersV2 attrs)))"

definition isMemberRequestingToJoin :: "env \<Rightarrow> ConversationAttributesType \<Rightarrow> string \<Rightarrow> bool" where
  "isMemberRequestingToJoin E attrs serviceId =
    (if \<not> isGroupV2 E attrs then False
     else list_ex (\<lambda>item. a_aci item = serviceId) (or_list (c_pendingAdminApprovalV2 attrs)))"

definition getBannedMemberships :: "env \<Rightarrow> ConversationAttributesType \<Rightarrow> string list" where
  "getBannedMemberships E attrs =
    (if \<not> isGroupV2 E attrs then [] else map b_serviceId (or_list (c_bannedMembersV2 attrs)))"

definition getPendingMemberships :: "env \<Rightarrow> ConversationAttributesType \<Rightarrow> (string \<times> string) list" where
  "getPendingMemberships E attrs =
    (if \<not> isGroupV2 E attrs then []
     else map (\<lambda>m. (p_addedByUserId m, p_serviceId m)) (or_list (c_pendingMembersV2 attrs)))"

definition getPendingApprovalMemberships :: "env \<Rightarrow> ConversationAttributesType \<Rightarrow> string list" where
  "getPendingApprovalMemberships E attrs =
    (if \<not> isGroupV2 E attrs then [] else map a_aci (or_list (c_pendingAdminApprovalV2 attrs)))"

definition getMembersCount :: "ConversationAttributesType \<Rightarrow> int option" where
  "getMembersCount attrs =
    (if isDirectConversation attrs then None
     else
       let memberCount = (case c_membersV2 attrs of Some l \<Rightarrow> Some (length l)
             | None \<Rightarrow> map_option length (c_members attrs))
       in case memberCount of
            Some n \<Rightarrow> if n \<noteq> 0 then Some (int n) else c_temporaryMemberCount attrs
          | None \<Rightarrow> c_temporaryMemberCount attrs)"

definition areWePending :: "env \<Rightarrow> ConversationAttributesType \<Rightarrow> bool" where
  "areWePending E attrs =
    (case e_ourAci E of None \<Rightarrow> False
     | Some aci \<Rightarrow> aci \<noteq> [] \<and>
         (isMemberPending E attrs aci \<or>
          (case e_ourPni E of None \<Rightarrow> False
           | Some pni \<Rightarrow> pni \<noteq> [] \<and> \<not> isMember E attrs aci \<and> isMemberPending E attrs pni)))"

section \<open>Accepted conversations\<close>

abbreviation (input) MESSAGE_REQUEST_ACCEPT :: int where "MESSAGE_REQUEST_ACCEPT \<equiv> 1"

definition isInSystemContacts :: "ConversationAttributesType \<Rightarrow> bool" where
  "isInSystemContacts attrs \<longleftrightarrow>
    (c_type attrs = ''direct'' \<or> c_type attrs = ''private'') \<and>
    (c_name attrs \<noteq> None \<or>
     truthy_str (c_systemGivenName attrs) \<or> truthy_str (c_systemFamilyName attrs))"

definition isTrustedContact :: "env \<Rightarrow> ConversationAttributesType \<Rightarrow> bool" where
  "isTrustedContact E attrs =
    (if \<not> isDirectConversation attrs then False
     else isMe E attrs \<or> isInSystemContacts attrs \<or> truthy_bool (c_profileSharing attrs))"

definition isFromOrAddedByTrustedContact :: "env \<Rightarrow> ConversationAttributesType \<Rightarrow> bool" where
  "isFromOrAddedByTrustedContact E attrs =
    (if isDirectConversation attrs then isTrustedContact E attrs
     else if \<not> truthy_str (c_addedBy attrs) then False
     else case getConversation E (the (c_addedBy attrs)) of
            None \<Rightarrow> False
          | Some addedByContact \<Rightarrow> isTrustedContact E addedByContact)"

definition isConversationAccepted :: "env \<Rightarrow> ConversationAttributesType \<Rightarrow> bool \<Rightarrow> bool" where
  "isConversationAccepted E attrs ignoreEmptyConvo =
    (if isMe E attrs then True
     else if c_removalStage attrs \<noteq> None then False
     else if c_messageRequestResponseType attrs = Some MESSAGE_REQUEST_ACCEPT then True
     else
       let hasRequestedToJoin = truthy_str (e_ourAci E) \<and>
             list_ex (\<lambda>item. Some (a_aci item) = e_ourAci E) (or_list (c_pendingAdminApprovalV2 attrs))
       in if hasRequestedToJoin then True
          else
            let hasSentMessages = nullish (c_sentMessageCount attrs) 0 > 0;
                hasMessagesBeforeMessageRequests =
                  nullish (c_messageCountBeforeMessageRequests attrs) 0 > 0;
                hasNoMessages = (nullish (c_messageCount attrs) 0 = 0);
                isEmptyPrivateConvo =
                  hasNoMessages \<and> isDirectConversation attrs \<and> \<not> ignoreEmptyConvo;
                isEmptyWhitelistedGroup =
                  hasNoMessages \<and> \<not> isDirectConversation attrs \<and> truthy_bool (c_profileSharing attrs)
            in isFromOrAddedByTrustedContact E attrs \<or> hasSentMessages \<or>
               hasMessagesBeforeMessageRequests \<or> isEmptyPrivateConvo \<or> isEmptyWhitelistedGroup)"

section \<open>Access control\<close>

definition isAccessControlEnabled :: "int option \<Rightarrow> bool" where
  "isAccessControlEnabled accessControl \<longleftrightarrow>
    accessControl = Some ACCESS_ANY \<or> accessControl = Some ACCESS_ADMINISTRATOR"

section \<open>Lemmas\<close>

lemma length_UUID_PATTERN: "length UUID_PATTERN = 36"
  by (simp add: UUID_PATTERN_def)

lemma isValidUuid_length: "isValidUuid v \<Longrightarrow> length v = 36"
  by (auto simp: isValidUuid_def length_UUID_PATTERN dest: list_all2_lengthD split: if_splits)

lemma isValidUuid_hd: "isValidUuid v \<Longrightarrow> is_hex (hd v)"
  by (cases v) (auto simp: isValidUuid_def UUID_PATTERN_def is_hex_def is_digit_def in_range_def
      numeral_eq_Suc split: if_splits)

lemma isValidUuid_not_pni: "isValidUuid v \<Longrightarrow> take 4 v \<noteq> ''PNI:''"
  using isValidUuid_hd [of v] by (cases v) (auto simp: is_hex_def is_digit_def in_range_def)

text \<open>The ACI and PNI forms exclude each other.\<close>

lemma aci_pni_exclusive: "\<not> (isAciString v \<and> isPniString v)"
  using isValidUuid_not_pni by (auto simp: isAciString_def isPniString_def split: option.splits)

lemma to_lower_pni: "map to_lower ''PNI:'' = ''pni:''" "map to_lower ''pni:'' = ''pni:''"
  by code_simp+

lemma untagged_tagged [simp]: "toUntaggedPni (toTaggedPni u) = u"
  using to_lower_pni(1) by (simp add: toUntaggedPni_def toTaggedPni_def)

lemma to_lower_idem [simp]: "to_lower (to_lower c) = to_lower c"
  by (auto simp: to_lower_def in_range_def)

lemma to_lower_comp [simp]: "to_lower \<circ> to_lower = to_lower"
  by (simp add: fun_eq_iff)

section \<open>Properties\<close>

text \<open>
Normalization of service ids is idempotent, also through the capital tag of a PNI: a second
\<open>normalizeServiceId\<close> changes nothing.
\<close>

theorem normalizeServiceId_idem:
  "normalizeServiceId (normalizeServiceId v) = normalizeServiceId v"
proof (cases v)
  case None
  then show ?thesis by (simp add: normalizeServiceId_def)
next
  case (Some raw)
  define lower where "lower = map to_lower raw"
  have lower: "map to_lower lower = lower" by (simp add: lower_def)
  have rest: "map to_lower (drop 4 lower) = drop 4 lower"
    using lower by (simp only: drop_map [symmetric])
  let ?n = "\<lambda>l. if take 4 l = ''pni:'' then ''PNI:'' @ drop 4 l else l"
  have unf: "normalizeServiceId (Some r) = Some (?n (map to_lower r))" for r
    by (simp only: normalizeServiceId_def option.case Let_def)
  have tag: "map to_lower (''PNI:'' @ drop 4 lower) = ''pni:'' @ drop 4 lower"
    using to_lower_pni(1) rest by (simp only: map_append)
  have "?n (map to_lower (?n lower)) = ?n lower"
    using tag lower by (cases "take 4 lower = ''pni:''") simp_all
  then show ?thesis unfolding Some unf lower_def [symmetric] by simp
qed

end
