(* ===== verification/Group_Avatar.thy ===== *)
theory Group_Avatar
  imports Group_Membership
begin

text \<open>
  The avatar of a group: \<open>decryptGroupAvatar\<close> and \<open>applyNewAvatar\<close> of ts/groups.preload.ts, and the
  decryption helpers of ts/util/zkgroup.node.ts.

  \<open>applyNewAvatar\<close> builds a partial object: in \<open>avatar_update\<close> an outer \<open>None\<close> is an absent key and
  \<open>Some None\<close> the key with value \<open>undefined\<close>. Its file deletions are recorded in order. An
  exception inside the \<open>try\<close> block carries the partial result it leaves behind.
\<close>

section \<open>Decryption helpers\<close>

fun fromServiceIdObject :: "ServiceIdObject \<Rightarrow> string" where
  "fromServiceIdObject (AciObject s) = s"
| "fromServiceIdObject (PniObject s) = s"

definition decryptServiceId :: "ClientZkGroupCipher \<Rightarrow> bytes \<Rightarrow> string js" where
  "decryptServiceId cipher b =
    bindE (zk_decryptServiceId cipher b) (\<lambda>obj. Inr (fromServiceIdObject obj))"

definition decryptAci :: "ClientZkGroupCipher \<Rightarrow> bytes \<Rightarrow> string js" where
  "decryptAci cipher b =
    bindE (zk_decryptServiceId cipher b) (\<lambda>obj.
      case obj of AciObject s \<Rightarrow> Inr s | PniObject _ \<Rightarrow> throw ''userId is not ACI'')"

definition decryptPni :: "ClientZkGroupCipher \<Rightarrow> bytes \<Rightarrow> string js" where
  "decryptPni cipher b =
    bindE (zk_decryptServiceId cipher b) (\<lambda>obj.
      case obj of PniObject s \<Rightarrow> Inr s | AciObject _ \<Rightarrow> throw ''userId is not PNI'')"

definition decryptProfileKey :: "ClientZkGroupCipher \<Rightarrow> bytes \<Rightarrow> string \<Rightarrow> bytes js" where
  "decryptProfileKey cipher b serviceId = zk_decryptProfileKey cipher b serviceId"

definition decryptGroupBlob :: "ClientZkGroupCipher \<Rightarrow> bytes \<Rightarrow> bytes js" where
  "decryptGroupBlob cipher b = zk_decryptBlob cipher b"

section \<open>Avatars\<close>

definition decryptGroupAvatar :: "env \<Rightarrow> string \<Rightarrow> string \<Rightarrow> bytes js" where
  "decryptGroupAvatar E avatarKey secretParamsBase64 =
    bindE (getGroupAvatar E avatarKey) (\<lambda>ciphertext.
    bindE (getClientZkGroupCipher E secretParamsBase64) (\<lambda>cipher.
    bindE (decryptGroupBlob cipher ciphertext) (\<lambda>plaintext.
    bindE (decodeAttributeBlob E plaintext) (\<lambda>blob.
      case blob_avatar (Some blob) of
        None \<Rightarrow> throw ''decryptGroupAvatar: Returned blob had incorrect content''
      | Some avatar \<Rightarrow> Inr avatar))))"

record avatar_update =
  au_avatar :: "ContactAvatarType option option"
  au_remoteAvatarUrl :: "string option"

type_synonym avatar_progress = "avatar_update \<times> string list"

text \<open>\<open>maybeDeleteAttachmentFile\<close> inside the \<open>try\<close> block.\<close>

definition deleteFile :: "env \<Rightarrow> string option \<Rightarrow> avatar_progress \<Rightarrow>
    js_error \<times> avatar_progress + avatar_progress" where
  "deleteFile E path pr =
    (if truthy_str path then
       (case deleteAttachment E (the path) of
          Inl e \<Rightarrow> Inl (e, pr)
        | Inr _ \<Rightarrow> Inr (fst pr, snd pr @ [the path]))
     else Inr pr)"

definition avatar_path :: "ContactAvatarType option \<Rightarrow> string option" where
  "avatar_path a = Option.bind a av_path"

text \<open>The first part of the \<open>try\<close> block: the avatar has been dropped.\<close>

definition dropOldAvatar :: "env \<Rightarrow> string option \<Rightarrow> ConversationAttributesType \<Rightarrow>
    js_error \<times> avatar_progress + avatar_progress" where
  "dropOldAvatar E newAvatarUrl attributes =
    (let start = (\<lparr>au_avatar = None, au_remoteAvatarUrl = None\<rparr>, [])
     in if \<not> truthy_str newAvatarUrl \<and> c_avatar attributes \<noteq> None
        then bindE (deleteFile E (avatar_path (c_avatar attributes)) start)
               (\<lambda>pr. Inr ((fst pr)\<lparr>au_avatar := Some None\<rparr>, snd pr))
        else Inr start)"

text \<open>The second part: there is an avatar to use, and it has changed.\<close>

definition storeAvatar :: "env \<Rightarrow> string \<Rightarrow> ConversationAttributesType \<Rightarrow> bytes \<Rightarrow> avatar_progress \<Rightarrow>
    js_error \<times> avatar_progress + avatar_progress" where
  "storeAvatar E url attributes data pr =
    (let hash = computeHash E data
     in case c_avatar attributes of
          Some av \<Rightarrow>
            if av_hash av = Some hash
            then Inr ((fst pr)\<lparr>au_avatar := Some (Some (av\<lparr>av_url := Some url\<rparr>))\<rparr>, snd pr)
            else bindE (deleteFile E (av_path av) pr) (\<lambda>pr.
              (case writeNewAttachmentData E data of
                 Inl e \<Rightarrow> Inl (e, pr)
               | Inr local \<Rightarrow>
                   Inr ((fst pr)\<lparr>au_avatar := Some (Some
                     \<lparr>av_path = Some (la_path local), av_url = Some url, av_hash = Some hash,
                      av_version = Some 2, av_localKey = Some (la_localKey local),
                      av_size = Some (la_size local)\<rparr>)\<rparr>, snd pr)))
        | None \<Rightarrow>
            (case writeNewAttachmentData E data of
               Inl e \<Rightarrow> Inl (e, pr)
             | Inr local \<Rightarrow>
                 Inr ((fst pr)\<lparr>au_avatar := Some (Some
                   \<lparr>av_path = Some (la_path local), av_url = Some url, av_hash = Some hash,
                    av_version = Some 2, av_localKey = Some (la_localKey local),
                    av_size = Some (la_size local)\<rparr>)\<rparr>, snd pr)))"

definition avatarUrlToUse :: "string option \<Rightarrow> ConversationAttributesType \<Rightarrow> string option" where
  "avatarUrlToUse newAvatarUrl attributes =
    (if truthy_str newAvatarUrl then newAvatarUrl else c_remoteAvatarUrl attributes)"

definition avatarHasChanged :: "string option \<Rightarrow> ConversationAttributesType \<Rightarrow> bool" where
  "avatarHasChanged newAvatarUrl attributes \<longleftrightarrow>
    truthy_str (avatarUrlToUse newAvatarUrl attributes) \<and>
    (\<not> truthy_str (avatar_path (c_avatar attributes)) \<or>
     Option.bind (c_avatar attributes) av_url \<noteq> avatarUrlToUse newAvatarUrl attributes)"

definition tryNewAvatar :: "env \<Rightarrow> string option \<Rightarrow> ConversationAttributesType \<Rightarrow> bool \<Rightarrow>
    js_error \<times> avatar_progress + avatar_progress" where
  "tryNewAvatar E newAvatarUrl attributes forceDownload =
    bindE (dropOldAvatar E newAvatarUrl attributes) (\<lambda>pr.
      if avatarHasChanged newAvatarUrl attributes then
        let url = the (avatarUrlToUse newAvatarUrl attributes) in
        if \<not> truthy_str (c_secretParams attributes)
        then Inl (JsError None ''applyNewAvatar: group was missing secretParams!'', pr)
        else if \<not> forceDownload \<and>
            (areWePending E attributes \<or> \<not> isConversationAccepted E attributes False)
        then Inr ((fst pr)\<lparr>au_remoteAvatarUrl := Some url\<rparr>, snd pr)
        else
          (case decryptGroupAvatar E url (the (c_secretParams attributes)) of
             Inl e \<Rightarrow> Inl (e, pr)
           | Inr data \<Rightarrow> storeAvatar E url attributes data pr)
      else Inr pr)"

definition applyNewAvatar :: "env \<Rightarrow> string option \<Rightarrow> ConversationAttributesType \<Rightarrow> bool \<Rightarrow>
    avatar_progress js" where
  "applyNewAvatar E newAvatarUrl attributes forceDownload =
    (case tryNewAvatar E newAvatarUrl attributes forceDownload of
       Inr pr \<Rightarrow> Inr pr
     | Inl (e, pr) \<Rightarrow>
         (case Option.bind (au_avatar (fst pr)) avatar_path of
            Some path \<Rightarrow>
              if path \<noteq> [] then
                bindE (deleteAttachment E path)
                  (\<lambda>_. Inr ((fst pr)\<lparr>au_avatar := Some None\<rparr>, snd pr @ [path]))
              else Inr ((fst pr)\<lparr>au_avatar := Some None\<rparr>, snd pr)
          | None \<Rightarrow> Inr ((fst pr)\<lparr>au_avatar := Some None\<rparr>, snd pr)))"

text \<open>Spreading the update over the attributes: \<open>{ ...result, ...update }\<close>.\<close>

definition spreadAvatar :: "avatar_update \<Rightarrow> ConversationAttributesType \<Rightarrow> ConversationAttributesType" where
  "spreadAvatar u attributes =
    (let a = (case au_avatar u of None \<Rightarrow> attributes | Some v \<Rightarrow> attributes\<lparr>c_avatar := v\<rparr>)
     in case au_remoteAvatarUrl u of None \<Rightarrow> a | Some url \<Rightarrow> a\<lparr>c_remoteAvatarUrl := Some url\<rparr>)"

section \<open>Lemmas\<close>

text \<open>An exception never leaves a stored avatar in the partial result.\<close>

lemma deleteFile_fst: "deleteFile E p pr = Inr pr' \<Longrightarrow> fst pr' = fst pr"
  by (auto simp: deleteFile_def split: if_splits sum.splits)

lemma deleteFile_Inl: "deleteFile E p pr = Inl (e, pr') \<Longrightarrow> pr' = pr"
  by (auto simp: deleteFile_def split: if_splits sum.splits)

lemma dropOldAvatar_no_avatar:
  "dropOldAvatar E n a = Inr pr \<Longrightarrow> Option.bind (au_avatar (fst pr)) avatar_path = None"
  "dropOldAvatar E n a = Inl (e, pr) \<Longrightarrow> Option.bind (au_avatar (fst pr)) avatar_path = None"
  by (auto simp: dropOldAvatar_def Let_def bindE_eq_Inr bindE_eq_Inl avatar_path_def
      dest!: deleteFile_fst deleteFile_Inl split: if_splits)

lemma storeAvatar_Inl:
  "storeAvatar E url a d pr = Inl (e, pr') \<Longrightarrow> fst pr' = fst pr"
  by (auto simp: storeAvatar_def Let_def bindE_def
      dest: deleteFile_fst deleteFile_Inl split: option.splits if_splits sum.splits)

lemma tryNewAvatar_Inl:
  assumes "tryNewAvatar E n a f = Inl (e, pr)"
  shows "Option.bind (au_avatar (fst pr)) avatar_path = None"
proof (cases "dropOldAvatar E n a")
  case (Inl ep)
  then show ?thesis
    using assms dropOldAvatar_no_avatar(2) by (cases ep) (auto simp: tryNewAvatar_def)
next
  case (Inr pr0)
  note start = dropOldAvatar_no_avatar(1) [OF Inr]
  then show ?thesis
    using assms
    by (auto simp: tryNewAvatar_def Inr Let_def dest: storeAvatar_Inl split: if_splits sum.splits)
qed

lemma applyNewAvatar_eq:
  "applyNewAvatar E n a f =
    (case tryNewAvatar E n a f of
       Inr pr \<Rightarrow> Inr pr
     | Inl (e, pr) \<Rightarrow> Inr ((fst pr)\<lparr>au_avatar := Some None\<rparr>, snd pr))"
  by (auto simp: applyNewAvatar_def dest!: tryNewAvatar_Inl split: sum.splits option.splits)

section \<open>Properties\<close>

text \<open>
\<open>applyNewAvatar\<close> never throws: it returns what the \<open>try\<close> block computed, and whatever fails
in the download, the decryption or the file operations ends as a cleared avatar. In particular the
deletion in the \<open>catch\<close> block is never reached.
\<close>

theorem applyNewAvatar_total:
  "case applyNewAvatar E newAvatarUrl attributes forceDownload of
     Inl _ \<Rightarrow> False
   | Inr (update, deleted) \<Rightarrow>
       (case tryNewAvatar E newAvatarUrl attributes forceDownload of
          Inl (_, _, deleted') \<Rightarrow>
            c_avatar (spreadAvatar update attributes) = None \<and> deleted = deleted'
        | Inr result \<Rightarrow> (update, deleted) = result)"
  by (auto simp: applyNewAvatar_eq spreadAvatar_def Let_def split: sum.splits option.splits)

text \<open>
A dropped avatar comes back (a defect): when the group state names no avatar and none is
stored, but the attributes still hold the \<open>remoteAvatarUrl\<close> that was recorded while the group was
not yet accepted (no code clears it afterwards), \<open>applyNewAvatar\<close> downloads that old avatar and
stores it again.
\<close>

theorem dropped_avatar_comes_back:
  assumes "c_avatar attributes = None" and "c_remoteAvatarUrl attributes = Some url" and "url \<noteq> []"
    and "truthy_str (c_secretParams attributes)"
    and "\<not> areWePending E attributes" and "isConversationAccepted E attributes False"
    and "decryptGroupAvatar E url (the (c_secretParams attributes)) = Inr data"
    and "writeNewAttachmentData E data = Inr local"
  shows "\<exists>update. applyNewAvatar E None attributes False = Inr (update, [])
    \<and> Option.bind (c_avatar (spreadAvatar update attributes)) av_url = Some url
    \<and> avatar_path (c_avatar (spreadAvatar update attributes)) = Some (la_path local)"
  using assms
  by (auto simp: applyNewAvatar_eq tryNewAvatar_def dropOldAvatar_def avatarHasChanged_def
      avatarUrlToUse_def storeAvatar_def spreadAvatar_def avatar_path_def Let_def)

theorem dropped_avatar_comes_back_witness:
  "\<exists>update. applyNewAvatar exampleEnv None
      (exampleGroup\<lparr>c_remoteAvatarUrl := Some ''old''\<rparr>) False = Inr (update, [])"
proof -
  let ?g = "exampleGroup\<lparr>c_remoteAvatarUrl := Some ''old''\<rparr>"
  have "\<not> areWePending exampleEnv ?g" "isConversationAccepted exampleEnv ?g False"
    by (simp_all add: exampleGroup_def areWePending_def isMemberPending_def isConversationAccepted_def
        isMe_def isDirectConversation_def Let_def)
  moreover have "decryptGroupAvatar exampleEnv ''old'' (the (c_secretParams ?g)) =
      Inr (bytes_of_chars ''old'')"
    by (simp add: decryptGroupAvatar_def decryptGroupBlob_def example_defs)
  moreover have "writeNewAttachmentData exampleEnv (bytes_of_chars ''old'') =
      Inr \<lparr>la_path = ''file'', la_localKey = ''key'', la_size = int (length (bytes_of_chars ''old''))\<rparr>"
    by (simp add: exampleEnv_def)
  ultimately show ?thesis
    using dropped_avatar_comes_back [of ?g "''old''" exampleEnv]
    by (fastforce simp: exampleGroup_def)
qed

end
