(* ===== verification/Group_Apply.thy ===== *)
theory Group_Apply
  imports Group_Avatar
begin

text \<open>
  \<open>applyGroupChange\<close> of ts/groups.preload.ts: the new attributes of a group after the actions of one
  decrypted change. One definition for each kind of action, in the order of the code, on the local
  state of the function (\<open>apply_state\<close>: the attributes under construction, the four lookups, the new
  profile keys and the promotions from PNI to ACI); \<open>applyGroupChange\<close> composes them. A thrown error
  is a value on the left of the result.
\<close>

section \<open>The state of the function\<close>

type_synonym GroupChangeMemberType = "string \<times> bytes"

record apply_state =
  as_result :: ConversationAttributesType
  as_members :: "(string, GroupV2MemberType) jsmap"
  as_pending :: "(string, GroupV2PendingMemberType) jsmap"
  as_admin :: "(string, GroupV2PendingAdminApprovalType) jsmap"
  as_banned :: "(string, GroupV2BannedMemberType) jsmap"
  as_newProfileKeys :: "GroupChangeMemberType list"
  as_promoted :: "(string, string) jsmap"

record GroupApplyChangeResultType =
  gr_newAttributes :: ConversationAttributesType
  gr_newProfileKeys :: "GroupChangeMemberType list"
  gr_otherChanges :: bool
  gr_promotedAciToPniMap :: "(string, string) jsmap"
  gr_deletedFiles :: "string list"

definition or_role :: "int \<Rightarrow> int" where
  "or_role role = or_num role ROLE_DEFAULT"

definition hasProfileKey :: "env \<Rightarrow> string \<Rightarrow> bool" where
  "hasProfileKey E userId =
    (case getConversation E userId of None \<Rightarrow> False | Some c \<Rightarrow> c_profileKey c \<noteq> None)"

definition profileKeyHasChanged :: "env \<Rightarrow> string \<Rightarrow> bytes \<Rightarrow> bool" where
  "profileKeyHasChanged E userId newProfileKey =
    (case getConversation E userId of None \<Rightarrow> True
     | Some c \<Rightarrow>
         if \<not> truthy_str (c_profileKey c) then True
         else Some (toBase64 E newProfileKey) \<noteq> c_profileKey c)"

definition profileKeysToMap :: "env \<Rightarrow> GroupChangeMemberType list \<Rightarrow> (string, string) jsmap" where
  "profileKeysToMap E items = js_of_pairs (map (\<lambda>(aci, profileKey). (aci, toBase64 E profileKey)) items)"

definition isValidRole :: "int option \<Rightarrow> bool" where
  "isValidRole role \<longleftrightarrow> role = Some ROLE_ADMINISTRATOR \<or> role = Some ROLE_DEFAULT"

definition isValidAccess :: "int option \<Rightarrow> bool" where
  "isValidAccess access \<longleftrightarrow> access = Some ACCESS_ADMINISTRATOR \<or> access = Some ACCESS_MEMBER \<or>
    access = Some ACCESS_UNKNOWN"

definition isValidLinkAccess :: "int option \<Rightarrow> bool" where
  "isValidLinkAccess access \<longleftrightarrow> access = Some ACCESS_UNKNOWN \<or> access = Some ACCESS_ANY \<or>
    access = Some ACCESS_ADMINISTRATOR \<or> access = Some ACCESS_UNSATISFIABLE"

section \<open>Lookups and back\<close>

definition startLookups :: "ConversationAttributesType \<Rightarrow> int \<Rightarrow> apply_state" where
  "startLookups grp version =
    \<lparr>as_result = grp\<lparr>c_revision := Some version\<rparr>,
     as_members = js_of_pairs (map (\<lambda>m. (m_aci m, m)) (or_list (c_membersV2 grp))),
     as_pending = js_of_pairs (map (\<lambda>m. (p_serviceId m, m)) (or_list (c_pendingMembersV2 grp))),
     as_admin = js_of_pairs (map (\<lambda>m. (a_aci m, m)) (or_list (c_pendingAdminApprovalV2 grp))),
     as_banned = js_of_pairs (map (\<lambda>m. (b_serviceId m, m)) (or_list (c_bannedMembersV2 grp))),
     as_newProfileKeys = [], as_promoted = []\<rparr>"

definition finishLookups :: "string \<Rightarrow> apply_state \<Rightarrow> ConversationAttributesType" where
  "finishLookups ourAci s =
    (let r1 = (if ourAci \<noteq> [] then (as_result s)\<lparr>c_left := Some (\<not> js_has (as_members s) ourAci)\<rparr>
               else as_result s);
         r2 = (if truthy_bool (c_left r1) then r1\<lparr>c_addedBy := None\<rparr> else r1)
     in r2\<lparr>c_membersV2 := Some (js_values (as_members s)),
           c_pendingMembersV2 := Some (js_values (as_pending s)),
           c_pendingAdminApprovalV2 := Some (js_values (as_admin s)),
           c_bannedMembersV2 := Some (js_values (as_banned s))\<rparr>)"

section \<open>Members\<close>

definition pushProfileKey :: "string \<Rightarrow> bytes option \<Rightarrow> apply_state \<Rightarrow> apply_state" where
  "pushProfileKey aci profileKey s =
    (case profileKey of None \<Rightarrow> s
     | Some k \<Rightarrow> s\<lparr>as_newProfileKeys := as_newProfileKeys s @ [(aci, k)]\<rparr>)"

definition setAddedBy :: "string \<Rightarrow> apply_state \<Rightarrow> apply_state" where
  "setAddedBy who s = s\<lparr>as_result := (as_result s)\<lparr>c_addedBy := Some who\<rparr>\<rparr>"

definition applyAddMember :: "string \<Rightarrow> string \<Rightarrow> int \<Rightarrow> DecryptedAddMember \<Rightarrow> apply_state \<Rightarrow> apply_state js" where
  "applyAddMember ourAci sourceServiceId version addMember s =
    (case am_added addMember of
       None \<Rightarrow> throw ''applyGroupChange: addMember.added is missing''
     | Some added \<Rightarrow>
         let addedUuid = dm_userId added in
         if addedUuid = [] then throw ''applyGroupChange: addMember.added is missing''
         else if js_has (as_members s) addedUuid then Inr s
         else
           let s1 = s\<lparr>as_members := js_set addedUuid
                 \<lparr>m_aci = addedUuid, m_role = or_role (dm_role added), m_joinedAtVersion = version,
                  m_labelString = None, m_labelEmoji = None,
                  m_joinedFromLink = Some (am_joinFromInviteLink addMember),
                  m_approvedByAdmin = None\<rparr> (as_members s),
                 as_pending := js_del addedUuid (as_pending s)\<rparr>;
               s2 = (if addedUuid = ourAci \<and> js_has (as_admin s1) ourAci then setAddedBy ourAci s1
                     else if addedUuid = ourAci \<and> sourceServiceId \<noteq> []
                     then setAddedBy sourceServiceId s1 else s1);
               s3 = s2\<lparr>as_admin := js_del addedUuid (as_admin s2)\<rparr>
           in Inr (pushProfileKey addedUuid (dm_profileKey added) s3))"

definition applyDeleteMember :: "string \<Rightarrow> apply_state \<Rightarrow> apply_state js" where
  "applyDeleteMember deletedUserId s =
    (if deletedUserId = [] then throw ''applyGroupChange: deleteMember.deletedUserId is missing''
     else if js_has (as_members s) deletedUserId
     then Inr (s\<lparr>as_members := js_del deletedUserId (as_members s)\<rparr>)
     else Inr s)"

definition applyModifyMemberRole :: "DecryptedModifyRole \<Rightarrow> apply_state \<Rightarrow> apply_state js" where
  "applyModifyMemberRole act s =
    (if mr_role act = 0 \<or> mr_userId act = []
     then throw ''applyGroupChange: modifyMemberRole had a missing value''
     else case js_get (as_members s) (mr_userId act) of
         Some m \<Rightarrow> Inr (s\<lparr>as_members := js_set (mr_userId act) (m\<lparr>m_role := mr_role act\<rparr>) (as_members s)\<rparr>)
       | None \<Rightarrow> throw ''applyGroupChange: modifyMemberRole tried to modify nonexistent member'')"

definition applyModifyMemberLabel :: "DecryptedModifyMemberLabelAction \<Rightarrow> apply_state \<Rightarrow> apply_state js" where
  "applyModifyMemberLabel act s =
    (if ml_userId act = [] then throw ''applyGroupChange: modifyMemberLabel had a missing userId''
     else case js_get (as_members s) (ml_userId act) of
         Some m \<Rightarrow> Inr (s\<lparr>as_members := js_set (ml_userId act)
             (m\<lparr>m_labelEmoji := ml_labelEmoji act, m_labelString := ml_labelString act\<rparr>) (as_members s)\<rparr>)
       | None \<Rightarrow> throw ''applyGroupChange: modifyMemberLabel tried to modify nonexistent member'')"

definition applyModifyMemberProfileKey :: "env \<Rightarrow> string \<Rightarrow> DecryptedProfileKeyAction \<Rightarrow> apply_state \<Rightarrow> apply_state js" where
  "applyModifyMemberProfileKey E sourceServiceId act s =
    (if pk_profileKey act = None \<or> pk_aci act = []
     then throw ''applyGroupChange: modifyMemberProfileKey had a missing value''
     else if pk_aci act = sourceServiceId \<or> \<not> hasProfileKey E (pk_aci act)
     then Inr (pushProfileKey (pk_aci act) (pk_profileKey act) s)
     else Inr s)"

section \<open>Invited members\<close>

definition applyAddPending :: "DecryptedMemberPendingProfileKey option \<Rightarrow> apply_state \<Rightarrow> apply_state js" where
  "applyAddPending added s =
    (case (added, Option.bind added dp_member) of
       (Some a, Some member) \<Rightarrow>
         let addedUserId = pd_userId member in
         if addedUserId = [] then throw ''applyGroupChange: addMemberPendingProfileKey had a missing value''
         else if isAciString (Some addedUserId) \<and> js_has (as_members s) addedUserId then Inr s
         else if js_has (as_pending s) addedUserId then Inr s
         else Inr (s\<lparr>as_pending := js_set addedUserId
             \<lparr>p_addedByUserId = dp_addedByUserId a, p_serviceId = addedUserId,
              p_timestamp = dp_timestamp a, p_role = or_role (nullish (pd_role member) 0)\<rparr>
             (as_pending s)\<rparr>)
     | _ \<Rightarrow> throw ''applyGroupChange: addMemberPendingProfileKey had a missing value'')"

definition applyDeletePending :: "string \<Rightarrow> apply_state \<Rightarrow> apply_state js" where
  "applyDeletePending deletedUserId s =
    (if deletedUserId = []
     then throw ''applyGroupChange: deleteMemberPendingProfileKey.deletedUserId is null!''
     else if js_has (as_pending s) deletedUserId
     then Inr (s\<lparr>as_pending := js_del deletedUserId (as_pending s)\<rparr>)
     else Inr s)"

text \<open>The record of a member that joins from the pending list, with the role of its invitation.\<close>

definition promotedMember :: "string \<Rightarrow> int \<Rightarrow> GroupV2PendingMemberType option \<Rightarrow> GroupV2MemberType" where
  "promotedMember aci version previousRecord =
    \<lparr>m_aci = aci,
     m_role = (case previousRecord of None \<Rightarrow> ROLE_DEFAULT | Some p \<Rightarrow> or_role (p_role p)),
     m_joinedAtVersion = version, m_labelString = None, m_labelEmoji = None,
     m_joinedFromLink = None, m_approvedByAdmin = None\<rparr>"

definition applyPromotePending :: "int \<Rightarrow> DecryptedProfileKeyAction \<Rightarrow> apply_state \<Rightarrow> apply_state js" where
  "applyPromotePending version act s =
    (let aci = pk_aci act in
     if pk_profileKey act = None \<or> aci = []
     then throw ''applyGroupChange: promoteMemberPendingProfileKey had a missing value''
     else
       let previousRecord = js_get (as_pending s) aci in
       if \<not> js_has (as_pending s) aci then Inr s
       else
         let s1 = s\<lparr>as_pending := js_del aci (as_pending s)\<rparr> in
         if js_has (as_members s1) aci then Inr s1
         else Inr (pushProfileKey aci (pk_profileKey act)
           (s1\<lparr>as_members := js_set aci (promotedMember aci version previousRecord) (as_members s1)\<rparr>)))"

definition applyPromotePendingPni :: "int \<Rightarrow> DecryptedPniPromotion \<Rightarrow> apply_state \<Rightarrow> apply_state js" where
  "applyPromotePendingPni version act s =
    (let aci = pp_aci act; pni = pp_pni act in
     if pp_profileKey act = None \<or> aci = [] \<or> pni = []
     then throw ''applyGroupChange: promotePendingMember had a missing value''
     else
       let previousRecord = js_get (as_pending s) pni;
           s1 = s\<lparr>as_promoted := js_set aci pni (as_promoted s), as_pending := js_del pni (as_pending s)\<rparr>
       in if js_has (as_members s1) aci then Inr s1
          else Inr (pushProfileKey aci (pp_profileKey act)
            (s1\<lparr>as_members := js_set aci (promotedMember aci version previousRecord) (as_members s1)\<rparr>)))"

section \<open>Attributes\<close>

definition mapResult :: "(ConversationAttributesType \<Rightarrow> ConversationAttributesType) \<Rightarrow> apply_state \<Rightarrow> apply_state" where
  "mapResult f s = s\<lparr>as_result := f (as_result s)\<rparr>"

definition applyModifyTitle :: "env \<Rightarrow> string \<Rightarrow> string \<Rightarrow> GroupAttributeBlob option option \<Rightarrow>
    ConversationAttributesType \<Rightarrow> ConversationAttributesType" where
  "applyModifyTitle E ourAci sourceServiceId modifyTitle result =
    (case modifyTitle of None \<Rightarrow> result
     | Some title \<Rightarrow>
         (case blob_title title of
            Some t \<Rightarrow>
              let r = result\<lparr>c_name := Some (js_trim t)\<rparr>
              in if ourAci = sourceServiceId
                 then r\<lparr>c_groupVerifiedNameHash := Some (computeGroupNameHash E (js_trim t))\<rparr>
                 else r
          | None \<Rightarrow> result\<lparr>c_name := None\<rparr>))"

definition applyModifyTimer :: "GroupAttributeBlob option option \<Rightarrow>
    ConversationAttributesType \<Rightarrow> ConversationAttributesType" where
  "applyModifyTimer modifyTimer result =
    (case modifyTimer of None \<Rightarrow> result
     | Some timer \<Rightarrow> result\<lparr>c_expireTimer := blob_timer timer\<rparr>)"

definition defaultAccessControl :: AccessControlType where
  "defaultAccessControl =
    \<lparr>ac_attributes = ACCESS_MEMBER, ac_members = ACCESS_MEMBER,
     ac_addFromInviteLink = ACCESS_UNSATISFIABLE, ac_memberLabel = Some ACCESS_MEMBER\<rparr>"

definition validOr :: "(int option \<Rightarrow> bool) \<Rightarrow> int \<Rightarrow> int \<Rightarrow> int" where
  "validOr valid d access = (if valid (Some access) then access else d)"

definition applyAccessControl :: "DecryptedGroupChangeActions \<Rightarrow>
    ConversationAttributesType \<Rightarrow> ConversationAttributesType" where
  "applyAccessControl actions result =
    (let ac0 = nullish (c_accessControl result) defaultAccessControl;
         ac1 = (case g_modifyAttributesAccess actions of None \<Rightarrow> ac0
                | Some a \<Rightarrow> ac0\<lparr>ac_attributes := validOr isValidAccess ACCESS_MEMBER a\<rparr>);
         ac2 = (case g_modifyMemberAccess actions of None \<Rightarrow> ac1
                | Some a \<Rightarrow> ac1\<lparr>ac_members := validOr isValidAccess ACCESS_MEMBER a\<rparr>);
         ac3 = (case g_modifyAddFromInviteLinkAccess actions of None \<Rightarrow> ac2
                | Some a \<Rightarrow> ac2\<lparr>ac_addFromInviteLink := validOr isValidLinkAccess ACCESS_UNSATISFIABLE a\<rparr>);
         ac4 = (case g_modifyMemberLabelAccess actions of None \<Rightarrow> ac3
                | Some a \<Rightarrow> ac3\<lparr>ac_memberLabel := Some (validOr isValidAccess ACCESS_MEMBER a)\<rparr>)
     in result\<lparr>c_accessControl := Some ac4\<rparr>)"

definition applyModifyInviteLinkPassword :: "string option option \<Rightarrow>
    ConversationAttributesType \<Rightarrow> ConversationAttributesType" where
  "applyModifyInviteLinkPassword modifyPassword result =
    (case modifyPassword of None \<Rightarrow> result
     | Some p \<Rightarrow> result\<lparr>c_groupInviteLinkPassword := (if truthy_str p then p else None)\<rparr>)"

definition applyModifyDescription :: "GroupAttributeBlob option option \<Rightarrow>
    ConversationAttributesType \<Rightarrow> ConversationAttributesType" where
  "applyModifyDescription modifyDescription result =
    (case modifyDescription of None \<Rightarrow> result
     | Some d \<Rightarrow> result\<lparr>c_description := map_option js_trim (blob_description d)\<rparr>)"

definition applyFlags :: "DecryptedGroupChangeActions \<Rightarrow>
    ConversationAttributesType \<Rightarrow> ConversationAttributesType" where
  "applyFlags actions result =
    (let r = (case g_modifyAnnouncementsOnly actions of None \<Rightarrow> result
              | Some b \<Rightarrow> result\<lparr>c_announcementsOnly := Some b\<rparr>)
     in if g_terminateGroup actions then r\<lparr>c_terminated := Some True\<rparr> else r)"

section \<open>Members awaiting approval, banned members\<close>

definition applyAddAdminApproval :: "DecryptedMemberPendingAdminApproval option \<Rightarrow> apply_state \<Rightarrow> apply_state js" where
  "applyAddAdminApproval added s =
    (case added of
       None \<Rightarrow> throw ''applyGroupChange: addMemberPendingAdminApproval had a missing value''
     | Some a \<Rightarrow>
         let userId = da_userId a in
         if js_has (as_members s) userId then Inr s
         else if js_has (as_pending s) userId then Inr s
         else if js_has (as_admin s) userId then Inr s
         else Inr (pushProfileKey userId (da_profileKey a)
           (s\<lparr>as_admin := js_set userId \<lparr>a_aci = userId, a_timestamp = da_timestamp a\<rparr> (as_admin s)\<rparr>)))"

definition applyDeleteAdminApproval :: "string \<Rightarrow> apply_state \<Rightarrow> apply_state js" where
  "applyDeleteAdminApproval deletedUserId s =
    (if deletedUserId = []
     then throw ''applyGroupChange: deleteMemberPendingAdminApproval.deletedUserId is null!''
     else if js_has (as_admin s) deletedUserId
     then Inr (s\<lparr>as_admin := js_del deletedUserId (as_admin s)\<rparr>)
     else Inr s)"

text \<open>As in the code, the branch for an invited user deletes from \<open>pendingAdminApprovalMembers\<close>
  again, and not from \<open>pendingMembers\<close>.\<close>

definition applyPromoteAdminApproval :: "string \<Rightarrow> int \<Rightarrow> DecryptedModifyRole \<Rightarrow> apply_state \<Rightarrow> apply_state js" where
  "applyPromoteAdminApproval ourAci version act s =
    (let userId = mr_userId act in
     if userId = [] then throw ''applyGroupChange: promoteMemberPendingAdminApproval had a missing value''
     else if \<not> js_has (as_admin s) userId then Inr s
     else
       let s1 = s\<lparr>as_admin := js_del userId (as_admin s)\<rparr>;
           s2 = (if js_has (as_pending s1) userId then s1\<lparr>as_admin := js_del userId (as_admin s1)\<rparr> else s1)
       in if js_has (as_members s2) userId then Inr s2
          else
            let s3 = (if userId = ourAci then setAddedBy ourAci s2 else s2)
            in Inr (s3\<lparr>as_members := js_set userId
                 \<lparr>m_aci = userId, m_role = or_role (mr_role act), m_joinedAtVersion = version,
                  m_labelString = None, m_labelEmoji = None, m_joinedFromLink = None,
                  m_approvedByAdmin = Some True\<rparr> (as_members s3)\<rparr>))"

definition applyAddBanned :: "GroupV2BannedMemberType \<Rightarrow> apply_state \<Rightarrow> apply_state" where
  "applyAddBanned member s =
    (if js_has (as_banned s) (b_serviceId member) then s
     else s\<lparr>as_banned := js_set (b_serviceId member) member (as_banned s)\<rparr>)"

definition applyDeleteBanned :: "string \<Rightarrow> apply_state \<Rightarrow> apply_state" where
  "applyDeleteBanned serviceId s =
    (if \<not> js_has (as_banned s) serviceId then s
     else s\<lparr>as_banned := js_del serviceId (as_banned s)\<rparr>)"

section \<open>The whole function\<close>

definition applyMemberActions :: "env \<Rightarrow> string \<Rightarrow> string \<Rightarrow> int \<Rightarrow> DecryptedGroupChangeActions \<Rightarrow>
    apply_state \<Rightarrow> apply_state js" where
  "applyMemberActions E ourAci sourceServiceId version actions s =
    bindE (forE (applyAddMember ourAci sourceServiceId version) (or_list (g_addMembers actions)) s) (\<lambda>s.
    bindE (forE applyDeleteMember (or_list (g_deleteMembers actions)) s) (\<lambda>s.
    bindE (forE applyModifyMemberRole (or_list (g_modifyMemberRoles actions)) s) (\<lambda>s.
    bindE (forE applyModifyMemberLabel (or_list (g_modifyMemberLabels actions)) s) (\<lambda>s.
    bindE (forE (applyModifyMemberProfileKey E sourceServiceId) (or_list (g_modifyMemberProfileKeys actions)) s) (\<lambda>s.
    bindE (forE applyAddPending (or_list (g_addMembersPendingProfileKey actions)) s) (\<lambda>s.
    bindE (forE applyDeletePending (or_list (g_deleteMembersPendingProfileKey actions)) s) (\<lambda>s.
    bindE (forE (applyPromotePending version) (or_list (g_promoteMembersPendingProfileKey actions)) s) (\<lambda>s.
    forE (applyPromotePendingPni version) (or_list (g_promoteMembersPendingPniAciProfileKey actions)) s))))))))"

definition applyAttributeActions :: "env \<Rightarrow> string \<Rightarrow> string \<Rightarrow> DecryptedGroupChangeActions \<Rightarrow>
    apply_state \<Rightarrow> (apply_state \<times> string list) js" where
  "applyAttributeActions E ourAci sourceServiceId actions s =
    (let s = mapResult (applyModifyTitle E ourAci sourceServiceId (g_modifyTitle actions)) s
     in bindE (case g_modifyAvatar actions of
            None \<Rightarrow> Inr (s, [])
          | Some avatar \<Rightarrow>
              bindE (applyNewAvatar E (Some avatar) (as_result s) False) (\<lambda>(update, deleted).
                Inr (mapResult (spreadAvatar update) s, deleted)))
        (\<lambda>(s, deleted).
           Inr (mapResult (applyAccessControl actions)
             (mapResult (applyModifyTimer (g_modifyDisappearingMessageTimer actions)) s), deleted)))"

definition applyApprovalActions :: "string \<Rightarrow> int \<Rightarrow> DecryptedGroupChangeActions \<Rightarrow> apply_state \<Rightarrow> apply_state js" where
  "applyApprovalActions ourAci version actions s =
    bindE (forE applyAddAdminApproval (or_list (g_addMembersPendingAdminApproval actions)) s) (\<lambda>s.
    bindE (forE applyDeleteAdminApproval (or_list (g_deleteMembersPendingAdminApproval actions)) s) (\<lambda>s.
    forE (applyPromoteAdminApproval ourAci version) (or_list (g_promoteMembersPendingAdminApproval actions)) s))"

definition applyLastActions :: "DecryptedGroupChangeActions \<Rightarrow> apply_state \<Rightarrow> apply_state" where
  "applyLastActions actions s =
    fold applyDeleteBanned (or_list (g_deleteMembersBanned actions))
     (fold applyAddBanned (or_list (g_addMembersBanned actions))
      (mapResult (applyFlags actions)
       (mapResult (applyModifyDescription (g_modifyDescription actions))
        (mapResult (applyModifyInviteLinkPassword (g_modifyInviteLinkPassword actions)) s))))"

definition applyGroupChange :: "env \<Rightarrow> DecryptedGroupChangeActions \<Rightarrow> ConversationAttributesType \<Rightarrow> string \<Rightarrow>
    GroupApplyChangeResultType js" where
  "applyGroupChange E actions grp sourceServiceId =
    bindE (getCheckedAci E) (\<lambda>ourAci.
    let version = nullish (g_version actions) 0;
        start = startLookups grp version
    in bindE (applyMemberActions E ourAci sourceServiceId version actions start) (\<lambda>s1.
       bindE (applyAttributeActions E ourAci sourceServiceId actions s1) (\<lambda>(s2, deleted).
       bindE (applyApprovalActions ourAci version actions s2) (\<lambda>s3.
       let s4 = applyLastActions actions s3
       in Inr \<lparr>gr_newAttributes = finishLookups ourAci s4, gr_newProfileKeys = as_newProfileKeys s4,
               gr_otherChanges = False, gr_promotedAciToPniMap = as_promoted s4,
               gr_deletedFiles = deleted\<rparr>))))"

section \<open>Every step keeps the lookups keyed\<close>

definition lookups_ok :: "apply_state \<Rightarrow> bool" where
  "lookups_ok s \<longleftrightarrow> keyed_by m_aci (as_members s) \<and> keyed_by p_serviceId (as_pending s) \<and>
    keyed_by a_aci (as_admin s) \<and> keyed_by b_serviceId (as_banned s)"

lemma as_pushProfileKey [simp]:
  "as_members (pushProfileKey a k s) = as_members s" "as_pending (pushProfileKey a k s) = as_pending s"
  "as_admin (pushProfileKey a k s) = as_admin s" "as_banned (pushProfileKey a k s) = as_banned s"
  "as_result (pushProfileKey a k s) = as_result s" "as_promoted (pushProfileKey a k s) = as_promoted s"
  by (simp_all add: pushProfileKey_def split: option.splits)

lemma as_setAddedBy [simp]:
  "as_members (setAddedBy w s) = as_members s" "as_pending (setAddedBy w s) = as_pending s"
  "as_admin (setAddedBy w s) = as_admin s" "as_banned (setAddedBy w s) = as_banned s"
  by (simp_all add: setAddedBy_def)

lemma as_mapResult [simp]:
  "as_members (mapResult f s) = as_members s" "as_pending (mapResult f s) = as_pending s"
  "as_admin (mapResult f s) = as_admin s" "as_banned (mapResult f s) = as_banned s"
  "as_result (mapResult f s) = f (as_result s)" "as_promoted (mapResult f s) = as_promoted s"
  "as_newProfileKeys (mapResult f s) = as_newProfileKeys s"
  by (simp_all add: mapResult_def)

lemma keyed_by_set_same:
  "keyed_by f m \<Longrightarrow> js_get m k = Some v \<Longrightarrow> f v' = f v \<Longrightarrow> keyed_by f (js_set k v' m)"
  using keyed_by_get [of f m k v] keyed_by_set [of f m v' k] by simp

lemmas member_steps =
  applyAddMember_def applyDeleteMember_def applyModifyMemberRole_def applyModifyMemberLabel_def
  applyModifyMemberProfileKey_def
lemmas pending_steps =
  applyAddPending_def applyDeletePending_def applyPromotePending_def applyPromotePendingPni_def
  promotedMember_def
lemmas approval_steps =
  applyAddAdminApproval_def applyDeleteAdminApproval_def applyPromoteAdminApproval_def

lemma lookups_ok_member_steps [inv_intros]:
  "applyAddMember u src v a s = Inr s' \<Longrightarrow> lookups_ok s \<Longrightarrow> lookups_ok s'"
  "applyDeleteMember d s = Inr s' \<Longrightarrow> lookups_ok s \<Longrightarrow> lookups_ok s'"
  "applyModifyMemberRole r s = Inr s' \<Longrightarrow> lookups_ok s \<Longrightarrow> lookups_ok s'"
  "applyModifyMemberLabel l s = Inr s' \<Longrightarrow> lookups_ok s \<Longrightarrow> lookups_ok s'"
  "applyModifyMemberProfileKey E src k s = Inr s' \<Longrightarrow> lookups_ok s \<Longrightarrow> lookups_ok s'"
proof -
  show "applyModifyMemberRole r s = Inr s' \<Longrightarrow> lookups_ok s \<Longrightarrow> lookups_ok s'"
    by (auto simp: lookups_ok_def member_steps split: option.splits if_splits)
      (erule (1) keyed_by_set_same, simp)
  show "applyModifyMemberLabel l s = Inr s' \<Longrightarrow> lookups_ok s \<Longrightarrow> lookups_ok s'"
    by (auto simp: lookups_ok_def member_steps split: option.splits if_splits)
      (erule (1) keyed_by_set_same, simp)
qed (auto simp: lookups_ok_def member_steps Let_def intro!: keyed_by_set keyed_by_del
      split: option.splits if_splits)

lemma lookups_ok_pending_steps [inv_intros]:
  "applyAddPending p s = Inr s' \<Longrightarrow> lookups_ok s \<Longrightarrow> lookups_ok s'"
  "applyDeletePending d s = Inr s' \<Longrightarrow> lookups_ok s \<Longrightarrow> lookups_ok s'"
  "applyPromotePending v k s = Inr s' \<Longrightarrow> lookups_ok s \<Longrightarrow> lookups_ok s'"
  "applyPromotePendingPni v q s = Inr s' \<Longrightarrow> lookups_ok s \<Longrightarrow> lookups_ok s'"
  by (auto simp: lookups_ok_def pending_steps Let_def intro!: keyed_by_set keyed_by_del
      split: option.splits if_splits)

lemma lookups_ok_approval_steps [inv_intros]:
  "applyAddAdminApproval a s = Inr s' \<Longrightarrow> lookups_ok s \<Longrightarrow> lookups_ok s'"
  "applyDeleteAdminApproval d s = Inr s' \<Longrightarrow> lookups_ok s \<Longrightarrow> lookups_ok s'"
  "applyPromoteAdminApproval u v r s = Inr s' \<Longrightarrow> lookups_ok s \<Longrightarrow> lookups_ok s'"
  by (auto simp: lookups_ok_def approval_steps Let_def intro!: keyed_by_set keyed_by_del
      split: option.splits if_splits)

lemma lookups_ok_banned_steps [inv_intros]:
  "lookups_ok s \<Longrightarrow> lookups_ok (applyAddBanned b s)"
  "lookups_ok s \<Longrightarrow> lookups_ok (applyDeleteBanned d s)"
  by (auto simp: lookups_ok_def applyAddBanned_def applyDeleteBanned_def
      intro!: keyed_by_set keyed_by_del)

lemma lookups_ok_mapResult [simp]: "lookups_ok (mapResult f s) = lookups_ok s"
  by (simp add: lookups_ok_def)

lemma lookups_ok_start [simp]: "lookups_ok (startLookups grp v)"
  by (simp add: lookups_ok_def startLookups_def keyed_by_of_pairs)

lemma lookups_ok_fold:
  assumes "lookups_ok s" and "\<And>x s. lookups_ok s \<Longrightarrow> lookups_ok (f x s)"
  shows "lookups_ok (fold f xs s)"
  using assms by (induction xs arbitrary: s) simp_all

text \<open>What every step keeps, the phases keep.\<close>

lemma applyMemberActions_loops:
  assumes "applyMemberActions E u src v acts s = Inr t"
  obtains s1 s2 s3 s4 s5 s6 s7 s8 where
    "forE (applyAddMember u src v) (or_list (g_addMembers acts)) s = Inr s1"
    "forE applyDeleteMember (or_list (g_deleteMembers acts)) s1 = Inr s2"
    "forE applyModifyMemberRole (or_list (g_modifyMemberRoles acts)) s2 = Inr s3"
    "forE applyModifyMemberLabel (or_list (g_modifyMemberLabels acts)) s3 = Inr s4"
    "forE (applyModifyMemberProfileKey E src) (or_list (g_modifyMemberProfileKeys acts)) s4 = Inr s5"
    "forE applyAddPending (or_list (g_addMembersPendingProfileKey acts)) s5 = Inr s6"
    "forE applyDeletePending (or_list (g_deleteMembersPendingProfileKey acts)) s6 = Inr s7"
    "forE (applyPromotePending v) (or_list (g_promoteMembersPendingProfileKey acts)) s7 = Inr s8"
    "forE (applyPromotePendingPni v) (or_list (g_promoteMembersPendingPniAciProfileKey acts)) s8 = Inr t"
  using assms by (auto simp: applyMemberActions_def bindE_eq_Inr)

lemma applyApprovalActions_loops:
  assumes "applyApprovalActions u v acts s = Inr t"
  obtains s1 s2 where
    "forE applyAddAdminApproval (or_list (g_addMembersPendingAdminApproval acts)) s = Inr s1"
    "forE applyDeleteAdminApproval (or_list (g_deleteMembersPendingAdminApproval acts)) s1 = Inr s2"
    "forE (applyPromoteAdminApproval u v) (or_list (g_promoteMembersPendingAdminApproval acts)) s2 = Inr t"
  using assms by (auto simp: applyApprovalActions_def bindE_eq_Inr)

definition keepsE :: "('s \<Rightarrow> bool) \<Rightarrow> ('a \<Rightarrow> 's \<Rightarrow> 'e + 's) \<Rightarrow> bool" where
  "keepsE P f \<longleftrightarrow> (\<forall>x s s'. f x s = Inr s' \<longrightarrow> P s \<longrightarrow> P s')"

lemma keepsE_forE: "keepsE P f \<Longrightarrow> forE f xs s = Inr t \<Longrightarrow> P s \<Longrightarrow> P t"
  unfolding keepsE_def by (rule forE_invariant [where f = f and xs = xs]) blast+

lemma applyMemberActions_keeps:
  assumes run: "applyMemberActions E u src v acts s = Inr t" and "P s"
    and k: "keepsE P (applyAddMember u src v)" "keepsE P applyDeleteMember"
      "keepsE P applyModifyMemberRole" "keepsE P applyModifyMemberLabel"
      "keepsE P (applyModifyMemberProfileKey E src)" "keepsE P applyAddPending"
      "keepsE P applyDeletePending" "keepsE P (applyPromotePending v)"
      "keepsE P (applyPromotePendingPni v)"
  shows "P t"
  using run
proof (rule applyMemberActions_loops)
  fix s1 s2 s3 s4 s5 s6 s7 s8
  assume l: "forE (applyAddMember u src v) (or_list (g_addMembers acts)) s = Inr s1"
    "forE applyDeleteMember (or_list (g_deleteMembers acts)) s1 = Inr s2"
    "forE applyModifyMemberRole (or_list (g_modifyMemberRoles acts)) s2 = Inr s3"
    "forE applyModifyMemberLabel (or_list (g_modifyMemberLabels acts)) s3 = Inr s4"
    "forE (applyModifyMemberProfileKey E src) (or_list (g_modifyMemberProfileKeys acts)) s4 = Inr s5"
    "forE applyAddPending (or_list (g_addMembersPendingProfileKey acts)) s5 = Inr s6"
    "forE applyDeletePending (or_list (g_deleteMembersPendingProfileKey acts)) s6 = Inr s7"
    "forE (applyPromotePending v) (or_list (g_promoteMembersPendingProfileKey acts)) s7 = Inr s8"
    "forE (applyPromotePendingPni v) (or_list (g_promoteMembersPendingPniAciProfileKey acts)) s8 = Inr t"
  have "P s2" using keepsE_forE [OF k(2) l(2) keepsE_forE [OF k(1) l(1) \<open>P s\<close>]] .
  then have "P s4" using keepsE_forE [OF k(4) l(4) keepsE_forE [OF k(3) l(3)]] by blast
  then have "P s6" using keepsE_forE [OF k(6) l(6) keepsE_forE [OF k(5) l(5)]] by blast
  then have "P s8" using keepsE_forE [OF k(8) l(8) keepsE_forE [OF k(7) l(7)]] by blast
  then show "P t" using keepsE_forE [OF k(9) l(9)] by blast
qed

lemma applyApprovalActions_keeps:
  assumes run: "applyApprovalActions u v acts s = Inr t" and "P s"
    and k: "keepsE P applyAddAdminApproval" "keepsE P applyDeleteAdminApproval"
      "keepsE P (applyPromoteAdminApproval u v)"
  shows "P t"
  using run by (rule applyApprovalActions_loops) (meson k keepsE_forE \<open>P s\<close>)

lemma lookups_ok_applyMemberActions:
  "applyMemberActions E u src v acts s = Inr t \<Longrightarrow> lookups_ok s \<Longrightarrow> lookups_ok t"
  by (erule applyMemberActions_keeps)
    (auto simp: keepsE_def dest: lookups_ok_member_steps lookups_ok_pending_steps)

lemma applyAttributeActions_lookups:
  assumes "applyAttributeActions E u src acts s = Inr (t, deleted)"
  shows "as_members t = as_members s" "as_pending t = as_pending s" "as_admin t = as_admin s"
    "as_banned t = as_banned s"
  using assms
  by (auto simp: applyAttributeActions_def Let_def bindE_eq_Inr split: option.splits prod.splits)

lemma lookups_ok_applyApprovalActions:
  "applyApprovalActions u v acts s = Inr t \<Longrightarrow> lookups_ok s \<Longrightarrow> lookups_ok t"
  by (erule applyApprovalActions_keeps) (auto simp: keepsE_def dest: lookups_ok_approval_steps)

lemma lookups_ok_applyLastActions: "lookups_ok s \<Longrightarrow> lookups_ok (applyLastActions acts s)"
  by (auto simp: applyLastActions_def intro!: lookups_ok_fold lookups_ok_banned_steps)

text \<open>The phases of a successful run.\<close>

lemma applyGroupChange_phases:
  assumes "applyGroupChange E acts grp src = Inr r"
  obtains u s1 s2 s3 deleted where "e_ourAci E = Some u"
    and "applyMemberActions E u src (nullish (g_version acts) 0) acts
      (startLookups grp (nullish (g_version acts) 0)) = Inr s1"
    and "applyAttributeActions E u src acts s1 = Inr (s2, deleted)"
    and "applyApprovalActions u (nullish (g_version acts) 0) acts s2 = Inr s3"
    and "gr_newAttributes r = finishLookups u (applyLastActions acts s3)"
    and "gr_promotedAciToPniMap r = as_promoted (applyLastActions acts s3)"
    and "gr_newProfileKeys r = as_newProfileKeys (applyLastActions acts s3)"
  using assms
  by (auto simp: applyGroupChange_def bindE_eq_Inr Let_def getCheckedAci_def
      strictAssertSome_eq_Inr)

lemma applyGroupChange_lookups_ok:
  assumes "applyGroupChange E acts grp src = Inr r"
  obtains u s where "e_ourAci E = Some u" and "lookups_ok s"
    and "gr_newAttributes r = finishLookups u s"
proof -
  from assms obtain u s1 s2 s3 deleted where "e_ourAci E = Some u"
    and m: "applyMemberActions E u src (nullish (g_version acts) 0) acts
      (startLookups grp (nullish (g_version acts) 0)) = Inr s1"
    and a: "applyAttributeActions E u src acts s1 = Inr (s2, deleted)"
    and p: "applyApprovalActions u (nullish (g_version acts) 0) acts s2 = Inr s3"
    and "gr_newAttributes r = finishLookups u (applyLastActions acts s3)"
    by (rule applyGroupChange_phases)
  moreover have "lookups_ok s2"
    using lookups_ok_applyMemberActions [OF m lookups_ok_start] applyAttributeActions_lookups [OF a]
    by (simp add: lookups_ok_def)
  ultimately show thesis
    using that lookups_ok_applyApprovalActions [OF p] lookups_ok_applyLastActions by blast
qed

lemma finishLookups_lists [simp]:
  "c_membersV2 (finishLookups u s) = Some (js_values (as_members s))"
  "c_pendingMembersV2 (finishLookups u s) = Some (js_values (as_pending s))"
  "c_pendingAdminApprovalV2 (finishLookups u s) = Some (js_values (as_admin s))"
  "c_bannedMembersV2 (finishLookups u s) = Some (js_values (as_banned s))"
  by (simp_all add: finishLookups_def Let_def)

lemma finishLookups_left:
  "u \<noteq> [] \<Longrightarrow> c_left (finishLookups u s) = Some (\<not> js_has (as_members s) u)"
  by (simp add: finishLookups_def Let_def)

lemma finishLookups_addedBy:
  "u \<noteq> [] \<Longrightarrow> c_addedBy (finishLookups u s) =
    (if js_has (as_members s) u then c_addedBy (as_result s) else None)"
  by (simp add: finishLookups_def Let_def)

end
