(* ===== verification/Group_Roster.thy ===== *)
theory Group_Roster
  imports Group_Apply
begin

text \<open>
  What a group change means, and that \<open>applyGroupChange\<close> does it. The abstract state of a group is
  its roster: the sets of members, invited members, members awaiting approval and banned members.
  Every action has a step on rosters; \<open>rosterSpec\<close> composes them in the order of the code. The
  properties say that the attributes after a change have the specified roster, that their lists
  have no duplicates, and what the change does to the other attributes.
\<close>

section \<open>Rosters\<close>

record roster =
  ro_members :: "string set"
  ro_pending :: "string set"
  ro_admin :: "string set"
  ro_banned :: "string set"

definition rosterOf :: "ConversationAttributesType \<Rightarrow> roster" where
  "rosterOf attrs =
    \<lparr>ro_members = m_aci ` set (or_list (c_membersV2 attrs)),
     ro_pending = p_serviceId ` set (or_list (c_pendingMembersV2 attrs)),
     ro_admin = a_aci ` set (or_list (c_pendingAdminApprovalV2 attrs)),
     ro_banned = b_serviceId ` set (or_list (c_bannedMembersV2 attrs))\<rparr>"

definition specAddMember :: "string \<Rightarrow> roster \<Rightarrow> roster" where
  "specAddMember u r = (if u \<in> ro_members r then r
    else r\<lparr>ro_members := insert u (ro_members r), ro_pending := ro_pending r - {u},
           ro_admin := ro_admin r - {u}\<rparr>)"

definition specDeleteMember :: "string \<Rightarrow> roster \<Rightarrow> roster" where
  "specDeleteMember u r = r\<lparr>ro_members := ro_members r - {u}\<rparr>"

definition specInvite :: "string \<Rightarrow> roster \<Rightarrow> roster" where
  "specInvite u r = (if isAciString (Some u) \<and> u \<in> ro_members r then r
    else r\<lparr>ro_pending := insert u (ro_pending r)\<rparr>)"

definition specRevokeInvite :: "string \<Rightarrow> roster \<Rightarrow> roster" where
  "specRevokeInvite u r = r\<lparr>ro_pending := ro_pending r - {u}\<rparr>"

definition specAccept :: "string \<Rightarrow> roster \<Rightarrow> roster" where
  "specAccept u r = (if u \<notin> ro_pending r then r
    else r\<lparr>ro_members := insert u (ro_members r), ro_pending := ro_pending r - {u}\<rparr>)"

definition specAcceptPni :: "string \<times> string \<Rightarrow> roster \<Rightarrow> roster" where
  "specAcceptPni u r = r\<lparr>ro_members := insert (fst u) (ro_members r), ro_pending := ro_pending r - {snd u}\<rparr>"

definition specRequest :: "string \<Rightarrow> roster \<Rightarrow> roster" where
  "specRequest u r = (if u \<in> ro_members r \<or> u \<in> ro_pending r then r
    else r\<lparr>ro_admin := insert u (ro_admin r)\<rparr>)"

definition specDenyRequest :: "string \<Rightarrow> roster \<Rightarrow> roster" where
  "specDenyRequest u r = r\<lparr>ro_admin := ro_admin r - {u}\<rparr>"

definition specApprove :: "string \<Rightarrow> roster \<Rightarrow> roster" where
  "specApprove u r = (if u \<notin> ro_admin r then r
    else r\<lparr>ro_members := insert u (ro_members r), ro_admin := ro_admin r - {u}\<rparr>)"

definition specBan :: "string \<Rightarrow> roster \<Rightarrow> roster" where
  "specBan u r = r\<lparr>ro_banned := insert u (ro_banned r)\<rparr>"

definition specUnban :: "string \<Rightarrow> roster \<Rightarrow> roster" where
  "specUnban u r = r\<lparr>ro_banned := ro_banned r - {u}\<rparr>"

definition addedId :: "DecryptedAddMember \<Rightarrow> string" where
  "addedId a = (case am_added a of None \<Rightarrow> [] | Some m \<Rightarrow> dm_userId m)"

definition invitedId :: "DecryptedMemberPendingProfileKey option \<Rightarrow> string" where
  "invitedId a = (case Option.bind a dp_member of None \<Rightarrow> [] | Some m \<Rightarrow> pd_userId m)"

definition requestId :: "DecryptedMemberPendingAdminApproval option \<Rightarrow> string" where
  "requestId a = (case a of None \<Rightarrow> [] | Some m \<Rightarrow> da_userId m)"

definition rosterSpec :: "DecryptedGroupChangeActions \<Rightarrow> roster \<Rightarrow> roster" where
  "rosterSpec acts =
     fold specUnban (or_list (g_deleteMembersBanned acts)) \<circ>
     fold (specBan \<circ> b_serviceId) (or_list (g_addMembersBanned acts)) \<circ>
     fold (specApprove \<circ> mr_userId) (or_list (g_promoteMembersPendingAdminApproval acts)) \<circ>
     fold specDenyRequest (or_list (g_deleteMembersPendingAdminApproval acts)) \<circ>
     fold (specRequest \<circ> requestId) (or_list (g_addMembersPendingAdminApproval acts)) \<circ>
     fold (specAcceptPni \<circ> (\<lambda>q. (pp_aci q, pp_pni q)))
       (or_list (g_promoteMembersPendingPniAciProfileKey acts)) \<circ>
     fold (specAccept \<circ> pk_aci) (or_list (g_promoteMembersPendingProfileKey acts)) \<circ>
     fold specRevokeInvite (or_list (g_deleteMembersPendingProfileKey acts)) \<circ>
     fold (specInvite \<circ> invitedId) (or_list (g_addMembersPendingProfileKey acts)) \<circ>
     fold specDeleteMember (or_list (g_deleteMembers acts)) \<circ>
     fold (specAddMember \<circ> addedId) (or_list (g_addMembers acts))"

section \<open>Every step refines its specification\<close>

definition absRoster :: "apply_state \<Rightarrow> roster" where
  "absRoster s = \<lparr>ro_members = keyset (as_members s), ro_pending = keyset (as_pending s),
     ro_admin = keyset (as_admin s), ro_banned = keyset (as_banned s)\<rparr>"

lemmas roster_defs =
  specAddMember_def specDeleteMember_def specInvite_def specRevokeInvite_def specAccept_def
  specAcceptPni_def specRequest_def specDenyRequest_def specApprove_def specBan_def specUnban_def

lemma absRoster_congs [simp]:
  "absRoster (pushProfileKey a k s) = absRoster s" "absRoster (setAddedBy w s) = absRoster s"
  "absRoster (mapResult f s) = absRoster s"
  "absRoster (s\<lparr>as_promoted := p\<rparr>) = absRoster s"
  by (simp_all add: absRoster_def)

lemmas roster_simps = absRoster_def roster_defs js_has_keyset Let_def

lemma refines_members:
  "applyAddMember u src v a s = Inr s' \<Longrightarrow> absRoster s' = specAddMember (addedId a) (absRoster s)"
  "applyDeleteMember d s = Inr s' \<Longrightarrow> absRoster s' = specDeleteMember d (absRoster s)"
  "applyModifyMemberRole r s = Inr s' \<Longrightarrow> absRoster s' = absRoster s"
  "applyModifyMemberLabel l s = Inr s' \<Longrightarrow> absRoster s' = absRoster s"
  "applyModifyMemberProfileKey E src k s = Inr s' \<Longrightarrow> absRoster s' = absRoster s"
proof -
  show "applyAddMember u src v a s = Inr s' \<Longrightarrow> absRoster s' = specAddMember (addedId a) (absRoster s)"
    by (cases "am_added a") (auto simp: roster_simps applyAddMember_def addedId_def split: if_splits)
  show "applyDeleteMember d s = Inr s' \<Longrightarrow> absRoster s' = specDeleteMember d (absRoster s)"
    by (auto simp: roster_simps applyDeleteMember_def split: if_splits)
  show "applyModifyMemberRole r s = Inr s' \<Longrightarrow> absRoster s' = absRoster s"
    by (auto simp: absRoster_def applyModifyMemberRole_def dest: js_get_keyset
        split: option.splits if_splits)
  show "applyModifyMemberLabel l s = Inr s' \<Longrightarrow> absRoster s' = absRoster s"
    by (auto simp: absRoster_def applyModifyMemberLabel_def dest: js_get_keyset
        split: option.splits if_splits)
  show "applyModifyMemberProfileKey E src k s = Inr s' \<Longrightarrow> absRoster s' = absRoster s"
    by (auto simp: applyModifyMemberProfileKey_def split: if_splits)
qed

lemma refines_pending:
  "applyAddPending p s = Inr s' \<Longrightarrow> absRoster s' = specInvite (invitedId p) (absRoster s)"
  "applyDeletePending d s = Inr s' \<Longrightarrow> absRoster s' = specRevokeInvite d (absRoster s)"
  "applyPromotePending v k s = Inr s' \<Longrightarrow> absRoster s' = specAccept (pk_aci k) (absRoster s)"
  "applyPromotePendingPni v q s = Inr s' \<Longrightarrow> absRoster s' = specAcceptPni (pp_aci q, pp_pni q) (absRoster s)"
proof -
  show "applyAddPending p s = Inr s' \<Longrightarrow> absRoster s' = specInvite (invitedId p) (absRoster s)"
    by (cases p; cases "Option.bind p dp_member")
      (auto simp: roster_simps applyAddPending_def invitedId_def split: if_splits option.splits)
  show "applyDeletePending d s = Inr s' \<Longrightarrow> absRoster s' = specRevokeInvite d (absRoster s)"
    by (auto simp: roster_simps applyDeletePending_def split: if_splits)
  show "applyPromotePending v k s = Inr s' \<Longrightarrow> absRoster s' = specAccept (pk_aci k) (absRoster s)"
    by (auto simp: roster_simps applyPromotePending_def split: if_splits)
  show "applyPromotePendingPni v q s = Inr s' \<Longrightarrow> absRoster s' = specAcceptPni (pp_aci q, pp_pni q) (absRoster s)"
    by (auto simp: roster_simps applyPromotePendingPni_def split: if_splits)
qed

lemma refines_approval:
  "applyAddAdminApproval a s = Inr s' \<Longrightarrow> absRoster s' = specRequest (requestId a) (absRoster s)"
  "applyDeleteAdminApproval d s = Inr s' \<Longrightarrow> absRoster s' = specDenyRequest d (absRoster s)"
  "applyPromoteAdminApproval u v r s = Inr s' \<Longrightarrow> absRoster s' = specApprove (mr_userId r) (absRoster s)"
proof -
  show "applyAddAdminApproval a s = Inr s' \<Longrightarrow> absRoster s' = specRequest (requestId a) (absRoster s)"
    by (cases a) (auto simp: roster_simps applyAddAdminApproval_def requestId_def split: if_splits)
  show "applyDeleteAdminApproval d s = Inr s' \<Longrightarrow> absRoster s' = specDenyRequest d (absRoster s)"
    by (auto simp: roster_simps applyDeleteAdminApproval_def split: if_splits)
  show "applyPromoteAdminApproval u v r s = Inr s' \<Longrightarrow> absRoster s' = specApprove (mr_userId r) (absRoster s)"
    by (auto simp: roster_simps applyPromoteAdminApproval_def split: if_splits)
qed

lemma refines_banned:
  "absRoster (applyAddBanned b s) = specBan (b_serviceId b) (absRoster s)"
  "absRoster (applyDeleteBanned d s) = specUnban d (absRoster s)"
  by (auto simp: roster_simps applyAddBanned_def applyDeleteBanned_def)

lemma refines_fold:
  "(\<And>x s. absRoster (f x s) = g x (absRoster s)) \<Longrightarrow> absRoster (fold f xs s) = fold g xs (absRoster s)"
  by (induction xs arbitrary: s) simp_all

lemma refines_forE_id:
  assumes "forE f xs s = Inr t" and "\<And>x s s'. f x s = Inr s' \<Longrightarrow> absRoster s' = absRoster s"
  shows "absRoster t = absRoster s"
  using forE_invariant [of f xs s t "\<lambda>t. absRoster t = absRoster s"] assms by simp

lemma refines_applyMemberActions:
  assumes "applyMemberActions E u src v acts s = Inr t"
  shows "absRoster t =
     (fold (specAcceptPni \<circ> (\<lambda>q. (pp_aci q, pp_pni q)))
        (or_list (g_promoteMembersPendingPniAciProfileKey acts)) \<circ>
      fold (specAccept \<circ> pk_aci) (or_list (g_promoteMembersPendingProfileKey acts)) \<circ>
      fold specRevokeInvite (or_list (g_deleteMembersPendingProfileKey acts)) \<circ>
      fold (specInvite \<circ> invitedId) (or_list (g_addMembersPendingProfileKey acts)) \<circ>
      fold specDeleteMember (or_list (g_deleteMembers acts)) \<circ>
      fold (specAddMember \<circ> addedId) (or_list (g_addMembers acts))) (absRoster s)"
proof -
  from assms obtain s1 s2 s3 s4 s5 s6 s7 s8 where steps:
    "forE (applyAddMember u src v) (or_list (g_addMembers acts)) s = Inr s1"
    "forE applyDeleteMember (or_list (g_deleteMembers acts)) s1 = Inr s2"
    "forE applyModifyMemberRole (or_list (g_modifyMemberRoles acts)) s2 = Inr s3"
    "forE applyModifyMemberLabel (or_list (g_modifyMemberLabels acts)) s3 = Inr s4"
    "forE (applyModifyMemberProfileKey E src) (or_list (g_modifyMemberProfileKeys acts)) s4 = Inr s5"
    "forE applyAddPending (or_list (g_addMembersPendingProfileKey acts)) s5 = Inr s6"
    "forE applyDeletePending (or_list (g_deleteMembersPendingProfileKey acts)) s6 = Inr s7"
    "forE (applyPromotePending v) (or_list (g_promoteMembersPendingProfileKey acts)) s7 = Inr s8"
    "forE (applyPromotePendingPni v) (or_list (g_promoteMembersPendingPniAciProfileKey acts)) s8 = Inr t"
    by (rule applyMemberActions_loops)
  note [simp] =
    forE_refines [where alpha = absRoster and g = "specAddMember \<circ> addedId", OF steps(1)]
    forE_refines [where alpha = absRoster and g = specDeleteMember, OF steps(2)]
    refines_forE_id [OF steps(3)] refines_forE_id [OF steps(4)] refines_forE_id [OF steps(5)]
    forE_refines [where alpha = absRoster and g = "specInvite \<circ> invitedId", OF steps(6)]
    forE_refines [where alpha = absRoster and g = specRevokeInvite, OF steps(7)]
    forE_refines [where alpha = absRoster and g = "specAccept \<circ> pk_aci", OF steps(8)]
    forE_refines [where alpha = absRoster and g = "specAcceptPni \<circ> (\<lambda>q. (pp_aci q, pp_pni q))", OF steps(9)]
  show ?thesis by (simp add: refines_members refines_pending)
qed

lemma refines_applyApprovalActions:
  assumes "applyApprovalActions u v acts s = Inr t"
  shows "absRoster t =
     (fold (specApprove \<circ> mr_userId) (or_list (g_promoteMembersPendingAdminApproval acts)) \<circ>
      fold specDenyRequest (or_list (g_deleteMembersPendingAdminApproval acts)) \<circ>
      fold (specRequest \<circ> requestId) (or_list (g_addMembersPendingAdminApproval acts))) (absRoster s)"
proof -
  from assms obtain s1 s2 where steps:
    "forE applyAddAdminApproval (or_list (g_addMembersPendingAdminApproval acts)) s = Inr s1"
    "forE applyDeleteAdminApproval (or_list (g_deleteMembersPendingAdminApproval acts)) s1 = Inr s2"
    "forE (applyPromoteAdminApproval u v) (or_list (g_promoteMembersPendingAdminApproval acts)) s2 = Inr t"
    by (auto simp: applyApprovalActions_def bindE_eq_Inr)
  note [simp] =
    forE_refines [where alpha = absRoster and g = "specRequest \<circ> requestId", OF steps(1)]
    forE_refines [where alpha = absRoster and g = specDenyRequest, OF steps(2)]
    forE_refines [where alpha = absRoster and g = "specApprove \<circ> mr_userId", OF steps(3)]
  show ?thesis by (simp add: refines_approval)
qed

lemma refines_applyLastActions:
  "absRoster (applyLastActions acts s) =
     (fold specUnban (or_list (g_deleteMembersBanned acts)) \<circ>
      fold (specBan \<circ> b_serviceId) (or_list (g_addMembersBanned acts))) (absRoster s)"
  by (simp add: applyLastActions_def refines_fold [where g = specUnban]
      refines_fold [where g = "specBan \<circ> b_serviceId"] refines_banned)

lemma absRoster_start: "absRoster (startLookups grp v) = rosterOf grp"
  by (simp add: absRoster_def startLookups_def rosterOf_def)

lemma rosterOf_finish:
  "lookups_ok s \<Longrightarrow> rosterOf (finishLookups u s) = absRoster s"
  unfolding rosterOf_def absRoster_def lookups_ok_def finishLookups_lists or_list_simps
  by (simp only: keyed_by_keyset)

lemma applyGroupChange_roster:
  assumes "applyGroupChange E acts grp src = Inr r"
  shows "rosterOf (gr_newAttributes r) = rosterSpec acts (rosterOf grp)"
proof -
  from assms obtain u s1 s2 s3 deleted where
    m: "applyMemberActions E u src (nullish (g_version acts) 0) acts
      (startLookups grp (nullish (g_version acts) 0)) = Inr s1"
    and a: "applyAttributeActions E u src acts s1 = Inr (s2, deleted)"
    and p: "applyApprovalActions u (nullish (g_version acts) 0) acts s2 = Inr s3"
    and r: "gr_newAttributes r = finishLookups u (applyLastActions acts s3)"
    by (rule applyGroupChange_phases)
  have "absRoster s2 = absRoster s1" "lookups_ok s2"
    using applyAttributeActions_lookups [OF a] lookups_ok_applyMemberActions [OF m lookups_ok_start]
    by (simp_all add: absRoster_def lookups_ok_def)
  then show ?thesis
    using lookups_ok_applyApprovalActions [OF p]
    by (simp add: r rosterOf_finish lookups_ok_applyLastActions refines_applyLastActions
        refines_applyApprovalActions [OF p] refines_applyMemberActions [OF m] absRoster_start
        rosterSpec_def)
qed

section \<open>The other attributes\<close>

text \<open>No step touches the revision, which was set at the start.\<close>

lemma revision_steps:
  "applyAddMember u src v a s = Inr s' \<Longrightarrow> c_revision (as_result s') = c_revision (as_result s)"
  "applyDeleteMember d s = Inr s' \<Longrightarrow> c_revision (as_result s') = c_revision (as_result s)"
  "applyModifyMemberRole m s = Inr s' \<Longrightarrow> c_revision (as_result s') = c_revision (as_result s)"
  "applyModifyMemberLabel l s = Inr s' \<Longrightarrow> c_revision (as_result s') = c_revision (as_result s)"
  "applyModifyMemberProfileKey E src k s = Inr s' \<Longrightarrow> c_revision (as_result s') = c_revision (as_result s)"
  "applyAddPending p s = Inr s' \<Longrightarrow> c_revision (as_result s') = c_revision (as_result s)"
  "applyDeletePending d s = Inr s' \<Longrightarrow> c_revision (as_result s') = c_revision (as_result s)"
  "applyPromotePending v k s = Inr s' \<Longrightarrow> c_revision (as_result s') = c_revision (as_result s)"
  "applyPromotePendingPni v q s = Inr s' \<Longrightarrow> c_revision (as_result s') = c_revision (as_result s)"
  "applyAddAdminApproval x s = Inr s' \<Longrightarrow> c_revision (as_result s') = c_revision (as_result s)"
  "applyDeleteAdminApproval d s = Inr s' \<Longrightarrow> c_revision (as_result s') = c_revision (as_result s)"
  "applyPromoteAdminApproval u v m s = Inr s' \<Longrightarrow> c_revision (as_result s') = c_revision (as_result s)"
  by (auto simp: member_steps pending_steps approval_steps setAddedBy_def Let_def
      split: option.splits if_splits)

lemma revision_fold:
  "c_revision (as_result (fold applyAddBanned bs s)) = c_revision (as_result s)"
  "c_revision (as_result (fold applyDeleteBanned ds s)) = c_revision (as_result s)"
  by (induction bs arbitrary: s, simp_all add: applyAddBanned_def)
    (induction ds arbitrary: s, simp_all add: applyDeleteBanned_def)

lemma revision_attributes [simp]:
  "c_revision (applyModifyTitle E u src x r) = c_revision r"
  "c_revision (applyModifyTimer y r) = c_revision r"
  "c_revision (spreadAvatar up r) = c_revision r"
  "c_revision (applyAccessControl acts r) = c_revision r"
  "c_revision (applyModifyInviteLinkPassword z r) = c_revision r"
  "c_revision (applyModifyDescription d r) = c_revision r"
  "c_revision (applyFlags acts r) = c_revision r"
  "c_revision (finishLookups u s) = c_revision (as_result s)"
  by (simp_all add: applyModifyTitle_def applyModifyTimer_def spreadAvatar_def applyAccessControl_def
      applyModifyInviteLinkPassword_def applyModifyDescription_def applyFlags_def finishLookups_def
      Let_def split: option.splits)

lemma applyGroupChange_revision:
  assumes "applyGroupChange E acts grp src = Inr r"
  shows "c_revision (gr_newAttributes r) = Some (nullish (g_version acts) 0)"
proof -
  from assms obtain u s1 s2 s3 deleted where
    m: "applyMemberActions E u src (nullish (g_version acts) 0) acts
      (startLookups grp (nullish (g_version acts) 0)) = Inr s1"
    and a: "applyAttributeActions E u src acts s1 = Inr (s2, deleted)"
    and p: "applyApprovalActions u (nullish (g_version acts) 0) acts s2 = Inr s3"
    and r: "gr_newAttributes r = finishLookups u (applyLastActions acts s3)"
    by (rule applyGroupChange_phases)
  have "c_revision (as_result s1) = Some (nullish (g_version acts) 0)"
    using m by (rule applyMemberActions_keeps) (auto simp: keepsE_def startLookups_def revision_steps)
  moreover have "c_revision (as_result s2) = c_revision (as_result s1)"
    using a by (auto simp: applyAttributeActions_def Let_def bindE_eq_Inr split: option.splits prod.splits)
  moreover have "c_revision (as_result s3) = c_revision (as_result s2)"
    using p by (rule applyApprovalActions_keeps) (auto simp: keepsE_def revision_steps)
  ultimately show ?thesis by (simp add: r applyLastActions_def revision_fold)
qed

section \<open>Invited members are not members\<close>

definition rosterDisjoint :: "roster \<Rightarrow> bool" where
  "rosterDisjoint r \<longleftrightarrow> ro_members r \<inter> ro_pending r = {}"

lemma ro_pending_fold_subset:
  assumes "\<And>x r. x \<in> set xs \<Longrightarrow> ro_pending (f x r) \<subseteq> ro_pending r \<union> B"
  shows "ro_pending (fold f xs r) \<subseteq> ro_pending r \<union> B"
  using assms
proof (induction xs arbitrary: r)
  case (Cons x xs)
  have "ro_pending (fold f xs (f x r)) \<subseteq> ro_pending (f x r) \<union> B"
    using Cons by simp
  with Cons.prems [of x r] show ?case by auto
qed simp

text \<open>The users a change admits under an ACI without looking it up among the invited.\<close>

definition admittedAcis :: "DecryptedGroupChangeActions \<Rightarrow> string set" where
  "admittedAcis acts = pp_aci ` set (or_list (g_promoteMembersPendingPniAciProfileKey acts)) \<union>
    mr_userId ` set (or_list (g_promoteMembersPendingAdminApproval acts))"

definition invitedIds :: "DecryptedGroupChangeActions \<Rightarrow> string set" where
  "invitedIds acts = invitedId ` set (or_list (g_addMembersPendingProfileKey acts))"

lemma rosterSpec_disjoint:
  assumes "rosterDisjoint r"
    and acis: "\<forall>u \<in> ro_members r. isAciString (Some u)"
      "\<forall>a \<in> set (or_list (g_addMembers acts)). isAciString (Some (addedId a))"
    and avoid: "admittedAcis acts \<inter> (ro_pending r \<union> invitedIds acts) = {}"
  shows "rosterDisjoint (rosterSpec acts r)"
proof -
  let ?P = "\<lambda>r'. rosterDisjoint r' \<and> (\<forall>u \<in> ro_members r'. isAciString (Some u)) \<and>
    ro_pending r' \<subseteq> ro_pending r \<union> invitedIds acts"
  let ?Q = "\<lambda>r'. rosterDisjoint r' \<and> admittedAcis acts \<inter> ro_pending r' = {}"
  define r1 where "r1 = (fold specRevokeInvite (or_list (g_deleteMembersPendingProfileKey acts)) \<circ>
     fold (specInvite \<circ> invitedId) (or_list (g_addMembersPendingProfileKey acts)) \<circ>
     fold specDeleteMember (or_list (g_deleteMembers acts)) \<circ>
     fold (specAddMember \<circ> addedId) (or_list (g_addMembers acts))) r"
  have "?P r1"
    unfolding r1_def comp_def
    by (intro fold_keeps [where P = ?P])
      (use assms in \<open>auto simp: rosterDisjoint_def specRevokeInvite_def specInvite_def
        specDeleteMember_def specAddMember_def invitedIds_def\<close>)
  then have "?Q r1" using avoid by blast
  have "?Q ((fold specUnban (or_list (g_deleteMembersBanned acts)) \<circ>
     fold (specBan \<circ> b_serviceId) (or_list (g_addMembersBanned acts)) \<circ>
     fold (specApprove \<circ> mr_userId) (or_list (g_promoteMembersPendingAdminApproval acts)) \<circ>
     fold specDenyRequest (or_list (g_deleteMembersPendingAdminApproval acts)) \<circ>
     fold (specRequest \<circ> requestId) (or_list (g_addMembersPendingAdminApproval acts)) \<circ>
     fold (specAcceptPni \<circ> (\<lambda>q. (pp_aci q, pp_pni q)))
       (or_list (g_promoteMembersPendingPniAciProfileKey acts)) \<circ>
     fold (specAccept \<circ> pk_aci) (or_list (g_promoteMembersPendingProfileKey acts))) r1)"
    unfolding comp_def
    by (intro fold_keeps [where P = ?Q] \<open>?Q r1\<close>)
      (auto simp: rosterDisjoint_def roster_defs admittedAcis_def)
  then show ?thesis by (simp add: rosterSpec_def r1_def)
qed

section \<open>Properties\<close>

text \<open>
C2: Refinement of the roster. If \<open>applyGroupChange\<close> returns, the sets of members, invited
members, members awaiting approval and banned members of the new attributes are those of the
specification \<open>rosterSpec\<close>: each action's effect on the four sets, in the order additions,
removals, invitations, revocations, acceptances, requests, denials, approvals, bans, unbans.
\<close>

theorem applyGroupChange_refines_rosterSpec:
  "case applyGroupChange E actions grp sourceServiceId of
     Inl _ \<Rightarrow> True
   | Inr r \<Rightarrow> rosterOf (gr_newAttributes r) = rosterSpec actions (rosterOf grp)"
  using applyGroupChange_roster by (auto split: sum.splits)

text \<open>
C23: Well-formedness after a change, whatever the group was before: the four membership lists of
the new attributes are present and have no two entries for one id, the revision is the version of
the change, \<open>left\<close> is exactly our absence from the members, and after leaving nobody is recorded as
having added us.
\<close>

theorem applyGroupChange_wellformed:
  "case applyGroupChange (E\<lparr>e_ourAci := Some (c # u)\<rparr>) actions grp sourceServiceId of
     Inl _ \<Rightarrow> True
   | Inr r \<Rightarrow>
      (let new = gr_newAttributes r in
       (\<exists>ms. c_membersV2 new = Some ms \<and> distinct (map m_aci ms) \<and>
          c_left new = Some (c # u \<notin> m_aci ` set ms)) \<and>
       (\<exists>ps. c_pendingMembersV2 new = Some ps \<and> distinct (map p_serviceId ps)) \<and>
       (\<exists>as. c_pendingAdminApprovalV2 new = Some as \<and> distinct (map a_aci as)) \<and>
       (\<exists>bs. c_bannedMembersV2 new = Some bs \<and> distinct (map b_serviceId bs)) \<and>
       c_revision new = Some (nullish (g_version actions) 0) \<and>
       (c_left new = Some False \<or> c_addedBy new = None))"
proof (cases "applyGroupChange (E\<lparr>e_ourAci := Some (c # u)\<rparr>) actions grp sourceServiceId")
  case (Inr r)
  then obtain s where s: "lookups_ok s" "gr_newAttributes r = finishLookups (c # u) s"
    by (auto elim!: applyGroupChange_lookups_ok)
  then show ?thesis
    using applyGroupChange_revision [OF Inr]
    by (simp add: Inr Let_def lookups_ok_def keyed_by_distinct finishLookups_left
        finishLookups_addedBy js_has_keyset keyed_by_keyset [of m_aci, symmetric]
        keyed_by_distinct [unfolded map_map] del: list.set_map set_map)
qed simp

text \<open>
A change keeps the members and the invited members disjoint, provided the ids of the members
and of the added users are ACIs, and no user is admitted by approval or by a PNI promotion under
an ACI that is invited. (The code tests every other action; the proviso on approvals is needed, see
the next property.)
\<close>

theorem applyGroupChange_disjoint:
  assumes "applyGroupChange E actions grp sourceServiceId = Inr r"
    and "rosterDisjoint (rosterOf grp)"
    and "\<forall>u \<in> ro_members (rosterOf grp). isAciString (Some u)"
    and "\<forall>a \<in> set (or_list (g_addMembers actions)). isAciString (Some (addedId a))"
    and "admittedAcis actions \<inter> (ro_pending (rosterOf grp) \<union> invitedIds actions) = {}"
  shows "rosterDisjoint (rosterOf (gr_newAttributes r))"
  using applyGroupChange_roster [OF assms(1)] rosterSpec_disjoint [OF assms(2-5)] by simp

theorem applyGroupChange_disjoint_witness:
  "\<exists>r. applyGroupChange exampleEnv (noActions 6) exampleGroup ''us'' = Inr r \<and>
    rosterDisjoint (rosterOf (gr_newAttributes r))"
proof -
  obtain r where r: "applyGroupChange exampleEnv (noActions 6) exampleGroup ''us'' = Inr r"
    by (simp add: applyGroupChange_def applyMemberActions_def applyAttributeActions_def
        applyApprovalActions_def noActions_def Let_def)
  moreover have "rosterDisjoint (rosterOf (gr_newAttributes r))"
    by (rule applyGroupChange_disjoint [OF r])
      (simp_all add: rosterOf_def rosterDisjoint_def exampleGroup_def noActions_def admittedAcis_def)
  ultimately show ?thesis by blast
qed

text \<open>
A defect: the approval of a user who is also invited leaves the user both a member and invited
(the branch meant to remove the invitation deletes from \<open>pendingAdminApprovalMembers\<close> a second time).
\<close>

theorem approval_keeps_invitation:
  assumes "e_ourAci E = Some us" and "u \<noteq> []"
    and "u \<in> ro_admin (rosterOf grp)" and "u \<in> ro_pending (rosterOf grp)"
  shows "\<exists>r. applyGroupChange E ((noActions v)\<lparr>g_promoteMembersPendingAdminApproval :=
        Some [\<lparr>mr_userId = u, mr_role = ROLE_DEFAULT\<rparr>]\<rparr>) grp src = Inr r
    \<and> u \<in> ro_members (rosterOf (gr_newAttributes r)) \<and> u \<in> ro_pending (rosterOf (gr_newAttributes r))"
proof -
  let ?acts = "(noActions v)\<lparr>g_promoteMembersPendingAdminApproval :=
    Some [\<lparr>mr_userId = u, mr_role = ROLE_DEFAULT\<rparr>]\<rparr>"
  have "\<exists>r. applyGroupChange E ?acts grp src = Inr r"
    using assms(1,2)
    by (simp add: applyGroupChange_def applyMemberActions_def applyAttributeActions_def
        applyApprovalActions_def applyPromoteAdminApproval_def noActions_def Let_def)
  then obtain r where r: "applyGroupChange E ?acts grp src = Inr r" by blast
  have "rosterSpec ?acts (rosterOf grp) = specApprove u (rosterOf grp)"
    by (simp add: rosterSpec_def noActions_def)
  with r applyGroupChange_roster [OF r] show ?thesis
    using assms(3,4) by (auto simp: specApprove_def)
qed

theorem approval_keeps_invitation_witness:
  "\<exists>r. applyGroupChange exampleEnv ((noActions 6)\<lparr>g_promoteMembersPendingAdminApproval :=
        Some [\<lparr>mr_userId = ''bob'', mr_role = ROLE_DEFAULT\<rparr>]\<rparr>)
      (exampleGroup\<lparr>c_pendingMembersV2 := Some [\<lparr>p_addedByUserId = ''eve'', p_serviceId = ''bob'',
          p_timestamp = 1, p_role = ROLE_DEFAULT\<rparr>],
        c_pendingAdminApprovalV2 := Some [\<lparr>a_aci = ''bob'', a_timestamp = 2\<rparr>]\<rparr>) ''eve'' = Inr r
    \<and> ''bob'' \<in> ro_members (rosterOf (gr_newAttributes r))"
  using approval_keeps_invitation [of exampleEnv "''us''" "''bob''"
      "exampleGroup\<lparr>c_pendingMembersV2 := Some [\<lparr>p_addedByUserId = ''eve'', p_serviceId = ''bob'',
          p_timestamp = 1, p_role = ROLE_DEFAULT\<rparr>],
        c_pendingAdminApprovalV2 := Some [\<lparr>a_aci = ''bob'', a_timestamp = 2\<rparr>]\<rparr>" 6 "''eve''"]
  by (auto simp: rosterOf_def)

text \<open>
A change without actions only advances the revision: on a group whose four lists are present
and without duplicates, whose access control is set and whose \<open>left\<close> and \<open>addedBy\<close> agree with the
members, \<open>applyGroupChange\<close> returns the same attributes with the new revision, no profile keys, no
promotions, and touches no file.
\<close>

theorem applyGroupChange_noActions:
  assumes "e_ourAci E = Some us" and "us \<noteq> []"
    and "c_membersV2 grp = Some ms" and "distinct (map m_aci ms)"
    and "c_pendingMembersV2 grp = Some ps" and "distinct (map p_serviceId ps)"
    and "c_pendingAdminApprovalV2 grp = Some as" and "distinct (map a_aci as)"
    and "c_bannedMembersV2 grp = Some bs" and "distinct (map b_serviceId bs)"
    and "c_accessControl grp \<noteq> None"
    and "c_left grp = Some (us \<notin> m_aci ` set ms)"
    and "c_left grp = Some True \<Longrightarrow> c_addedBy grp = None"
  shows "applyGroupChange E (noActions v) grp src =
    Inr \<lparr>gr_newAttributes = grp\<lparr>c_revision := Some v\<rparr>, gr_newProfileKeys = [],
         gr_otherChanges = False, gr_promotedAciToPniMap = [], gr_deletedFiles = []\<rparr>"
proof -
  have pairs: "js_of_pairs (map (\<lambda>x. (f x, x)) xs) = map (\<lambda>x. (f x, x)) xs" if "distinct (map f xs)"
    for f :: "'a \<Rightarrow> string" and xs
    using that by (simp add: js_of_pairs_distinct comp_def)
  show ?thesis
    using assms
    by (cases grp) (auto simp: applyGroupChange_def applyMemberActions_def applyAttributeActions_def
        applyApprovalActions_def applyLastActions_def noActions_def Let_def startLookups_def pairs
        applyModifyTitle_def applyModifyTimer_def applyAccessControl_def applyFlags_def
        applyModifyInviteLinkPassword_def applyModifyDescription_def mapResult_def
        finishLookups_def js_has_iff comp_def image_image)
qed

theorem applyGroupChange_noActions_witness:
  "applyGroupChange exampleEnv (noActions 6)
      (exampleGroup\<lparr>c_membersV2 := Some [exampleMember ''us'']\<rparr>) ''eve'' =
    Inr \<lparr>gr_newAttributes = exampleGroup\<lparr>c_membersV2 := Some [exampleMember ''us''], c_revision := Some 6\<rparr>,
         gr_newProfileKeys = [], gr_otherChanges = False, gr_promotedAciToPniMap = [],
         gr_deletedFiles = []\<rparr>"
  using applyGroupChange_noActions [of exampleEnv "''us''"
      "exampleGroup\<lparr>c_membersV2 := Some [exampleMember ''us'']\<rparr>"
      "[exampleMember ''us'']" "[]" "[]" "[]" 6 "''eve''"]
  by (simp add: exampleGroup_def exampleMember_def)

text \<open>
A role change is applied to exactly the named member, and is an error for anybody else: a
change that only sets the role of \<open>u\<close> returns the group with that member's role replaced (every
other member, and the order of the members, unchanged) if \<open>u\<close> is a member; if \<open>u\<close> is not a member the
whole change throws.
\<close>

theorem applyGroupChange_modifyRole:
  assumes "e_ourAci E = Some us" and "u \<noteq> []" and "role \<noteq> 0" and "distinct (map m_aci ms)"
    and "c_membersV2 grp = Some ms"
  shows "case applyGroupChange E ((noActions v)\<lparr>g_modifyMemberRoles :=
        Some [\<lparr>mr_userId = u, mr_role = role\<rparr>]\<rparr>) grp src of
      Inr r \<Rightarrow> u \<in> m_aci ` set ms \<and> c_membersV2 (gr_newAttributes r) =
        Some (map (\<lambda>m. if m_aci m = u then m\<lparr>m_role := role\<rparr> else m) ms)
    | Inl e \<Rightarrow> u \<notin> m_aci ` set ms \<and>
        e = JsError None ''applyGroupChange: modifyMemberRole tried to modify nonexistent member''"
proof -
  have upd: "js_values (js_set k w (map (\<lambda>x. (f x, x)) xs)) = map (\<lambda>x. if f x = k then w else x) xs"
    if "distinct (map f xs)" and "k \<in> f ` set xs" for f :: "GroupV2MemberType \<Rightarrow> string" and k w xs
    using that by (induction xs) (auto simp: comp_def image_iff intro!: map_idI [symmetric])
  have start: "as_members (startLookups grp w) = map (\<lambda>x. (m_aci x, x)) ms" for w
    using assms(4,5) by (simp add: startLookups_def js_of_pairs_distinct comp_def)
  have get: "js_get (map (\<lambda>x. (m_aci x, x)) ms) u = Some m \<Longrightarrow> m \<in> set ms \<and> m_aci m = u" for m
    by (auto dest!: map_of_SomeD)
  have none: "js_get (map (\<lambda>x. (m_aci x, x)) ms) u = None \<longleftrightarrow> u \<notin> m_aci ` set ms"
    by (simp add: map_of_eq_None_iff image_image)
  have one: "map (\<lambda>x. if m_aci x = u then m\<lparr>m_role := role\<rparr> else x) ms =
      map (\<lambda>x. if m_aci x = u then x\<lparr>m_role := role\<rparr> else x) ms" if "m \<in> set ms" "m_aci m = u" for m
    using that assms(4) by (auto simp: distinct_map inj_on_def)
  show ?thesis
  proof (cases "js_get (map (\<lambda>x. (m_aci x, x)) ms) u")
    case None
    then show ?thesis
      using assms(1-3) none
      by (simp add: applyGroupChange_def applyMemberActions_def applyModifyMemberRole_def
          noActions_def start Let_def)
  next
    case (Some m)
    have m: "m \<in> set ms" "m_aci m = u" using get [OF Some] by simp_all
    then have u: "u \<in> m_aci ` set ms" by auto
    have vals: "js_values (js_set u (m\<lparr>m_role := role\<rparr>) (map (\<lambda>x. (m_aci x, x)) ms)) =
        map (\<lambda>x. if m_aci x = u then x\<lparr>m_role := role\<rparr> else x) ms"
      unfolding upd [OF assms(4) u] by (rule one [OF m])
    define s where "s = (startLookups grp v)\<lparr>as_members :=
        js_set u (m\<lparr>m_role := role\<rparr>) (map (\<lambda>x. (m_aci x, x)) ms)\<rparr>"
    have "forE applyModifyMemberRole [\<lparr>mr_userId = u, mr_role = role\<rparr>] (startLookups grp v) = Inr s"
      using assms(2,3) Some by (simp add: applyModifyMemberRole_def start s_def)
    then have "\<exists>r. applyGroupChange E ((noActions v)\<lparr>g_modifyMemberRoles :=
          Some [\<lparr>mr_userId = u, mr_role = role\<rparr>]\<rparr>) grp src = Inr r \<and>
        c_membersV2 (gr_newAttributes r) = Some (js_values (as_members s))"
      using assms(1)
      by (simp add: applyGroupChange_def applyMemberActions_def applyAttributeActions_def
          applyApprovalActions_def applyLastActions_def noActions_def Let_def del: forE.simps)
        (simp add: Let_def)
    then show ?thesis using u vals by (auto simp: s_def)
  qed
qed

theorem applyGroupChange_modifyRole_witness:
  "case applyGroupChange exampleEnv ((noActions 6)\<lparr>g_modifyMemberRoles :=
        Some [\<lparr>mr_userId = ''bob'', mr_role = ROLE_ADMINISTRATOR\<rparr>]\<rparr>) exampleGroup ''eve'' of
      Inr r \<Rightarrow> False
    | Inl e \<Rightarrow> e = JsError None ''applyGroupChange: modifyMemberRole tried to modify nonexistent member''"
  using applyGroupChange_modifyRole [of exampleEnv "''us''" "''bob''" ROLE_ADMINISTRATOR "[]"
      exampleGroup 6 "''eve''"]
  by (auto simp: exampleGroup_def split: sum.splits)

end
