(* ===== verification/Group_State.thy ===== *)
theory Group_State
  imports Group_Apply
begin

text \<open>
  \<open>applyGroupState\<close> of ts/groups.preload.ts: the new attributes of a group from its full decrypted
  state. The callbacks of \<open>map\<close> also update the result, the new profile keys and the flag
  \<open>otherChanges\<close>; each is a step on the accumulator \<open>state_acc\<close> of the loop, which collects the mapped
  elements in order.
\<close>

section \<open>The loops over the lists of the state\<close>

record state_acc =
  st_left :: bool
  st_addedBy :: "string option"
  st_members :: "GroupV2MemberType list"
  st_pending :: "GroupV2PendingMemberType list"
  st_admin :: "GroupV2PendingAdminApprovalType list"
  st_newProfileKeys :: "GroupChangeMemberType list"
  st_otherChanges :: bool

record GroupApplyResultType =
  gs_newAttributes :: ConversationAttributesType
  gs_newProfileKeys :: "GroupChangeMemberType list"
  gs_otherChanges :: bool
  gs_deletedFiles :: "string list"

text \<open>The profile key of a member in the state: new, changed, or of an unknown member.\<close>

definition stateProfileKey :: "env \<Rightarrow> string \<Rightarrow> bytes option \<Rightarrow> bool \<Rightarrow> state_acc \<Rightarrow> state_acc" where
  "stateProfileKey E userId profileKey knownBefore acc =
    (case profileKey of
       Some k \<Rightarrow>
         if \<not> hasProfileKey E userId
         then acc\<lparr>st_newProfileKeys := st_newProfileKeys acc @ [(userId, k)]\<rparr>
         else if profileKeyHasChanged E userId k then acc\<lparr>st_otherChanges := True\<rparr>
         else if \<not> knownBefore then acc\<lparr>st_otherChanges := True\<rparr>
         else acc
     | None \<Rightarrow> if \<not> knownBefore then acc\<lparr>st_otherChanges := True\<rparr> else acc)"

definition captureAddedBy :: "string \<Rightarrow> string option \<Rightarrow> int \<Rightarrow> bool \<Rightarrow> bool \<Rightarrow> DecryptedMember \<Rightarrow>
    state_acc \<Rightarrow> state_acc" where
  "captureAddedBy ourAci sourceServiceId version wasPreviouslyAMember wasAwaitingApproval member acc =
    (if dm_userId member = ourAci then
       let acc1 = acc\<lparr>st_left := False\<rparr> in
       if wasAwaitingApproval \<and> \<not> wasPreviouslyAMember then acc1\<lparr>st_addedBy := sourceServiceId\<rparr>
       else if truthy_str sourceServiceId \<and> \<not> wasPreviouslyAMember \<and> dm_joinedAtVersion member = version
       then acc1\<lparr>st_addedBy := sourceServiceId\<rparr>
       else acc1
     else acc)"

definition stateMember :: "env \<Rightarrow> string \<Rightarrow> string option \<Rightarrow> int \<Rightarrow> bool \<Rightarrow> bool \<Rightarrow>
    (string, GroupV2MemberType) jsmap \<Rightarrow> DecryptedMember \<Rightarrow> state_acc \<Rightarrow> state_acc js" where
  "stateMember E ourAci sourceServiceId version wasPreviouslyAMember wasAwaitingApproval members member acc =
    (let acc1 = captureAddedBy ourAci sourceServiceId version wasPreviouslyAMember wasAwaitingApproval
           member acc in
     if \<not> isValidRole (Some (dm_role member)) then throw ''applyGroupState: Member had invalid role''
     else
       let previousMember = js_get members (dm_userId member);
           acc2 = stateProfileKey E (dm_userId member) (dm_profileKey member) (previousMember \<noteq> None) acc1;
           acc3 = (case previousMember of
                     Some p \<Rightarrow> if m_joinedAtVersion p \<noteq> dm_joinedAtVersion member
                               then acc2\<lparr>st_otherChanges := True\<rparr> else acc2
                   | None \<Rightarrow> acc2)
       in Inr (acc3\<lparr>st_members := st_members acc3 @
            [\<lparr>m_aci = dm_userId member, m_role = or_role (dm_role member),
              m_joinedAtVersion = dm_joinedAtVersion member, m_labelString = dm_labelString member,
              m_labelEmoji = dm_labelEmoji member, m_joinedFromLink = None, m_approvedByAdmin = None\<rparr>]\<rparr>))"

text \<open>The comparisons with the previous invitation change nothing more: \<open>otherChanges\<close> is already set.\<close>

definition statePending :: "DecryptedMemberPendingProfileKey \<Rightarrow> state_acc \<Rightarrow> state_acc js" where
  "statePending member acc =
    (case dp_member member of
       None \<Rightarrow> throw ''applyGroupState: Member pending profile key did not have an associated userId''
     | Some m \<Rightarrow>
         if pd_userId m = []
         then throw ''applyGroupState: Member pending profile key did not have an associated userId''
         else if dp_addedByUserId member = []
         then throw ''applyGroupState: Member pending profile key did not have an addedByUserID''
         else if \<not> isValidRole (pd_role m)
         then throw ''applyGroupState: Member pending profile key had invalid role''
         else Inr (acc\<lparr>st_otherChanges := True,
             st_pending := st_pending acc @
               [\<lparr>p_addedByUserId = dp_addedByUserId member, p_serviceId = pd_userId m,
                 p_timestamp = dp_timestamp member, p_role = or_role (nullish (pd_role m) 0)\<rparr>]\<rparr>))"

definition stateAdmin :: "env \<Rightarrow> (string, GroupV2PendingAdminApprovalType) jsmap \<Rightarrow>
    DecryptedMemberPendingAdminApproval \<Rightarrow> state_acc \<Rightarrow> state_acc" where
  "stateAdmin E admins member acc =
    (let previousMember = js_get admins (da_userId member);
         acc1 = stateProfileKey E (da_userId member) (da_profileKey member) (previousMember \<noteq> None) acc;
         acc2 = (case previousMember of
                   Some p \<Rightarrow> if a_timestamp p \<noteq> da_timestamp member
                             then acc1\<lparr>st_otherChanges := True\<rparr> else acc1
                 | None \<Rightarrow> acc1)
     in acc2\<lparr>st_admin := st_admin acc2 @ [\<lparr>a_aci = da_userId member, a_timestamp = da_timestamp member\<rparr>]\<rparr>)"

text \<open>\<open>membersBanned\<close>: the entries are kept as they are; an unknown one or another timestamp is a change.\<close>

definition bannedChanged :: "(string, GroupV2BannedMemberType) jsmap \<Rightarrow> GroupV2BannedMemberType list \<Rightarrow> bool" where
  "bannedChanged banned members =
    list_ex (\<lambda>m. case js_get banned (b_serviceId m) of
        None \<Rightarrow> True | Some p \<Rightarrow> b_timestamp p \<noteq> b_timestamp m) members"

section \<open>The whole function\<close>

definition stateAccessControl :: "AccessControlType option \<Rightarrow> AccessControlType" where
  "stateAccessControl accessControl =
    (case accessControl of
       None \<Rightarrow> defaultAccessControl
     | Some ac \<Rightarrow>
         \<lparr>ac_attributes = or_num (ac_attributes ac) ACCESS_MEMBER,
          ac_members = or_num (ac_members ac) ACCESS_MEMBER,
          ac_addFromInviteLink = or_num (ac_addFromInviteLink ac) ACCESS_UNSATISFIABLE,
          ac_memberLabel = Some (or_num (nullish (ac_memberLabel ac) 0) ACCESS_MEMBER)\<rparr>)"

definition stateHead :: "DecryptedGroupState \<Rightarrow> ConversationAttributesType \<Rightarrow> ConversationAttributesType" where
  "stateHead groupState grp =
    grp\<lparr>c_revision := Some (nullish (s_version groupState) 0),
        c_name := map_option js_trim (blob_title (s_title groupState)),
        c_expireTimer := blob_timer (s_disappearingMessagesTimer groupState),
        c_accessControl := Some (stateAccessControl (s_accessControl groupState))\<rparr>"

definition stateLists :: "env \<Rightarrow> string \<Rightarrow> string option \<Rightarrow> DecryptedGroupState \<Rightarrow>
    ConversationAttributesType \<Rightarrow> state_acc js" where
  "stateLists E ourAci sourceServiceId groupState grp =
    (let members = js_of_pairs (map (\<lambda>m. (m_aci m, m)) (or_list (c_membersV2 grp)));
         admins = js_of_pairs (map (\<lambda>m. (a_aci m, m)) (or_list (c_pendingAdminApprovalV2 grp)));
         wasPreviouslyAMember = list_ex (\<lambda>m. m_aci m = ourAci) (or_list (c_membersV2 grp));
         start = \<lparr>st_left = True, st_addedBy = c_addedBy grp, st_members = [], st_pending = [],
                  st_admin = [], st_newProfileKeys = [], st_otherChanges = False\<rparr>
     in bindE (forE (stateMember E ourAci sourceServiceId (nullish (s_version groupState) 0)
              wasPreviouslyAMember (js_has admins ourAci) members)
            (or_list (s_members groupState)) start) (\<lambda>acc.
        bindE (forE statePending (or_list (s_membersPendingProfileKey groupState)) acc) (\<lambda>acc.
        Inr (fold (stateAdmin E admins) (or_list (s_membersPendingAdminApproval groupState)) acc))))"

definition stateResult :: "env \<Rightarrow> string \<Rightarrow> string option \<Rightarrow> DecryptedGroupState \<Rightarrow>
    ConversationAttributesType \<Rightarrow> state_acc \<Rightarrow> ConversationAttributesType" where
  "stateResult E ourAci sourceServiceId groupState grp acc =
    (let r = (stateHead groupState grp)
           \<lparr>c_left := Some (st_left acc), c_addedBy := st_addedBy acc,
            c_membersV2 := (if s_members groupState = None then c_membersV2 grp
                            else Some (st_members acc)),
            c_pendingMembersV2 := (if s_membersPendingProfileKey groupState = None
                            then c_pendingMembersV2 grp else Some (st_pending acc)),
            c_pendingAdminApprovalV2 := (if s_membersPendingAdminApproval groupState = None
                            then c_pendingAdminApprovalV2 grp else Some (st_admin acc)),
            c_groupInviteLinkPassword := (if truthy_str (s_inviteLinkPassword groupState)
                            then s_inviteLinkPassword groupState else None),
            c_description := map_option js_trim (blob_description (s_description groupState)),
            c_announcementsOnly := s_announcementsOnly groupState,
            c_terminated := s_terminated groupState,
            c_bannedMembersV2 := s_membersBanned groupState\<rparr>
     in if s_version groupState = Some 0 \<and> sourceServiceId = Some ourAci \<and> truthy_str (c_name r)
        then r\<lparr>c_groupVerifiedNameHash := Some (computeGroupNameHash E (the (c_name r)))\<rparr>
        else r)"

definition finishState :: "ConversationAttributesType \<Rightarrow> ConversationAttributesType" where
  "finishState r1 =
    (let r2 = (if truthy_bool (c_left r1) then r1\<lparr>c_addedBy := None\<rparr> else r1)
     in if truthy_num (c_temporaryMemberCount r2) then r2\<lparr>c_temporaryMemberCount := None\<rparr> else r2)"

definition applyGroupState :: "env \<Rightarrow> ConversationAttributesType \<Rightarrow> DecryptedGroupState \<Rightarrow> string option \<Rightarrow>
    GroupApplyResultType js" where
  "applyGroupState E grp groupState sourceServiceId =
    bindE (getCheckedAci E) (\<lambda>ourAci.
    bindE (stateLists E ourAci sourceServiceId groupState grp) (\<lambda>acc.
    let banned = js_of_pairs (map (\<lambda>m. (b_serviceId m, m)) (or_list (c_bannedMembersV2 grp)));
        r = stateResult E ourAci sourceServiceId groupState grp acc
    in bindE (applyNewAvatar E (s_avatarUrl groupState) r False) (\<lambda>(update, deleted).
       Inr \<lparr>gs_newAttributes = finishState (spreadAvatar update r), gs_newProfileKeys = st_newProfileKeys acc,
               gs_otherChanges = st_otherChanges acc \<or>
                 bannedChanged banned (or_list (s_membersBanned groupState)),
               gs_deletedFiles = deleted\<rparr>)))"

section \<open>What the loops compute\<close>

definition memberOfState :: "DecryptedMember \<Rightarrow> GroupV2MemberType" where
  "memberOfState member =
    \<lparr>m_aci = dm_userId member, m_role = dm_role member, m_joinedAtVersion = dm_joinedAtVersion member,
     m_labelString = dm_labelString member, m_labelEmoji = dm_labelEmoji member,
     m_joinedFromLink = None, m_approvedByAdmin = None\<rparr>"

definition pendingOfState :: "DecryptedMemberPendingProfileKey \<Rightarrow> GroupV2PendingMemberType" where
  "pendingOfState member =
    (case dp_member member of
       None \<Rightarrow> \<lparr>p_addedByUserId = [], p_serviceId = [], p_timestamp = 0, p_role = 0\<rparr>
     | Some m \<Rightarrow> \<lparr>p_addedByUserId = dp_addedByUserId member, p_serviceId = pd_userId m,
                 p_timestamp = dp_timestamp member, p_role = nullish (pd_role m) 0\<rparr>)"

definition adminOfState :: "DecryptedMemberPendingAdminApproval \<Rightarrow> GroupV2PendingAdminApprovalType" where
  "adminOfState member = \<lparr>a_aci = da_userId member, a_timestamp = da_timestamp member\<rparr>"

definition validPending :: "DecryptedMemberPendingProfileKey \<Rightarrow> bool" where
  "validPending member \<longleftrightarrow> dp_addedByUserId member \<noteq> [] \<and>
    (case dp_member member of None \<Rightarrow> False | Some m \<Rightarrow> pd_userId m \<noteq> [] \<and> isValidRole (pd_role m))"

lemma or_role_valid: "isValidRole (Some r) \<Longrightarrow> or_role r = r"
  by (auto simp: isValidRole_def or_role_def or_num_def)

lemma st_stateProfileKey [simp]:
  "st_left (stateProfileKey E u k b acc) = st_left acc"
  "st_addedBy (stateProfileKey E u k b acc) = st_addedBy acc"
  "st_members (stateProfileKey E u k b acc) = st_members acc"
  "st_pending (stateProfileKey E u k b acc) = st_pending acc"
  "st_admin (stateProfileKey E u k b acc) = st_admin acc"
  by (simp_all add: stateProfileKey_def split: option.splits)

lemma st_captureAddedBy [simp]:
  "st_left (captureAddedBy us src v w a m acc) = (st_left acc \<and> dm_userId m \<noteq> us)"
  "st_members (captureAddedBy us src v w a m acc) = st_members acc"
  "st_pending (captureAddedBy us src v w a m acc) = st_pending acc"
  "st_admin (captureAddedBy us src v w a m acc) = st_admin acc"
  by (simp_all add: captureAddedBy_def Let_def)

lemma stateMember_Inr:
  assumes "stateMember E us src v w a ms m acc = Inr acc'"
  shows "isValidRole (Some (dm_role m))" "st_members acc' = st_members acc @ [memberOfState m]"
    "st_left acc' = (st_left acc \<and> dm_userId m \<noteq> us)"
    "st_pending acc' = st_pending acc" "st_admin acc' = st_admin acc"
  using assms
  by (auto simp: stateMember_def Let_def memberOfState_def or_role_valid split: if_splits option.splits)

lemma forE_stateMember:
  assumes "forE (stateMember E us src v w a ms) xs acc = Inr acc'"
  shows "st_members acc' = st_members acc @ map memberOfState xs"
    "st_left acc' = (st_left acc \<and> us \<notin> dm_userId ` set xs)"
    "st_pending acc' = st_pending acc" "st_admin acc' = st_admin acc"
    "\<forall>m \<in> set xs. isValidRole (Some (dm_role m))"
  using assms
proof (induction xs arbitrary: acc)
  case (Cons x xs)
  {
    case 1 then show ?case using Cons.IH(1) by (auto simp: bindE_eq_Inr stateMember_Inr(2))
  next
    case 2
    then obtain b where a: "stateMember E us src v w a ms x acc = Inr b"
      "forE (stateMember E us src v w a ms) xs b = Inr acc'"
      by (auto simp: bindE_eq_Inr)
    show ?case using Cons.IH(2) [OF a(2)] stateMember_Inr(3) [OF a(1)] by auto
  next
    case 3 then show ?case using Cons.IH(3) by (auto simp: bindE_eq_Inr stateMember_Inr(4))
  next
    case 4 then show ?case using Cons.IH(4) by (auto simp: bindE_eq_Inr stateMember_Inr(5))
  next
    case 5 then show ?case using Cons.IH(5) by (auto simp: bindE_eq_Inr stateMember_Inr(1))
  }
qed simp_all

lemma statePending_eq:
  "statePending m acc = Inr acc' \<longleftrightarrow> validPending m \<and>
    acc' = acc\<lparr>st_otherChanges := True, st_pending := st_pending acc @ [pendingOfState m]\<rparr>"
  by (auto simp: statePending_def validPending_def pendingOfState_def or_role_valid
      isValidRole_def or_role_def or_num_def split: option.splits)

lemma forE_statePending_fold:
  "forE statePending xs acc = Inr acc' \<longleftrightarrow> (\<forall>m \<in> set xs. validPending m) \<and>
    acc' = fold (\<lambda>m a. a\<lparr>st_otherChanges := True, st_pending := st_pending a @ [pendingOfState m]\<rparr>) xs acc"
  by (induction xs arbitrary: acc) (auto simp: bindE_eq_Inr statePending_eq)

lemma fold_statePending:
  "st_pending (fold (\<lambda>m a. a\<lparr>st_otherChanges := True, st_pending := st_pending a @ [pendingOfState m]\<rparr>) xs acc) =
    st_pending acc @ map pendingOfState xs"
  "st_members (fold (\<lambda>m a. a\<lparr>st_otherChanges := True, st_pending := st_pending a @ [pendingOfState m]\<rparr>) xs acc) =
    st_members acc"
  "st_left (fold (\<lambda>m a. a\<lparr>st_otherChanges := True, st_pending := st_pending a @ [pendingOfState m]\<rparr>) xs acc) =
    st_left acc"
  "st_addedBy (fold (\<lambda>m a. a\<lparr>st_otherChanges := True, st_pending := st_pending a @ [pendingOfState m]\<rparr>) xs acc) =
    st_addedBy acc"
  "st_admin (fold (\<lambda>m a. a\<lparr>st_otherChanges := True, st_pending := st_pending a @ [pendingOfState m]\<rparr>) xs acc) =
    st_admin acc"
  by (induction xs arbitrary: acc) simp_all

lemma fold_stateAdmin:
  "st_admin (fold (stateAdmin E ads) xs acc) = st_admin acc @ map adminOfState xs"
  "st_members (fold (stateAdmin E ads) xs acc) = st_members acc"
  "st_pending (fold (stateAdmin E ads) xs acc) = st_pending acc"
  "st_left (fold (stateAdmin E ads) xs acc) = st_left acc"
  "st_addedBy (fold (stateAdmin E ads) xs acc) = st_addedBy acc"
  by (induction xs arbitrary: acc)
    (simp_all add: stateAdmin_def adminOfState_def Let_def split: option.splits)

lemma forE_stateMember_total:
  "\<forall>m \<in> set xs. isValidRole (Some (dm_role m)) \<Longrightarrow> \<exists>acc'. forE (stateMember E us src v w a ms) xs acc = Inr acc'"
  by (induction xs arbitrary: acc) (simp_all add: stateMember_def Let_def)

lemma stateMember_addedBy:
  assumes "stateMember E us src v w a ms m acc = Inr acc'" and "w \<or> dm_userId m \<noteq> us"
  shows "st_addedBy acc' = st_addedBy acc"
  using assms by (auto simp: stateMember_def captureAddedBy_def Let_def split: if_splits option.splits)

lemma forE_stateMember_addedBy:
  assumes "forE (stateMember E us src v w a ms) xs acc = Inr acc'" and "w \<or> us \<notin> dm_userId ` set xs"
  shows "st_addedBy acc' = st_addedBy acc"
  by (rule forE_invariant [OF assms(1), where P = "\<lambda>x. st_addedBy x = st_addedBy acc"])
    (use assms(2) in \<open>auto dest!: stateMember_addedBy\<close>)

text \<open>The lists a run builds.\<close>

lemma stateLists_Inr:
  assumes "stateLists E us src st grp = Inr acc"
  shows "st_members acc = map memberOfState (or_list (s_members st))"
    "st_pending acc = map pendingOfState (or_list (s_membersPendingProfileKey st))"
    "st_admin acc = map adminOfState (or_list (s_membersPendingAdminApproval st))"
    "st_left acc = (us \<notin> dm_userId ` set (or_list (s_members st)))"
    "\<forall>m \<in> set (or_list (s_members st)). isValidRole (Some (dm_role m))"
    "\<forall>m \<in> set (or_list (s_membersPendingProfileKey st)). validPending m"
  using assms
  by (auto simp: stateLists_def Let_def bindE_eq_Inr forE_statePending_fold fold_stateAdmin
      fold_statePending forE_stateMember)

lemma stateLists_addedBy:
  assumes "stateLists E us src st grp = Inr acc"
    and "us \<in> m_aci ` set (or_list (c_membersV2 grp)) \<or> us \<notin> dm_userId ` set (or_list (s_members st))"
  shows "st_addedBy acc = c_addedBy grp"
proof -
  have w: "list_ex (\<lambda>m. m_aci m = us) xs \<longleftrightarrow> us \<in> m_aci ` set xs" for xs
    by (auto simp: list_ex_iff)
  from assms(1) obtain acc1 where
    f: "forE (stateMember E us src (nullish (s_version st) 0)
          (list_ex (\<lambda>m. m_aci m = us) (or_list (c_membersV2 grp)))
          (js_has (js_of_pairs (map (\<lambda>m. (a_aci m, m)) (or_list (c_pendingAdminApprovalV2 grp)))) us)
          (js_of_pairs (map (\<lambda>m. (m_aci m, m)) (or_list (c_membersV2 grp)))))
        (or_list (s_members st))
        \<lparr>st_left = True, st_addedBy = c_addedBy grp, st_members = [], st_pending = [],
         st_admin = [], st_newProfileKeys = [], st_otherChanges = False\<rparr> = Inr acc1"
    and "st_addedBy acc = st_addedBy acc1"
    by (auto simp: stateLists_def Let_def bindE_eq_Inr forE_statePending_fold fold_stateAdmin fold_statePending)
  with forE_stateMember_addedBy [OF f] assms(2) show ?thesis by (simp add: w)
qed

lemma stateLists_total:
  "(\<exists>acc. stateLists E us src st grp = Inr acc) \<longleftrightarrow>
    list_all (\<lambda>m. isValidRole (Some (dm_role m))) (or_list (s_members st)) \<and>
    list_all validPending (or_list (s_membersPendingProfileKey st))"
proof
  assume "\<exists>acc. stateLists E us src st grp = Inr acc"
  then show "list_all (\<lambda>m. isValidRole (Some (dm_role m))) (or_list (s_members st)) \<and>
      list_all validPending (or_list (s_membersPendingProfileKey st))"
    using stateLists_Inr by (fastforce simp: list_all_iff)
next
  assume "list_all (\<lambda>m. isValidRole (Some (dm_role m))) (or_list (s_members st)) \<and>
      list_all validPending (or_list (s_membersPendingProfileKey st))"
  then show "\<exists>acc. stateLists E us src st grp = Inr acc"
    by (auto simp: list_all_iff stateLists_def Let_def bindE_eq_Inr forE_statePending_fold
        dest!: forE_stateMember_total)
qed

lemma spreadAvatar_fields [simp]:
  "c_left (spreadAvatar u a) = c_left a" "c_name (spreadAvatar u a) = c_name a"
  "c_membersV2 (spreadAvatar u a) = c_membersV2 a" "c_expireTimer (spreadAvatar u a) = c_expireTimer a"
  "c_pendingMembersV2 (spreadAvatar u a) = c_pendingMembersV2 a"
  "c_pendingAdminApprovalV2 (spreadAvatar u a) = c_pendingAdminApprovalV2 a"
  "c_bannedMembersV2 (spreadAvatar u a) = c_bannedMembersV2 a"
  "c_accessControl (spreadAvatar u a) = c_accessControl a"
  "c_terminated (spreadAvatar u a) = c_terminated a" "c_revision (spreadAvatar u a) = c_revision a"
  "c_description (spreadAvatar u a) = c_description a" "c_addedBy (spreadAvatar u a) = c_addedBy a"
  "c_announcementsOnly (spreadAvatar u a) = c_announcementsOnly a"
  "c_groupInviteLinkPassword (spreadAvatar u a) = c_groupInviteLinkPassword a"
  by (simp_all add: spreadAvatar_def Let_def split: option.splits)

lemma finishState_fields [simp]:
  "c_left (finishState a) = c_left a" "c_name (finishState a) = c_name a"
  "c_membersV2 (finishState a) = c_membersV2 a" "c_expireTimer (finishState a) = c_expireTimer a"
  "c_pendingMembersV2 (finishState a) = c_pendingMembersV2 a"
  "c_pendingAdminApprovalV2 (finishState a) = c_pendingAdminApprovalV2 a"
  "c_bannedMembersV2 (finishState a) = c_bannedMembersV2 a"
  "c_accessControl (finishState a) = c_accessControl a"
  "c_terminated (finishState a) = c_terminated a" "c_revision (finishState a) = c_revision a"
  "c_description (finishState a) = c_description a" "c_avatar (finishState a) = c_avatar a"
  "c_announcementsOnly (finishState a) = c_announcementsOnly a"
  "c_groupInviteLinkPassword (finishState a) = c_groupInviteLinkPassword a"
  "c_remoteAvatarUrl (finishState a) = c_remoteAvatarUrl a"
  "c_addedBy (finishState a) = (if truthy_bool (c_left a) then None else c_addedBy a)"
  by (simp_all add: finishState_def Let_def)

lemma finishState_idem: "finishState (finishState a) = finishState a"
  by (simp add: finishState_def Let_def)

lemma stateResult_fields [simp]:
  "c_left (stateResult E us src st grp acc) = Some (st_left acc)"
  "c_name (stateResult E us src st grp acc) = map_option js_trim (blob_title (s_title st))"
  "c_description (stateResult E us src st grp acc) = map_option js_trim (blob_description (s_description st))"
  "c_expireTimer (stateResult E us src st grp acc) = blob_timer (s_disappearingMessagesTimer st)"
  "c_accessControl (stateResult E us src st grp acc) = Some (stateAccessControl (s_accessControl st))"
  "c_announcementsOnly (stateResult E us src st grp acc) = s_announcementsOnly st"
  "c_terminated (stateResult E us src st grp acc) = s_terminated st"
  "c_revision (stateResult E us src st grp acc) = Some (nullish (s_version st) 0)"
  "c_bannedMembersV2 (stateResult E us src st grp acc) = s_membersBanned st"
  "c_addedBy (stateResult E us src st grp acc) = st_addedBy acc"
  "c_avatar (stateResult E us src st grp acc) = c_avatar grp"
  "c_remoteAvatarUrl (stateResult E us src st grp acc) = c_remoteAvatarUrl grp"
  "c_groupInviteLinkPassword (stateResult E us src st grp acc) =
    (if truthy_str (s_inviteLinkPassword st) then s_inviteLinkPassword st else None)"
  "c_membersV2 (stateResult E us src st grp acc) =
    (if s_members st = None then c_membersV2 grp else Some (st_members acc))"
  "c_pendingMembersV2 (stateResult E us src st grp acc) =
    (if s_membersPendingProfileKey st = None then c_pendingMembersV2 grp else Some (st_pending acc))"
  "c_pendingAdminApprovalV2 (stateResult E us src st grp acc) =
    (if s_membersPendingAdminApproval st = None then c_pendingAdminApprovalV2 grp else Some (st_admin acc))"
  by (simp_all add: stateResult_def stateHead_def Let_def)

lemma applyGroupState_Inr:
  assumes "applyGroupState E grp st src = Inr r"
  obtains us acc up deleted where "e_ourAci E = Some us" and "stateLists E us src st grp = Inr acc"
    and "applyNewAvatar E (s_avatarUrl st) (stateResult E us src st grp acc) False = Inr (up, deleted)"
    and "gs_newAttributes r = finishState (spreadAvatar up (stateResult E us src st grp acc))"
  using assms
  by (auto simp: applyGroupState_def bindE_eq_Inr Let_def getCheckedAci_def strictAssertSome_eq_Inr)

lemma applyNewAvatar_Inr: "\<exists>up d. applyNewAvatar E n a f = Inr (up, d)"
  by (auto simp: applyNewAvatar_eq split: sum.splits)

lemma applyGroupState_ok:
  "(\<exists>r. applyGroupState E grp st src = Inr r) \<longleftrightarrow>
    e_ourAci E \<noteq> None \<and>
    list_all (\<lambda>m. isValidRole (Some (dm_role m))) (or_list (s_members st)) \<and>
    list_all validPending (or_list (s_membersPendingProfileKey st))"
proof (cases "e_ourAci E")
  case None
  then show ?thesis by (simp add: applyGroupState_def getCheckedAci_def)
next
  case (Some us)
  have "(\<exists>r. applyGroupState E grp st src = Inr r) \<longleftrightarrow> (\<exists>acc. stateLists E us src st grp = Inr acc)"
  proof
    assume "\<exists>acc. stateLists E us src st grp = Inr acc"
    then obtain acc where acc: "stateLists E us src st grp = Inr acc" by blast
    obtain up d where "applyNewAvatar E (s_avatarUrl st) (stateResult E us src st grp acc) False = Inr (up, d)"
      using applyNewAvatar_Inr by blast
    then show "\<exists>r. applyGroupState E grp st src = Inr r"
      by (simp add: applyGroupState_def Some acc Let_def)
  qed (auto simp: applyGroupState_def Some bindE_eq_Inr)
  then show ?thesis using stateLists_total [of E us src st grp] Some by simp
qed

section \<open>Properties\<close>

text \<open>
The full state decides the group. If \<open>applyGroupState\<close> returns, the revision, name,
description, timer, access control, flags, link password and the four lists of the new attributes
are those of the state (a missing list of the state keeps the group's list; \<open>membersBanned\<close> is taken
as it is), and \<open>left\<close> is exactly our absence from the members of the state.
\<close>

theorem applyGroupState_attributes:
  "case applyGroupState (E\<lparr>e_ourAci := Some us\<rparr>) grp st src of
     Inl _ \<Rightarrow> True
   | Inr r \<Rightarrow>
      (let new = gs_newAttributes r in
       c_revision new = Some (nullish (s_version st) 0) \<and>
       c_name new = map_option js_trim (blob_title (s_title st)) \<and>
       c_description new = map_option js_trim (blob_description (s_description st)) \<and>
       c_expireTimer new = blob_timer (s_disappearingMessagesTimer st) \<and>
       c_accessControl new = Some (stateAccessControl (s_accessControl st)) \<and>
       c_announcementsOnly new = s_announcementsOnly st \<and> c_terminated new = s_terminated st \<and>
       c_groupInviteLinkPassword new =
         (if truthy_str (s_inviteLinkPassword st) then s_inviteLinkPassword st else None) \<and>
       c_membersV2 new = (case s_members st of None \<Rightarrow> c_membersV2 grp
         | Some ms \<Rightarrow> Some (map memberOfState ms)) \<and>
       c_pendingMembersV2 new = (case s_membersPendingProfileKey st of None \<Rightarrow> c_pendingMembersV2 grp
         | Some ms \<Rightarrow> Some (map pendingOfState ms)) \<and>
       c_pendingAdminApprovalV2 new = (case s_membersPendingAdminApproval st of
           None \<Rightarrow> c_pendingAdminApprovalV2 grp
         | Some ms \<Rightarrow> Some (map adminOfState ms)) \<and>
       c_bannedMembersV2 new = s_membersBanned st \<and>
       c_left new = Some (us \<notin> dm_userId ` set (or_list (s_members st))))"
proof (cases "applyGroupState (E\<lparr>e_ourAci := Some us\<rparr>) grp st src")
  case (Inr r)
  then obtain acc up where acc: "stateLists (E\<lparr>e_ourAci := Some us\<rparr>) us src st grp = Inr acc"
    and new: "gs_newAttributes r = finishState (spreadAvatar up
      (stateResult (E\<lparr>e_ourAci := Some us\<rparr>) us src st grp acc))"
    by (auto elim!: applyGroupState_Inr)
  show ?thesis
    unfolding Inr sum.case Let_def new
    by (simp add: stateLists_Inr [OF acc] split: option.splits)
qed simp

text \<open>
When \<open>applyGroupState\<close> throws: it returns exactly if our ACI is known, every member of the
state has a valid role, and every invitation has an inviter, a user and a valid role. (Failures
around the avatar never reach the caller.)
\<close>

theorem applyGroupState_returns:
  "(\<exists>r. applyGroupState E grp st src = Inr r) \<longleftrightarrow>
    e_ourAci E \<noteq> None \<and>
    list_all (\<lambda>m. isValidRole (Some (dm_role m))) (or_list (s_members st)) \<and>
    list_all validPending (or_list (s_membersPendingProfileKey st))"
  by (rule applyGroupState_ok)

text \<open>
Fetching the same state twice changes nothing the second time: on the attributes that
\<open>applyGroupState\<close> produced from a state with a member list, applying the state again (without a
source) returns the same attributes, when no avatar is involved.
\<close>

theorem applyGroupState_again:
  assumes "applyGroupState E grp st src = Inr r" and "applyGroupState E (gs_newAttributes r) st None = Inr r'"
    and "s_members st \<noteq> None"
    and "\<not> truthy_str (s_avatarUrl st)" and "c_avatar grp = None" and "c_remoteAvatarUrl grp = None"
  shows "gs_newAttributes r' = gs_newAttributes r"
proof -
  from assms(1) obtain us acc up d where us: "e_ourAci E = Some us"
    and acc: "stateLists E us src st grp = Inr acc"
    and up: "applyNewAvatar E (s_avatarUrl st) (stateResult E us src st grp acc) False = Inr (up, d)"
    and new: "gs_newAttributes r = finishState (spreadAvatar up (stateResult E us src st grp acc))"
    by (rule applyGroupState_Inr)
  define g1 where "g1 = gs_newAttributes r"
  from assms(2) us obtain acc' up' d' where acc': "stateLists E us None st g1 = Inr acc'"
    and up': "applyNewAvatar E (s_avatarUrl st) (stateResult E us None st g1 acc') False = Inr (up', d')"
    and new': "gs_newAttributes r' = finishState (spreadAvatar up' (stateResult E us None st g1 acc'))"
    unfolding g1_def by (auto elim!: applyGroupState_Inr)
  have noav: "applyNewAvatar E (s_avatarUrl st) a False = Inr (\<lparr>au_avatar = None, au_remoteAvatarUrl = None\<rparr>, [])"
    if "c_avatar a = None" "c_remoteAvatarUrl a = None" for a
    using that assms(4) by (simp add: applyNewAvatar_eq tryNewAvatar_def dropOldAvatar_def
        avatarHasChanged_def avatarUrlToUse_def)
  have keep: "spreadAvatar \<lparr>au_avatar = None, au_remoteAvatarUrl = None\<rparr> a = a" for a
    by (simp add: spreadAvatar_def)
  have g1: "g1 = finishState (stateResult E us src st grp acc)"
    using up new assms(5,6) by (auto simp: noav g1_def keep)
  then have "up' = \<lparr>au_avatar = None, au_remoteAvatarUrl = None\<rparr>"
    using up' assms(5,6) by (simp add: noav)
  note new' = new' [unfolded this keep]
  note L = stateLists_Inr [OF acc] and L' = stateLists_Inr [OF acc']
  obtain ms where ms: "s_members st = Some ms" using assms(3) by blast
  have "m_aci ` set (or_list (c_membersV2 g1)) = dm_userId ` set ms"
    by (simp add: g1 L ms memberOfState_def image_image)
  then have by_eq: "st_addedBy acc' = c_addedBy g1"
    using stateLists_addedBy [OF acc'] ms by auto
  have "stateResult E us None st g1 acc' = g1"
  proof -
    have "g1\<lparr>c_revision := Some (nullish (s_version st) 0),
        c_name := map_option js_trim (blob_title (s_title st)),
        c_expireTimer := blob_timer (s_disappearingMessagesTimer st),
        c_accessControl := Some (stateAccessControl (s_accessControl st)),
        c_left := Some (st_left acc'), c_addedBy := st_addedBy acc',
        c_membersV2 := Some (st_members acc'),
        c_pendingMembersV2 := (if s_membersPendingProfileKey st = None then c_pendingMembersV2 g1
                       else Some (st_pending acc')),
        c_pendingAdminApprovalV2 := (if s_membersPendingAdminApproval st = None
                       then c_pendingAdminApprovalV2 g1 else Some (st_admin acc')),
        c_groupInviteLinkPassword := (if truthy_str (s_inviteLinkPassword st)
                       then s_inviteLinkPassword st else None),
        c_description := map_option js_trim (blob_description (s_description st)),
        c_announcementsOnly := s_announcementsOnly st, c_terminated := s_terminated st,
        c_bannedMembersV2 := s_membersBanned st\<rparr> = g1"
      by (rule ConversationAttributesType.equality) (simp_all add: by_eq L' ms, simp_all add: g1 L ms)
    then show ?thesis by (simp add: stateResult_def stateHead_def ms Let_def)
  qed
  then show ?thesis using new' g1 finishState_idem g1_def by simp
qed

definition exampleState :: DecryptedGroupState where
  "exampleState =
    \<lparr>s_title = Some (Some (BlobTitle ''Name'')), s_disappearingMessagesTimer = None,
     s_accessControl = None, s_version = Some 6,
     s_members = Some [\<lparr>dm_userId = ''us'', dm_profileKey = None, dm_role = ROLE_DEFAULT,
       dm_joinedAtVersion = 6, dm_labelEmoji = None, dm_labelString = None\<rparr>],
     s_membersPendingProfileKey = Some [], s_membersPendingAdminApproval = Some [],
     s_inviteLinkPassword = None, s_description = None, s_avatarUrl = None,
     s_announcementsOnly = Some False, s_membersBanned = Some [], s_terminated = Some False\<rparr>"

theorem applyGroupState_again_witness:
  "\<exists>r r'. applyGroupState exampleEnv exampleGroup exampleState (Some ''eve'') = Inr r \<and>
    applyGroupState exampleEnv (gs_newAttributes r) exampleState None = Inr r' \<and>
    gs_newAttributes r' = gs_newAttributes r"
proof -
  have ret: "\<exists>r. applyGroupState exampleEnv g exampleState src = Inr r" for g src
    by (simp add: stateLists_total exampleState_def isValidRole_def applyGroupState_def Let_def
        bindE_eq_Inr stateLists_def stateMember_def) (use applyNewAvatar_Inr in blast)
  obtain r where r: "applyGroupState exampleEnv exampleGroup exampleState (Some ''eve'') = Inr r"
    using ret by blast
  moreover obtain r' where r': "applyGroupState exampleEnv (gs_newAttributes r) exampleState None = Inr r'"
    using ret by blast
  ultimately show ?thesis
    using applyGroupState_again [OF r r'] by (auto simp: exampleState_def exampleGroup_def)
qed

end
