(* ===== verification/Group_Decrypt.thy ===== *)
theory Group_Decrypt
  imports Group_State
begin

text \<open>
  Decryption of what the group server sends: \<open>decryptGroupChange\<close>, \<open>decryptGroupState\<close> and their
  helpers in ts/groups.preload.ts. The records \<open>Proto...\<close> are the messages of protos/Groups.proto
  (a missing field is \<open>None\<close>). A malformed entry throws and fails the whole change; an entry that
  cannot be decrypted is dropped.
\<close>

section \<open>Protocol messages\<close>

record ProtoMember =
  pm_userId :: "bytes option"
  pm_profileKey :: "bytes option"
  pm_presentation :: "bytes option"
  pm_role :: "int option"
  pm_joinedAtVersion :: "int option"
  pm_labelEmoji :: "bytes option"
  pm_labelString :: "bytes option"

record ProtoMemberPendingProfileKey =
  pmp_addedByUserId :: "bytes option"
  pmp_timestamp :: "int option"
  pmp_member :: "ProtoMember option"

record ProtoMemberPendingAdminApproval =
  pma_userId :: "bytes option"
  pma_profileKey :: "bytes option"
  pma_presentation :: "bytes option"
  pma_timestamp :: "int option"

record ProtoMemberBanned =
  pmb_userId :: "bytes option"
  pmb_timestamp :: "int option"

record ProtoAddMemberAction =
  pam_added :: "ProtoMember option"
  pam_joinFromInviteLink :: bool

record ProtoModifyRoleAction =
  pmr_userId :: "bytes option"
  pmr_role :: "int option"

record ProtoModifyLabelAction =
  pml_userId :: "bytes option"
  pml_labelEmoji :: "bytes option"
  pml_labelString :: "bytes option"

record ProtoProfileKeyAction =
  ppk_presentation :: "bytes option"
  ppk_userId :: "bytes option"
  ppk_profileKey :: "bytes option"

record ProtoPniPromotion =
  ppp_presentation :: "bytes option"
  ppp_userId :: "bytes option"
  ppp_pni :: "bytes option"
  ppp_profileKey :: "bytes option"

record ProtoAccessControl =
  pac_attributes :: "int option"
  pac_members :: "int option"
  pac_addFromInviteLink :: "int option"
  pac_memberLabel :: "int option"

record ProtoActions =
  pa_sourceUserId :: "bytes option"
  pa_groupId :: "bytes option"
  pa_version :: "int option"
  pa_addMembers :: "ProtoAddMemberAction list"
  pa_deleteMembers :: "bytes option list"
  pa_modifyMemberRoles :: "ProtoModifyRoleAction list"
  pa_modifyMemberLabels :: "ProtoModifyLabelAction list"
  pa_modifyMemberProfileKeys :: "ProtoProfileKeyAction list"
  pa_addMembersPendingProfileKey :: "ProtoMemberPendingProfileKey option list"
  pa_deleteMembersPendingProfileKey :: "bytes option list"
  pa_promoteMembersPendingProfileKey :: "ProtoProfileKeyAction list"
  pa_promoteMembersPendingPniAciProfileKey :: "ProtoPniPromotion list"
  pa_modifyTitle :: "bytes option option"
  pa_modifyAvatar :: "string option"
  pa_modifyDisappearingMessageTimer :: "bytes option option"
  pa_modifyAttributesAccess :: "int option option"
  pa_modifyMemberAccess :: "int option option"
  pa_modifyAddFromInviteLinkAccess :: "int option option"
  pa_modifyMemberLabelAccess :: "int option option"
  pa_addMembersPendingAdminApproval :: "ProtoMemberPendingAdminApproval option list"
  pa_deleteMembersPendingAdminApproval :: "bytes option list"
  pa_promoteMembersPendingAdminApproval :: "ProtoModifyRoleAction list"
  pa_modifyInviteLinkPassword :: "bytes option option"
  pa_modifyDescription :: "bytes option option"
  pa_modifyAnnouncementsOnly :: "bool option"
  pa_terminateGroup :: bool
  pa_addMembersBanned :: "ProtoMemberBanned option list"
  pa_deleteMembersBanned :: "bytes option list"

record ProtoGroup =
  pg_title :: "bytes option"
  pg_description :: "bytes option"
  pg_avatarUrl :: "string option"
  pg_disappearingMessagesTimer :: "bytes option"
  pg_accessControl :: "ProtoAccessControl option"
  pg_version :: "int option"
  pg_members :: "ProtoMember list option"
  pg_membersPendingProfileKey :: "ProtoMemberPendingProfileKey list option"
  pg_membersPendingAdminApproval :: "ProtoMemberPendingAdminApproval list option"
  pg_inviteLinkPassword :: "bytes option"
  pg_announcementsOnly :: "bool option"
  pg_terminated :: "bool option"
  pg_membersBanned :: "ProtoMemberBanned list option"

section \<open>Helpers\<close>

text \<open>\<open>compact(list.map(f))\<close>, and a \<open>try\<close> whose \<open>catch\<close> drops the entry.\<close>

definition compactMap :: "('a \<Rightarrow> 'b option js) \<Rightarrow> 'a list \<Rightarrow> 'b list js" where
  "compactMap f xs = bindE (mapE f xs) (\<lambda>ys. Inr (List.map_filter (\<lambda>y. y) ys))"

definition dropOnError :: "'a js \<Rightarrow> ('a \<Rightarrow> 'b option js) \<Rightarrow> 'b option js" where
  "dropOnError m f = (case m of Inl _ \<Rightarrow> Inr None | Inr x \<Rightarrow> f x)"

definition attempt :: "'a js \<Rightarrow> 'a option" where
  "attempt m = (case m of Inl _ \<Rightarrow> None | Inr x \<Rightarrow> Some x)"

definition assertBytes :: "bytes option \<Rightarrow> string \<Rightarrow> (bytes \<Rightarrow> 'a js) \<Rightarrow> 'a js" where
  "assertBytes b msg f = bindE (strictAssert (bytesIsNotEmpty b) msg) (\<lambda>_. f (the b))"

definition isValidProfileKey :: "bytes option \<Rightarrow> bool" where
  "isValidProfileKey buffer = (case buffer of None \<Rightarrow> False | Some b \<Rightarrow> length b = 32)"

definition normalizeTimestamp :: "env \<Rightarrow> int option \<Rightarrow> int" where
  "normalizeTimestamp E timestamp =
    (if \<not> truthy_num timestamp then 0
     else if the timestamp > date_now E then date_now E else the timestamp)"

definition decryptBlobAs :: "env \<Rightarrow> ClientZkGroupCipher \<Rightarrow> bytes \<Rightarrow> GroupAttributeBlob js" where
  "decryptBlobAs E cipher b = bindE (decryptGroupBlob cipher b) (decodeAttributeBlob E)"

text \<open>A label is dropped when it is missing or cannot be decrypted.\<close>

definition decryptLabel :: "env \<Rightarrow> ClientZkGroupCipher \<Rightarrow> bytes option \<Rightarrow> string option" where
  "decryptLabel E cipher b =
    (if bytesIsNotEmpty b then map_option (bytesToString E) (attempt (decryptGroupBlob cipher (the b)))
     else None)"

section \<open>Members\<close>

definition decryptMember :: "env \<Rightarrow> ClientZkGroupCipher \<Rightarrow> ProtoMember \<Rightarrow> DecryptedMember option js" where
  "decryptMember E cipher member =
    assertBytes (pm_userId member) ''decryptMember: Member had missing userId'' (\<lambda>userIdBytes.
    dropOnError (decryptAci cipher userIdBytes) (\<lambda>userId.
    assertBytes (pm_profileKey member) ''decryptMember: Member had missing profileKey'' (\<lambda>keyBytes.
    bindE (decryptProfileKey cipher keyBytes userId) (\<lambda>profileKey.
    if \<not> isValidProfileKey (Some profileKey) then throw ''decryptMember: Member had invalid profileKey''
    else if \<not> isValidRole (pm_role member) then throw ''decryptMember: Member had invalid role''
    else Inr (Some
      \<lparr>dm_userId = userId, dm_profileKey = Some profileKey, dm_role = the (pm_role member),
       dm_joinedAtVersion = nullish (pm_joinedAtVersion member) 0,
       dm_labelEmoji = decryptLabel E cipher (pm_labelEmoji member),
       dm_labelString = decryptLabel E cipher (pm_labelString member)\<rparr>)))))"

definition decryptMemberPendingProfileKey :: "env \<Rightarrow> ClientZkGroupCipher \<Rightarrow> ProtoMemberPendingProfileKey \<Rightarrow>
    DecryptedMemberPendingProfileKey option js" where
  "decryptMemberPendingProfileKey E cipher member =
    assertBytes (pmp_addedByUserId member)
      ''decryptMemberPendingProfileKey: Member had missing addedByUserId'' (\<lambda>addedBytes.
    dropOnError (decryptAci cipher addedBytes) (\<lambda>addedByUserId.
    case pmp_member member of
      None \<Rightarrow> Inr None
    | Some m \<Rightarrow>
        bindE (strictAssert (bytesIsEmpty (pm_profileKey m))
            ''decryptMemberPendingProfileKey: member has profileKey'') (\<lambda>_.
        assertBytes (pm_userId m)
            ''decryptMemberPendingProfileKey: Member had missing member.userId'' (\<lambda>userIdBytes.
        dropOnError (decryptServiceId cipher userIdBytes) (\<lambda>decryptedUserId.
        bindE (strictAssert (isValidRole (pm_role m))
            ''decryptMemberPendingProfileKey: Member had invalid role'') (\<lambda>_.
        Inr (Some \<lparr>dp_addedByUserId = addedByUserId, dp_timestamp = normalizeTimestamp E (pmp_timestamp member),
          dp_member = Some \<lparr>pd_userId = decryptedUserId, pd_role = pm_role m\<rparr>\<rparr>)))))))"

definition decryptMemberPendingAdminApproval :: "env \<Rightarrow> ClientZkGroupCipher \<Rightarrow>
    ProtoMemberPendingAdminApproval \<Rightarrow> DecryptedMemberPendingAdminApproval option js" where
  "decryptMemberPendingAdminApproval E cipher member =
    assertBytes (pma_userId member) ''decryptMemberPendingAdminApproval: Missing userId'' (\<lambda>userIdBytes.
    dropOnError (decryptAci cipher userIdBytes) (\<lambda>userId.
    let profileKey = (if bytesIsNotEmpty (pma_profileKey member)
          then attempt (decryptProfileKey cipher (the (pma_profileKey member)) userId) else None)
    in Inr (Some \<lparr>da_userId = userId,
         da_profileKey = (if isValidProfileKey profileKey then profileKey else None),
         da_timestamp = normalizeTimestamp E (pma_timestamp member)\<rparr>)))"

definition decryptModifyMemberLabelAction :: "env \<Rightarrow> ClientZkGroupCipher \<Rightarrow> ProtoModifyLabelAction \<Rightarrow>
    DecryptedModifyMemberLabelAction option js" where
  "decryptModifyMemberLabelAction E cipher modifyMember =
    assertBytes (pml_userId modifyMember) ''decryptModifyMemberLabelAction: Missing userId'' (\<lambda>userIdBytes.
    dropOnError (decryptAci cipher userIdBytes) (\<lambda>userId.
      Inr (Some \<lparr>ml_userId = userId,
        ml_labelEmoji = decryptLabel E cipher (pml_labelEmoji modifyMember),
        ml_labelString = decryptLabel E cipher (pml_labelString modifyMember)\<rparr>)))"

definition decryptGroupTitle :: "env \<Rightarrow> bytes option \<Rightarrow> string \<Rightarrow> string option js" where
  "decryptGroupTitle E title secretParams =
    bindE (getClientZkGroupCipher E secretParams) (\<lambda>cipher.
      if bytesIsEmpty title then Inr None
      else bindE (decryptBlobAs E cipher (the title)) (\<lambda>blob. Inr (blob_title (Some blob))))"

definition decryptGroupDescription :: "env \<Rightarrow> bytes option \<Rightarrow> string \<Rightarrow> string option js" where
  "decryptGroupDescription E description secretParams =
    bindE (getClientZkGroupCipher E secretParams) (\<lambda>cipher.
      if bytesIsEmpty description then Inr None
      else bindE (decryptBlobAs E cipher (the description)) (\<lambda>blob. Inr (blob_description (Some blob))))"

section \<open>The actions of a change\<close>

definition decryptAddMember :: "env \<Rightarrow> ClientZkGroupCipher \<Rightarrow> ProtoAddMemberAction \<Rightarrow> DecryptedAddMember option js" where
  "decryptAddMember E cipher addMember =
    bindE (strictAssertSome (pam_added addMember) ''decryptGroupChange: AddMember was missing added field!'') (\<lambda>added.
    bindE (decryptMember E cipher added) (\<lambda>decrypted.
    Inr (map_option (\<lambda>d. \<lparr>am_added = Some d, am_joinFromInviteLink = pam_joinFromInviteLink addMember\<rparr>) decrypted)))"

definition decryptDeletedAci :: "ClientZkGroupCipher \<Rightarrow> string \<Rightarrow> bytes option \<Rightarrow> string option js" where
  "decryptDeletedAci cipher msg deletedUserId =
    assertBytes deletedUserId msg (\<lambda>b. dropOnError (decryptAci cipher b) (\<lambda>u. Inr (Some u)))"

definition decryptModifyRole :: "ClientZkGroupCipher \<Rightarrow> string \<Rightarrow> string \<Rightarrow> ProtoModifyRoleAction \<Rightarrow>
    DecryptedModifyRole option js" where
  "decryptModifyRole cipher missing invalid act =
    assertBytes (pmr_userId act) missing (\<lambda>b.
    dropOnError (decryptAci cipher b) (\<lambda>userId.
      if \<not> isValidRole (pmr_role act) then throw invalid
      else Inr (Some \<lparr>mr_userId = userId, mr_role = the (pmr_role act)\<rparr>)))"

text \<open>Older changes carry the user and the profile key inside a credential presentation.\<close>

definition decryptProfileKeyAction :: "env \<Rightarrow> ClientZkGroupCipher \<Rightarrow> string \<Rightarrow> ProtoProfileKeyAction \<Rightarrow>
    DecryptedProfileKeyAction option js" where
  "decryptProfileKeyAction E cipher name act =
    bindE (if bytesIsEmpty (ppk_userId act) \<or> bytesIsEmpty (ppk_profileKey act)
           then assertBytes (ppk_presentation act) (name @ ''.presentation was missing'') (\<lambda>p.
                  bindE (decodePresentation E p) (\<lambda>(u, k). Inr (Some u, Some k)))
           else Inr (ppk_userId act, ppk_profileKey act)) (\<lambda>(userId, encryptedProfileKey).
    assertBytes userId (name @ ''.userId was missing'') (\<lambda>userIdBytes.
    assertBytes encryptedProfileKey (name @ ''.profileKey was missing'') (\<lambda>keyBytes.
    dropOnError (bindE (decryptAci cipher userIdBytes) (\<lambda>aci.
        bindE (decryptProfileKey cipher keyBytes aci) (\<lambda>profileKey. Inr (aci, profileKey))))
      (\<lambda>(aci, profileKey).
        if \<not> isValidProfileKey (Some profileKey) then throw (name @ '' had invalid profileKey'')
        else Inr (Some \<lparr>pk_profileKey = Some profileKey, pk_aci = aci\<rparr>)))))"

definition decryptAddPending :: "env \<Rightarrow> ClientZkGroupCipher \<Rightarrow> ProtoMemberPendingProfileKey option \<Rightarrow>
    DecryptedMemberPendingProfileKey option option js" where
  "decryptAddPending E cipher added =
    bindE (strictAssertSome added ''decryptGroupChange: addMemberPendingProfileKey was missing added field!'') (\<lambda>a.
    bindE (decryptMemberPendingProfileKey E cipher a) (\<lambda>decrypted. Inr (map_option Some decrypted)))"

definition decryptDeletePending :: "ClientZkGroupCipher \<Rightarrow> bytes option \<Rightarrow> string option js" where
  "decryptDeletePending cipher deletedUserId =
    assertBytes deletedUserId ''decryptGroupChange: deleteMemberPendingProfileKey.deletedUserId was missing'' (\<lambda>b.
    dropOnError (decryptServiceId cipher b) (\<lambda>userId.
      if \<not> isServiceIdString (Some userId) then Inr None else Inr (Some userId)))"

definition decryptPniPromotion :: "ClientZkGroupCipher \<Rightarrow> ProtoPniPromotion \<Rightarrow> DecryptedPniPromotion option js" where
  "decryptPniPromotion cipher act =
    assertBytes (ppp_userId act) ''decryptGroupChange: promoteMembersPendingPniAciProfileKey.userId was missing'' (\<lambda>ub.
    assertBytes (ppp_pni act) ''decryptGroupChange: promoteMembersPendingPniAciProfileKey.pni was missing'' (\<lambda>pb.
    assertBytes (ppp_profileKey act) ''decryptGroupChange: promoteMembersPendingPniAciProfileKey.profileKey was missing'' (\<lambda>kb.
    dropOnError (bindE (decryptAci cipher ub) (\<lambda>aci. bindE (decryptPni cipher pb) (\<lambda>pni.
        bindE (decryptProfileKey cipher kb aci) (\<lambda>profileKey. Inr (aci, pni, profileKey)))))
      (\<lambda>(aci, pni, profileKey).
        if \<not> isValidProfileKey (Some profileKey)
        then throw ''decryptGroupChange: promoteMembersPendingPniAciProfileKey had invalid profileKey''
        else Inr (Some \<lparr>pp_profileKey = Some profileKey, pp_aci = aci, pp_pni = pni\<rparr>)))))"

definition decryptAddAdminApproval :: "env \<Rightarrow> ClientZkGroupCipher \<Rightarrow> ProtoMemberPendingAdminApproval option \<Rightarrow>
    DecryptedMemberPendingAdminApproval option option js" where
  "decryptAddAdminApproval E cipher added =
    bindE (strictAssertSome added ''decryptGroupChange: addMemberPendingAdminApproval was missing added field!'') (\<lambda>a.
    bindE (decryptMemberPendingAdminApproval E cipher a) (\<lambda>decrypted. Inr (map_option Some decrypted)))"

text \<open>An attribute whose ciphertext is missing is an empty change; one that cannot be decrypted is no change.\<close>

definition decryptAttribute :: "env \<Rightarrow> ClientZkGroupCipher \<Rightarrow> bytes option option \<Rightarrow> GroupAttributeBlob option option" where
  "decryptAttribute E cipher modify =
    (case modify of
       None \<Rightarrow> None
     | Some b \<Rightarrow>
         if bytesIsNotEmpty b then map_option Some (attempt (decryptBlobAs E cipher (the b)))
         else Some None)"

definition decryptAccess :: "(int option \<Rightarrow> bool) \<Rightarrow> string \<Rightarrow> int option option \<Rightarrow> int option js" where
  "decryptAccess valid msg modify =
    (case modify of None \<Rightarrow> Inr None
     | Some access \<Rightarrow> bindE (strictAssert (valid access) msg) (\<lambda>_. Inr access))"

definition decryptBanned :: "env \<Rightarrow> ClientZkGroupCipher \<Rightarrow> ProtoMemberBanned option \<Rightarrow>
    GroupV2BannedMemberType option js" where
  "decryptBanned E cipher added =
    (case Option.bind added pmb_userId of
       None \<Rightarrow> Inr None
     | Some b \<Rightarrow> bindE (decryptServiceId cipher b) (\<lambda>serviceId.
         Inr (Some \<lparr>b_serviceId = serviceId, b_timestamp = normalizeTimestamp E (pmb_timestamp (the added))\<rparr>)))"

definition decryptUnbanned :: "ClientZkGroupCipher \<Rightarrow> bytes option \<Rightarrow> string option js" where
  "decryptUnbanned cipher deletedUserId =
    (case deletedUserId of None \<Rightarrow> Inr None
     | Some b \<Rightarrow> bindE (decryptServiceId cipher b) (\<lambda>u. Inr (Some u)))"

definition decryptSource :: "ClientZkGroupCipher \<Rightarrow> ProtoActions \<Rightarrow> string option js" where
  "decryptSource cipher actions =
    (if bytesIsNotEmpty (pa_sourceUserId actions) then
       (let source = attempt (decryptServiceId cipher (the (pa_sourceUserId actions)))
        in Inr (if isServiceIdString source then source else None))
     else throw ''decryptGroupChange: Missing sourceServiceId'')"

definition decryptGroupChange :: "env \<Rightarrow> ProtoActions \<Rightarrow> string \<Rightarrow> DecryptedGroupChangeActions js" where
  "decryptGroupChange E actions groupSecretParams =
    bindE (getClientZkGroupCipher E groupSecretParams) (\<lambda>cipher.
    bindE (decryptSource cipher actions) (\<lambda>source.
    bindE (compactMap (decryptAddMember E cipher) (pa_addMembers actions)) (\<lambda>addMembers.
    bindE (compactMap (decryptDeletedAci cipher ''decryptGroupChange: deleteMember.deletedUserId was missing'')
      (pa_deleteMembers actions)) (\<lambda>deleteMembers.
    bindE (compactMap (decryptModifyRole cipher ''decryptGroupChange: modifyMemberRole.userId was missing''
      ''decryptGroupChange: modifyMemberRole had invalid role'') (pa_modifyMemberRoles actions)) (\<lambda>roles.
    bindE (compactMap (decryptModifyMemberLabelAction E cipher) (pa_modifyMemberLabels actions)) (\<lambda>labels.
    bindE (compactMap (decryptProfileKeyAction E cipher ''decryptGroupChange: modifyMemberProfileKeys'')
      (pa_modifyMemberProfileKeys actions)) (\<lambda>profileKeys.
    bindE (compactMap (decryptAddPending E cipher) (pa_addMembersPendingProfileKey actions)) (\<lambda>addPending.
    bindE (compactMap (decryptDeletePending cipher) (pa_deleteMembersPendingProfileKey actions)) (\<lambda>deletePending.
    bindE (compactMap (decryptProfileKeyAction E cipher ''decryptGroupChange: promoteMemberPendingProfileKey'')
      (pa_promoteMembersPendingProfileKey actions)) (\<lambda>promote.
    bindE (compactMap (decryptPniPromotion cipher) (pa_promoteMembersPendingPniAciProfileKey actions)) (\<lambda>promotePni.
    bindE (decryptAccess isValidAccess ''decryptGroupChange: modifyAttributesAccess.attributesAccess was not valid''
      (pa_modifyAttributesAccess actions)) (\<lambda>attributesAccess.
    bindE (decryptAccess isValidAccess ''decryptGroupChange: modifyMemberAccess.membersAccess was not valid''
      (pa_modifyMemberAccess actions)) (\<lambda>membersAccess.
    bindE (decryptAccess isValidLinkAccess
      ''decryptGroupChange: modifyAddFromInviteLinkAccess.addFromInviteLinkAccess was not valid''
      (pa_modifyAddFromInviteLinkAccess actions)) (\<lambda>linkAccess.
    bindE (decryptAccess isValidAccess ''decryptGroupChange: modifyMemberLabelAccess.memberLabelAccess was not valid''
      (pa_modifyMemberLabelAccess actions)) (\<lambda>labelAccess.
    bindE (compactMap (decryptAddAdminApproval E cipher) (pa_addMembersPendingAdminApproval actions)) (\<lambda>addAdmin.
    bindE (compactMap (decryptDeletedAci cipher
      ''decryptGroupChange: deleteMemberPendingAdminApproval.deletedUserId was missing'')
      (pa_deleteMembersPendingAdminApproval actions)) (\<lambda>deleteAdmin.
    bindE (compactMap (decryptModifyRole cipher
      ''decryptGroupChange: promoteMemberPendingAdminApproval.userId was missing''
      ''decryptGroupChange: promoteMemberPendingAdminApproval had invalid role'')
      (pa_promoteMembersPendingAdminApproval actions)) (\<lambda>promoteAdmin.
    bindE (compactMap (decryptBanned E cipher) (pa_addMembersBanned actions)) (\<lambda>addBanned.
    bindE (compactMap (decryptUnbanned cipher) (pa_deleteMembersBanned actions)) (\<lambda>deleteBanned.
    Inr \<lparr>g_version = pa_version actions, g_sourceServiceId = source, g_addMembers = Some addMembers,
      g_deleteMembers = Some deleteMembers, g_modifyMemberRoles = Some roles,
      g_modifyMemberLabels = Some labels, g_modifyMemberProfileKeys = Some profileKeys,
      g_addMembersPendingProfileKey = Some addPending,
      g_deleteMembersPendingProfileKey = Some deletePending,
      g_promoteMembersPendingProfileKey = Some promote,
      g_promoteMembersPendingPniAciProfileKey = Some promotePni,
      g_modifyTitle = decryptAttribute E cipher (pa_modifyTitle actions),
      g_modifyDisappearingMessageTimer = decryptAttribute E cipher (pa_modifyDisappearingMessageTimer actions),
      g_addMembersPendingAdminApproval = Some addAdmin,
      g_deleteMembersPendingAdminApproval = Some deleteAdmin,
      g_promoteMembersPendingAdminApproval = Some promoteAdmin,
      g_modifyInviteLinkPassword = map_option (\<lambda>p. if bytesIsNotEmpty p then Some (toBase64 E (the p)) else None)
        (pa_modifyInviteLinkPassword actions),
      g_modifyDescription = decryptAttribute E cipher (pa_modifyDescription actions),
      g_modifyAnnouncementsOnly = pa_modifyAnnouncementsOnly actions,
      g_addMembersBanned = (if pa_addMembersBanned actions = [] then None else Some addBanned),
      g_deleteMembersBanned = (if pa_deleteMembersBanned actions = [] then None else Some deleteBanned),
      g_modifyAttributesAccess = attributesAccess, g_modifyMemberAccess = membersAccess,
      g_modifyAddFromInviteLinkAccess = linkAccess, g_modifyMemberLabelAccess = labelAccess,
      g_modifyAvatar = pa_modifyAvatar actions, g_terminateGroup = pa_terminateGroup actions\<rparr>))))))))))))))))))))"

section \<open>The state of a group\<close>

definition decryptStateBlob :: "env \<Rightarrow> ClientZkGroupCipher \<Rightarrow> bytes option \<Rightarrow> GroupAttributeBlob option" where
  "decryptStateBlob E cipher b =
    (if bytesIsNotEmpty b then attempt (decryptBlobAs E cipher (the b)) else None)"

definition decryptStateAccess :: "ProtoAccessControl option \<Rightarrow> AccessControlType js" where
  "decryptStateAccess accessControl =
    bindE (strictAssertSome accessControl ''No accessControl field found'') (\<lambda>ac.
    let attributes = nullish (pac_attributes ac) ACCESS_UNKNOWN;
        members = nullish (pac_members ac) ACCESS_UNKNOWN;
        addFromInviteLink = nullish (pac_addFromInviteLink ac) ACCESS_UNKNOWN;
        memberLabel = nullish (pac_memberLabel ac) ACCESS_UNKNOWN
    in bindE (strictAssert (isValidAccess (Some attributes))
         ''decryptGroupState: Access control for attributes is invalid'') (\<lambda>_.
       bindE (strictAssert (isValidAccess (Some members))
         ''decryptGroupState: Access control for members is invalid'') (\<lambda>_.
       bindE (strictAssert (isValidLinkAccess (Some addFromInviteLink))
         ''decryptGroupState: Access control for invite link is invalid'') (\<lambda>_.
       bindE (strictAssert (isValidAccess (Some memberLabel))
         ''decryptGroupState: Access control for member label is invalid'') (\<lambda>_.
       Inr \<lparr>ac_attributes = attributes, ac_members = members, ac_addFromInviteLink = addFromInviteLink,
            ac_memberLabel = Some memberLabel\<rparr>)))))"

definition decryptStateList :: "('a \<Rightarrow> 'b option js) \<Rightarrow> 'a list option \<Rightarrow> 'b list option js" where
  "decryptStateList f xs =
    (case xs of None \<Rightarrow> Inr None | Some l \<Rightarrow> bindE (compactMap f l) (\<lambda>r. Inr (Some r)))"

definition decryptStateBanned :: "ClientZkGroupCipher \<Rightarrow> ProtoMemberBanned \<Rightarrow> GroupV2BannedMemberType option js" where
  "decryptStateBanned cipher item =
    (case pmb_userId item of
       None \<Rightarrow> Inr None
     | Some b \<Rightarrow> bindE (decryptServiceId cipher b) (\<lambda>serviceId.
         Inr (Some \<lparr>b_serviceId = serviceId, b_timestamp = nullish (pmb_timestamp item) 0\<rparr>)))"

definition decryptGroupState :: "env \<Rightarrow> ProtoGroup \<Rightarrow> string \<Rightarrow> DecryptedGroupState js" where
  "decryptGroupState E groupState groupSecretParams =
    bindE (getClientZkGroupCipher E groupSecretParams) (\<lambda>cipher.
    bindE (decryptStateAccess (pg_accessControl groupState)) (\<lambda>accessControl.
    bindE (decryptStateList (decryptMember E cipher) (pg_members groupState)) (\<lambda>members.
    bindE (decryptStateList (decryptMemberPendingProfileKey E cipher)
      (pg_membersPendingProfileKey groupState)) (\<lambda>pending.
    bindE (decryptStateList (decryptMemberPendingAdminApproval E cipher)
      (pg_membersPendingAdminApproval groupState)) (\<lambda>admins.
    bindE (compactMap (decryptStateBanned cipher) (or_list (pg_membersBanned groupState))) (\<lambda>banned.
    Inr \<lparr>s_title = decryptStateBlob E cipher (pg_title groupState),
      s_disappearingMessagesTimer = decryptStateBlob E cipher (pg_disappearingMessagesTimer groupState),
      s_accessControl = Some accessControl, s_version = Some (nullish (pg_version groupState) 0),
      s_members = members, s_membersPendingProfileKey = pending, s_membersPendingAdminApproval = admins,
      s_inviteLinkPassword = (if bytesIsNotEmpty (pg_inviteLinkPassword groupState)
        then Some (toBase64 E (the (pg_inviteLinkPassword groupState))) else None),
      s_description = decryptStateBlob E cipher (pg_description groupState),
      s_avatarUrl = pg_avatarUrl groupState,
      s_announcementsOnly = Some (truthy_bool (pg_announcementsOnly groupState)),
      s_membersBanned = Some banned, s_terminated = Some (truthy_bool (pg_terminated groupState))\<rparr>))))))"

section \<open>What decryption guarantees\<close>

text \<open>libsignal never gives an empty service id.\<close>

definition cipher_ids :: "ClientZkGroupCipher \<Rightarrow> bool" where
  "cipher_ids cipher \<longleftrightarrow> (\<forall>b obj. zk_decryptServiceId cipher b = Inr obj \<longrightarrow> fromServiceIdObject obj \<noteq> [])"

lemma compactMap_Inr:
  assumes "compactMap f xs = Inr ys" and "y \<in> set ys"
  shows "\<exists>x \<in> set xs. f x = Inr (Some y)"
proof -
  from assms(1) obtain zs where zs: "mapE f xs = Inr zs" "ys = List.map_filter (\<lambda>y. y) zs"
    by (auto simp: compactMap_def bindE_eq_Inr)
  with assms(2) have "Some y \<in> set zs"
    by (auto simp: map_filter_def)
  with mapE_eq_Inr_nth [OF zs(1)] show ?thesis
    by (induction rule: list_all2_induct) auto
qed

lemma assertBytes_Inr: "assertBytes b msg f = Inr x \<longleftrightarrow> bytesIsNotEmpty b \<and> f (the b) = Inr x"
  by (auto simp: assertBytes_def bindE_eq_Inr strictAssert_def)

lemma dropOnError_Some: "dropOnError m f = Inr (Some y) \<longleftrightarrow> (\<exists>x. m = Inr x \<and> f x = Inr (Some y))"
  by (auto simp: dropOnError_def split: sum.splits)

lemmas decrypt_simps = assertBytes_Inr dropOnError_Some bindE_eq_Inr strictAssertSome_eq_Inr

lemma decrypt_ids:
  assumes "cipher_ids cipher"
  shows "decryptAci cipher b \<noteq> Inr []" "decryptServiceId cipher b \<noteq> Inr []" "decryptPni cipher b \<noteq> Inr []"
  using assms
  by (auto simp: decryptAci_def decryptPni_def decryptServiceId_def bindE_def cipher_ids_def
      split: sum.splits ServiceIdObject.splits) (force | metis fromServiceIdObject.simps)+

lemma decryptMember_valid:
  "decryptMember E cipher m = Inr (Some d) \<Longrightarrow> isValidRole (Some (dm_role d))"
  by (auto simp: decryptMember_def decrypt_simps isValidRole_def split: if_splits)

lemma decryptMember_id:
  "decryptMember E cipher m = Inr (Some d) \<Longrightarrow> cipher_ids cipher \<Longrightarrow> dm_userId d \<noteq> []"
  by (auto simp: decryptMember_def decrypt_simps decrypt_ids split: if_splits)

lemma decryptMemberPendingProfileKey_valid:
  "decryptMemberPendingProfileKey E cipher m = Inr (Some d) \<Longrightarrow> cipher_ids cipher \<Longrightarrow> validPending d"
  by (auto simp: decryptMemberPendingProfileKey_def decrypt_simps validPending_def decrypt_ids
      split: option.splits)

lemma decryptStateList_Inr:
  "decryptStateList f xs = Inr r \<Longrightarrow> y \<in> set (or_list r) \<Longrightarrow> \<exists>x. f x = Inr (Some y)"
  by (auto simp: decryptStateList_def bindE_eq_Inr dest: compactMap_Inr split: option.splits)

text \<open>Actions whose guarded fields are present, as decryption produces them.\<close>

definition wellFormedActions :: "DecryptedGroupChangeActions \<Rightarrow> bool" where
  "wellFormedActions acts \<longleftrightarrow>
    list_all (\<lambda>a. case am_added a of None \<Rightarrow> False | Some d \<Rightarrow> dm_userId d \<noteq> []) (or_list (g_addMembers acts)) \<and>
    list_all (\<lambda>u. u \<noteq> []) (or_list (g_deleteMembers acts)) \<and>
    list_all (\<lambda>a. mr_role a \<noteq> 0 \<and> mr_userId a \<noteq> []) (or_list (g_modifyMemberRoles acts)) \<and>
    list_all (\<lambda>a. ml_userId a \<noteq> []) (or_list (g_modifyMemberLabels acts)) \<and>
    list_all (\<lambda>a. pk_profileKey a \<noteq> None \<and> pk_aci a \<noteq> []) (or_list (g_modifyMemberProfileKeys acts)) \<and>
    list_all (\<lambda>a. case Option.bind a dp_member of None \<Rightarrow> False | Some m \<Rightarrow> pd_userId m \<noteq> [])
      (or_list (g_addMembersPendingProfileKey acts)) \<and>
    list_all (\<lambda>u. u \<noteq> []) (or_list (g_deleteMembersPendingProfileKey acts)) \<and>
    list_all (\<lambda>a. pk_profileKey a \<noteq> None \<and> pk_aci a \<noteq> []) (or_list (g_promoteMembersPendingProfileKey acts)) \<and>
    list_all (\<lambda>a. pp_profileKey a \<noteq> None \<and> pp_aci a \<noteq> [] \<and> pp_pni a \<noteq> [])
      (or_list (g_promoteMembersPendingPniAciProfileKey acts)) \<and>
    list_all (\<lambda>a. a \<noteq> None) (or_list (g_addMembersPendingAdminApproval acts)) \<and>
    list_all (\<lambda>u. u \<noteq> []) (or_list (g_deleteMembersPendingAdminApproval acts)) \<and>
    list_all (\<lambda>a. mr_userId a \<noteq> []) (or_list (g_promoteMembersPendingAdminApproval acts))"

lemma decryptAddMember_wf:
  "decryptAddMember E cipher a = Inr (Some d) \<Longrightarrow> cipher_ids cipher \<Longrightarrow>
    (case am_added d of None \<Rightarrow> False | Some m \<Rightarrow> dm_userId m \<noteq> [])"
  by (auto simp: decryptAddMember_def decrypt_simps dest: decryptMember_id)

lemma decryptDeletedAci_wf: "decryptDeletedAci cipher msg b = Inr (Some u) \<Longrightarrow> cipher_ids cipher \<Longrightarrow> u \<noteq> []"
  by (auto simp: decryptDeletedAci_def decrypt_simps decrypt_ids)

lemma decryptModifyRole_wf:
  "decryptModifyRole cipher m1 m2 a = Inr (Some r) \<Longrightarrow> cipher_ids cipher \<Longrightarrow> mr_role r \<noteq> 0 \<and> mr_userId r \<noteq> []"
  by (auto simp: decryptModifyRole_def decrypt_simps decrypt_ids isValidRole_def split: if_splits)

lemma decryptLabelAction_wf:
  "decryptModifyMemberLabelAction E cipher a = Inr (Some l) \<Longrightarrow> cipher_ids cipher \<Longrightarrow> ml_userId l \<noteq> []"
  by (auto simp: decryptModifyMemberLabelAction_def decrypt_simps decrypt_ids)

lemma decryptProfileKeyAction_wf:
  "decryptProfileKeyAction E cipher n a = Inr (Some p) \<Longrightarrow> cipher_ids cipher \<Longrightarrow>
    pk_profileKey p \<noteq> None \<and> pk_aci p \<noteq> []"
  by (auto simp: decryptProfileKeyAction_def decrypt_simps decrypt_ids split: if_splits prod.splits)

lemma decryptAddPending_wf:
  "decryptAddPending E cipher a = Inr (Some p) \<Longrightarrow> cipher_ids cipher \<Longrightarrow>
    (case Option.bind p dp_member of None \<Rightarrow> False | Some m \<Rightarrow> pd_userId m \<noteq> [])"
  by (auto simp: decryptAddPending_def decrypt_simps validPending_def
      dest!: decryptMemberPendingProfileKey_valid split: option.splits)

lemma decryptDeletePending_wf: "decryptDeletePending cipher b = Inr (Some u) \<Longrightarrow> cipher_ids cipher \<Longrightarrow> u \<noteq> []"
  by (auto simp: decryptDeletePending_def decrypt_simps decrypt_ids split: if_splits)

lemma decryptPniPromotion_wf:
  "decryptPniPromotion cipher a = Inr (Some q) \<Longrightarrow> cipher_ids cipher \<Longrightarrow>
    pp_profileKey q \<noteq> None \<and> pp_aci q \<noteq> [] \<and> pp_pni q \<noteq> []"
  by (auto simp: decryptPniPromotion_def decrypt_simps decrypt_ids split: if_splits prod.splits)

lemma decryptAddAdminApproval_wf:
  "decryptAddAdminApproval E cipher a = Inr (Some d) \<Longrightarrow> d \<noteq> None"
  by (auto simp: decryptAddAdminApproval_def decrypt_simps)

lemma list_all_compactMap:
  assumes "compactMap f xs = Inr ys" and "\<And>x y. f x = Inr (Some y) \<Longrightarrow> P y"
  shows "list_all P ys"
  using compactMap_Inr [OF assms(1)] assms(2) by (fastforce simp: list_all_iff)

lemma decryptGroupChange_wf:
  assumes "decryptGroupChange E actions secret = Inr acts"
    and "getClientZkGroupCipher E secret = Inr cipher" and "cipher_ids cipher"
  shows "wellFormedActions acts"
proof -
  note [intro] = list_all_compactMap
  show ?thesis
    using assms(1,2)
    by (clarsimp simp: decryptGroupChange_def bindE_eq_Inr wellFormedActions_def)
      (intro conjI; erule list_all_compactMap;
        blast dest: decryptAddMember_wf [OF _ assms(3)] decryptDeletedAci_wf [OF _ assms(3)]
          decryptModifyRole_wf [OF _ assms(3)] decryptLabelAction_wf [OF _ assms(3)]
          decryptProfileKeyAction_wf [OF _ assms(3)] decryptAddPending_wf [OF _ assms(3)]
          decryptDeletePending_wf [OF _ assms(3)] decryptPniPromotion_wf [OF _ assms(3)]
          decryptAddAdminApproval_wf)
qed

definition nonexistentMember :: "js_error set" where
  "nonexistentMember =
    {JsError None ''applyGroupChange: modifyMemberRole tried to modify nonexistent member'',
     JsError None ''applyGroupChange: modifyMemberLabel tried to modify nonexistent member''}"

lemma step_errors:
  "case am_added a of None \<Rightarrow> False | Some d \<Rightarrow> dm_userId d \<noteq> [] \<Longrightarrow> applyAddMember us src v a s \<noteq> Inl e"
  "u \<noteq> [] \<Longrightarrow> applyDeleteMember u s \<noteq> Inl e"
  "mr_role r \<noteq> 0 \<and> mr_userId r \<noteq> [] \<Longrightarrow> applyModifyMemberRole r s = Inl e \<Longrightarrow> e \<in> nonexistentMember"
  "ml_userId l \<noteq> [] \<Longrightarrow> applyModifyMemberLabel l s = Inl e \<Longrightarrow> e \<in> nonexistentMember"
  "pk_profileKey k \<noteq> None \<and> pk_aci k \<noteq> [] \<Longrightarrow> applyModifyMemberProfileKey E src k s \<noteq> Inl e"
  "case Option.bind p dp_member of None \<Rightarrow> False | Some m \<Rightarrow> pd_userId m \<noteq> [] \<Longrightarrow> applyAddPending p s \<noteq> Inl e"
  "u \<noteq> [] \<Longrightarrow> applyDeletePending u s \<noteq> Inl e"
  "pk_profileKey k \<noteq> None \<and> pk_aci k \<noteq> [] \<Longrightarrow> applyPromotePending v k s \<noteq> Inl e"
  "pp_profileKey q \<noteq> None \<and> pp_aci q \<noteq> [] \<and> pp_pni q \<noteq> [] \<Longrightarrow> applyPromotePendingPni v q s \<noteq> Inl e"
  "x \<noteq> None \<Longrightarrow> applyAddAdminApproval x s \<noteq> Inl e"
  "u \<noteq> [] \<Longrightarrow> applyDeleteAdminApproval u s \<noteq> Inl e"
  "mr_userId r \<noteq> [] \<Longrightarrow> applyPromoteAdminApproval us v r s \<noteq> Inl e"
  by (auto simp: member_steps pending_steps approval_steps Let_def nonexistentMember_def
      split: option.splits if_splits)

lemma forE_errors:
  "forE f xs s = Inl e \<Longrightarrow> list_all P xs \<Longrightarrow> (\<And>x s. P x \<Longrightarrow> f x s = Inl e \<Longrightarrow> Q) \<Longrightarrow> Q"
  by (drule forE_Inl) (auto simp: list_all_iff)

lemma applyMemberActions_errors:
  assumes wf: "wellFormedActions acts" and run: "applyMemberActions E us src v acts s = Inl e"
  shows "e \<in> nonexistentMember \<and>
    (or_list (g_modifyMemberRoles acts) \<noteq> [] \<or> or_list (g_modifyMemberLabels acts) \<noteq> [])"
proof -
  note w = wf [unfolded wellFormedActions_def]
  from run consider
      s where "forE (applyAddMember us src v) (or_list (g_addMembers acts)) s = Inl e"
    | s where "forE applyDeleteMember (or_list (g_deleteMembers acts)) s = Inl e"
    | s where "forE applyModifyMemberRole (or_list (g_modifyMemberRoles acts)) s = Inl e"
    | s where "forE applyModifyMemberLabel (or_list (g_modifyMemberLabels acts)) s = Inl e"
    | s where "forE (applyModifyMemberProfileKey E src) (or_list (g_modifyMemberProfileKeys acts)) s = Inl e"
    | s where "forE applyAddPending (or_list (g_addMembersPendingProfileKey acts)) s = Inl e"
    | s where "forE applyDeletePending (or_list (g_deleteMembersPendingProfileKey acts)) s = Inl e"
    | s where "forE (applyPromotePending v) (or_list (g_promoteMembersPendingProfileKey acts)) s = Inl e"
    | s where "forE (applyPromotePendingPni v) (or_list (g_promoteMembersPendingPniAciProfileKey acts)) s = Inl e"
    unfolding applyMemberActions_def bindE_eq_Inl by metis
  then show ?thesis
  proof cases
    case 1 then show ?thesis by (rule forE_errors) (use w step_errors(1) in blast)+
  next
    case 2 then show ?thesis by (rule forE_errors) (use w step_errors(2) in blast)+
  next
    case 3
    then have "or_list (g_modifyMemberRoles acts) \<noteq> []" by auto
    moreover have "e \<in> nonexistentMember"
      using 3 by (rule forE_errors) (use w step_errors(3) in blast)+
    ultimately show ?thesis by blast
  next
    case 4
    then have "or_list (g_modifyMemberLabels acts) \<noteq> []" by auto
    moreover have "e \<in> nonexistentMember"
      using 4 by (rule forE_errors) (use w step_errors(4) in blast)+
    ultimately show ?thesis by blast
  next
    case 5 then show ?thesis by (rule forE_errors) (use w step_errors(5) in blast)+
  next
    case 6 then show ?thesis by (rule forE_errors) (use w step_errors(6) in blast)+
  next
    case 7 then show ?thesis by (rule forE_errors) (use w step_errors(7) in blast)+
  next
    case 8 then show ?thesis by (rule forE_errors) (use w step_errors(8) in blast)+
  next
    case 9 then show ?thesis by (rule forE_errors) (use w step_errors(9) in blast)+
  qed
qed

lemma applyAttributeActions_no_error: "applyAttributeActions E us src acts s \<noteq> Inl e"
proof -
  have "applyNewAvatar E n a f \<noteq> Inl e'" for n a f e'
    using applyNewAvatar_Inr [of E n a f] by auto
  then show ?thesis
    by (auto simp: applyAttributeActions_def Let_def bindE_eq_Inl split: option.splits prod.splits)
qed

lemma applyApprovalActions_no_error:
  assumes wf: "wellFormedActions acts"
  shows "applyApprovalActions us v acts s \<noteq> Inl e"
proof
  note w = wf [unfolded wellFormedActions_def]
  assume "applyApprovalActions us v acts s = Inl e"
  then consider
      s where "forE applyAddAdminApproval (or_list (g_addMembersPendingAdminApproval acts)) s = Inl e"
    | s where "forE applyDeleteAdminApproval (or_list (g_deleteMembersPendingAdminApproval acts)) s = Inl e"
    | s where "forE (applyPromoteAdminApproval us v) (or_list (g_promoteMembersPendingAdminApproval acts)) s = Inl e"
    unfolding applyApprovalActions_def bindE_eq_Inl by metis
  then show False
  proof cases
    case 1 then show ?thesis by (rule forE_errors) (use w step_errors(10) in blast)+
  next
    case 2 then show ?thesis by (rule forE_errors) (use w step_errors(11) in blast)+
  next
    case 3 then show ?thesis by (rule forE_errors) (use w step_errors(12) in blast)+
  qed
qed

lemma applyGroupChange_errors:
  assumes "wellFormedActions acts" and "e_ourAci E \<noteq> None" and "applyGroupChange E acts grp src = Inl e"
  shows "e \<in> nonexistentMember \<and>
    (or_list (g_modifyMemberRoles acts) \<noteq> [] \<or> or_list (g_modifyMemberLabels acts) \<noteq> [])"
proof -
  have "\<exists>us v s. applyMemberActions E us src v acts s = Inl e"
    using assms applyAttributeActions_no_error applyApprovalActions_no_error [OF assms(1)]
    by (auto simp: applyGroupChange_def Let_def bindE_eq_Inl split: prod.splits)
  then show ?thesis using applyMemberActions_errors [OF assms(1)] by blast
qed

text \<open>A change that modifies no role and no label is applied.\<close>

lemma applyGroupChange_applies:
  assumes "wellFormedActions acts" and "e_ourAci E \<noteq> None"
    and "or_list (g_modifyMemberRoles acts) = []" and "or_list (g_modifyMemberLabels acts) = []"
  shows "\<exists>r. applyGroupChange E acts grp src = Inr r"
  using applyGroupChange_errors [OF assms(1,2)] assms(3,4)
  by (cases "applyGroupChange E acts grp src") auto

section \<open>Properties\<close>

text \<open>
C37: What \<open>decryptGroupState\<close> accepts, \<open>applyGroupState\<close> accepts: the validation at decryption covers
every guard of the application, so a state that was decrypted is always applied. (Relied on: the
cipher gives no empty service id.)
\<close>

theorem decrypted_state_applies:
  assumes "decryptGroupState E groupState secret = Inr st"
    and "getClientZkGroupCipher E secret = Inr cipher" and "cipher_ids cipher"
    and "e_ourAci E \<noteq> None"
  shows "\<exists>r. applyGroupState E grp st src = Inr r"
proof -
  from assms(1,2) obtain ac members pending admins banned where
    members: "decryptStateList (decryptMember E cipher) (pg_members groupState) = Inr members"
    and pending: "decryptStateList (decryptMemberPendingProfileKey E cipher)
      (pg_membersPendingProfileKey groupState) = Inr pending"
    and st: "s_members st = members" "s_membersPendingProfileKey st = pending"
    by (auto simp: decryptGroupState_def bindE_eq_Inr)
  have "isValidRole (Some (dm_role d))" if "d \<in> set (or_list members)" for d
    using decryptStateList_Inr [OF members that] decryptMember_valid by blast
  moreover have "validPending d" if "d \<in> set (or_list pending)" for d
    using decryptStateList_Inr [OF pending that] decryptMemberPendingProfileKey_valid assms(3) by blast
  ultimately have "e_ourAci E \<noteq> None \<and>
      list_all (\<lambda>m. isValidRole (Some (dm_role m))) (or_list (s_members st)) \<and>
      list_all validPending (or_list (s_membersPendingProfileKey st))"
    using assms(4) by (simp add: st list_all_iff)
  then show ?thesis by (cases "e_ourAci E") (auto simp: applyGroupState_ok)
qed

definition exampleProtoState :: ProtoGroup where
  "exampleProtoState =
    \<lparr>pg_title = Some (bytes_of_chars ''Name''), pg_description = None, pg_avatarUrl = None,
     pg_disappearingMessagesTimer = None,
     pg_accessControl = Some \<lparr>pac_attributes = Some ACCESS_MEMBER, pac_members = Some ACCESS_MEMBER,
       pac_addFromInviteLink = None, pac_memberLabel = None\<rparr>,
     pg_version = Some 6,
     pg_members = Some [\<lparr>pm_userId = Some (bytes_of_chars ''us''), pm_profileKey = Some (replicate 32 7), pm_presentation = None,
       pm_role = Some ROLE_DEFAULT, pm_joinedAtVersion = Some 6, pm_labelEmoji = None, pm_labelString = None\<rparr>],
     pg_membersPendingProfileKey = Some [], pg_membersPendingAdminApproval = Some [],
     pg_inviteLinkPassword = None, pg_announcementsOnly = None, pg_terminated = None,
     pg_membersBanned = None\<rparr>"

text \<open>A cipher that rejects the empty ciphertext, so that its ids are never empty.\<close>

definition nonemptyCipher :: ClientZkGroupCipher where
  "nonemptyCipher = exampleCipher\<lparr>zk_decryptServiceId :=
    (\<lambda>b. if b = [] then throw ''empty'' else Inr (AciObject (chars_of_bytes b)))\<rparr>"

definition nonemptyEnv :: env where
  "nonemptyEnv = exampleEnv\<lparr>getClientZkGroupCipher := (\<lambda>_. Inr nonemptyCipher)\<rparr>"

lemma nonemptyEnv_facts:
  "cipher_ids nonemptyCipher" "getClientZkGroupCipher nonemptyEnv s = Inr nonemptyCipher"
  "e_ourAci nonemptyEnv = Some ''us''"
  by (auto simp: cipher_ids_def nonemptyCipher_def nonemptyEnv_def chars_of_bytes_def split: if_splits)

theorem decrypted_state_applies_witness:
  "\<exists>st r. decryptGroupState nonemptyEnv exampleProtoState ''secret'' = Inr st \<and>
    applyGroupState nonemptyEnv exampleGroup st None = Inr r"
proof -
  have "\<exists>st. decryptGroupState nonemptyEnv exampleProtoState ''secret'' = Inr st"
    by (simp add: decryptGroupState_def nonemptyEnv_facts exampleProtoState_def decryptStateAccess_def
        isValidAccess_def isValidLinkAccess_def decryptStateList_def compactMap_def decryptMember_def
        assertBytes_def bytes_of_chars_def dropOnError_def decryptAci_def nonemptyCipher_def
        exampleCipher_def decryptProfileKey_def isValidProfileKey_def isValidRole_def Let_def)
  then obtain st where st: "decryptGroupState nonemptyEnv exampleProtoState ''secret'' = Inr st" by blast
  show ?thesis
    using decrypted_state_applies [OF st nonemptyEnv_facts(2,1)] st nonemptyEnv_facts(3) by auto
qed

text \<open>
C29: A decrypted change fails for one reason only: every \<open>missing value\<close> guard of \<open>applyGroupChange\<close>
is already met by the output of \<open>decryptGroupChange\<close>, so if the application throws, the change
modified the role or the label of a user who is not a member.
\<close>

theorem decrypted_change_errors:
  assumes "decryptGroupChange E actions secret = Inr acts"
    and "getClientZkGroupCipher E secret = Inr cipher" and "cipher_ids cipher"
    and "e_ourAci E \<noteq> None" and "applyGroupChange E acts grp src = Inl e"
  shows "e \<in> nonexistentMember"
  using applyGroupChange_errors [OF decryptGroupChange_wf [OF assms(1-3)] assms(4,5)] by blast

definition emptyProtoActions :: ProtoActions where
  "emptyProtoActions =
    \<lparr>pa_sourceUserId = Some (bytes_of_chars ''eve''), pa_groupId = None, pa_version = Some 6, pa_addMembers = [],
     pa_deleteMembers = [], pa_modifyMemberRoles = [], pa_modifyMemberLabels = [],
     pa_modifyMemberProfileKeys = [], pa_addMembersPendingProfileKey = [],
     pa_deleteMembersPendingProfileKey = [], pa_promoteMembersPendingProfileKey = [],
     pa_promoteMembersPendingPniAciProfileKey = [], pa_modifyTitle = None, pa_modifyAvatar = None,
     pa_modifyDisappearingMessageTimer = None, pa_modifyAttributesAccess = None,
     pa_modifyMemberAccess = None, pa_modifyAddFromInviteLinkAccess = None,
     pa_modifyMemberLabelAccess = None, pa_addMembersPendingAdminApproval = [],
     pa_deleteMembersPendingAdminApproval = [], pa_promoteMembersPendingAdminApproval = [],
     pa_modifyInviteLinkPassword = None, pa_modifyDescription = None,
     pa_modifyAnnouncementsOnly = None, pa_terminateGroup = False, pa_addMembersBanned = [],
     pa_deleteMembersBanned = []\<rparr>"

theorem decrypted_change_errors_witness:
  "\<exists>acts e. decryptGroupChange nonemptyEnv (emptyProtoActions\<lparr>pa_modifyMemberRoles :=
      [\<lparr>pmr_userId = Some (bytes_of_chars ''bob''), pmr_role = Some ROLE_DEFAULT\<rparr>]\<rparr>) ''secret'' = Inr acts
    \<and> applyGroupChange nonemptyEnv acts exampleGroup ''eve'' = Inl e \<and> e \<in> nonexistentMember"
proof -
  let ?p = "emptyProtoActions\<lparr>pa_modifyMemberRoles :=
      [\<lparr>pmr_userId = Some (bytes_of_chars ''bob''), pmr_role = Some ROLE_DEFAULT\<rparr>]\<rparr>"
  have "\<exists>acts. decryptGroupChange nonemptyEnv ?p ''secret'' = Inr acts \<and> or_list (g_addMembers acts) = [] \<and>
      or_list (g_deleteMembers acts) = [] \<and>
      or_list (g_modifyMemberRoles acts) = [\<lparr>mr_userId = chars_of_bytes (bytes_of_chars ''bob''), mr_role = ROLE_DEFAULT\<rparr>]"
    by (simp add: decryptGroupChange_def nonemptyEnv_facts emptyProtoActions_def decryptSource_def
        compactMap_def decryptModifyRole_def assertBytes_def bytes_of_chars_def dropOnError_def decryptAci_def
        nonemptyCipher_def exampleCipher_def isValidRole_def decryptAccess_def map_filter_def Let_def)
  then obtain acts where d: "decryptGroupChange nonemptyEnv ?p ''secret'' = Inr acts"
    and acts: "or_list (g_addMembers acts) = []" "or_list (g_deleteMembers acts) = []"
      "or_list (g_modifyMemberRoles acts) = [\<lparr>mr_userId = chars_of_bytes (bytes_of_chars ''bob''), mr_role = ROLE_DEFAULT\<rparr>]"
    by blast
  have "\<exists>e. applyGroupChange nonemptyEnv acts exampleGroup ''eve'' = Inl e"
    by (simp add: applyGroupChange_def nonemptyEnv_facts applyMemberActions_def acts applyModifyMemberRole_def
        startLookups_def exampleGroup_def js_of_pairs_def Let_def)
  then obtain e where e: "applyGroupChange nonemptyEnv acts exampleGroup ''eve'' = Inl e" by blast
  show ?thesis
    using decrypted_change_errors [OF d nonemptyEnv_facts(2,1) _ e] d e nonemptyEnv_facts(3) by auto
qed

end
