(* ===== verification/Group_Diff.thy ===== *)
theory Group_Diff
  imports Group_Membership Send_State
begin

text \<open>
  \<open>extractDiffs\<close> of ts/groups.preload.ts: the timeline messages that describe how a group went from
  its old to its current attributes. The function collects change details while it empties lookups
  of the old lists (\<open>diff_state\<close>); what is left in a lookup was removed. Then it chooses which
  message to show.
\<close>

section \<open>Messages\<close>

record GroupV2ChangeType =
  gc_from :: "string option"
  gc_details :: "GroupV2ChangeDetailType list"

text \<open>The messages that the engine generates: a group change, or a change of the timer.\<close>

datatype GroupChangeMessageType =
    GroupV2ChangeMessage "string option" GroupV2ChangeType "ReadStatus option" "SeenStatus option"
  | TimerNotificationMessage "string option" int int "string option" ReadStatus SeenStatus

abbreviation (input) EXPIRATION_TIMER_UPDATE :: int where "EXPIRATION_TIMER_UPDATE \<equiv> 2"

datatype ServiceIdKind = KindACI | KindPNI

definition getCheckedServiceId :: "env \<Rightarrow> ServiceIdKind \<Rightarrow> string js" where
  "getCheckedServiceId E kind =
    strictAssertSome (case kind of KindPNI \<Rightarrow> e_ourPni E | KindACI \<Rightarrow> e_ourAci E) ''Must have our own uuid''"

definition normalizeTextField :: "string option \<Rightarrow> string" where
  "normalizeTextField text = (case text of None \<Rightarrow> [] | Some t \<Rightarrow> js_trim t)"

definition isUs :: "string \<Rightarrow> string option \<Rightarrow> string \<Rightarrow> bool" where
  "isUs ourAci ourPni serviceId \<longleftrightarrow> serviceId = ourAci \<or> ourPni = Some serviceId"

definition keepOnlyOurAdds :: "string \<Rightarrow> string option \<Rightarrow> GroupV2ChangeDetailType list \<Rightarrow>
    GroupV2ChangeDetailType list" where
  "keepOnlyOurAdds ourAci ourPni = filter (\<lambda>item. case item of
      MemberAddFromInvite aci _ _ \<Rightarrow> isUs ourAci ourPni aci
    | MemberAddFromLink aci \<Rightarrow> isUs ourAci ourPni aci
    | MemberAddFromAdminApproval aci \<Rightarrow> isUs ourAci ourPni aci
    | MemberAdd aci \<Rightarrow> isUs ourAci ourPni aci
    | _ \<Rightarrow> False)"

section \<open>Details of the attributes\<close>

definition diffAccess :: "ConversationAttributesType \<Rightarrow> ConversationAttributesType \<Rightarrow>
    GroupV2ChangeDetailType list" where
  "diffAccess old current =
    (case (c_accessControl current, c_accessControl old) of
       (Some cur, Some prev) \<Rightarrow>
         (if ac_attributes prev \<noteq> ac_attributes cur then [AccessAttributes (ac_attributes cur)] else []) @
         (if ac_members prev \<noteq> ac_members cur then [AccessMembers (ac_members cur)] else []) @
         (if ac_memberLabel prev \<noteq> None \<and> ac_memberLabel prev \<noteq> Some ACCESS_UNKNOWN \<and>
             ac_memberLabel prev \<noteq> ac_memberLabel cur
          then [AccessMemberLabel (nullish (ac_memberLabel cur) ACCESS_UNKNOWN)] else [])
     | _ \<Rightarrow> [])"

definition diffLink :: "ConversationAttributesType \<Rightarrow> ConversationAttributesType \<Rightarrow>
    GroupV2ChangeDetailType list" where
  "diffLink old current =
    (let oldAccess = map_option ac_addFromInviteLink (c_accessControl old);
         currentAccess = map_option ac_addFromInviteLink (c_accessControl current);
         linkPreviouslyEnabled = isAccessControlEnabled oldAccess;
         linkCurrentlyEnabled = isAccessControlEnabled currentAccess;
         privilege = or_num (nullish currentAccess 0) ACCESS_ANY
     in if \<not> linkPreviouslyEnabled \<and> linkCurrentlyEnabled then [GroupLinkAdd privilege]
        else if linkPreviouslyEnabled \<and> \<not> linkCurrentlyEnabled then [GroupLinkRemove]
        else if linkPreviouslyEnabled \<and> linkCurrentlyEnabled \<and> oldAccess \<noteq> currentAccess
        then [AccessInviteLink privilege]
        else [])"

definition diffAvatar :: "ConversationAttributesType \<Rightarrow> ConversationAttributesType \<Rightarrow>
    GroupV2ChangeDetailType list" where
  "diffAvatar old current =
    (if Option.bind (c_avatar old) av_url \<noteq> Option.bind (c_avatar current) av_url
     then [AvatarChange (c_avatar current = None)] else [])"

definition diffTexts :: "ConversationAttributesType \<Rightarrow> ConversationAttributesType \<Rightarrow>
    GroupV2ChangeDetailType list" where
  "diffTexts old current =
    (let newName = normalizeTextField (c_name current);
         newDescription = normalizeTextField (c_description current)
     in (if normalizeTextField (c_name old) \<noteq> newName then [TitleChange (Some newName)] else []) @
        (if truthy_str (c_groupInviteLinkPassword old) \<and> truthy_str (c_groupInviteLinkPassword current) \<and>
            c_groupInviteLinkPassword old \<noteq> c_groupInviteLinkPassword current
         then [GroupLinkReset] else []) @
        (if normalizeTextField (c_description old) \<noteq> newDescription
         then [DescriptionChange (Some (newDescription = [])) (Some newDescription)] else []))"

section \<open>Details of the lists\<close>

record diff_state =
  d_details :: "GroupV2ChangeDetailType list"
  d_oldMembers :: "(string, GroupV2MemberType) jsmap"
  d_oldPending :: "(string, GroupV2PendingMemberType) jsmap"
  d_oldAdmin :: "(string, GroupV2PendingAdminApprovalType) jsmap"
  d_areWeInGroup :: bool
  d_kindInvited :: "ServiceIdKind option"
  d_whoInvitedUs :: "string option"
  d_lastPending :: "string option"
  d_pendingCount :: nat
  d_areWePendingApproval :: bool

definition aciToPni :: "string \<Rightarrow> string option \<Rightarrow> (string, string) jsmap option \<Rightarrow> (string, string) jsmap" where
  "aciToPni ourAci ourPni promoted =
    (let m = or_list promoted
     in if ourAci \<noteq> [] \<and> truthy_str ourPni then js_set ourAci (the ourPni) m else m)"

definition pniToAci :: "(string, string) jsmap \<Rightarrow> (string, string) jsmap" where
  "pniToAci m = fold (\<lambda>(aci, pni). js_set pni aci) m []"

definition push :: "GroupV2ChangeDetailType \<Rightarrow> diff_state \<Rightarrow> diff_state" where
  "push d s = s\<lparr>d_details := d_details s @ [d]\<rparr>"

text \<open>The invitation that a new member accepts, and the lookup after a promotion from PNI to ACI.\<close>

definition findInvitation :: "(string, string) jsmap \<Rightarrow> string list \<Rightarrow> string \<Rightarrow> diff_state \<Rightarrow>
    GroupV2PendingMemberType option \<times> diff_state" where
  "findInvitation aciToPniMap currentPending aci s =
    (case js_get (d_oldPending s) aci of
       Some p \<Rightarrow> (Some p, s)
     | None \<Rightarrow>
         (case js_get aciToPniMap aci of
            None \<Rightarrow> (None, s)
          | Some pni \<Rightarrow>
              if pni = [] then (None, s)
              else
                let pendingMember = js_get (d_oldPending s) pni in
                if pendingMember \<noteq> None \<and> pni \<notin> set currentPending
                then (pendingMember, s\<lparr>d_oldPending := js_del pni (d_oldPending s)\<rparr>)
                else (pendingMember, s)))"

definition diffMember :: "string \<Rightarrow> string option \<Rightarrow> (string, string) jsmap \<Rightarrow> string list \<Rightarrow>
    GroupV2MemberType \<Rightarrow> diff_state \<Rightarrow> diff_state" where
  "diffMember ourAci ourPni aciToPniMap currentPending currentMember s =
    (let aci = m_aci currentMember;
         s1 = (if isUs ourAci ourPni aci then s\<lparr>d_areWeInGroup := True\<rparr> else s);
         s2 = (case js_get (d_oldMembers s1) aci of
                 None \<Rightarrow>
                   (let (pendingMember, s') = findInvitation aciToPniMap currentPending aci s1
                    in case pendingMember of
                         Some p \<Rightarrow> push (MemberAddFromInvite aci (js_get aciToPniMap aci)
                                     (Some (p_addedByUserId p))) s'
                       | None \<Rightarrow>
                           if truthy_bool (m_joinedFromLink currentMember)
                           then push (MemberAddFromLink aci) s'
                           else if truthy_bool (m_approvedByAdmin currentMember)
                           then push (MemberAddFromAdminApproval aci) s'
                           else push (MemberAdd aci) s')
               | Some oldMember \<Rightarrow>
                   if m_role oldMember \<noteq> m_role currentMember
                   then push (MemberPrivilege aci (m_role currentMember)) s1 else s1)
     in s2\<lparr>d_oldAdmin := js_del aci (d_oldAdmin s2), d_oldPending := js_del aci (d_oldPending s2),
           d_oldMembers := js_del aci (d_oldMembers s2)\<rparr>)"

definition diffPending :: "string \<Rightarrow> string option \<Rightarrow> GroupV2PendingMemberType \<Rightarrow> diff_state \<Rightarrow> diff_state" where
  "diffPending ourAci ourPni currentPendingMember s =
    (let serviceId = p_serviceId currentPendingMember;
         s1 = (if isUs ourAci ourPni serviceId
               then s\<lparr>d_kindInvited := (if serviceId = ourAci then Some KindACI
                          else if d_kindInvited s = None then Some KindPNI else d_kindInvited s),
                      d_whoInvitedUs := Some (p_addedByUserId currentPendingMember)\<rparr>
               else s);
         s2 = (if js_get (d_oldPending s1) serviceId = None
               then s1\<lparr>d_lastPending := Some serviceId, d_pendingCount := d_pendingCount s1 + 1\<rparr>
               else s1)
     in s2\<lparr>d_oldPending := js_del serviceId (d_oldPending s2)\<rparr>)"

definition pendingAdded :: "diff_state \<Rightarrow> GroupV2ChangeDetailType list" where
  "pendingAdded s =
    (if d_pendingCount s > 1 then [PendingAddMany (d_pendingCount s)]
     else if d_pendingCount s = 1
     then (case d_lastPending s of
             Some serviceId \<Rightarrow> if serviceId \<noteq> [] then [PendingAddOne serviceId] else []
           | None \<Rightarrow> [])
     else [])"

definition pendingRemoved :: "diff_state \<Rightarrow> GroupV2ChangeDetailType list" where
  "pendingRemoved s =
    (case d_oldPending s of
       [] \<Rightarrow> []
     | [(serviceId, removedMember)] \<Rightarrow> [PendingRemoveOne serviceId (Some (p_addedByUserId removedMember))]
     | (_, firstRemovedMember) # rest \<Rightarrow>
         let inviter = p_addedByUserId firstRemovedMember;
             allSameInviter = list_all (\<lambda>p. p_addedByUserId (snd p) = inviter) (d_oldPending s)
         in [PendingRemoveMany (length (d_oldPending s)) (if allSameInviter then Some inviter else None)])"

definition diffAdmin :: "string \<Rightarrow> GroupV2PendingAdminApprovalType \<Rightarrow> diff_state \<Rightarrow> diff_state" where
  "diffAdmin ourAci currentMember s =
    (let aci = a_aci currentMember;
         s1 = (if aci = ourAci then s\<lparr>d_areWePendingApproval := True\<rparr> else s);
         s2 = (if js_get (d_oldAdmin s1) aci = None then push (AdminApprovalAddOne aci) s1 else s1)
     in s2\<lparr>d_oldAdmin := js_del aci (d_oldAdmin s2)\<rparr>)"

definition diffFlags :: "ConversationAttributesType \<Rightarrow> ConversationAttributesType \<Rightarrow>
    GroupV2ChangeDetailType list js" where
  "diffFlags old current =
    (let announcements =
           (if truthy_bool (c_announcementsOnly old) \<noteq> truthy_bool (c_announcementsOnly current)
            then [AnnouncementsOnly (truthy_bool (c_announcementsOnly current))] else [])
     in if truthy_bool (c_terminated old) \<noteq> truthy_bool (c_terminated current) then
          bindE (strictAssert (truthy_bool (c_terminated current))
              ''extractDiffs/terminated: terminated can only be set from false to true'')
            (\<lambda>_. Inr (announcements @ [TerminatedDetail]))
        else Inr announcements)"

definition pushAll :: "GroupV2ChangeDetailType list \<Rightarrow> diff_state \<Rightarrow> diff_state" where
  "pushAll ds s = s\<lparr>d_details := d_details s @ ds\<rparr>"

definition diffStart :: "ConversationAttributesType \<Rightarrow> GroupV2ChangeDetailType list \<Rightarrow> diff_state" where
  "diffStart old details =
    \<lparr>d_details = details,
     d_oldMembers = js_of_pairs (map (\<lambda>m. (m_aci m, m)) (or_list (c_membersV2 old))),
     d_oldPending = js_of_pairs (map (\<lambda>m. (p_serviceId m, m)) (or_list (c_pendingMembersV2 old))),
     d_oldAdmin = js_of_pairs (map (\<lambda>m. (a_aci m, m)) (or_list (c_pendingAdminApprovalV2 old))),
     d_areWeInGroup = False, d_kindInvited = None, d_whoInvitedUs = None, d_lastPending = None,
     d_pendingCount = 0, d_areWePendingApproval = False\<rparr>"

definition diffLists :: "string \<Rightarrow> string option \<Rightarrow> (string, string) jsmap \<Rightarrow>
    ConversationAttributesType \<Rightarrow> diff_state \<Rightarrow> diff_state" where
  "diffLists ourAci ourPni aciToPniMap current s =
    (let currentPending = map p_serviceId (or_list (c_pendingMembersV2 current));
         s1 = fold (diffMember ourAci ourPni aciToPniMap currentPending) (or_list (c_membersV2 current)) s;
         s2 = pushAll (map MemberRemove (js_keys (d_oldMembers s1))) s1;
         s3 = fold (diffPending ourAci ourPni) (or_list (c_pendingMembersV2 current)) s2;
         s4 = pushAll (pendingAdded s3 @ pendingRemoved s3) s3;
         s5 = fold (diffAdmin ourAci) (or_list (c_pendingAdminApprovalV2 current)) s4
     in pushAll (map AdminApprovalRemoveOne (js_keys (d_oldAdmin s5))) s5)"

section \<open>The choice of the message\<close>

definition changeFrom :: "string option \<Rightarrow> (string, string) jsmap \<Rightarrow> string option" where
  "changeFrom sourceServiceId pniToAciMap =
    (if truthy_str sourceServiceId \<and> isPniString sourceServiceId \<and>
        truthy_str (js_get pniToAciMap (the sourceServiceId))
     then js_get pniToAciMap (the sourceServiceId) else sourceServiceId)"

definition diffMessage :: "env \<Rightarrow> string \<Rightarrow> string option \<Rightarrow> ConversationAttributesType \<Rightarrow>
    ConversationAttributesType \<Rightarrow> bool \<Rightarrow> string option \<Rightarrow> string option \<Rightarrow> diff_state \<Rightarrow>
    GroupChangeMessageType option js" where
  "diffMessage E ourAci ourPni old current dropInitialJoinMessage sourceServiceId sender s =
    (let firstUpdate = (c_revision old = None);
         isFromUs = (Some ourAci = sourceServiceId);
         didWeStartInGroup = (ourAci \<in> m_aci ` set (or_list (c_membersV2 old)));
         justJoinedGroup = (\<not> firstUpdate \<and> \<not> didWeStartInGroup \<and> d_areWeInGroup s);
         seen = Some (if isFromUs then Seen else Unseen);
         create = Some (GroupV2ChangeMessage None \<lparr>gc_from = sender, gc_details = [CreateDetail]\<rparr> (Some RRead) seen);
         filteredDetails = keepOnlyOurAdds ourAci ourPni (d_details s)
     in if firstUpdate \<and> d_kindInvited s \<noteq> None then
          bindE (getCheckedServiceId E (the (d_kindInvited s))) (\<lambda>serviceId.
            Inr (Some (GroupV2ChangeMessage None
              \<lparr>gc_from = (if truthy_str (d_whoInvitedUs s) then d_whoInvitedUs s else sender),
               gc_details = [PendingAddOne serviceId]\<rparr> (Some RRead) seen)))
        else if firstUpdate \<and> d_areWePendingApproval s then
          Inr (Some (GroupV2ChangeMessage None
            \<lparr>gc_from = Some ourAci, gc_details = [AdminApprovalAddOne ourAci]\<rparr> None None))
        else if firstUpdate \<and> dropInitialJoinMessage then Inr None
        else if firstUpdate \<and> c_revision current = Some 0 \<and> sourceServiceId = Some ourAci then Inr create
        else if firstUpdate \<and> d_areWeInGroup s then
          bindE (strictAssert (length filteredDetails = 1)
              ''extractDiffs/firstUpdate: Should be only one self-add!'') (\<lambda>_.
            Inr (Some (GroupV2ChangeMessage None
              \<lparr>gc_from = sender, gc_details = filteredDetails\<rparr> (Some RRead) seen)))
        else if firstUpdate \<and> c_revision current = Some 0 then Inr create
        else if justJoinedGroup then
          bindE (strictAssert (length filteredDetails = 1)
              ''extractDiffs/justJoinedGroup: Should be only one self-add!'') (\<lambda>_.
            Inr (Some (GroupV2ChangeMessage sourceServiceId
              \<lparr>gc_from = sender,
               gc_details = (if length (d_details s) > 1 then filteredDetails @ [SummaryDetail]
                             else filteredDetails)\<rparr> (Some RRead) seen)))
        else if d_details s \<noteq> [] then
          (let terminatedByOther = \<not> isFromUs \<and> TerminatedDetail \<in> set (d_details s)
           in Inr (Some (GroupV2ChangeMessage sourceServiceId \<lparr>gc_from = sender, gc_details = d_details s\<rparr>
                (Some (if terminatedByOther then RUnread else RRead))
                (if terminatedByOther then Some Unseen else seen))))
        else Inr None)"

definition diffTimer :: "string \<Rightarrow> ConversationAttributesType \<Rightarrow> ConversationAttributesType \<Rightarrow> bool \<Rightarrow>
    string option \<Rightarrow> GroupChangeMessageType option" where
  "diffTimer ourAci old current isReJoin sourceServiceId =
    (let oldOn = truthy_num (c_expireTimer old); currentOn = truthy_num (c_expireTimer current);
         src = (if isReJoin then None else sourceServiceId)
     in if oldOn \<noteq> currentOn \<or> (oldOn \<and> currentOn \<and> c_expireTimer old \<noteq> c_expireTimer current)
        then Some (TimerNotificationMessage src EXPIRATION_TIMER_UPDATE
               (or_num (nullish (c_expireTimer current) 0) 0) src RRead
               (if Some ourAci = sourceServiceId then Seen else Unseen))
        else None)"

definition compact2 :: "'a option \<Rightarrow> 'a option \<Rightarrow> 'a list" where
  "compact2 a b = (case a of None \<Rightarrow> [] | Some x \<Rightarrow> [x]) @ (case b of None \<Rightarrow> [] | Some x \<Rightarrow> [x])"

record diff_options =
  do_dropInitialJoinMessage :: bool
  do_isReJoin :: bool
  do_promoted :: "(string, string) jsmap option"
  do_source :: "string option"

definition noDiffOptions :: diff_options where
  "noDiffOptions = \<lparr>do_dropInitialJoinMessage = False, do_isReJoin = False, do_promoted = None, do_source = None\<rparr>"

definition attributeDetails :: "ConversationAttributesType \<Rightarrow> ConversationAttributesType \<Rightarrow>
    GroupV2ChangeDetailType list" where
  "attributeDetails old current =
    diffAccess old current @ diffLink old current @ diffAvatar old current @ diffTexts old current"

definition extractDiffs :: "env \<Rightarrow> ConversationAttributesType \<Rightarrow> ConversationAttributesType \<Rightarrow>
    diff_options \<Rightarrow> GroupChangeMessageType list js" where
  "extractDiffs E old current opts =
    bindE (getCheckedAci E) (\<lambda>ourAci.
    let ourPni = e_ourPni E;
        aciToPniMap = aciToPni ourAci ourPni (do_promoted opts);
        s = diffLists ourAci ourPni aciToPniMap current (diffStart old (attributeDetails old current))
    in bindE (diffFlags old current) (\<lambda>flags.
       bindE (diffMessage E ourAci ourPni old current (do_dropInitialJoinMessage opts) (do_source opts)
           (changeFrom (do_source opts) (pniToAci aciToPniMap)) (pushAll flags s)) (\<lambda>message.
         Inr (compact2 message
           (diffTimer ourAci old current (do_isReJoin opts) (do_source opts))))))"

section \<open>Lemmas: a group compared with itself\<close>

abbreviation (input) keyed :: "('v \<Rightarrow> string) \<Rightarrow> 'v list \<Rightarrow> (string, 'v) jsmap" where
  "keyed f xs \<equiv> map (\<lambda>x. (f x, x)) xs"

lemma js_del_keyed:
  "js_del k (keyed f xs) = keyed f (filter (\<lambda>x. f x \<noteq> k) xs)"
  by (induction xs) simp_all

lemma filter_keyed_notin: "k \<notin> f ` set xs \<Longrightarrow> filter (\<lambda>x. f x \<noteq> k) xs = xs"
  by (rule filter_True) auto

lemma fold_diffMember_same:
  assumes "distinct (map m_aci ms)" and "d_oldMembers s = keyed m_aci ms"
    and "keyset (d_oldPending s) \<inter> m_aci ` set ms = {}"
    and "keyset (d_oldAdmin s) \<inter> m_aci ` set ms = {}"
  shows "fold (diffMember us pni m cp) ms s =
    s\<lparr>d_areWeInGroup := d_areWeInGroup s \<or> (\<exists>x \<in> m_aci ` set ms. isUs us pni x), d_oldMembers := []\<rparr>"
  using assms
proof (induction ms arbitrary: s)
  case Nil
  then show ?case by simp
next
  case (Cons x ms)
  have del: "js_del (m_aci x) (d_oldPending s) = d_oldPending s" "js_del (m_aci x) (d_oldAdmin s) = d_oldAdmin s"
    using Cons.prems(3,4) by (auto simp: keyset_def intro!: js_del_absent)
  have step: "diffMember us pni m cp x s =
      s\<lparr>d_areWeInGroup := d_areWeInGroup s \<or> isUs us pni (m_aci x), d_oldMembers := keyed m_aci ms\<rparr>"
    using Cons.prems(1,2) del
    by (simp add: diffMember_def Let_def js_del_keyed filter_keyed_notin)
  show ?case
    using Cons.prems Cons.IH [of "diffMember us pni m cp x s"]
    by (simp add: step disj_ac)
qed

lemma diffPending_fields [simp]:
  "d_details (diffPending us pni p s) = d_details s"
  "d_oldMembers (diffPending us pni p s) = d_oldMembers s"
  "d_oldAdmin (diffPending us pni p s) = d_oldAdmin s"
  "d_areWeInGroup (diffPending us pni p s) = d_areWeInGroup s"
  by (simp_all add: diffPending_def Let_def)

lemma fold_diffPending_fields [simp]:
  "d_details (fold (diffPending us pni) ps s) = d_details s"
  "d_oldMembers (fold (diffPending us pni) ps s) = d_oldMembers s"
  "d_oldAdmin (fold (diffPending us pni) ps s) = d_oldAdmin s"
  "d_areWeInGroup (fold (diffPending us pni) ps s) = d_areWeInGroup s"
  by (induction ps arbitrary: s) simp_all

lemma fold_diffPending_same:
  assumes "distinct (map p_serviceId ps)" and "d_oldPending s = keyed p_serviceId ps"
  shows "d_oldPending (fold (diffPending us pni) ps s) = []"
    "d_pendingCount (fold (diffPending us pni) ps s) = d_pendingCount s"
  using assms
  by (induction ps arbitrary: s)
    (simp_all add: diffPending_def Let_def js_del_keyed filter_keyed_notin)

lemma diffAdmin_fields [simp]:
  "d_oldMembers (diffAdmin us p s) = d_oldMembers s" "d_areWeInGroup (diffAdmin us p s) = d_areWeInGroup s"
  "d_oldPending (diffAdmin us p s) = d_oldPending s"
  by (simp_all add: diffAdmin_def push_def Let_def)

lemma fold_diffAdmin_fields [simp]:
  "d_areWeInGroup (fold (diffAdmin us) ps s) = d_areWeInGroup s"
  by (induction ps arbitrary: s) simp_all

lemma diffAdmin_known:
  assumes "js_get (d_oldAdmin s) (a_aci p) \<noteq> None"
  shows "d_oldAdmin (diffAdmin us p s) = js_del (a_aci p) (d_oldAdmin s)"
    "d_details (diffAdmin us p s) = d_details s"
  using assms by (auto simp: diffAdmin_def Let_def)

lemma fold_diffAdmin_same:
  "distinct (map a_aci ps) \<Longrightarrow> d_oldAdmin s = keyed a_aci ps \<Longrightarrow>
    d_oldAdmin (fold (diffAdmin us) ps s) = [] \<and> d_details (fold (diffAdmin us) ps s) = d_details s"
proof (induction ps arbitrary: s)
  case (Cons p ps)
  have "d_oldAdmin (diffAdmin us p s) = keyed a_aci ps" "d_details (diffAdmin us p s) = d_details s"
    using Cons.prems by (simp_all add: diffAdmin_known js_del_keyed filter_keyed_notin)
  with Cons.IH [of "diffAdmin us p s"] Cons.prems show ?case by simp
qed simp

lemma pushAll_fields [simp]:
  "d_details (pushAll ds s) = d_details s @ ds" "d_oldMembers (pushAll ds s) = d_oldMembers s"
  "d_oldPending (pushAll ds s) = d_oldPending s" "d_oldAdmin (pushAll ds s) = d_oldAdmin s"
  "d_areWeInGroup (pushAll ds s) = d_areWeInGroup s" "d_pendingCount (pushAll ds s) = d_pendingCount s"
  "d_lastPending (pushAll ds s) = d_lastPending s"
  by (simp_all add: pushAll_def)

text \<open>The ids of a group are distinct in each list, and nobody is both a member and waiting.\<close>

definition tidyLists :: "ConversationAttributesType \<Rightarrow> bool" where
  "tidyLists g \<longleftrightarrow>
    distinct (map m_aci (or_list (c_membersV2 g))) \<and>
    distinct (map p_serviceId (or_list (c_pendingMembersV2 g))) \<and>
    distinct (map a_aci (or_list (c_pendingAdminApprovalV2 g))) \<and>
    p_serviceId ` set (or_list (c_pendingMembersV2 g)) \<inter> m_aci ` set (or_list (c_membersV2 g)) = {} \<and>
    a_aci ` set (or_list (c_pendingAdminApprovalV2 g)) \<inter> m_aci ` set (or_list (c_membersV2 g)) = {}"

lemma diffLists_same:
  assumes "tidyLists g"
  shows "d_details (diffLists us pni m g (diffStart g ds)) = ds"
    "d_areWeInGroup (diffLists us pni m g (diffStart g ds)) =
      (\<exists>x \<in> m_aci ` set (or_list (c_membersV2 g)). isUs us pni x)"
proof -
  let ?ms = "or_list (c_membersV2 g)" and ?ps = "or_list (c_pendingMembersV2 g)"
    and ?as = "or_list (c_pendingAdminApprovalV2 g)"
  have start: "d_oldMembers (diffStart g ds) = keyed m_aci ?ms"
    "d_oldPending (diffStart g ds) = keyed p_serviceId ?ps"
    "d_oldAdmin (diffStart g ds) = keyed a_aci ?as" "d_details (diffStart g ds) = ds"
    "d_pendingCount (diffStart g ds) = 0" "\<not> d_areWeInGroup (diffStart g ds)"
    using assms by (simp_all add: diffStart_def js_of_pairs_distinct tidyLists_def comp_def)
  define s1 where "s1 = fold (diffMember us pni m (map p_serviceId ?ps)) ?ms (diffStart g ds)"
  have s1: "s1 = (diffStart g ds)\<lparr>d_areWeInGroup := (\<exists>x \<in> m_aci ` set ?ms. isUs us pni x), d_oldMembers := []\<rparr>"
    unfolding s1_def using assms start
    by (subst fold_diffMember_same) (auto simp: tidyLists_def keyset_def)
  define s3 where "s3 = fold (diffPending us pni) ?ps (pushAll (map MemberRemove (js_keys (d_oldMembers s1))) s1)"
  have s3: "d_oldPending s3 = []" "d_pendingCount s3 = 0" "d_details s3 = ds" "d_oldAdmin s3 = keyed a_aci ?as"
    "d_areWeInGroup s3 = (\<exists>x \<in> m_aci ` set ?ms. isUs us pni x)"
    using assms start by (simp_all add: s3_def s1 fold_diffPending_same tidyLists_def)
  define s5 where "s5 = fold (diffAdmin us) ?as (pushAll (pendingAdded s3 @ pendingRemoved s3) s3)"
  have s5: "d_oldAdmin s5 = []" "d_details s5 = ds"
    "d_areWeInGroup s5 = (\<exists>x \<in> m_aci ` set ?ms. isUs us pni x)"
    using assms s3 by (simp_all add: s5_def fold_diffAdmin_same tidyLists_def pendingAdded_def pendingRemoved_def)
  show "d_details (diffLists us pni m g (diffStart g ds)) = ds"
    "d_areWeInGroup (diffLists us pni m g (diffStart g ds)) =
      (\<exists>x \<in> m_aci ` set (or_list (c_membersV2 g)). isUs us pni x)"
    unfolding diffLists_def Let_def s1_def [symmetric] s3_def [symmetric] s5_def [symmetric]
    using s5 by simp_all
qed

lemma attributeDetails_same [simp]: "attributeDetails g g = []"
  by (auto simp: attributeDetails_def diffAccess_def diffLink_def diffAvatar_def diffTexts_def Let_def
      split: option.splits)

section \<open>Lemmas: who was added and removed\<close>

fun removedAci :: "GroupV2ChangeDetailType \<Rightarrow> string option" where
  "removedAci (MemberRemove aci) = Some aci"
| "removedAci _ = None"

fun addedAci :: "GroupV2ChangeDetailType \<Rightarrow> string option" where
  "addedAci (MemberAdd aci) = Some aci"
| "addedAci (MemberAddFromInvite aci _ _) = Some aci"
| "addedAci (MemberAddFromLink aci) = Some aci"
| "addedAci (MemberAddFromAdminApproval aci) = Some aci"
| "addedAci _ = None"

definition picks :: "(GroupV2ChangeDetailType \<Rightarrow> string option) \<Rightarrow> GroupV2ChangeDetailType list \<Rightarrow> string list" where
  "picks f ds = List.map_filter f ds"

lemma picks_simps [simp]:
  "picks f [] = []" "picks f (ds @ es) = picks f ds @ picks f es"
  "picks f (d # ds) = (case f d of None \<Rightarrow> picks f ds | Some a \<Rightarrow> a # picks f ds)"
  by (simp_all add: picks_def map_filter_def split: option.splits)

lemma picks_map_remove [simp]:
  "picks removedAci (map MemberRemove xs) = xs" "picks addedAci (map MemberRemove xs) = []"
  "picks removedAci (map AdminApprovalRemoveOne xs) = []" "picks addedAci (map AdminApprovalRemoveOne xs) = []"
  by (induction xs) simp_all

lemma picks_attributes [simp]:
  "picks removedAci (attributeDetails old cur) = []" "picks addedAci (attributeDetails old cur) = []"
  by (auto simp: attributeDetails_def diffAccess_def diffLink_def diffAvatar_def diffTexts_def Let_def
      split: option.splits)

lemma picks_pending [simp]:
  "picks removedAci (pendingAdded s) = []" "picks addedAci (pendingAdded s) = []"
  "picks removedAci (pendingRemoved s) = []" "picks addedAci (pendingRemoved s) = []"
  by (auto simp: pendingAdded_def pendingRemoved_def Let_def split: option.splits list.splits)

lemma picks_flags:
  "diffFlags old cur = Inr fl \<Longrightarrow> picks removedAci fl = [] \<and> picks addedAci fl = []"
  by (auto simp: diffFlags_def Let_def bindE_eq_Inr split: if_splits)

lemma findInvitation_fields:
  "d_details (snd (findInvitation m cp aci s)) = d_details s"
  "d_oldMembers (snd (findInvitation m cp aci s)) = d_oldMembers s"
  by (simp_all add: findInvitation_def Let_def split: option.splits)

lemma d_oldMembers_diffMember [simp]:
  "d_oldMembers (diffMember us pni m cp x s) = js_del (m_aci x) (d_oldMembers s)"
  by (simp add: diffMember_def push_def Let_def split_beta findInvitation_fields split: option.splits)

lemma picks_diffMember:
  "picks removedAci (d_details (diffMember us pni m cp x s)) = picks removedAci (d_details s)"
  "picks addedAci (d_details (diffMember us pni m cp x s)) = picks addedAci (d_details s) @
    (if m_aci x \<in> keyset (d_oldMembers s) then [] else [m_aci x])"
  by (auto simp: diffMember_def push_def Let_def split_beta findInvitation_fields
      js_has_keyset [symmetric] js_has_def split: option.splits)

lemma picks_fold_diffMember:
  "distinct (map m_aci ms) \<Longrightarrow>
    picks removedAci (d_details (fold (diffMember us pni m cp) ms s)) = picks removedAci (d_details s) \<and>
    picks addedAci (d_details (fold (diffMember us pni m cp) ms s)) =
      picks addedAci (d_details s) @ filter (\<lambda>a. a \<notin> keyset (d_oldMembers s)) (map m_aci ms) \<and>
    js_keys (d_oldMembers (fold (diffMember us pni m cp) ms s)) =
      filter (\<lambda>a. a \<notin> m_aci ` set ms) (js_keys (d_oldMembers s))"
proof (induction ms arbitrary: s)
  case (Cons x ms)
  have "filter (\<lambda>a. a \<notin> keyset (js_del (m_aci x) (d_oldMembers s))) (map m_aci ms) =
      filter (\<lambda>a. a \<notin> keyset (d_oldMembers s)) (map m_aci ms)"
    using Cons.prems by (intro filter_cong) (auto simp: image_iff)
  moreover have "filter (\<lambda>a. a \<notin> m_aci ` set ms) (filter (\<lambda>k. k \<noteq> m_aci x) ks) =
      filter (\<lambda>a. a \<notin> m_aci ` set (x # ms)) ks" for ks
    by (simp add: conj_commute)
  ultimately show ?case
    using Cons by (simp add: picks_diffMember js_keys_del)
qed simp

lemma picks_fold_diffAdmin [simp]:
  "picks removedAci (d_details (fold (diffAdmin us) ps s)) = picks removedAci (d_details s)"
  "picks addedAci (d_details (fold (diffAdmin us) ps s)) = picks addedAci (d_details s)"
  by (induction ps arbitrary: s) (simp_all add: diffAdmin_def push_def Let_def)

lemma picks_diffLists:
  assumes "distinct (map m_aci (or_list (c_membersV2 cur)))"
    and "distinct (map m_aci (or_list (c_membersV2 old)))"
  shows "picks removedAci (d_details (diffLists us pni m cur (diffStart old (attributeDetails old cur)))) =
      filter (\<lambda>a. a \<notin> m_aci ` set (or_list (c_membersV2 cur))) (map m_aci (or_list (c_membersV2 old)))"
    "picks addedAci (d_details (diffLists us pni m cur (diffStart old (attributeDetails old cur)))) =
      filter (\<lambda>a. a \<notin> m_aci ` set (or_list (c_membersV2 old))) (map m_aci (or_list (c_membersV2 cur)))"
proof -
  let ?s = "diffStart old (attributeDetails old cur)"
  have s: "js_keys (d_oldMembers ?s) = map m_aci (or_list (c_membersV2 old))"
    "keyset (d_oldMembers ?s) = m_aci ` set (or_list (c_membersV2 old))"
    "d_details ?s = attributeDetails old cur"
    using assms(2) by (simp_all add: diffStart_def js_of_pairs_distinct keyset_def comp_def image_image)
  note f = picks_fold_diffMember [OF assms(1), of us pni m
      "map p_serviceId (or_list (c_pendingMembersV2 cur))" ?s, unfolded s]
  show "picks removedAci (d_details (diffLists us pni m cur ?s)) =
      filter (\<lambda>a. a \<notin> m_aci ` set (or_list (c_membersV2 cur))) (map m_aci (or_list (c_membersV2 old)))"
    "picks addedAci (d_details (diffLists us pni m cur ?s)) =
      filter (\<lambda>a. a \<notin> m_aci ` set (or_list (c_membersV2 old))) (map m_aci (or_list (c_membersV2 cur)))"
    using f by (simp_all add: diffLists_def Let_def del: map_map)
qed

text \<open>An update of a group we were in returns, unless it revives the group.\<close>

lemma extractDiffs_returns:
  assumes "e_ourAci E = Some us" and "c_revision old \<noteq> None"
    and "us \<in> m_aci ` set (or_list (c_membersV2 old))"
    and "\<not> (truthy_bool (c_terminated old) \<and> \<not> truthy_bool (c_terminated current))"
  shows "\<exists>msgs. extractDiffs E old current opts = Inr msgs"
proof -
  have "\<exists>fl. diffFlags old current = Inr fl"
    using assms(4)
    by (cases "truthy_bool (c_terminated old)"; cases "truthy_bool (c_terminated current)")
      (simp_all add: diffFlags_def Let_def)
  then obtain fl where fl: "diffFlags old current = Inr fl" by blast
  have "\<exists>m. diffMessage E us pni old current dropit src sender s = Inr m" for pni dropit src sender s
    using assms(2,3) by (auto simp: diffMessage_def Let_def)
  then obtain m where "diffMessage E us (e_ourPni E) old current (do_dropInitialJoinMessage opts) (do_source opts)
      (changeFrom (do_source opts) (pniToAci (aciToPni us (e_ourPni E) (do_promoted opts))))
      (pushAll fl (diffLists us (e_ourPni E) (aciToPni us (e_ourPni E) (do_promoted opts)) current
        (diffStart old (attributeDetails old current)))) = Inr m"
    by blast
  then show ?thesis
    using assms(1) fl by (simp add: extractDiffs_def Let_def)
qed

section \<open>Properties\<close>

text \<open>
No change, no message: comparing a group that has a revision with itself generates nothing,
whatever the source, when its lists are tidy (no duplicates, and no member is also invited or
awaiting approval) and our PNI is not listed as a member.
\<close>

theorem extractDiffs_same:
  assumes "e_ourAci E = Some us" and "c_revision g \<noteq> None" and "tidyLists g"
    and "\<forall>pni. e_ourPni E = Some pni \<longrightarrow> pni \<notin> m_aci ` set (or_list (c_membersV2 g))"
  shows "extractDiffs E g g opts = Inr []"
proof -
  let ?s = "diffLists us (e_ourPni E) (aciToPni us (e_ourPni E) (do_promoted opts)) g (diffStart g [])"
  have "d_details ?s = []"
    and we: "d_areWeInGroup ?s = (\<exists>x \<in> m_aci ` set (or_list (c_membersV2 g)). isUs us (e_ourPni E) x)"
    by (rule diffLists_same [OF assms(3)])+
  moreover have "us \<in> m_aci ` set (or_list (c_membersV2 g))" if "d_areWeInGroup ?s"
    using that assms(4) by (auto simp: we isUs_def)
  ultimately show ?thesis
    using assms(1,2)
    by (auto simp: extractDiffs_def Let_def diffFlags_def diffMessage_def diffTimer_def compact2_def)
qed

theorem extractDiffs_same_witness:
  "extractDiffs exampleEnv (exampleGroup\<lparr>c_membersV2 := Some [exampleMember ''us'', exampleMember ''bob'']\<rparr>)
      (exampleGroup\<lparr>c_membersV2 := Some [exampleMember ''us'', exampleMember ''bob'']\<rparr>) noDiffOptions = Inr []"
  by (rule extractDiffs_same [of exampleEnv "''us''"])
    (simp_all add: exampleGroup_def exampleMember_def tidyLists_def)

text \<open>The details of all group changes among the messages.\<close>

fun detailsOf :: "GroupChangeMessageType \<Rightarrow> GroupV2ChangeDetailType list" where
  "detailsOf (GroupV2ChangeMessage _ change _ _) = gc_details change"
| "detailsOf (TimerNotificationMessage _ _ _ _ _ _) = []"

definition messageDetails :: "GroupChangeMessageType list \<Rightarrow> GroupV2ChangeDetailType list" where
  "messageDetails msgs = concat (map detailsOf msgs)"

text \<open>
C40: The timeline tells exactly who joined and who left: for a group we were in before the update,
the added members named by the messages of \<open>extractDiffs\<close> (through any of the four kinds of
addition) are the current members that were not members before, in order and once each, and the
removed members are the previous members that are not members now.
\<close>

theorem extractDiffs_members_exact:
  assumes "extractDiffs E old current opts = Inr msgs" and "e_ourAci E = Some us"
    and "c_revision old \<noteq> None" and "us \<in> m_aci ` set (or_list (c_membersV2 old))"
    and "distinct (map m_aci (or_list (c_membersV2 old)))"
    and "distinct (map m_aci (or_list (c_membersV2 current)))"
  shows "picks addedAci (messageDetails msgs) =
      filter (\<lambda>a. a \<notin> m_aci ` set (or_list (c_membersV2 old))) (map m_aci (or_list (c_membersV2 current)))
    \<and> picks removedAci (messageDetails msgs) =
      filter (\<lambda>a. a \<notin> m_aci ` set (or_list (c_membersV2 current))) (map m_aci (or_list (c_membersV2 old)))"
proof -
  let ?s = "diffLists us (e_ourPni E) (aciToPni us (e_ourPni E) (do_promoted opts)) current
    (diffStart old (attributeDetails old current))"
  from assms(1,2) obtain flags msg where
    fl: "diffFlags old current = Inr flags"
    and msg: "diffMessage E us (e_ourPni E) old current (do_dropInitialJoinMessage opts) (do_source opts)
      (changeFrom (do_source opts) (pniToAci (aciToPni us (e_ourPni E) (do_promoted opts))))
      (pushAll flags ?s) = Inr msg"
    and msgs: "msgs = compact2 msg (diffTimer us old current (do_isReJoin opts) (do_source opts))"
    by (auto simp: extractDiffs_def Let_def bindE_eq_Inr)
  have timer: "messageDetails (compact2 msg (diffTimer us old current r src)) =
      (case msg of None \<Rightarrow> [] | Some m \<Rightarrow> detailsOf m)" for r src
    by (auto simp: messageDetails_def compact2_def diffTimer_def Let_def split: option.splits)
  have "messageDetails msgs = d_details ?s @ flags"
    using msg assms(3,4) unfolding msgs timer
    by (auto simp: diffMessage_def Let_def split: if_splits)
  then show ?thesis
    using picks_flags [OF fl] picks_diffLists [OF assms(6,5)] by simp
qed

theorem extractDiffs_members_exact_witness:
  "\<exists>msgs. extractDiffs exampleEnv
      (exampleGroup\<lparr>c_membersV2 := Some [exampleMember ''us'', exampleMember ''eve'']\<rparr>)
      (exampleGroup\<lparr>c_membersV2 := Some [exampleMember ''us'', exampleMember ''bob'']\<rparr>) noDiffOptions = Inr msgs
    \<and> picks addedAci (messageDetails msgs) = [''bob''] \<and> picks removedAci (messageDetails msgs) = [''eve'']"
proof -
  obtain msgs where m: "extractDiffs exampleEnv
      (exampleGroup\<lparr>c_membersV2 := Some [exampleMember ''us'', exampleMember ''eve'']\<rparr>)
      (exampleGroup\<lparr>c_membersV2 := Some [exampleMember ''us'', exampleMember ''bob'']\<rparr>) noDiffOptions = Inr msgs"
    using extractDiffs_returns [of exampleEnv "''us''"
        "exampleGroup\<lparr>c_membersV2 := Some [exampleMember ''us'', exampleMember ''eve'']\<rparr>"]
    by (auto simp: exampleGroup_def exampleMember_def)
  show ?thesis
    using extractDiffs_members_exact [OF m, of "''us''"] m
    by (simp add: exampleGroup_def exampleMember_def)
qed

text \<open>
A group stays terminated: \<open>extractDiffs\<close> returns only if a terminated group is still
terminated; the update that would revive it throws (and with it every caller that applies it).
\<close>

theorem extractDiffs_terminated:
  "case extractDiffs E old current opts of
     Inl _ \<Rightarrow> True
   | Inr _ \<Rightarrow> \<not> (truthy_bool (c_terminated old) \<and> c_terminated current \<noteq> Some True)"
  by (auto simp: extractDiffs_def diffFlags_def truthy_bool_def Let_def bindE_eq_Inr
      split: sum.splits if_splits)

end
