(* ===== verification/Group_Integrate.thy ===== *)
theory Group_Integrate
  imports Group_Decrypt Group_Roster Group_Diff
begin

text \<open>
  \<open>integrateGroupChange\<close> and \<open>integrateGroupChanges\<close> of ts/groups.preload.ts: one entry of the group
  log (a change, the full state after it, or both), and the whole log. The result of a step carries
  the effects it had on files and the database, in order, also when the step throws.
\<close>

section \<open>Results with effects\<close>

datatype effect =
    DeletedFile string
  | SetLastFetch string "int option"
  | DeletedEndorsements string
  | ReplacedEndorsements string

type_synonym 'a eff = "effect list \<times> 'a js"

definition pureF :: "'a js \<Rightarrow> 'a eff" where
  "pureF r = ([], r)"

definition effF :: "effect list \<Rightarrow> unit eff" where
  "effF es = (es, Inr ())"

definition bindF :: "'a eff \<Rightarrow> ('a \<Rightarrow> 'b eff) \<Rightarrow> 'b eff" where
  "bindF m f =
    (case m of
       (es, Inl e) \<Rightarrow> (es, Inl e)
     | (es, Inr x) \<Rightarrow> (case f x of (es', r) \<Rightarrow> (es @ es', r)))"

lemma bindF_simps [simp]:
  "bindF (es, Inl e) f = (es, Inl e)"
  "bindF (es, Inr x) f = (es @ fst (f x), snd (f x))"
  by (simp_all add: bindF_def split: prod.splits)

lemma snd_bindF_Inr: "snd (bindF m f) = Inr y \<longleftrightarrow> (\<exists>x. snd m = Inr x \<and> snd (f x) = Inr y)"
  by (auto simp: bindF_def split: prod.splits sum.splits)

lemma pureF_simps [simp]: "snd (pureF r) = r" "fst (pureF r) = []"
  by (simp_all add: pureF_def)

lemma effF_simps [simp]: "snd (effF es) = Inr ()" "fst (effF es) = es"
  by (simp_all add: effF_def)

section \<open>Data\<close>

record UpdatesResultType =
  ur_messages :: "GroupChangeMessageType list"
  ur_newProfileKeys :: "(string, string) jsmap"
  ur_newAttributes :: ConversationAttributesType

record ProtoGroupChange =
  gch_actions :: "bytes option"
  gch_serverSignature :: "bytes option"
  gch_changeEpoch :: "int option"

record ProtoGroupChangeState =
  gcs_groupChange :: "ProtoGroupChange option"
  gcs_groupState :: "ProtoGroup option"

type_synonym ProtoGroupChanges = "ProtoGroupChangeState list option"

abbreviation (input) SUPPORTED_CHANGE_EPOCH :: int where "SUPPORTED_CHANGE_EPOCH \<equiv> 7"

definition isChangeSupported :: "ProtoGroupChange \<Rightarrow> bool" where
  "isChangeSupported change =
    (case gch_changeEpoch change of None \<Rightarrow> True | Some e \<Rightarrow> e \<le> SUPPORTED_CHANGE_EPOCH)"

definition noUpdates :: "ConversationAttributesType \<Rightarrow> UpdatesResultType" where
  "noUpdates grp = \<lparr>ur_messages = [], ur_newProfileKeys = [], ur_newAttributes = grp\<rparr>"

text \<open>Adding the entries of one map to another.\<close>

definition mergeKeys :: "(string, string) jsmap \<Rightarrow> (string, string) jsmap \<Rightarrow> (string, string) jsmap" where
  "mergeKeys new m = fold (\<lambda>(k, v). js_set k v) new m"

section \<open>One entry of the log\<close>

definition weAreAwaitingApproval :: "string \<Rightarrow> ConversationAttributesType \<Rightarrow> bool" where
  "weAreAwaitingApproval ourAci grp = list_ex (\<lambda>m. a_aci m = ourAci) (or_list (c_pendingAdminApprovalV2 grp))"

definition weAreInGroup :: "string \<Rightarrow> ConversationAttributesType \<Rightarrow> bool" where
  "weAreInGroup ourAci grp = list_ex (\<lambda>m. m_aci m = ourAci) (or_list (c_membersV2 grp))"

text \<open>What reading the change decides: to skip the entry, or to go on with its actions.\<close>

record change_info =
  ci_supported :: bool
  ci_sameVersion :: bool
  ci_moreThanOneVersionUp :: bool
  ci_actions :: "DecryptedGroupChangeActions option"
  ci_source :: "string option"

definition noChangeInfo :: change_info where
  "noChangeInfo = \<lparr>ci_supported = False, ci_sameVersion = False, ci_moreThanOneVersionUp = False,
     ci_actions = None, ci_source = None\<rparr>"

definition readChange :: "env \<Rightarrow> (bytes \<Rightarrow> ProtoActions js) \<Rightarrow> ConversationAttributesType \<Rightarrow> int option \<Rightarrow>
    ProtoGroupChange option \<Rightarrow> change_info option js" where
  "readChange E decodeActions grp newRevision groupChange =
    (case groupChange of
       None \<Rightarrow> Inr (Some noChangeInfo)
     | Some change \<Rightarrow>
         bindE (decodeActions (nullish (gch_actions change) [])) (\<lambda>actions.
         if truthy_num (pa_version actions) \<and>
            (case newRevision of None \<Rightarrow> False | Some n \<Rightarrow> the (pa_version actions) > n)
         then Inr None
         else
           bindE (decryptGroupChange E actions (the (c_secretParams grp))) (\<lambda>decrypted.
           bindE (strictAssertSome (g_sourceServiceId decrypted) ''Should have source service id'') (\<lambda>source.
           let info = \<lparr>ci_supported = isChangeSupported change, ci_sameVersion = False,
                 ci_moreThanOneVersionUp = False, ci_actions = Some decrypted, ci_source = Some source\<rparr>
           in case c_revision grp of
                None \<Rightarrow> Inr (Some info)
              | Some cur \<Rightarrow>
                  if \<not> truthy_num (pa_version actions) then Inr (Some info)
                  else if the (pa_version actions) < cur then Inr None
                  else if the (pa_version actions) = cur then Inr (Some (info\<lparr>ci_sameVersion := True\<rparr>))
                  else if the (pa_version actions) \<noteq> cur + 1
                  then Inr (Some (info\<lparr>ci_moreThanOneVersionUp := True\<rparr>))
                  else Inr (Some info)))))"

definition canApplyChange :: "string \<Rightarrow> ConversationAttributesType \<Rightarrow> ProtoGroupChange option \<Rightarrow> change_info \<Rightarrow> bool" where
  "canApplyChange ourAci grp groupChange info \<longleftrightarrow>
    groupChange \<noteq> None \<and> ci_supported info \<and> \<not> ci_sameVersion info \<and> c_revision grp \<noteq> None \<and>
    (\<not> ci_moreThanOneVersionUp info \<or> weAreAwaitingApproval ourAci grp)"

definition integrateActions :: "env \<Rightarrow> string \<Rightarrow> ConversationAttributesType \<Rightarrow> change_info \<Rightarrow> UpdatesResultType eff" where
  "integrateActions E logId grp info =
    (case (ci_source info, ci_actions info) of
       (Some source, Some actions) \<Rightarrow>
         if source = [] then pureF (throw (logId @ '': Missing necessary information that should have come from group actions''))
         else
           bindF (pureF (applyGroupChange E actions grp source)) (\<lambda>r.
           bindF (effF (map DeletedFile (gr_deletedFiles r))) (\<lambda>_.
           bindF (pureF (extractDiffs E grp (gr_newAttributes r)
               \<lparr>do_dropInitialJoinMessage = False, do_isReJoin = False,
                do_promoted = Some (gr_promotedAciToPniMap r), do_source = Some source\<rparr>)) (\<lambda>msgs.
           pureF (Inr \<lparr>ur_messages = msgs,
             ur_newProfileKeys = mergeKeys (profileKeysToMap E (gr_newProfileKeys r)) [],
             ur_newAttributes = gr_newAttributes r\<rparr>))))
     | _ \<Rightarrow> pureF (throw (logId @ '': Missing necessary information that should have come from group actions'')))"

definition integrateState :: "env \<Rightarrow> ConversationAttributesType \<Rightarrow> string \<Rightarrow> bool \<Rightarrow> string option \<Rightarrow> bool \<Rightarrow>
    ProtoGroup \<Rightarrow> UpdatesResultType eff" where
  "integrateState E attributes secretParams firstOrRejoin source isReJoin groupState =
    (let src = (if firstOrRejoin then source else None) in
     bindF (pureF (decryptGroupState E groupState secretParams)) (\<lambda>st.
     bindF (pureF (applyGroupState E attributes st src)) (\<lambda>r.
     bindF (effF (map DeletedFile (gs_deletedFiles r))) (\<lambda>_.
     bindF (pureF (extractDiffs E attributes (gs_newAttributes r)
         \<lparr>do_dropInitialJoinMessage = False, do_isReJoin = isReJoin, do_promoted = None, do_source = src\<rparr>)) (\<lambda>msgs.
     pureF (Inr \<lparr>ur_messages = msgs, ur_newProfileKeys = profileKeysToMap E (gs_newProfileKeys r),
       ur_newAttributes = gs_newAttributes r\<rparr>))))))"

definition integrateGroupChange :: "env \<Rightarrow> (bytes \<Rightarrow> ProtoActions js) \<Rightarrow> ConversationAttributesType \<Rightarrow>
    int option \<Rightarrow> ProtoGroupChange option \<Rightarrow> ProtoGroup option \<Rightarrow> UpdatesResultType eff" where
  "integrateGroupChange E decodeActions grp newRevision groupChange groupState =
    (let logId = ''integrateGroupChange'' in
     if \<not> truthy_str (c_secretParams grp) then pureF (throw (logId @ '': Group was missing secretParams!''))
     else if groupChange = None \<and> groupState = None
     then pureF (throw (logId @ '': Neither groupChange nor groupState received!''))
     else
       bindF (pureF (getCheckedAci E)) (\<lambda>ourAci.
       let isFirstFetch = (c_revision grp = None);
           isReJoin = (\<not> isFirstFetch \<and> \<not> weAreInGroup ourAci grp)
       in bindF (pureF (readChange E decodeActions grp newRevision groupChange)) (\<lambda>outcome.
          case outcome of
            None \<Rightarrow> pureF (Inr (noUpdates grp))
          | Some info \<Rightarrow>
              bindF (if canApplyChange ourAci grp groupChange info
                     then integrateActions E logId grp info
                     else pureF (Inr (noUpdates grp))) (\<lambda>first.
              case groupState of
                None \<Rightarrow>
                  if canApplyChange ourAci grp groupChange info then pureF (Inr first)
                  else pureF (throw (logId @ '': No group state, but we can't apply changes!''))
              | Some gst \<Rightarrow>
                  bindF (integrateState E (ur_newAttributes first) (the (c_secretParams grp))
                      (isFirstFetch \<or> isReJoin) (ci_source info) isReJoin gst) (\<lambda>second.
                  pureF (Inr \<lparr>ur_messages = ur_messages first @ ur_messages second,
                    ur_newProfileKeys = mergeKeys (ur_newProfileKeys second) (ur_newProfileKeys first),
                    ur_newAttributes = ur_newAttributes second\<rparr>))))))"

section \<open>The whole log\<close>

record log_acc =
  la_attributes :: ConversationAttributesType
  la_finalMessages :: "GroupChangeMessageType list list"
  la_newProfileKeys :: "(string, string) jsmap"
  la_effects :: "effect list"

definition integrateEntry :: "env \<Rightarrow> (bytes \<Rightarrow> ProtoActions js) \<Rightarrow> int option \<Rightarrow> ProtoGroupChangeState \<Rightarrow>
    log_acc \<Rightarrow> log_acc" where
  "integrateEntry E decodeActions newRevision changeState acc =
    (if gcs_groupChange changeState = None \<and> gcs_groupState changeState = None then acc
     else case integrateGroupChange E decodeActions (la_attributes acc) newRevision
            (gcs_groupChange changeState) (gcs_groupState changeState) of
         (es, Inl _) \<Rightarrow> acc\<lparr>la_effects := la_effects acc @ es\<rparr>
       | (es, Inr r) \<Rightarrow>
           acc\<lparr>la_attributes := ur_newAttributes r,
               la_finalMessages := la_finalMessages acc @ [ur_messages r],
               la_newProfileKeys := mergeKeys (ur_newProfileKeys r) (la_newProfileKeys acc),
               la_effects := la_effects acc @ es\<rparr>)"

definition integrateGroupChanges :: "env \<Rightarrow> (bytes \<Rightarrow> ProtoActions js) \<Rightarrow> ConversationAttributesType \<Rightarrow>
    int option \<Rightarrow> ProtoGroupChanges list \<Rightarrow> UpdatesResultType eff" where
  "integrateGroupChanges E decodeActions grp newRevision changes =
    (let acc = fold (\<lambda>change acc. fold (integrateEntry E decodeActions newRevision) (or_list change) acc) changes
           \<lparr>la_attributes = grp, la_finalMessages = [], la_newProfileKeys = [], la_effects = []\<rparr>;
         attributes = la_attributes acc;
         result = (\<lambda>msgs. \<lparr>ur_messages = msgs, ur_newProfileKeys = la_newProfileKeys acc,
                           ur_newAttributes = attributes\<rparr>)
     in bindF (effF (la_effects acc)) (\<lambda>_.
        if c_revision grp = None \<and> truthy_num (c_revision attributes) then
          (let joinMessage = (case la_finalMessages acc of (m # _) # _ \<Rightarrow> Some m | _ \<Rightarrow> None) in
           bindF (pureF (extractDiffs E grp attributes
               (noDiffOptions\<lparr>do_dropInitialJoinMessage := (joinMessage \<noteq> None)\<rparr>))) (\<lambda>otherMessages.
           pureF (Inr (result (case joinMessage of None \<Rightarrow> otherMessages | Some m \<Rightarrow> m # otherMessages)))))
        else pureF (Inr (result (concat (la_finalMessages acc))))))"

section \<open>Leaving\<close>

definition leftAttributes :: "string \<Rightarrow> string option \<Rightarrow> int option \<Rightarrow> ConversationAttributesType \<Rightarrow>
    ConversationAttributesType" where
  "leftAttributes ourAci ourPni revision grp =
    grp\<lparr>c_addedBy := None,
        c_membersV2 := Some (filter (\<lambda>m. m_aci m \<noteq> ourAci) (or_list (c_membersV2 grp))),
        c_pendingMembersV2 := Some (filter (\<lambda>m. p_serviceId m \<noteq> ourAci \<and>
            (\<not> truthy_str ourPni \<or> Some (p_serviceId m) \<noteq> ourPni)) (or_list (c_pendingMembersV2 grp))),
        c_pendingAdminApprovalV2 := Some (filter (\<lambda>m. a_aci m \<noteq> ourAci) (or_list (c_pendingAdminApprovalV2 grp))),
        c_left := Some True, c_revision := revision\<rparr>"

record PreJoinInfo =
  pj_title :: "bytes option"
  pj_description :: "bytes option"
  pj_avatar :: "string option"
  pj_memberCount :: int
  pj_addFromInviteLink :: int
  pj_version :: "int option"

text \<open>\<open>getPreJoinGroupInfo\<close> (a request to the group server) is an argument; a failure keeps the revision.\<close>

definition generateLeftGroupChanges :: "env \<Rightarrow> (string \<Rightarrow> string \<Rightarrow> PreJoinInfo js) \<Rightarrow>
    ConversationAttributesType \<Rightarrow> UpdatesResultType js" where
  "generateLeftGroupChanges E getPreJoinGroupInfo grp =
    bindE (getCheckedAci E) (\<lambda>ourAci.
    let revision =
          (if truthy_str (c_masterKey grp) \<and> truthy_str (c_groupInviteLinkPassword grp) then
             (case getPreJoinGroupInfo (the (c_groupInviteLinkPassword grp)) (the (c_masterKey grp)) of
                Inl _ \<Rightarrow> c_revision grp
              | Inr info \<Rightarrow> pj_version info)
           else c_revision grp);
        newAttributes = leftAttributes ourAci (e_ourPni E) revision grp
    in bindE (extractDiffs E grp newAttributes noDiffOptions) (\<lambda>msgs.
       Inr \<lparr>ur_messages = msgs, ur_newProfileKeys = [], ur_newAttributes = newAttributes\<rparr>))"

section \<open>Lemmas\<close>

lemma decryptGroupChange_version:
  "decryptGroupChange E actions secret = Inr acts \<Longrightarrow> g_version acts = pa_version actions"
  by (auto simp: decryptGroupChange_def bindE_eq_Inr)

text \<open>What reading a change of a group with a revision means for its version.\<close>

lemma readChange_version:
  assumes "readChange E decodeActions grp n (Some change) = Inr (Some info)"
    and "decodeActions (nullish (gch_actions change) []) = Inr actions" and "pa_version actions = Some v"
    and "v \<noteq> 0" and "c_revision grp = Some cur"
  shows "cur \<le> v" "ci_sameVersion info = (v = cur)" "case n of None \<Rightarrow> True | Some m \<Rightarrow> v \<le> m"
    "\<exists>acts. ci_actions info = Some acts \<and> g_version acts = Some v"
  using assms
  by (auto simp: readChange_def bindE_eq_Inr Let_def strictAssertSome_eq_Inr decryptGroupChange_version
      split: if_splits option.splits)

lemma integrateActions_Inr:
  assumes "snd (integrateActions E logId grp info) = Inr r" and "ci_actions info = Some acts"
  shows "c_revision (ur_newAttributes r) = Some (nullish (g_version acts) 0)"
  using assms
  by (auto simp: integrateActions_def snd_bindF_Inr dest: applyGroupChange_revision
      split: option.splits if_splits)

lemma integrateGroupChange_change_cases:
  assumes "snd (integrateGroupChange E decodeActions grp n (Some change) None) = Inr r"
  obtains (skipped) "r = noUpdates grp"
  | (applied) ourAci info where "readChange E decodeActions grp n (Some change) = Inr (Some info)"
      "canApplyChange ourAci grp (Some change) info"
      "snd (integrateActions E ''integrateGroupChange'' grp info) = Inr r"
proof -
  from assms obtain ourAci outcome where out: "readChange E decodeActions grp n (Some change) = Inr outcome"
    and rest: "snd (case outcome of None \<Rightarrow> pureF (Inr (noUpdates grp))
      | Some info \<Rightarrow> bindF (if canApplyChange ourAci grp (Some change) info
            then integrateActions E ''integrateGroupChange'' grp info else pureF (Inr (noUpdates grp)))
          (\<lambda>first. if canApplyChange ourAci grp (Some change) info then pureF (Inr first)
            else pureF (throw (''integrateGroupChange'' @ '': No group state, but we can't apply changes!'')))) = Inr r"
    unfolding integrateGroupChange_def Let_def snd_bindF_Inr
    by (simp only: snd_bindF_Inr option.case pureF_simps split: if_splits) blast+
  show ?thesis
  proof (cases outcome)
    case None
    with rest show ?thesis by (simp add: skipped)
  next
    case (Some info)
    with rest out show ?thesis
      by (cases "canApplyChange ourAci grp (Some change) info") (auto simp: snd_bindF_Inr intro: applied)
  qed
qed

lemma integrateGroupChange_change_only:
  assumes run: "snd (integrateGroupChange E decodeActions grp n (Some change) None) = Inr r"
    and "decodeActions (nullish (gch_actions change) []) = Inr actions" and "pa_version actions = Some v"
    and "v \<noteq> 0" and "c_revision grp = Some cur"
  shows "r = noUpdates grp \<or>
    c_revision (ur_newAttributes r) = Some v \<and> cur < v \<and> (case n of None \<Rightarrow> True | Some m \<Rightarrow> v \<le> m)"
  using run
proof (cases rule: integrateGroupChange_change_cases)
  case (applied ourAci info)
  note v = readChange_version [OF applied(1) assms(2-5)]
  from v(4) obtain acts where acts: "ci_actions info = Some acts" "g_version acts = Some v" by blast
  have "c_revision (ur_newAttributes r) = Some v"
    using integrateActions_Inr [OF applied(3) acts(1)] acts(2) by simp
  moreover have "v \<noteq> cur" using applied(2) v(2) by (simp add: canApplyChange_def)
  ultimately show ?thesis using v(1,3) by simp
qed simp

lemma readChange_stale:
  assumes "decodeActions (nullish (gch_actions change) []) = Inr actions"
    and "decryptGroupChange E actions (the (c_secretParams grp)) = Inr acts"
    and "g_sourceServiceId acts \<noteq> None"
    and "c_revision grp = Some cur" and "pa_version actions = Some v" and "v \<noteq> 0" and "v < cur"
  shows "readChange E decodeActions grp newRevision (Some change) = Inr None"
  using assms by (auto simp: readChange_def Let_def)

section \<open>Properties\<close>

text \<open>
A stale change is skipped: a log entry whose change has a version below the revision of the
group (and a known source) changes nothing and generates nothing, even if it comes with a state.
\<close>

theorem integrateGroupChange_stale:
  assumes "truthy_str (c_secretParams grp)" and "e_ourAci E \<noteq> None"
    and "decodeActions (nullish (gch_actions change) []) = Inr actions"
    and "decryptGroupChange E actions (the (c_secretParams grp)) = Inr acts"
    and "g_sourceServiceId acts \<noteq> None"
    and "c_revision grp = Some cur" and "pa_version actions = Some v" and "v \<noteq> 0" and "v < cur"
  shows "integrateGroupChange E decodeActions grp newRevision (Some change) groupState =
    ([], Inr (noUpdates grp))"
proof -
  have "readChange E decodeActions grp newRevision (Some change) = Inr None"
    using assms(3-9) by (rule readChange_stale)
  then show ?thesis
    using assms(1,2) by (auto simp: integrateGroupChange_def Let_def bindF_def pureF_def)
qed

definition staleActions :: ProtoActions where
  "staleActions = emptyProtoActions\<lparr>pa_sourceUserId := Some (bytes_of_chars ''PNI:eve''), pa_version := Some 3\<rparr>"

lemma staleActions_simps: "pa_version staleActions = Some 3"
  by (simp add: staleActions_def)

lemma staleActions_decrypted:
  "\<exists>acts. decryptGroupChange exampleEnv staleActions s = Inr acts \<and> g_sourceServiceId acts = Some ''PNI:eve''"
proof -
  have src: "decryptSource exampleCipher staleActions = Inr (Some ''PNI:eve'')"
    by (simp add: decryptSource_def staleActions_def attempt_def decryptServiceId_def exampleCipher_def
        chars_of_bytes_of_chars Let_def isServiceIdString_def isPniString_def)
      (simp add: bytes_of_chars_def)
  show ?thesis
    by (simp add: decryptGroupChange_def src compactMap_def decryptAccess_def)
      (simp add: staleActions_def emptyProtoActions_def map_filter_def)
qed

theorem integrateGroupChange_stale_witness:
  "integrateGroupChange exampleEnv (\<lambda>_. Inr staleActions) exampleGroup (Some 9)
      (Some \<lparr>gch_actions = None, gch_serverSignature = None, gch_changeEpoch = None\<rparr>) None =
    ([], Inr (noUpdates exampleGroup))"
proof -
  obtain acts where "decryptGroupChange exampleEnv staleActions (the (c_secretParams exampleGroup)) = Inr acts"
    and source: "g_sourceServiceId acts = Some ''PNI:eve''"
    using staleActions_decrypted by blast
  then show ?thesis
    using integrateGroupChange_stale [of exampleGroup exampleEnv "\<lambda>_. Inr staleActions" _ staleActions acts 5 3]
    by (simp add: exampleGroup_def exampleEnv_def staleActions_simps)
qed

lemma stale_skipped:
  "integrateGroupChange exampleEnv (\<lambda>_. Inr staleActions) exampleGroup (Some 9)
      (Some \<lparr>gch_actions = None, gch_serverSignature = None, gch_changeEpoch = None\<rparr>) None =
    ([], Inr (noUpdates exampleGroup))"
proof -
  obtain acts where "decryptGroupChange exampleEnv staleActions (the (c_secretParams exampleGroup)) = Inr acts"
    and "g_sourceServiceId acts = Some ''PNI:eve''"
    using staleActions_decrypted by blast
  then have "readChange exampleEnv (\<lambda>_. Inr staleActions) exampleGroup (Some 9)
      (Some \<lparr>gch_actions = None, gch_serverSignature = None, gch_changeEpoch = None\<rparr>) = Inr None"
    by (intro readChange_stale) (auto simp: staleActions_simps exampleGroup_def)
  then show ?thesis
    by (simp add: integrateGroupChange_def Let_def bindF_def pureF_def exampleGroup_def exampleEnv_def)
qed



text \<open>
Leaving: the attributes made when the server tells us we are no longer in the group are those of
the group with us (under both our identifiers) out of the members, the invitations and the requests,
everyone else kept in place, marked as left and without \<open>addedBy\<close>; nothing else but the revision changes.
\<close>

theorem generateLeftGroupChanges_leaves:
  "case generateLeftGroupChanges E getPreJoinGroupInfo grp of
     Inl _ \<Rightarrow> True
   | Inr r \<Rightarrow>
       let new = ur_newAttributes r in
       c_left new = Some True \<and> c_addedBy new = None \<and>
       map m_aci (or_list (c_membersV2 new)) =
         filter (\<lambda>a. Some a \<noteq> e_ourAci E) (map m_aci (or_list (c_membersV2 grp))) \<and>
       map p_serviceId (or_list (c_pendingMembersV2 new)) =
         filter (\<lambda>s. if s = [] then Some s \<noteq> e_ourAci E else Some s \<notin> {e_ourAci E, e_ourPni E}) (map p_serviceId (or_list (c_pendingMembersV2 grp))) \<and>
       map a_aci (or_list (c_pendingAdminApprovalV2 new)) =
         filter (\<lambda>a. Some a \<noteq> e_ourAci E) (map a_aci (or_list (c_pendingAdminApprovalV2 grp))) \<and>
       new = grp\<lparr>c_addedBy := None, c_membersV2 := c_membersV2 new, c_pendingMembersV2 := c_pendingMembersV2 new,
         c_pendingAdminApprovalV2 := c_pendingAdminApprovalV2 new, c_left := Some True, c_revision := c_revision new\<rparr>"
proof (cases "generateLeftGroupChanges E getPreJoinGroupInfo grp")
  case (Inr r)
  then obtain ourAci rev where "e_ourAci E = Some ourAci"
    and "ur_newAttributes r = leftAttributes ourAci (e_ourPni E) rev grp"
    by (auto simp: generateLeftGroupChanges_def bindE_eq_Inr Let_def getCheckedAci_def strictAssertSome_eq_Inr split: option.splits)
  then show ?thesis
    by (auto simp: Inr Let_def leftAttributes_def filter_map o_def truthy_str_def intro!: arg_cong [where f = "map f" for f] filter_cong split: option.splits)
qed simp

end
