(* ===== verification/Group_Endorsements.thy ===== *)
theory Group_Endorsements
  imports Group_Membership
begin

text \<open>
  Group send endorsements (ts/util/groupSendEndorsements.preload.ts): the server's proofs that we may send
  to the members of a group. \<open>buildToken\<close> makes the endorsement for a set of recipients in the cheapest
  of four ways. The endorsements themselves (libsignal) are abstract: \<open>EndorsementOps\<close> are the
  operations the code calls, and \<open>endorsementLaws\<close> states what libsignal documents of them.
\<close>

section \<open>Expiration\<close>

text \<open>Both times are in milliseconds; the code compares and truncates their quotients by 1000.\<close>

definition endorsementsExpirationValid :: "int \<Rightarrow> int \<Rightarrow> bool" where
  "endorsementsExpirationValid expiration now \<longleftrightarrow>
    (if expiration \<le> now then False
     else let distance = (expiration - now) div 1000
          in if distance \<le> 2 * 3600 then False else if distance \<ge> 2 * 86400 then False else True)"

section \<open>The data\<close>

record GroupSendCombinedEndorsement =
  ce_groupId :: string
  ce_expiration :: int
  ce_endorsement :: bytes

record GroupSendMemberEndorsement =
  me_groupId :: string
  me_memberAci :: string
  me_expiration :: int
  me_endorsement :: bytes

record GroupSendEndorsementsData =
  ed_combined :: GroupSendCombinedEndorsement
  ed_members :: "GroupSendMemberEndorsement list"

text \<open>The schema: a group id of 32 bytes, a positive expiration, no empty endorsement, ACIs; at least one member,
  and the same group and expiration for all.\<close>

definition dataOk :: "env \<Rightarrow> GroupSendEndorsementsData \<Rightarrow> bool" where
  "dataOk E d \<longleftrightarrow>
    length (fromBase64 E (ce_groupId (ed_combined d))) = 32 \<and> 0 < ce_expiration (ed_combined d) \<and>
    ce_endorsement (ed_combined d) \<noteq> [] \<and>
    list_all (\<lambda>m. length (fromBase64 E (me_groupId m)) = 32 \<and> isAciString (Some (me_memberAci m)) \<and>
      0 < me_expiration m \<and> me_endorsement m \<noteq> []) (ed_members d) \<and>
    ed_members d \<noteq> [] \<and>
    list_all (\<lambda>m. me_groupId m = ce_groupId (ed_combined d) \<and> me_expiration m = ce_expiration (ed_combined d)) (ed_members d)"

record ReceivedEndorsements =
  re_expiration :: int
  re_combinedEndorsement :: bytes
  re_endorsements :: "bytes list"

text \<open>\<open>receive\<close> is libsignal's \<open>receiveWithServiceIds\<close> on the response, the members and us.\<close>

definition decodeGroupSendEndorsementsResponse :: "env \<Rightarrow>
    (bytes \<Rightarrow> string list \<Rightarrow> string \<Rightarrow> string \<Rightarrow> ReceivedEndorsements js) \<Rightarrow> string \<Rightarrow> bytes \<Rightarrow> string \<Rightarrow>
    GroupV2MemberType list \<Rightarrow> GroupSendEndorsementsData js" where
  "decodeGroupSendEndorsementsResponse E receive groupId response groupSecretParams groupMembersV2 =
    bindE (strictAssert (0 < length response) ''Received empty groupSendEndorsementsResponse'') (\<lambda>_.
    bindE (getCheckedAci E) (\<lambda>localUser.
    let groupMembers = map m_aci groupMembersV2
    in bindE (receive response groupMembers localUser groupSecretParams) (\<lambda>received.
       bindE (strictAssert (length (re_endorsements received) = length groupMembers)
         ''Member endorsements must match input array'') (\<lambda>_.
       let d = \<lparr>ed_combined = \<lparr>ce_groupId = groupId, ce_expiration = re_expiration received,
                  ce_endorsement = re_combinedEndorsement received\<rparr>,
                ed_members = map2 (\<lambda>aci e. \<lparr>me_groupId = groupId, me_memberAci = aci,
                  me_expiration = re_expiration received, me_endorsement = e\<rparr>) groupMembers (re_endorsements received)\<rparr>
       in if dataOk E d then Inr d else throw ''decodeGroupSendEndorsementsResponse: invalid data''))))"

section \<open>Building the endorsement of a set of recipients\<close>

record 'e EndorsementOps =
  eo_parse :: "bytes \<Rightarrow> 'e js"
  eo_combine :: "'e list \<Rightarrow> 'e"
  eo_byRemoving :: "'e \<Rightarrow> 'e \<Rightarrow> 'e"

record GroupSendEndorsementState =
  gs_combined :: GroupSendCombinedEndorsement
  gs_memberEndorsements :: "(string, GroupSendMemberEndorsement) jsmap"
  gs_ourAci :: string

definition newEndorsementState :: "env \<Rightarrow> GroupSendEndorsementsData \<Rightarrow> GroupSendEndorsementState js" where
  "newEndorsementState E d =
    bindE (getCheckedAci E) (\<lambda>ourAci.
    Inr \<lparr>gs_combined = ed_combined d,
      gs_memberEndorsements = js_of_pairs (map (\<lambda>m. (me_memberAci m, m)) (ed_members d)),
      gs_ourAci = ourAci\<rparr>)"

abbreviation memberEndorsementsAcis :: "GroupSendEndorsementState \<Rightarrow> string list" where
  "memberEndorsementsAcis st \<equiv> js_keys (gs_memberEndorsements st)"

definition getMemberEndorsement :: "'e EndorsementOps \<Rightarrow> GroupSendEndorsementState \<Rightarrow> string \<Rightarrow> 'e js" where
  "getMemberEndorsement ops st serviceId =
    bindE (strictAssertSome (js_get (gs_memberEndorsements st) serviceId)
      ''getMemberEndorsement: Missing endorsement'') (\<lambda>m.
    eo_parse ops (me_endorsement m))"

definition getCombinedEndorsement :: "'e EndorsementOps \<Rightarrow> GroupSendEndorsementState \<Rightarrow> bool \<Rightarrow> 'e js" where
  "getCombinedEndorsement ops st includesOurs =
    bindE (eo_parse ops (ce_endorsement (gs_combined st))) (\<lambda>endorsement.
    if \<not> includesOurs then Inr endorsement
    else bindE (getMemberEndorsement ops st (gs_ourAci st)) (\<lambda>ours.
      Inr (eo_combine ops [endorsement, ours])))"

definition combineMemberEndorsements :: "'e EndorsementOps \<Rightarrow> GroupSendEndorsementState \<Rightarrow> string list \<Rightarrow> 'e js" where
  "combineMemberEndorsements ops st serviceIds =
    bindE (mapE (getMemberEndorsement ops st) serviceIds) (\<lambda>es. Inr (eo_combine ops es))"

definition subtractMemberEndorsements :: "'e EndorsementOps \<Rightarrow> GroupSendEndorsementState \<Rightarrow> string list \<Rightarrow> bool \<Rightarrow>
    'e js" where
  "subtractMemberEndorsements ops st otherMembers includesOurs =
    bindE (strictAssert (gs_ourAci st \<notin> set otherMembers)
      ''subtractMemberEndorsements: Cannot subtract our own aci from the combined endorsement'') (\<lambda>_.
    bindE (getCombinedEndorsement ops st includesOurs) (\<lambda>combined.
    bindE (combineMemberEndorsements ops st otherMembers) (\<lambda>others.
    Inr (eo_byRemoving ops combined others))))"

definition buildToken :: "'e EndorsementOps \<Rightarrow> GroupSendEndorsementState \<Rightarrow> string list \<Rightarrow> 'e js" where
  "buildToken ops st serviceIds =
    (if length serviceIds = 1 then getMemberEndorsement ops st (hd serviceIds)
     else if filter (\<lambda>s. s \<notin> set (memberEndorsementsAcis st)) serviceIds \<noteq> []
     then throw ''Attempted to build token with memberAcis we don't have endorsements for''
     else
       let difference = filter (\<lambda>s. s \<notin> set serviceIds) (memberEndorsementsAcis st);
           otherMembers = filter (\<lambda>s. s \<noteq> gs_ourAci st) difference;
           includesOurs = (gs_ourAci st \<notin> set difference)
       in if length otherMembers = 0 then getCombinedEndorsement ops st includesOurs
          else if 2 * length otherMembers < length (memberEndorsementsAcis st)
          then subtractMemberEndorsements ops st otherMembers includesOurs
          else combineMemberEndorsements ops st serviceIds)"

text \<open>\<open>toToken\<close> checks the expiration first; \<open>toFullToken\<close> is the endorsement with its expiration.\<close>

definition toToken :: "int \<Rightarrow> GroupSendEndorsementState \<Rightarrow> 'e \<Rightarrow> ('e \<times> int) js" where
  "toToken now st endorsement =
    bindE (strictAssert (endorsementsExpirationValid (ce_expiration (gs_combined st) * 1000) now)
      ''toToken: Endorsements are expired'') (\<lambda>_.
    Inr (endorsement, ce_expiration (gs_combined st) * 1000))"

definition buildGroupSendToken :: "'e EndorsementOps \<Rightarrow> int \<Rightarrow> GroupSendEndorsementState \<Rightarrow> string list \<Rightarrow>
    ('e \<times> int) js" where
  "buildGroupSendToken ops now st serviceIds = bindE (buildToken ops st serviceIds) (toToken now st)"

section \<open>When to refresh the group\<close>

definition validateGroupSendEndorsements :: "env \<Rightarrow> string list \<Rightarrow> GroupSendEndorsementState option \<Rightarrow> bool js" where
  "validateGroupSendEndorsements E members state =
    (case state of
       None \<Rightarrow> bindE (getCheckedAci E) (\<lambda>ourAci. Inr (ourAci \<notin> set members))
     | Some st \<Rightarrow>
         if \<not> endorsementsExpirationValid (ce_expiration (gs_combined st) * 1000) (date_now E) then Inr False
         else Inr (filter (\<lambda>m. \<not> js_has (gs_memberEndorsements st) m) members = []))"

definition getEndorsementsState :: "env \<Rightarrow> ConversationAttributesType \<Rightarrow> GroupSendEndorsementsData option \<Rightarrow>
    (string list \<times> GroupSendEndorsementState option) js" where
  "getEndorsementsState E attrs stored =
    bindE (strictAssertSome (c_secretParams attrs) ''Must have secret params'') (\<lambda>_.
    bindE (strictAssertSome (c_membersV2 attrs) ''Must have members'') (\<lambda>membersV2.
    bindE (case stored of None \<Rightarrow> Inr None | Some d \<Rightarrow> bindE (newEndorsementState E d) (\<lambda>st. Inr (Some st))) (\<lambda>state.
    Inr (map m_aci membersV2, state))))"

text \<open>
  The result is the state to send with, whether the group was refreshed, and whether \<open>maybeUpdateGroup\<close>
  was called: in the conversation's queue it is called at once, otherwise a job first looks again at
  what is stored by then (\<open>later\<close>: the attributes and data at that time).
\<close>

record endorsement_result =
  er_state :: "GroupSendEndorsementState option"
  er_didRefreshGroupState :: bool
  er_updatesGroup :: bool

definition maybeCreateGroupSendEndorsementState :: "env \<Rightarrow> ConversationAttributesType option \<Rightarrow> bool \<Rightarrow>
    GroupSendEndorsementsData option \<Rightarrow> (ConversationAttributesType \<times> GroupSendEndorsementsData option) \<Rightarrow>
    bool \<Rightarrow> bool \<Rightarrow> endorsement_result js" where
  "maybeCreateGroupSendEndorsementState E conversation isBlocked stored later alreadyRefreshedGroupState alreadyInQueue =
    bindE (strictAssertSome conversation ''Conversation not found'') (\<lambda>attrs.
    bindE (strictAssert (isGroupV2 E attrs) ''Conversation is not groupV2'') (\<lambda>_.
    bindE (getEndorsementsState E attrs stored) (\<lambda>(members, state).
    bindE (validateGroupSendEndorsements E members state) (\<lambda>valid.
    let none = \<lparr>er_state = None, er_didRefreshGroupState = False, er_updatesGroup = False\<rparr> in
    if \<not> valid then
      if truthy_bool (c_terminated attrs) then Inr none
      else if alreadyRefreshedGroupState then Inr none
      else if isBlocked then Inr none
      else if alreadyInQueue
      then Inr \<lparr>er_state = None, er_didRefreshGroupState = True, er_updatesGroup = True\<rparr>
      else
        bindE (getEndorsementsState E (fst later) (snd later)) (\<lambda>(newMembers, newState).
        bindE (validateGroupSendEndorsements E newMembers newState) (\<lambda>newValid.
        Inr \<lparr>er_state = None, er_didRefreshGroupState = True, er_updatesGroup = (\<not> newValid)\<rparr>))
    else Inr \<lparr>er_state = state, er_didRefreshGroupState = False, er_updatesGroup = False\<rparr>))))"

section \<open>What libsignal promises\<close>

text \<open>
  \<open>covers e A\<close>: \<open>e\<close> endorses sending to exactly the people in \<open>A\<close>. Combining endorsements of disjoint sets
  covers their union; removing an endorsement of a part covers the rest.
\<close>

definition endorsementLaws :: "'e EndorsementOps \<Rightarrow> ('e \<Rightarrow> string set \<Rightarrow> bool) \<Rightarrow> bool" where
  "endorsementLaws ops covers \<longleftrightarrow>
    (\<forall>es As. list_all2 covers es As \<longrightarrow> sorted_wrt (\<lambda>A B. A \<inter> B = {}) As \<longrightarrow>
      covers (eo_combine ops es) (\<Union> (set As))) \<and>
    (\<forall>e f A B. covers e A \<longrightarrow> covers f B \<longrightarrow> B \<subseteq> A \<longrightarrow> covers (eo_byRemoving ops e f) (A - B))"

text \<open>
  A state as it is stored: every member has an endorsement that can be read, we are a member, and the
  combined endorsement is for all members but us.
\<close>

definition stateCovers :: "'e EndorsementOps \<Rightarrow> ('e \<Rightarrow> string set \<Rightarrow> bool) \<Rightarrow> GroupSendEndorsementState \<Rightarrow> bool" where
  "stateCovers ops covers st \<longleftrightarrow>
    distinct (memberEndorsementsAcis st) \<and> gs_ourAci st \<in> set (memberEndorsementsAcis st) \<and>
    (\<forall>(aci, m) \<in> set (gs_memberEndorsements st). \<exists>e. eo_parse ops (me_endorsement m) = Inr e \<and> covers e {aci}) \<and>
    (\<exists>e. eo_parse ops (ce_endorsement (gs_combined st)) = Inr e \<and>
      covers e (set (memberEndorsementsAcis st) - {gs_ourAci st}))"

section \<open>Lemmas\<close>

lemma covers_byRemoving:
  "endorsementLaws ops covers \<Longrightarrow> covers e A \<Longrightarrow> covers f B \<Longrightarrow> B \<subseteq> A \<Longrightarrow> covers (eo_byRemoving ops e f) (A - B)"
  by (simp add: endorsementLaws_def)

lemma covers_combine_members:
  assumes "endorsementLaws ops covers" and "list_all2 (\<lambda>s e. covers e {s}) ss es" and "distinct ss"
  shows "covers (eo_combine ops es) (set ss)"
proof -
  have "list_all2 covers es (map (\<lambda>s. {s}) ss)"
    using assms(2) by (simp add: list_all2_conv_all_nth)
  moreover have "sorted_wrt (\<lambda>A B. A \<inter> B = {}) (map (\<lambda>s. {s}) ss)"
    using assms(3) by (induction ss) auto
  ultimately have "covers (eo_combine ops es) (\<Union> (set (map (\<lambda>s. {s}) ss)))"
    using assms(1) unfolding endorsementLaws_def by blast
  moreover have "\<Union> (set (map (\<lambda>s. {s}) ss)) = set ss" by auto
  ultimately show ?thesis by simp
qed

lemma covers_combine_two:
  assumes "endorsementLaws ops covers" and "covers e A" and "covers f B" and "A \<inter> B = {}"
  shows "covers (eo_combine ops [e, f]) (A \<union> B)"
proof -
  have "list_all2 covers [e, f] [A, B]" "sorted_wrt (\<lambda>A B. A \<inter> B = {}) [A, B]"
    using assms(2-4) by simp_all
  then have "covers (eo_combine ops [e, f]) (\<Union> (set [A, B]))"
    using assms(1) unfolding endorsementLaws_def by blast
  then show ?thesis by simp
qed

lemma getMemberEndorsement_covers:
  assumes "stateCovers ops covers st" and "aci \<in> set (memberEndorsementsAcis st)"
  shows "\<exists>e. getMemberEndorsement ops st aci = Inr e \<and> covers e {aci}"
proof -
  obtain m where m: "js_get (gs_memberEndorsements st) aci = Some m"
    using assms(2) js_get_eq_None_iff by fastforce
  then have "(aci, m) \<in> set (gs_memberEndorsements st)" by (rule map_of_SomeD)
  then show ?thesis
    using assms(1) m by (auto simp: stateCovers_def getMemberEndorsement_def)
qed

lemma getMemberEndorsement_missing:
  "aci \<notin> set (memberEndorsementsAcis st) \<Longrightarrow> isl (getMemberEndorsement ops st aci)"
  using js_get_eq_None_iff [of "gs_memberEndorsements st" aci] by (simp add: getMemberEndorsement_def)

lemma combineMemberEndorsements_covers:
  assumes "endorsementLaws ops covers" and "stateCovers ops covers st"
    and "distinct ss" and "set ss \<subseteq> set (memberEndorsementsAcis st)"
  shows "\<exists>e. combineMemberEndorsements ops st ss = Inr e \<and> covers e (set ss)"
proof -
  have "\<exists>es. mapE (getMemberEndorsement ops st) ss = Inr es \<and> list_all2 (\<lambda>s e. covers e {s}) ss es"
    using assms(4)
  proof (induction ss)
    case (Cons s ss)
    then show ?case using getMemberEndorsement_covers [OF assms(2), of s] by auto
  qed simp
  then show ?thesis
    using covers_combine_members [OF assms(1) _ assms(3)] by (auto simp: combineMemberEndorsements_def)
qed

lemma getCombinedEndorsement_covers:
  assumes "endorsementLaws ops covers" and "stateCovers ops covers st"
  shows "\<exists>e. getCombinedEndorsement ops st includesOurs = Inr e \<and>
    covers e (set (memberEndorsementsAcis st) - (if includesOurs then {} else {gs_ourAci st}))"
proof -
  let ?all = "set (memberEndorsementsAcis st)"
  obtain e where e: "eo_parse ops (ce_endorsement (gs_combined st)) = Inr e" "covers e (?all - {gs_ourAci st})"
    using assms(2) by (auto simp: stateCovers_def)
  have ours: "gs_ourAci st \<in> ?all" using assms(2) by (simp add: stateCovers_def)
  from getMemberEndorsement_covers [OF assms(2) this] obtain f where
    f: "getMemberEndorsement ops st (gs_ourAci st) = Inr f" "covers f {gs_ourAci st}" by blast
  have "covers (eo_combine ops [e, f]) (?all - {gs_ourAci st} \<union> {gs_ourAci st})"
    by (rule covers_combine_two [OF assms(1) e(2) f(2)]) simp
  with e f ours show ?thesis by (simp add: getCombinedEndorsement_def insert_absorb)
qed

section \<open>Properties\<close>

text \<open>
C36: The token is for the recipients, whichever way it is built. For a set of recipients (a list without
repetition), \<open>buildToken\<close> returns exactly when all of them are members with an endorsement, and then the
endorsement it returns, be it a single one, the combined one, the combined one with the others taken away
or a combination of single ones, covers these recipients and nobody else.
\<close>

theorem buildToken_covers_recipients:
  assumes "endorsementLaws ops covers" and "stateCovers ops covers st" and "distinct serviceIds"
  shows "case buildToken ops st serviceIds of
      Inl _ \<Rightarrow> \<not> set serviceIds \<subseteq> set (memberEndorsementsAcis st)
    | Inr e \<Rightarrow> set serviceIds \<subseteq> set (memberEndorsementsAcis st) \<and> covers e (set serviceIds)"
proof (cases "set serviceIds \<subseteq> set (memberEndorsementsAcis st)")
  case False
  then have "isl (buildToken ops st serviceIds)"
    by (cases serviceIds) (auto simp: buildToken_def filter_empty_conv getMemberEndorsement_missing)
  with False show ?thesis by (auto split: sum.splits)
next
  case True
  let ?all = "set (memberEndorsementsAcis st)" and ?us = "gs_ourAci st"
  let ?difference = "filter (\<lambda>s. s \<notin> set serviceIds) (memberEndorsementsAcis st)"
  let ?others = "filter (\<lambda>s. s \<noteq> ?us) ?difference" and ?ours = "?us \<notin> set ?difference"
  have ours: "?us \<in> ?all" and distinct: "distinct ?others"
    using assms(2) by (auto simp: stateCovers_def)
  have rest: "?all - (if ?ours then {} else {?us}) - set ?others = set serviceIds"
    using True ours by auto
  have missing: "filter (\<lambda>s. s \<notin> ?all) serviceIds = []"
    using True by (auto simp: filter_empty_conv)
  have goal: "\<exists>e. buildToken ops st serviceIds = Inr e \<and> covers e (set serviceIds)"
  proof -
    consider (one) s where "serviceIds = [s]"
      | (all) "length serviceIds \<noteq> 1" "?others = []"
      | (subtract) "length serviceIds \<noteq> 1" "?others \<noteq> []" "2 * length ?others < length (memberEndorsementsAcis st)"
      | (combine) "length serviceIds \<noteq> 1" "?others \<noteq> []" "\<not> 2 * length ?others < length (memberEndorsementsAcis st)"
    proof (cases "length serviceIds = 1")
      case True
      then obtain s where "serviceIds = [s]" by (cases serviceIds) auto
      then show thesis by (rule one)
    qed (use all subtract combine in blast)
    then show ?thesis
    proof cases
      case one
      then show ?thesis using getMemberEndorsement_covers [OF assms(2), of s] True by (simp add: buildToken_def)
    next
      case all
      have "buildToken ops st serviceIds = getCombinedEndorsement ops st ?ours"
        unfolding buildToken_def Let_def using all missing by (simp only: refl if_False if_True not_True_eq_False list.size)
      moreover have "set serviceIds = ?all - (if ?ours then {} else {?us})"
        using rest unfolding all(2) by simp
      ultimately show ?thesis
        using getCombinedEndorsement_covers [OF assms(1,2), of ?ours] by (simp only:)
    next
      case subtract
      from getCombinedEndorsement_covers [OF assms(1,2), of ?ours] obtain e where
        e: "getCombinedEndorsement ops st ?ours = Inr e" "covers e (?all - (if ?ours then {} else {?us}))" by blast
      from combineMemberEndorsements_covers [OF assms(1,2) distinct] obtain f where
        f: "combineMemberEndorsements ops st ?others = Inr f" "covers f (set ?others)" by auto
      have "set ?others \<subseteq> ?all - (if ?ours then {} else {?us})" by auto
      from covers_byRemoving [OF assms(1) e(2) f(2) this] have "covers (eo_byRemoving ops e f) (set serviceIds)"
        unfolding rest .
      moreover have "buildToken ops st serviceIds = subtractMemberEndorsements ops st ?others ?ours"
        unfolding buildToken_def Let_def using subtract missing
        by (simp only: refl if_False if_True not_True_eq_False length_0_conv)
      ultimately show ?thesis using e(1) f(1) by (auto simp: subtractMemberEndorsements_def)
    next
      case combine
      have "buildToken ops st serviceIds = combineMemberEndorsements ops st serviceIds"
        unfolding buildToken_def Let_def using combine missing
        by (simp only: refl if_False if_True not_True_eq_False length_0_conv)
      with combineMemberEndorsements_covers [OF assms(1,2,3) True] show ?thesis by simp
    qed
  qed
  with True show ?thesis by auto
qed

text \<open>Endorsements that are the sets they cover, and a group of us and one other.\<close>

definition exampleOps :: "string set EndorsementOps" where
  "exampleOps = \<lparr>eo_parse = (\<lambda>b. Inr {chars_of_bytes b}), eo_combine = (\<lambda>es. \<Union> (set es)),
     eo_byRemoving = (\<lambda>e f. e - f)\<rparr>"

definition exampleEndorsements :: GroupSendEndorsementState where
  "exampleEndorsements =
    (let e = (\<lambda>aci. \<lparr>me_groupId = ''g'', me_memberAci = aci, me_expiration = 1, me_endorsement = bytes_of_chars aci\<rparr>)
     in \<lparr>gs_combined = \<lparr>ce_groupId = ''g'', ce_expiration = 1, ce_endorsement = bytes_of_chars ''bob''\<rparr>,
         gs_memberEndorsements = [(''us'', e ''us''), (''bob'', e ''bob'')], gs_ourAci = ''us''\<rparr>)"

theorem buildToken_covers_recipients_witness:
  "case buildToken exampleOps exampleEndorsements [''us'', ''bob''] of
      Inl _ \<Rightarrow> \<not> set [''us'', ''bob''] \<subseteq> set (memberEndorsementsAcis exampleEndorsements)
    | Inr e \<Rightarrow> set [''us'', ''bob''] \<subseteq> set (memberEndorsementsAcis exampleEndorsements) \<and> e = set [''us'', ''bob'']"
proof (rule buildToken_covers_recipients)
  show "endorsementLaws exampleOps (\<lambda>e A. e = A)"
    by (simp add: endorsementLaws_def exampleOps_def list_all2_eq [symmetric])
  show "stateCovers exampleOps (\<lambda>e A. e = A) exampleEndorsements"
    by (auto simp: stateCovers_def exampleOps_def exampleEndorsements_def)
qed simp

end
