(* ===== verification/Group_Fetch.thy ===== *)
theory Group_Fetch
  imports Group_Integrate Group_Endorsements
begin

text \<open>
  How the changes of a group are fetched and which of them are believed: \<open>getGroupUpdates\<close> of
  ts/groups.preload.ts and the five ways it has to update a group (one change that came with a message,
  the log, the full state, the information before joining, having left), with \<open>getGroupLog\<close> of
  ts/textsecure/WebAPI.preload.ts.

  The network, the notary signatures of the server (libsignal), the decoders (generated code) and the
  database are the record \<open>Server\<close>. The log is read in a loop that ends when the server says so, so
  the result of a task is an option: \<open>None\<close> if it never ends.
\<close>

section \<open>Tasks\<close>

type_synonym 'a task = "'a eff option"

definition taskE :: "'a eff \<Rightarrow> 'a task" where
  "taskE = Some"

definition throwT :: "js_error \<Rightarrow> 'a task" where
  "throwT e = taskE (pureF (Inl e))"

definition bindT :: "'a task \<Rightarrow> ('a \<Rightarrow> 'b task) \<Rightarrow> 'b task" where
  "bindT m f =
    (case m of
       None \<Rightarrow> None
     | Some (es, Inl e) \<Rightarrow> Some (es, Inl e)
     | Some (es, Inr x) \<Rightarrow> (case f x of None \<Rightarrow> None | Some (es', r) \<Rightarrow> Some (es @ es', r)))"

text \<open>\<open>try\<close> and \<open>catch\<close>: the effects of the part that failed remain.\<close>

definition catchT :: "'a task \<Rightarrow> (js_error \<Rightarrow> 'a task) \<Rightarrow> 'a task" where
  "catchT m h =
    (case m of
       Some (es, Inl e) \<Rightarrow> (case h e of None \<Rightarrow> None | Some (es', r) \<Rightarrow> Some (es @ es', r))
     | other \<Rightarrow> other)"

lemma bindT_simps [simp]:
  "bindT None f = None" "bindT (Some (es, Inl e)) f = Some (es, Inl e)"
  "bindT (Some ([], Inr x)) f = f x"
  by (simp_all add: bindT_def split: option.splits prod.splits)

lemma catchT_simps [simp]:
  "catchT None h = None" "catchT (Some (es, Inr x)) h = Some (es, Inr x)" "catchT (Some ([], Inl e)) h = h e"
  by (simp_all add: catchT_def split: option.splits prod.splits)

lemma bindT_eq_Some:
  "bindT m f = Some (es, Inr y) \<longleftrightarrow>
    (\<exists>es1 es2 x. m = Some (es1, Inr x) \<and> f x = Some (es2, Inr y) \<and> es = es1 @ es2)"
  by (auto simp: bindT_def split: option.splits sum.splits prod.splits)

text \<open>A task that ends, with a result or an error.\<close>

definition ends :: "'a task \<Rightarrow> bool" where
  "ends m \<longleftrightarrow> m \<noteq> None"

named_theorems ends_intros \<open>tasks that end\<close>

lemma ends_bindT [ends_intros]:
  assumes "ends m" and "\<And>x. ends (f x)"
  shows "ends (bindT m f)"
proof -
  obtain es r where m: "m = Some (es, r)" using assms(1) by (auto simp: ends_def)
  show ?thesis
  proof (cases r)
    case (Inr x)
    then show ?thesis using assms(2) [of x] by (auto simp: m bindT_def ends_def)
  qed (simp add: m bindT_def ends_def)
qed

lemma ends_catchT [ends_intros]:
  assumes "ends m" and "\<And>e. ends (h e)"
  shows "ends (catchT m h)"
proof -
  obtain es r where m: "m = Some (es, r)" using assms(1) by (auto simp: ends_def)
  show ?thesis
  proof (cases r)
    case (Inl e)
    then show ?thesis using assms(2) [of e] by (auto simp: m catchT_def ends_def)
  qed (simp add: m catchT_def ends_def)
qed

lemma ends_taskE [ends_intros]: "ends (taskE m)" "ends (throwT e)" "ends (Some x)"
  by (simp_all add: taskE_def throwT_def ends_def)

lemma ends_cases [ends_intros]:
  "(b \<Longrightarrow> ends x) \<Longrightarrow> (\<not> b \<Longrightarrow> ends y) \<Longrightarrow> ends (if b then x else y)"
  "ends (f (fst p) (snd p)) \<Longrightarrow> ends (case p of (a, c) \<Rightarrow> f a c)"
  by (simp_all add: split_beta)

section \<open>The server\<close>

text \<open>The answer to a request for the log: status 206 and a \<open>Content-Range\<close> mean one page of several.\<close>

record RawLogResponse =
  raw_changes :: "ProtoGroupChangeState list option"
  raw_groupSendEndorsementsResponse :: "bytes option"
  raw_status :: int
  raw_range :: "(int \<times> int \<times> int) option"

record LogOptions =
  lo_startVersion :: "int option"
  lo_includeFirstState :: bool
  lo_includeLastState :: bool
  lo_maxSupportedChangeEpoch :: int
  lo_cachedEndorsementsExpiration :: "int option"

record Page =
  pg_start :: int
  pg_end :: int
  pg_currentRevision :: int

record GroupLogResponseType =
  lr_changes :: ProtoGroupChanges
  lr_groupSendEndorsementsResponse :: "bytes option"
  lr_paginated :: "Page option"

record GroupResponse =
  grs_group :: "ProtoGroup option"
  grs_groupSendEndorsementsResponse :: "bytes option"

record Flags =
  GV2_ENABLE_SINGLE_CHANGE_PROCESSING :: bool
  GV2_ENABLE_CHANGE_PROCESSING :: bool
  GV2_ENABLE_STATE_PROCESSING :: bool
  GV2_ENABLE_PRE_JOIN_FETCH :: bool

text \<open>
  Requests for the log may be answered differently each time: the first argument of \<open>ajax_groupLog\<close>
  and \<open>ajax_joinedAtVersion\<close> is the number of the request in the loop.
\<close>

record Server =
  sv_credentials :: "string \<Rightarrow> string \<Rightarrow> unit js"
  ajax_joinedAtVersion :: "nat \<Rightarrow> int option js"
  ajax_groupLog :: "nat \<Rightarrow> int \<Rightarrow> LogOptions \<Rightarrow> RawLogResponse js"
  sv_getGroup :: "GroupResponse js"
  sv_getGroupFromLink :: "PreJoinInfo js"
  sv_getPreJoinGroupInfo :: "string \<Rightarrow> string \<Rightarrow> PreJoinInfo js"
  sv_expiration :: "string \<Rightarrow> int option"
  sv_receiveEndorsements :: "bytes \<Rightarrow> string list \<Rightarrow> string \<Rightarrow> string \<Rightarrow> ReceivedEndorsements js"
  sv_decodeGroupChange :: "bytes \<Rightarrow> ProtoGroupChange js"
  sv_decodeActions :: "bytes \<Rightarrow> ProtoActions js"
  sv_verifyNotarySignature :: "bytes \<Rightarrow> bytes \<Rightarrow> unit js"
  sv_flags :: Flags

definition getGroupLog :: "Server \<Rightarrow> nat \<Rightarrow> LogOptions \<Rightarrow> GroupLogResponseType js" where
  "getGroupLog S n options =
    bindE (case lo_startVersion options of
             Some v \<Rightarrow> Inr v
           | None \<Rightarrow> bindE (ajax_joinedAtVersion S n) (\<lambda>v. Inr (nullish v 0))) (\<lambda>startVersion.
    bindE (ajax_groupLog S n startVersion (options\<lparr>lo_startVersion := Some startVersion\<rparr>)) (\<lambda>raw.
    Inr \<lparr>lr_changes = raw_changes raw,
      lr_groupSendEndorsementsResponse = raw_groupSendEndorsementsResponse raw,
      lr_paginated = (if raw_status raw = 206
        then map_option (\<lambda>(s, e, c). \<lparr>pg_start = s, pg_end = e, pg_currentRevision = c\<rparr>) (raw_range raw)
        else None)\<rparr>))"

definition setLastSuccessfulGroupFetch :: "env \<Rightarrow> string \<Rightarrow> int option \<Rightarrow> unit eff" where
  "setLastSuccessfulGroupFetch E conversationId timestamp =
    (if getConversation E conversationId = None
     then pureF (throw ''setLastSuccessfulGroupFetch: Conversation must exist'')
     else effF [SetLastFetch conversationId timestamp])"

section \<open>Endorsements\<close>

text \<open>
  \<open>cachedEndorsementsExpiration\<close> before the first request: the stored expiration is read and, when there
  is one, checked; then it is set to \<open>null\<close> whatever the check says.
\<close>

definition cachedExpiration :: "Server \<Rightarrow> env \<Rightarrow> string \<Rightarrow> int option" where
  "cachedExpiration S E groupId =
    (case sv_expiration S groupId of
       None \<Rightarrow> None
     | Some expiration \<Rightarrow>
         (if \<not> endorsementsExpirationValid (expiration * 1000) (date_now E) then None else None))"

text \<open>The \<open>try\<close> block that saves endorsements; a failure is only logged.\<close>

definition saveEndorsements :: "Server \<Rightarrow> env \<Rightarrow> ConversationAttributesType \<Rightarrow> string option \<Rightarrow> string \<Rightarrow> bytes option \<Rightarrow>
    effect list" where
  "saveEndorsements S E newAttributes groupId secretParams response =
    (if bytesIsNotEmpty response then
       (case (groupId, c_membersV2 newAttributes) of
          (Some gid, Some membersV2) \<Rightarrow>
            (case decodeGroupSendEndorsementsResponse E (sv_receiveEndorsements S) gid (the response) secretParams membersV2 of
               Inl _ \<Rightarrow> [] | Inr _ \<Rightarrow> [ReplacedEndorsements gid])
        | _ \<Rightarrow> [])
     else [])"

section \<open>The log\<close>

record log_state =
  lg_requests :: nat
  lg_revisionToFetch :: "int option"
  lg_includeFirstState :: bool
  lg_cachedExpiration :: "int option"
  lg_endorsements :: "bytes option"
  lg_changes :: "ProtoGroupChanges list"

definition fetchPage :: "Server \<Rightarrow> env \<Rightarrow> ConversationAttributesType \<Rightarrow> log_state \<Rightarrow>
    (log_state \<times> GroupLogResponseType) eff" where
  "fetchPage S E grp st =
    bindF (pureF (sv_credentials S (the (c_publicParams grp)) (the (c_secretParams grp)))) (\<lambda>_.
    bindF (pureF (getGroupLog S (lg_requests st)
        \<lparr>lo_startVersion = lg_revisionToFetch st, lo_includeFirstState = lg_includeFirstState st,
         lo_includeLastState = True, lo_maxSupportedChangeEpoch = SUPPORTED_CHANGE_EPOCH,
         lo_cachedEndorsementsExpiration = lg_cachedExpiration st\<rparr>)) (\<lambda>response.
    bindF (setLastSuccessfulGroupFetch E (c_id grp) (Some (date_now E))) (\<lambda>_.
    let drop_cached = (lr_paginated response \<noteq> None \<and> lg_cachedExpiration st \<noteq> None)
    in bindF (effF (if drop_cached then [DeletedEndorsements (the (c_groupId grp))] else [])) (\<lambda>_.
       pureF (Inr (\<lparr>lg_requests = Suc (lg_requests st),
           lg_revisionToFetch = (case lr_paginated response of
               Some p \<Rightarrow> if pg_end p \<noteq> 0 then Some (pg_end p + 1) else lg_revisionToFetch st
             | None \<Rightarrow> lg_revisionToFetch st),
           lg_includeFirstState = False,
           lg_cachedExpiration = (if drop_cached then None else lg_cachedExpiration st),
           lg_endorsements = (case lr_groupSendEndorsementsResponse response of
               None \<Rightarrow> lg_endorsements st | Some b \<Rightarrow> Some b),
           lg_changes = lg_changes st @ [lr_changes response]\<rparr>, response))))))"

definition morePages :: "int option \<Rightarrow> GroupLogResponseType \<Rightarrow> bool" where
  "morePages newRevision response =
    (case lr_paginated response of
       None \<Rightarrow> False
     | Some p \<Rightarrow> pg_end p \<noteq> 0 \<and> (case newRevision of None \<Rightarrow> True | Some n \<Rightarrow> pg_end p < n))"

partial_function (option) fetchPages :: "Server \<Rightarrow> env \<Rightarrow> ConversationAttributesType \<Rightarrow> int option \<Rightarrow>
    log_state \<Rightarrow> effect list \<Rightarrow> (log_state \<times> GroupLogResponseType) task" where
  [code]: "fetchPages S E grp newRevision st effects =
    (case fetchPage S E grp st of
       (es, Inl e) \<Rightarrow> Some (effects @ es, Inl e)
     | (es, Inr (st', response)) \<Rightarrow>
         if morePages newRevision response
         then fetchPages S E grp newRevision st' (effects @ es)
         else Some (effects @ es, Inr (st', response)))"

text \<open>The last version of the states in the log, from the end.\<close>

definition getLastRevisionFromChanges :: "ProtoGroupChanges list \<Rightarrow> int option" where
  "getLastRevisionFromChanges changes =
    (case List.map_filter (\<lambda>s. Option.bind (gcs_groupState s) pg_version) (rev (concat (map or_list changes))) of
       [] \<Rightarrow> None | v # _ \<Rightarrow> Some v)"

definition updateGroupViaLogs :: "Server \<Rightarrow> env \<Rightarrow> ConversationAttributesType \<Rightarrow> int option \<Rightarrow> bool \<Rightarrow>
    UpdatesResultType task" where
  "updateGroupViaLogs S E grp newRevision isReJoin =
    (if \<not> truthy_str (c_publicParams grp)
     then taskE (pureF (throw ''updateGroupViaLogs: group was missing publicParams!''))
     else if \<not> truthy_str (c_secretParams grp)
     then taskE (pureF (throw ''updateGroupViaLogs: group was missing secretParams!''))
     else bindT (taskE (pureF (strictAssertSome (c_groupId grp) ''Group must have groupId''))) (\<lambda>groupId.
       bindT (fetchPages S E grp newRevision
           \<lparr>lg_requests = 0, lg_revisionToFetch = (if isReJoin then None else c_revision grp),
            lg_includeFirstState = True, lg_cachedExpiration = cachedExpiration S E groupId,
            lg_endorsements = None, lg_changes = []\<rparr> []) (\<lambda>(st, response).
       bindT (taskE (integrateGroupChanges E (sv_decodeActions S) grp newRevision (lg_changes st))) (\<lambda>updates.
       let currentVersion = (case lr_paginated response of
               Some p \<Rightarrow> Some (pg_currentRevision p)
             | None \<Rightarrow> getLastRevisionFromChanges (lg_changes st));
           isAtLatestVersion = (currentVersion \<noteq> None \<and> c_revision (ur_newAttributes updates) = currentVersion)
       in bindT (taskE (effF (if isAtLatestVersion
               then saveEndorsements S E (ur_newAttributes updates) (Some groupId) (the (c_secretParams grp)) (lg_endorsements st)
               else []))) (\<lambda>_.
          taskE (pureF (Inr updates)))))))"

section \<open>The full state\<close>

definition updateGroupViaState :: "Server \<Rightarrow> env \<Rightarrow> ConversationAttributesType \<Rightarrow> bool \<Rightarrow> UpdatesResultType eff" where
  "updateGroupViaState S E grp dropInitialJoinMessage =
    bindF (pureF (strictAssertSome (c_secretParams grp) ''updateGroupViaState: Missing secretParams'')) (\<lambda>secretParams.
    bindF (pureF (strictAssertSome (c_publicParams grp) ''updateGroupViaState: Missing publicParams'')) (\<lambda>publicParams.
    bindF (pureF (sv_credentials S publicParams secretParams)) (\<lambda>_.
    bindF (pureF (sv_getGroup S)) (\<lambda>groupResponse.
    bindF (setLastSuccessfulGroupFetch E (c_id grp) (Some (date_now E))) (\<lambda>_.
    bindF (pureF (strictAssertSome (grs_group groupResponse) ''updateGroupViaState: Group state must be present'')) (\<lambda>groupState.
    bindF (pureF (decryptGroupState E groupState secretParams)) (\<lambda>decrypted.
    bindF (pureF (applyGroupState E grp decrypted None)) (\<lambda>r.
    bindF (effF (map DeletedFile (gs_deletedFiles r))) (\<lambda>_.
    bindF (effF (saveEndorsements S E (gs_newAttributes r) (c_groupId (gs_newAttributes r)) secretParams
        (grs_groupSendEndorsementsResponse groupResponse))) (\<lambda>_.
    bindF (pureF (extractDiffs E grp (gs_newAttributes r)
        (noDiffOptions\<lparr>do_dropInitialJoinMessage := dropInitialJoinMessage\<rparr>))) (\<lambda>msgs.
    pureF (Inr \<lparr>ur_messages = msgs, ur_newProfileKeys = profileKeysToMap E (gs_newProfileKeys r),
      ur_newAttributes = gs_newAttributes r\<rparr>))))))))))))"

section \<open>Before joining\<close>

definition preJoinAttributes :: "string \<Rightarrow> int \<Rightarrow> PreJoinInfo \<Rightarrow> string option \<Rightarrow> string option \<Rightarrow>
    ConversationAttributesType \<Rightarrow> ConversationAttributesType" where
  "preJoinAttributes ourAci now info description title grp =
    grp\<lparr>c_description := description, c_name := title, c_left := Some True,
        c_members := Some (or_list (c_members grp)),
        c_pendingMembersV2 := Some (or_list (c_pendingMembersV2 grp)),
        c_pendingAdminApprovalV2 := Some [\<lparr>a_aci = ourAci, a_timestamp = now\<rparr>],
        c_revision := pj_version info,
        c_temporaryMemberCount := Some (or_num (pj_memberCount info) 1)\<rparr>"

definition updateGroupViaPreJoinInfo :: "Server \<Rightarrow> env \<Rightarrow> ConversationAttributesType \<Rightarrow> UpdatesResultType eff" where
  "updateGroupViaPreJoinInfo S E grp =
    bindF (pureF (getCheckedAci E)) (\<lambda>ourAci.
    if \<not> truthy_str (c_secretParams grp)
    then pureF (throw ''updateGroupViaPreJoinInfo: group was missing secretParams!'')
    else if \<not> truthy_str (c_publicParams grp)
    then pureF (throw ''updateGroupViaPreJoinInfo: group was missing publicParams!'')
    else let secretParams = the (c_secretParams grp) in
      bindF (pureF (sv_credentials S (the (c_publicParams grp)) secretParams)) (\<lambda>_.
      bindF (pureF (sv_getGroupFromLink S)) (\<lambda>preJoinInfo.
      if pj_addFromInviteLink preJoinInfo \<noteq> ACCESS_ADMINISTRATOR
      then pureF (generateLeftGroupChanges E (sv_getPreJoinGroupInfo S) grp)
      else
        bindF (pureF (decryptGroupDescription E (pj_description preJoinInfo) secretParams)) (\<lambda>description.
        bindF (pureF (decryptGroupTitle E (pj_title preJoinInfo) secretParams)) (\<lambda>title.
        let attributes = preJoinAttributes ourAci (date_now E) preJoinInfo description title grp in
        bindF (pureF (applyNewAvatar E (pj_avatar preJoinInfo) attributes False)) (\<lambda>(update, deleted).
        bindF (effF (map DeletedFile deleted)) (\<lambda>_.
        let newAttributes = spreadAvatar update attributes in
        bindF (pureF (extractDiffs E grp newAttributes noDiffOptions)) (\<lambda>msgs.
        pureF (Inr \<lparr>ur_messages = msgs, ur_newProfileKeys = [], ur_newAttributes = newAttributes\<rparr>))))))))) "

section \<open>One change\<close>

definition summaryMessage :: GroupChangeMessageType where
  "summaryMessage = GroupV2ChangeMessage None \<lparr>gc_from = None, gc_details = [SummaryDetail]\<rparr>
    (Some RRead) (Some Seen)"

definition updateGroupViaSingleChange :: "Server \<Rightarrow> env \<Rightarrow> ConversationAttributesType \<Rightarrow> ProtoGroupChange \<Rightarrow> int \<Rightarrow>
    UpdatesResultType task" where
  "updateGroupViaSingleChange S E grp groupChange newRevision =
    (let previouslyKnewAboutThisGroup = (c_revision grp \<noteq> None \<and> or_list (c_membersV2 grp) \<noteq> []);
         wasInGroup = (\<not> truthy_bool (c_left grp))
     in bindT (taskE (setLastSuccessfulGroupFetch E (c_id grp) None)) (\<lambda>_.
        bindT (taskE (integrateGroupChange E (sv_decodeActions S) grp (Some newRevision) (Some groupChange) None)) (\<lambda>single.
        let nowInGroup = (\<not> truthy_bool (c_left (ur_newAttributes single))) in
        if \<not> wasInGroup \<and> nowInGroup then
          bindT (updateGroupViaLogs S E (ur_newAttributes single) (Some newRevision) False) (\<lambda>catchup.
          taskE (pureF (Inr
            \<lparr>ur_messages = ur_messages single @
               (if ur_messages single \<noteq> [] \<and> previouslyKnewAboutThisGroup \<and> ur_messages catchup \<noteq> []
                then [summaryMessage] else []),
             ur_newProfileKeys = mergeKeys (ur_newProfileKeys catchup) (ur_newProfileKeys single),
             ur_newAttributes = ur_newAttributes catchup\<rparr>)))
        else taskE (pureF (Inr single)))))"

section \<open>The choice\<close>

abbreviation (input) TEMPORAL_AUTH_REJECTED_CODE :: int where "TEMPORAL_AUTH_REJECTED_CODE \<equiv> 401"
abbreviation (input) GROUP_ACCESS_DENIED_CODE :: int where "GROUP_ACCESS_DENIED_CODE \<equiv> 403"
abbreviation (input) GROUP_NONEXISTENT_CODE :: int where "GROUP_NONEXISTENT_CODE \<equiv> 404"

record WrappedGroupChangeType =
  wc_base64 :: string
  wc_isTrusted :: bool

text \<open>Whether the change that came with the message is used, and with which result if it is.\<close>

datatype single_change = Drop | UseChange ProtoGroupChange | FailOver

definition isUntrustedChangeVerified :: "Server \<Rightarrow> env \<Rightarrow> ConversationAttributesType \<Rightarrow> bytes \<Rightarrow> bool js" where
  "isUntrustedChangeVerified S E grp actions =
    bindE (sv_decodeActions S actions) (\<lambda>decoded.
    let actionsGroupId = (if bytesIsNotEmpty (pa_groupId decoded)
          then Some (toBase64 E (the (pa_groupId decoded))) else None)
    in Inr (truthy_str actionsGroupId \<and> actionsGroupId = c_groupId grp))"

definition checkSingleChange :: "Server \<Rightarrow> env \<Rightarrow> ConversationAttributesType \<Rightarrow> WrappedGroupChangeType \<Rightarrow>
    single_change js" where
  "checkSingleChange S E grp wrapped =
    bindE (sv_decodeGroupChange S (fromBase64 E (wc_base64 wrapped))) (\<lambda>groupChange.
    if \<not> isChangeSupported groupChange then Inr FailOver
    else if wc_isTrusted wrapped then Inr (UseChange groupChange)
    else
      bindE (strictAssertSome (gch_serverSignature groupChange)
        ''Server signature must be present in untrusted group change'') (\<lambda>serverSignature.
      bindE (strictAssertSome (gch_actions groupChange)
        ''Actions must be present in untrusted group change'') (\<lambda>actions.
      case sv_verifyNotarySignature S actions serverSignature of
        Inl _ \<Rightarrow> Inr Drop
      | Inr _ \<Rightarrow> bindE (isUntrustedChangeVerified S E grp actions) (\<lambda>verified.
          Inr (if verified then UseChange groupChange else FailOver)))))"

definition canUseSingleChange :: "Server \<Rightarrow> string \<Rightarrow> ConversationAttributesType \<Rightarrow> int option \<Rightarrow> bool" where
  "canUseSingleChange S ourAci grp newRevision \<longleftrightarrow>
    GV2_ENABLE_SINGLE_CHANGE_PROCESSING (sv_flags S) \<and>
    (case newRevision of
       None \<Rightarrow> False
     | Some n \<Rightarrow> (c_revision grp = None \<and> n = 0) \<or> weAreAwaitingApproval ourAci grp \<or>
                 (case c_revision grp of None \<Rightarrow> False | Some cur \<Rightarrow> n = cur + 1))"

text \<open>The rest of \<open>getGroupUpdates\<close>, each step left when it fails because of missing access.\<close>

definition fetchFromServer :: "Server \<Rightarrow> env \<Rightarrow> string \<Rightarrow> ConversationAttributesType \<Rightarrow> int option \<Rightarrow> bool \<Rightarrow>
    UpdatesResultType task" where
  "fetchFromServer S E ourAci grp newRevision dropInitialJoinMessage =
    (let isReJoin = (c_revision grp \<noteq> None \<and> \<not> weAreInGroup ourAci grp);
         noAccess = (\<lambda>e. err_code e = Some TEMPORAL_AUTH_REJECTED_CODE \<or> err_code e = Some GROUP_ACCESS_DENIED_CODE);
         flags = sv_flags S;
         left = taskE (pureF (generateLeftGroupChanges E (sv_getPreJoinGroupInfo S) grp));
         viaPreJoin =
           (if GV2_ENABLE_PRE_JOIN_FETCH flags
            then catchT (taskE (updateGroupViaPreJoinInfo S E grp)) (\<lambda>e.
              if err_code e = Some GROUP_ACCESS_DENIED_CODE then left
              else if err_code e = Some GROUP_NONEXISTENT_CODE then left
              else throwT e)
            else taskE (pureF (Inr (noUpdates grp))));
         viaState =
           (if GV2_ENABLE_STATE_PROCESSING flags
            then catchT (taskE (updateGroupViaState S E grp dropInitialJoinMessage)) (\<lambda>e.
              if err_code e = Some TEMPORAL_AUTH_REJECTED_CODE then throwT e
              else if err_code e = Some GROUP_ACCESS_DENIED_CODE then viaPreJoin
              else throwT e)
            else viaPreJoin);
         viaReJoin =
           (if isReJoin \<and> GV2_ENABLE_CHANGE_PROCESSING flags
            then catchT (updateGroupViaLogs S E grp newRevision True) (\<lambda>e. if noAccess e then viaState else throwT e)
            else viaState)
     in if GV2_ENABLE_CHANGE_PROCESSING flags
        then catchT (updateGroupViaLogs S E grp newRevision False) (\<lambda>e. if noAccess e then viaReJoin else throwT e)
        else viaReJoin)"

definition getGroupUpdates :: "Server \<Rightarrow> env \<Rightarrow> ConversationAttributesType \<Rightarrow> int option \<Rightarrow>
    WrappedGroupChangeType option \<Rightarrow> bool \<Rightarrow> UpdatesResultType task" where
  "getGroupUpdates S E grp newRevision wrappedGroupChange dropInitialJoinMessage =
    bindT (taskE (pureF (getCheckedAci E))) (\<lambda>ourAci.
    bindT (case wrappedGroupChange of
             Some wrapped \<Rightarrow>
               if canUseSingleChange S ourAci grp newRevision
               then taskE (pureF (checkSingleChange S E grp wrapped)) else taskE (pureF (Inr FailOver))
           | None \<Rightarrow> taskE (pureF (Inr FailOver))) (\<lambda>check.
    case check of
      Drop \<Rightarrow> taskE (pureF (Inr (noUpdates grp)))
    | UseChange groupChange \<Rightarrow> updateGroupViaSingleChange S E grp groupChange (the newRevision)
    | FailOver \<Rightarrow> fetchFromServer S E ourAci grp newRevision dropInitialJoinMessage))"

section \<open>Reading the log ends\<close>

text \<open>
  What the server promises about pages: a page ends at or after the version it was asked to start with,
  and, where no revision is asked for, not after the last revision of the group (\<open>limit\<close>).
\<close>

definition pagesProgress :: "Server \<Rightarrow> bool" where
  "pagesProgress S \<longleftrightarrow>
    (\<forall>k v options raw s e c. ajax_groupLog S k v options = Inr raw \<longrightarrow> raw_range raw = Some (s, e, c) \<longrightarrow>
      v \<le> e \<and> 0 \<le> e)"

definition pagesUpTo :: "Server \<Rightarrow> int \<Rightarrow> bool" where
  "pagesUpTo S limit \<longleftrightarrow>
    (\<forall>k v options raw s e c. ajax_groupLog S k v options = Inr raw \<longrightarrow> raw_range raw = Some (s, e, c) \<longrightarrow> e \<le> limit)"

definition pageLimit :: "Server \<Rightarrow> int option \<Rightarrow> int \<Rightarrow> bool" where
  "pageLimit S newRevision limit \<longleftrightarrow>
    pagesProgress S \<and> (case newRevision of None \<Rightarrow> pagesUpTo S limit | Some n \<Rightarrow> n = limit)"

lemma getGroupLog_page:
  assumes "getGroupLog S k options = Inr r" and "lr_paginated r = Some p"
  obtains v raw s c where "ajax_groupLog S k v (options\<lparr>lo_startVersion := Some v\<rparr>) = Inr raw"
    "raw_range raw = Some (s, pg_end p, c)" "case lo_startVersion options of None \<Rightarrow> True | Some v' \<Rightarrow> v' = v"
  using assms
  by (auto simp: getGroupLog_def bindE_eq_Inr split: option.splits if_splits prod.splits)

lemma fetchPage_Inr:
  assumes "fetchPage S E grp st = (es, Inr (st', response))"
  obtains options where "getGroupLog S (lg_requests st) options = Inr response"
    "lo_startVersion options = lg_revisionToFetch st"
    "lg_revisionToFetch st' = (case lr_paginated response of
        Some p \<Rightarrow> if pg_end p \<noteq> 0 then Some (pg_end p + 1) else lg_revisionToFetch st
      | None \<Rightarrow> lg_revisionToFetch st)"
    "lg_changes st' = lg_changes st @ [lr_changes response]"
  using assms
  by (auto simp: fetchPage_def bindF_def pureF_def effF_def setLastSuccessfulGroupFetch_def Let_def
      split: sum.splits prod.splits if_splits; blast)

definition pagesLeft :: "int \<Rightarrow> log_state \<Rightarrow> nat" where
  "pagesLeft limit st = nat (case lg_revisionToFetch st of None \<Rightarrow> limit + 2 | Some v \<Rightarrow> limit + 1 - v)"

lemma pagesLeft_decreases:
  assumes "pageLimit S newRevision limit" and "fetchPage S E grp st = (es, Inr (st', response))"
    and "morePages newRevision response"
  shows "pagesLeft limit st' < pagesLeft limit st"
proof -
  from assms(3) obtain p where p: "lr_paginated response = Some p" "pg_end p \<noteq> 0"
    and n: "case newRevision of None \<Rightarrow> True | Some n \<Rightarrow> pg_end p < n"
    by (auto simp: morePages_def split: option.splits)
  from assms(2) obtain options where log: "getGroupLog S (lg_requests st) options = Inr response"
    and start: "lo_startVersion options = lg_revisionToFetch st"
    and "next": "lg_revisionToFetch st' = Some (pg_end p + 1)"
    using p by (elim fetchPage_Inr) simp
  from log p(1) obtain v raw s c where raw: "ajax_groupLog S (lg_requests st) v (options\<lparr>lo_startVersion := Some v\<rparr>) = Inr raw"
      "raw_range raw = Some (s, pg_end p, c)" "case lo_startVersion options of None \<Rightarrow> True | Some v' \<Rightarrow> v' = v"
    by (rule getGroupLog_page)
  have "v \<le> pg_end p" "0 \<le> pg_end p"
    using assms(1) raw(1,2) unfolding pageLimit_def pagesProgress_def by blast+
  moreover have "pg_end p \<le> limit"
  proof (cases newRevision)
    case None
    then have "pagesUpTo S limit" using assms(1) by (simp add: pageLimit_def)
    with raw(1,2) show ?thesis unfolding pagesUpTo_def by blast
  qed (use assms(1) n in \<open>simp add: pageLimit_def\<close>)
  ultimately show ?thesis
    using raw(3) start "next" by (auto simp: pagesLeft_def split: option.splits)
qed

lemma fetchPages_ends:
  assumes "pageLimit S newRevision limit"
  shows "\<exists>es r. fetchPages S E grp newRevision st effects = Some (es, r) \<and>
    (case r of Inl _ \<Rightarrow> True
     | Inr (st', _) \<Rightarrow> length (lg_changes st') \<le> length (lg_changes st) + pagesLeft limit st + 1)"
proof (induction "pagesLeft limit st" arbitrary: st effects rule: less_induct)
  case less
  obtain es r where page: "fetchPage S E grp st = (es, r)" by fastforce
  show ?case
  proof (cases r)
    case (Inl e)
    with page show ?thesis by (subst fetchPages.simps) simp
  next
    case (Inr x)
    obtain st' response where x: "x = (st', response)" by fastforce
    have changes: "length (lg_changes st') = length (lg_changes st) + 1"
      using page [unfolded Inr x] by (elim fetchPage_Inr) simp
    show ?thesis
    proof (cases "morePages newRevision response")
      case True
      from pagesLeft_decreases [OF assms page [unfolded Inr x] True]
      have left: "pagesLeft limit st' < pagesLeft limit st" .
      from less.hyps [OF left, of "effects @ es"] left changes True page Inr x show ?thesis
        by (subst fetchPages.simps) (fastforce split: sum.splits)
    next
      case False
      with page Inr x changes show ?thesis by (subst fetchPages.simps) simp
    qed
  qed
qed

lemma updateGroupViaLogs_ends [ends_intros]:
  assumes "pageLimit S newRevision limit"
  shows "ends (updateGroupViaLogs S E grp newRevision isReJoin)"
proof -
  have "ends (fetchPages S E grp newRevision st es)" for st es
    using fetchPages_ends [OF assms, of E grp st es] by (auto simp: ends_def)
  then show ?thesis
    unfolding updateGroupViaLogs_def Let_def by (intro ends_intros)
qed

lemma fetchFromServer_ends [ends_intros]:
  "pageLimit S newRevision limit \<Longrightarrow> ends (fetchFromServer S E ourAci grp newRevision dropInitialJoinMessage)"
  unfolding fetchFromServer_def Let_def by (intro ends_intros)

lemma updateGroupViaSingleChange_ends [ends_intros]:
  "pageLimit S (Some n) limit \<Longrightarrow> ends (updateGroupViaSingleChange S E grp change n)"
  unfolding updateGroupViaSingleChange_def Let_def by (intro ends_intros)

section \<open>Which effects a task has\<close>

definition noDeletion :: "effect list \<Rightarrow> bool" where
  "noDeletion es = list_all (\<lambda>e. case e of DeletedEndorsements _ \<Rightarrow> False | _ \<Rightarrow> True) es"

definition taskEffects :: "'a task \<Rightarrow> effect list" where
  "taskEffects m = (case m of None \<Rightarrow> [] | Some (es, _) \<Rightarrow> es)"

named_theorems effect_intros \<open>tasks that delete no endorsements\<close>

lemma noDeletion_simps [simp]: "noDeletion []" "noDeletion (es @ es') = (noDeletion es \<and> noDeletion es')"
  "noDeletion (map DeletedFile fs)" "noDeletion (e # es) = ((case e of DeletedEndorsements _ \<Rightarrow> False | _ \<Rightarrow> True) \<and> noDeletion es)"
  by (auto simp: noDeletion_def list_all_iff)

lemma noDeletion_bindF [effect_intros]:
  "noDeletion (fst m) \<Longrightarrow> (\<And>x. noDeletion (fst (f x))) \<Longrightarrow> noDeletion (fst (bindF m f))"
  by (auto simp: bindF_def split: prod.splits sum.splits) (metis fst_conv)

lemma noDeletion_basic [effect_intros]:
  "noDeletion (fst (pureF r))" "noDeletion es \<Longrightarrow> noDeletion (fst (effF es))"
  "(b \<Longrightarrow> noDeletion (fst x)) \<Longrightarrow> (\<not> b \<Longrightarrow> noDeletion (fst y)) \<Longrightarrow> noDeletion (fst (if b then x else y))"
  "noDeletion (fst (g (fst p) (snd p))) \<Longrightarrow> noDeletion (fst (case p of (a, c) \<Rightarrow> g a c))"
  "noDeletion (fst y') \<Longrightarrow> (\<And>z. noDeletion (fst (h z))) \<Longrightarrow> noDeletion (fst (case v of None \<Rightarrow> y' | Some z \<Rightarrow> h z))"
  by (simp_all add: split_beta split: option.splits)

lemma taskEffects_bindT [effect_intros]:
  "noDeletion (taskEffects m) \<Longrightarrow> (\<And>x. noDeletion (taskEffects (f x))) \<Longrightarrow> noDeletion (taskEffects (bindT m f))"
  by (auto simp: bindT_def taskEffects_def split: option.splits prod.splits sum.splits) (metis option.case case_prod_conv)

lemma taskEffects_basic [effect_intros]:
  "noDeletion (fst m) \<Longrightarrow> noDeletion (taskEffects (taskE m))"
  "(b \<Longrightarrow> noDeletion (taskEffects x)) \<Longrightarrow> (\<not> b \<Longrightarrow> noDeletion (taskEffects y)) \<Longrightarrow> noDeletion (taskEffects (if b then x else y))"
  "noDeletion (taskEffects (g (fst p) (snd p))) \<Longrightarrow> noDeletion (taskEffects (case p of (a, c) \<Rightarrow> g a c))"
  by (simp_all add: taskEffects_def taskE_def split_beta split: prod.splits)

lemma noDeletion_integrateGroupChange [effect_intros]:
  "noDeletion (fst (integrateGroupChange E decodeActions grp n change state))"
  unfolding integrateGroupChange_def integrateActions_def integrateState_def Let_def
  by (intro effect_intros noDeletion_simps(3)) 

lemma noDeletion_integrateGroupChanges [effect_intros]:
  "noDeletion (fst (integrateGroupChanges E decodeActions grp n changes))"
proof -
  have entry: "noDeletion (la_effects (integrateEntry E decodeActions n entry acc))"
    if "noDeletion (la_effects acc)" for entry acc
    using that noDeletion_integrateGroupChange [of E decodeActions "la_attributes acc" n "gcs_groupChange entry" "gcs_groupState entry"]
    by (auto simp: integrateEntry_def split: prod.splits sum.splits)
  have "noDeletion (la_effects (fold (\<lambda>change acc. fold (integrateEntry E decodeActions n) (or_list change) acc) changes
    \<lparr>la_attributes = grp, la_finalMessages = [], la_newProfileKeys = [], la_effects = []\<rparr>))"
    by (rule fold_keeps [where P = "\<lambda>acc. noDeletion (la_effects acc)"], simp,
        rule fold_keeps [where P = "\<lambda>acc. noDeletion (la_effects acc)"], assumption, rule entry)
  then show ?thesis
    unfolding integrateGroupChanges_def Let_def by (intro effect_intros)
qed

lemma cachedExpiration_None: "cachedExpiration S E groupId = None"
  by (simp add: cachedExpiration_def split: option.splits)

lemma fetchPage_cached:
  assumes "lg_cachedExpiration st = None"
  shows "noDeletion (fst (fetchPage S E grp st))"
    "fetchPage S E grp st = (es, Inr (st', response)) \<Longrightarrow> lg_cachedExpiration st' = None"
proof -
  show "noDeletion (fst (fetchPage S E grp st))"
    using assms by (auto simp: fetchPage_def setLastSuccessfulGroupFetch_def Let_def intro!: effect_intros)
  show "fetchPage S E grp st = (es, Inr (st', response)) \<Longrightarrow> lg_cachedExpiration st' = None"
    using assms by (auto simp: fetchPage_def bindF_def pureF_def effF_def setLastSuccessfulGroupFetch_def Let_def
      split: sum.splits prod.splits if_splits)
qed

lemma fetchPages_cached:
  assumes "fetchPages S E grp newRevision st effects = Some y"
  shows "lg_cachedExpiration st = None \<longrightarrow> noDeletion effects \<longrightarrow> noDeletion (fst y)"
proof (rule fetchPages.raw_induct [where P = "\<lambda>S E grp newRevision st effects y.
    lg_cachedExpiration st = None \<longrightarrow> noDeletion effects \<longrightarrow> noDeletion (fst y)"
    and S = S and E = E and grp = grp and newRevision = newRevision])
  show "fetchPages S E grp newRevision st effects = Some y" by (rule assms)
next
  fix f S E grp newRevision st effects y
  assume IH: "\<And>S E grp newRevision st effects y. f S E grp newRevision st effects = Some y \<Longrightarrow>
      lg_cachedExpiration st = None \<longrightarrow> noDeletion effects \<longrightarrow> noDeletion (fst y)"
    and body: "(case fetchPage S E grp st of
         (es, Inl e) \<Rightarrow> Some (effects @ es, Inl e)
       | (es, Inr (st', response)) \<Rightarrow>
           if morePages newRevision response then f S E grp newRevision st' (effects @ es)
           else Some (effects @ es, Inr (st', response))) = Some y"
  show "lg_cachedExpiration st = None \<longrightarrow> noDeletion effects \<longrightarrow> noDeletion (fst y)"
  proof (intro impI)
    assume cached: "lg_cachedExpiration st = None" and effects: "noDeletion effects"
    obtain es r where page: "fetchPage S E grp st = (es, r)" by fastforce
    have es: "noDeletion (effects @ es)"
      using effects fetchPage_cached(1) [OF cached, of S E grp] page by simp
    show "noDeletion (fst y)"
    proof (cases r)
      case (Inl e)
      with body page es show ?thesis by auto
    next
      case (Inr x)
      obtain st' response where x: "x = (st', response)" by fastforce
      from fetchPage_cached(2) [OF cached] page Inr x have "lg_cachedExpiration st' = None" by simp
      with body page Inr x es IH show ?thesis by (auto split: if_splits)
    qed
  qed
qed

lemma taskEffects_fetchPages [effect_intros]:
  "lg_cachedExpiration st = None \<Longrightarrow> noDeletion (taskEffects (fetchPages S E grp newRevision st []))"
  using fetchPages_cached [of S E grp newRevision st "[]"] by (auto simp: taskEffects_def split: option.splits)

lemma saveEndorsements_noDeletion [effect_intros]: "noDeletion (saveEndorsements S E g gid p r)"
  by (simp add: saveEndorsements_def split: option.splits sum.splits)

section \<open>Properties\<close>

text \<open>
C33: Updating a group always comes to an end. If the pages of the server's log make progress (each ends at
or after the version it was asked to start with) and, when no revision is asked for, none ends after the
last revision of the group, then \<open>getGroupUpdates\<close> returns, for every group, message and change.
\<close>

theorem getGroupUpdates_terminates:
  assumes "pageLimit S newRevision limit"
  shows "ends (getGroupUpdates S E grp newRevision wrappedGroupChange dropInitialJoinMessage)"
proof (cases newRevision)
  case None
  have "(case wrappedGroupChange of
      Some wrapped \<Rightarrow> if canUseSingleChange S ourAci grp None
        then taskE (pureF (checkSingleChange S E grp wrapped)) else taskE (pureF (Inr FailOver))
    | None \<Rightarrow> taskE (pureF (Inr FailOver))) = taskE (pureF (Inr FailOver))" for ourAci
    by (simp add: canUseSingleChange_def split: option.splits)
  then show ?thesis
    using assms unfolding getGroupUpdates_def None
    by (auto simp: taskE_def pureF_def intro!: ends_intros)
next
  case (Some n)
  show ?thesis
    using assms unfolding getGroupUpdates_def Some
    by (auto intro!: ends_intros split: option.splits single_change.splits)
qed

definition exampleServer :: Server where
  "exampleServer =
    \<lparr>sv_credentials = (\<lambda>_ _. Inr ()), ajax_joinedAtVersion = (\<lambda>_. Inl (JsError (Some 403) [])),
     ajax_groupLog = (\<lambda>_ _ _. Inl (JsError (Some 403) [])), sv_getGroup = Inl (JsError (Some 403) []),
     sv_getGroupFromLink = Inl (JsError (Some 404) []), sv_getPreJoinGroupInfo = (\<lambda>_ _. Inl (JsError (Some 404) [])),
     sv_expiration = (\<lambda>_. None), sv_receiveEndorsements = (\<lambda>_ _ _ _. throw []),
     sv_decodeGroupChange = (\<lambda>_. Inr \<lparr>gch_actions = Some [], gch_serverSignature = Some [], gch_changeEpoch = None\<rparr>),
     sv_decodeActions = (\<lambda>_. Inr (emptyProtoActions\<lparr>pa_groupId := Some (bytes_of_chars ''other'')\<rparr>)),
     sv_verifyNotarySignature = (\<lambda>_ _. Inr ()),
     sv_flags = \<lparr>GV2_ENABLE_SINGLE_CHANGE_PROCESSING = True, GV2_ENABLE_CHANGE_PROCESSING = True,
       GV2_ENABLE_STATE_PROCESSING = True, GV2_ENABLE_PRE_JOIN_FETCH = True\<rparr>\<rparr>"

text \<open>A server whose log has two revisions a page, up to revision 9.\<close>

definition pagedServer :: Server where
  "pagedServer = exampleServer\<lparr>ajax_groupLog := (\<lambda>_ v _. Inr
     \<lparr>raw_changes = None, raw_groupSendEndorsementsResponse = None, raw_status = (if v < 8 then 206 else 200),
      raw_range = (if 0 \<le> v \<and> v < 8 then Some (v, v + 1, 9) else None)\<rparr>)\<rparr>"

theorem getGroupUpdates_terminates_witness:
  "pageLimit pagedServer None 9 \<and> ends (getGroupUpdates pagedServer exampleEnv exampleGroup None None False)"
proof -
  have "pageLimit pagedServer None 9"
    by (auto simp: pageLimit_def pagesProgress_def pagesUpTo_def pagedServer_def)
  then show ?thesis using getGroupUpdates_terminates by blast
qed



text \<open>
When access is denied everywhere, we have left: a server that refuses the log and the state (403), and
refuses or no longer knows the group before joining (403 or 404), makes the update that takes us out of
the group, without any effect before.
\<close>

theorem denied_everywhere_leaves:
  assumes "e_ourAci E = Some ourAci"
    and "truthy_str (c_publicParams grp)" and "truthy_str (c_secretParams grp)" and "c_groupId grp \<noteq> None"
    and "sv_flags S = \<lparr>GV2_ENABLE_SINGLE_CHANGE_PROCESSING = single, GV2_ENABLE_CHANGE_PROCESSING = True,
       GV2_ENABLE_STATE_PROCESSING = True, GV2_ENABLE_PRE_JOIN_FETCH = True\<rparr>"
    and "\<And>p s. sv_credentials S p s = Inr ()"
    and "\<And>k. ajax_joinedAtVersion S k = Inl (JsError (Some 403) m1)"
    and "\<And>k v options. ajax_groupLog S k v options = Inl (JsError (Some 403) m2)"
    and "sv_getGroup S = Inl (JsError (Some 403) m3)"
    and "sv_getGroupFromLink S = Inl (JsError (Some code) m4)" and "code = 403 \<or> code = 404"
  shows "getGroupUpdates S E grp newRevision None dropJoin =
    Some ([], generateLeftGroupChanges E (sv_getPreJoinGroupInfo S) grp)"
proof -
  have log: "\<exists>m. getGroupLog S k options = Inl (JsError (Some 403) m)" for k options
    using assms(7,8) by (auto simp: getGroupLog_def split: option.splits)
  have pages: "\<exists>m. fetchPages S E grp newRevision st [] = Some ([], Inl (JsError (Some 403) m))" for st
  proof -
    obtain m where "getGroupLog S (lg_requests st)
        \<lparr>lo_startVersion = lg_revisionToFetch st, lo_includeFirstState = lg_includeFirstState st,
         lo_includeLastState = True, lo_maxSupportedChangeEpoch = 7,
         lo_cachedEndorsementsExpiration = lg_cachedExpiration st\<rparr> = Inl (JsError (Some 403) m)"
      using log by blast
    then show ?thesis by (subst fetchPages.simps) (simp add: fetchPage_def pureF_def assms(6))
  qed
  obtain gid where gid: "c_groupId grp = Some gid" using assms(4) by auto
  have logs: "\<exists>m. updateGroupViaLogs S E grp newRevision rejoin = Some ([], Inl (JsError (Some 403) m))" for rejoin
  proof -
    obtain m where "fetchPages S E grp newRevision
        \<lparr>lg_requests = 0, lg_revisionToFetch = (if rejoin then None else c_revision grp),
         lg_includeFirstState = True, lg_cachedExpiration = cachedExpiration S E gid,
         lg_endorsements = None, lg_changes = []\<rparr> [] = Some ([], Inl (JsError (Some 403) m))"
      using pages by blast
    then show ?thesis using assms(2,3) by (simp add: updateGroupViaLogs_def gid taskE_def pureF_def)
  qed
  have state: "updateGroupViaState S E grp dropJoin = ([], Inl (JsError (Some 403) m3))"
    using assms(2,3,6,9)
    by (cases "c_secretParams grp"; cases "c_publicParams grp") (auto simp: updateGroupViaState_def pureF_def)
  have prejoin: "updateGroupViaPreJoinInfo S E grp = ([], Inl (JsError (Some code) m4))"
    using assms(1,2,3,6,10) by (simp add: updateGroupViaPreJoinInfo_def pureF_def)
  obtain m5 where l1: "updateGroupViaLogs S E grp newRevision False = Some ([], Inl (JsError (Some 403) m5))"
    using logs by blast
  obtain m6 where l2: "updateGroupViaLogs S E grp newRevision True = Some ([], Inl (JsError (Some 403) m6))"
    using logs by blast
  show ?thesis
    using assms(1,11) by (auto simp: getGroupUpdates_def fetchFromServer_def assms(5) taskE_def pureF_def l1 l2 state prejoin Let_def)
qed

theorem denied_everywhere_leaves_witness:
  "getGroupUpdates exampleServer exampleEnv exampleGroup None None False =
    Some ([], generateLeftGroupChanges exampleEnv (sv_getPreJoinGroupInfo exampleServer) exampleGroup)"
  by (rule denied_everywhere_leaves [where code = 404]) (simp_all add: exampleServer_def exampleGroup_def)

text \<open>
Endorsements that are stored are never used to save a download: the stored expiration is dropped
even when it is valid, so no request carries one, and the code that deletes endorsements when the log
comes in pages is never reached.
\<close>

theorem cached_expiration_unused:
  "case updateGroupViaLogs S E grp newRevision isReJoin of
     None \<Rightarrow> True
   | Some (es, _) \<Rightarrow> list_all (\<lambda>e. case e of DeletedEndorsements _ \<Rightarrow> False | _ \<Rightarrow> True) es"
proof -
  have "noDeletion (taskEffects (updateGroupViaLogs S E grp newRevision isReJoin))"
    unfolding updateGroupViaLogs_def Let_def
    by (intro effect_intros) (simp_all add: cachedExpiration_None saveEndorsements_noDeletion)
  then show ?thesis by (auto simp: taskEffects_def noDeletion_def split: option.splits)
qed

end
