(* ===== verification/Group_Messages.thy ===== *)
theory Group_Messages
  imports Group_Diff
begin

text \<open>
  How the messages of a group change are added to the timeline (ts/groups.preload.ts): a person who
  asks to join and takes the request back, again and again, is shown as one message that counts.
  \<open>_mergeGroupChangeMessages\<close> merges a message into the one before it, \<open>appendChangeMessages\<close> runs
  it over the new messages, beginning with the last message of the conversation, and saves the result.
\<close>

section \<open>Merging two messages\<close>

text \<open>The attributes of the messages that groups generate.\<close>

record MessageAttributesType =
  ma_id :: string
  ma_type :: string
  ma_groupV2Change :: "GroupV2ChangeType option"
  ma_sourceServiceId :: "string option"
  ma_flags :: "int option"
  ma_expirationTimerUpdate :: "(int \<times> string option) option"
  ma_readStatus :: "ReadStatus option"
  ma_seenStatus :: "SeenStatus option"
  ma_conversationId :: string
  ma_received_at :: int
  ma_received_at_ms :: int
  ma_sent_at :: int
  ma_serverGuid :: "string option"
  ma_timestamp :: int

text \<open>
  The second detail decides: a request (\<open>True\<close>), a request taken back by its author (\<open>False\<close>) or
  neither. Its \<open>aci\<close> is always there.
\<close>

definition approvalPending :: "GroupV2ChangeType \<Rightarrow> GroupV2ChangeDetailType \<Rightarrow> (bool \<times> string) option" where
  "approvalPending secondChange secondDetail =
    (case secondDetail of
       AdminApprovalAddOne aci \<Rightarrow> Some (True, aci)
     | AdminApprovalRemoveOne aci \<Rightarrow>
         if gc_from secondChange = None \<or> gc_from secondChange = Some aci then Some (False, aci) else None
     | _ \<Rightarrow> None)"

definition bounceDetail :: "GroupV2ChangeDetailType \<Rightarrow> string \<Rightarrow> bool \<Rightarrow> GroupV2ChangeDetailType option" where
  "bounceDetail firstDetail aci isApprovalPending =
    (case firstDetail of
       AdminApprovalAddOne first_aci \<Rightarrow>
         if \<not> isApprovalPending \<and> first_aci = aci
         then Some (AdminApprovalBounce aci 1 isApprovalPending) else None
     | AdminApprovalBounce first_aci n first_pending \<Rightarrow>
         if first_aci = aci \<and> first_pending = (\<not> isApprovalPending)
         then Some (AdminApprovalBounce aci (n + (if isApprovalPending then 0 else 1)) isApprovalPending)
         else None
     | _ \<Rightarrow> None)"

definition mergeGroupChangeMessages :: "MessageAttributesType option \<Rightarrow> MessageAttributesType \<Rightarrow>
    MessageAttributesType option js" where
  "mergeGroupChangeMessages first second =
    (case first of
       None \<Rightarrow> Inr None
     | Some first \<Rightarrow>
         if ma_type first \<noteq> ''group-v2-change'' \<or> ma_type second \<noteq> ma_type first then Inr None
         else case (ma_groupV2Change first, ma_groupV2Change second) of
           (Some firstChange, Some secondChange) \<Rightarrow>
             if length (gc_details firstChange) \<noteq> 1 \<and> length (gc_details secondChange) \<noteq> 1 then Inr None
             else (case gc_details firstChange of
               [] \<Rightarrow> throw ''Missing firstDetail''
             | firstDetail # _ \<Rightarrow>
                 (case gc_details secondChange of
                   [] \<Rightarrow> throw ''Missing secondDetail''
                 | secondDetail # _ \<Rightarrow>
                     (case approvalPending secondChange secondDetail of
                        None \<Rightarrow> Inr None
                      | Some (isApprovalPending, aci) \<Rightarrow>
                          (case bounceDetail firstDetail aci isApprovalPending of
                             None \<Rightarrow> Inr None
                           | Some updatedDetail \<Rightarrow>
                               Inr (Some (first\<lparr>ma_groupV2Change :=
                                 Some (firstChange\<lparr>gc_details := [updatedDetail]\<rparr>)\<rparr>))))))
         | _ \<Rightarrow> Inr None)"

definition isGroupChangeMessageBounceable :: "MessageAttributesType \<Rightarrow> bool" where
  "isGroupChangeMessageBounceable message \<longleftrightarrow>
    ma_type message = ''group-v2-change'' \<and>
    (case ma_groupV2Change message of
       None \<Rightarrow> False
     | Some change \<Rightarrow>
         (case gc_details change of
            [AdminApprovalAddOne _] \<Rightarrow> True
          | [AdminApprovalBounce _ _ _] \<Rightarrow> True
          | _ \<Rightarrow> False))"

section \<open>Adding the messages\<close>

text \<open>
  \<open>previousMessage\<close>, with the answer of the code's test for identity with \<open>lastMessage\<close>: the object
  read from the database, until something is merged into it or a new message takes its place.
\<close>

datatype previous_message = NoMessage | LastMessage MessageAttributesType | OtherMessage MessageAttributesType

primrec previousAttributes :: "previous_message \<Rightarrow> MessageAttributesType option" where
  "previousAttributes NoMessage = None"
| "previousAttributes (LastMessage m) = Some m"
| "previousAttributes (OtherMessage m) = Some m"

primrec pushPrevious :: "previous_message \<Rightarrow> MessageAttributesType list \<Rightarrow> MessageAttributesType list" where
  "pushPrevious NoMessage mergedMessages = mergedMessages"
| "pushPrevious (LastMessage m) mergedMessages = mergedMessages"
| "pushPrevious (OtherMessage m) mergedMessages = mergedMessages @ [m]"

definition mergeStep :: "MessageAttributesType \<Rightarrow> previous_message \<times> MessageAttributesType list \<Rightarrow>
    (previous_message \<times> MessageAttributesType list) js" where
  "mergeStep message s =
    (case s of (previousMessage, mergedMessages) \<Rightarrow>
       bindE (mergeGroupChangeMessages (previousAttributes previousMessage) message) (\<lambda>merged.
       case merged of
         None \<Rightarrow> Inr (OtherMessage message, pushPrevious previousMessage mergedMessages)
       | Some m \<Rightarrow> Inr (OtherMessage m, mergedMessages)))"

definition mergeMessages :: "MessageAttributesType option \<Rightarrow> MessageAttributesType list \<Rightarrow>
    MessageAttributesType list js" where
  "mergeMessages lastMessage messages =
    bindE (forE mergeStep messages (case lastMessage of None \<Rightarrow> NoMessage | Some m \<Rightarrow> LastMessage m, [])) (\<lambda>s.
    Inr (pushPrevious (fst s) (snd s)))"

text \<open>What is done to the database, the message cache and the conversation, in order.\<close>

datatype timeline_effect =
    SaveMessage MessageAttributesType
  | SaveMessages "MessageAttributesType list"
  | SetExisting MessageAttributesType
  | OnNewMessage MessageAttributesType
  | UpdateLastMessage

definition saveMerged :: "MessageAttributesType option \<Rightarrow> MessageAttributesType list \<Rightarrow> timeline_effect list" where
  "saveMerged lastMessage mergedMessages =
    (case (lastMessage, mergedMessages) of
       (Some l, m # rest) \<Rightarrow>
         if ma_id m = ma_id l then [SaveMessage m, SaveMessages rest] else [SaveMessages (m # rest)]
     | _ \<Rightarrow> [SaveMessages mergedMessages])"

text \<open>\<open>window.MessageCache.getById\<close> is the set of the ids that are in the cache; a new message enters it.\<close>

definition cacheStep :: "MessageAttributesType option \<Rightarrow> MessageAttributesType \<Rightarrow>
    string set \<times> timeline_effect list \<Rightarrow> (string set \<times> timeline_effect list) js" where
  "cacheStep lastMessage m s =
    (case s of (cache, es) \<Rightarrow>
       if ma_id m \<in> cache then
         bindE (strictAssert (map_option ma_id lastMessage = Some (ma_id m))
            ''Should only update group change that was already in the database'') (\<lambda>_.
         Inr (cache, es @ [SetExisting m]))
       else if ma_id m = [] then throw ''MessageCache.register: Got falsey id or message''
       else Inr (insert (ma_id m) cache, es @ [OnNewMessage m]))"

definition countNew :: "timeline_effect list \<Rightarrow> nat" where
  "countNew es = length (filter (\<lambda>e. case e of OnNewMessage _ \<Rightarrow> True | _ \<Rightarrow> False) es)"

definition appendChangeMessages :: "env \<Rightarrow> MessageAttributesType option \<Rightarrow> string set \<Rightarrow>
    MessageAttributesType list \<Rightarrow> timeline_effect list js" where
  "appendChangeMessages E lastConversationMessage cache messages =
    bindE (getCheckedAci E) (\<lambda>_.
    let lastMessage = (case lastConversationMessage of
            None \<Rightarrow> None
          | Some m \<Rightarrow> if isGroupChangeMessageBounceable m then Some m else None)
    in bindE (mergeMessages lastMessage messages) (\<lambda>mergedMessages.
       bindE (forE (cacheStep lastMessage) mergedMessages (cache, [])) (\<lambda>s.
       Inr (saveMerged lastMessage mergedMessages @ snd s @
         (if countNew (snd s) = 0 \<and> mergedMessages \<noteq> [] then [UpdateLastMessage] else [])))))"

section \<open>What is meant\<close>

text \<open>A request of a person, and one that the person takes back.\<close>

definition is_request :: "string \<Rightarrow> MessageAttributesType \<Rightarrow> bool" where
  "is_request a m \<longleftrightarrow> ma_type m = ''group-v2-change'' \<and>
    map_option gc_details (ma_groupV2Change m) = Some [AdminApprovalAddOne a]"

definition is_withdrawal :: "string \<Rightarrow> MessageAttributesType \<Rightarrow> bool" where
  "is_withdrawal a m \<longleftrightarrow> ma_type m = ''group-v2-change'' \<and>
    map_option gc_details (ma_groupV2Change m) = Some [AdminApprovalRemoveOne a] \<and>
    (case ma_groupV2Change m of None \<Rightarrow> False | Some c \<Rightarrow> gc_from c \<in> {None, Some a})"

fun alternates :: "string \<Rightarrow> bool \<Rightarrow> MessageAttributesType list \<Rightarrow> bool" where
  "alternates a pending [] = True"
| "alternates a pending (m # ms) =
    ((if pending then is_withdrawal a m else is_request a m) \<and> alternates a (\<not> pending) ms)"

definition withDetails :: "MessageAttributesType \<Rightarrow> GroupV2ChangeDetailType list \<Rightarrow> MessageAttributesType" where
  "withDetails m ds = m\<lparr>ma_groupV2Change := map_option (\<lambda>c. c\<lparr>gc_details := ds\<rparr>) (ma_groupV2Change m)\<rparr>"

text \<open>A message that says nothing about requests, in its first detail.\<close>

definition unrelated :: "MessageAttributesType \<Rightarrow> bool" where
  "unrelated m \<longleftrightarrow>
    (case map_option gc_details (ma_groupV2Change m) of
       Some (AdminApprovalAddOne _ # _) \<Rightarrow> False
     | Some (AdminApprovalRemoveOne _ # _) \<Rightarrow> False
     | Some (AdminApprovalBounce _ _ _ # _) \<Rightarrow> False
     | _ \<Rightarrow> True)"

primrec savedBy :: "timeline_effect \<Rightarrow> MessageAttributesType list" where
  "savedBy (SaveMessage m) = [m]"
| "savedBy (SaveMessages ms) = ms"
| "savedBy (SetExisting m) = []"
| "savedBy (OnNewMessage m) = []"
| "savedBy UpdateLastMessage = []"

primrec shownBy :: "timeline_effect \<Rightarrow> MessageAttributesType list" where
  "shownBy (SaveMessage m) = []"
| "shownBy (SaveMessages ms) = []"
| "shownBy (SetExisting m) = [m]"
| "shownBy (OnNewMessage m) = [m]"
| "shownBy UpdateLastMessage = []"

definition saved :: "timeline_effect list \<Rightarrow> MessageAttributesType list" where
  "saved es = concat (map savedBy es)"

definition shown :: "timeline_effect list \<Rightarrow> MessageAttributesType list" where
  "shown es = concat (map shownBy es)"

section \<open>Lemmas\<close>

lemma withDetails_simps [simp]:
  "ma_id (withDetails m ds) = ma_id m" "ma_type (withDetails m ds) = ma_type m"
  "map_option gc_details (ma_groupV2Change (withDetails m ds)) = map_option (\<lambda>_. ds) (ma_groupV2Change m)"
  "withDetails (withDetails m ds) ds' = withDetails m ds'"
  by (cases "ma_groupV2Change m"; simp add: withDetails_def)+

text \<open>What a merge needs and what it makes.\<close>

lemma mergeGroupChangeMessages_Some:
  assumes "mergeGroupChangeMessages first second = Inr (Some m)"
  obtains f firstChange secondChange d ds e es p a u where
    "first = Some f" "ma_groupV2Change f = Some firstChange" "ma_groupV2Change second = Some secondChange"
    "gc_details firstChange = d # ds" "gc_details secondChange = e # es"
    "approvalPending secondChange e = Some (p, a)" "bounceDetail d a p = Some u" "m = withDetails f [u]"
  using assms unfolding mergeGroupChangeMessages_def
  by (auto simp: withDetails_def split: option.splits list.splits if_splits prod.splits)

lemma approvalPending_Some:
  "approvalPending c e = Some (p, a) \<Longrightarrow> e = (if p then AdminApprovalAddOne a else AdminApprovalRemoveOne a)"
  by (auto simp: approvalPending_def split: GroupV2ChangeDetailType.splits if_splits)

lemma bounceDetail_Some:
  "bounceDetail d a p = Some u \<Longrightarrow>
    (\<exists>n. u = AdminApprovalBounce a n p) \<and> (d = AdminApprovalAddOne a \<or> (\<exists>n. d = AdminApprovalBounce a n (\<not> p)))"
  by (auto simp: bounceDetail_def split: GroupV2ChangeDetailType.splits if_splits)

lemma merged_related:
  assumes "mergeGroupChangeMessages first second = Inr (Some m)"
  shows "\<not> unrelated m" "\<not> unrelated second" "\<exists>f. first = Some f \<and> \<not> unrelated f \<and> ma_id m = ma_id f"
proof -
  from assms obtain f firstChange secondChange d ds e es p a u where
    m: "first = Some f" "ma_groupV2Change f = Some firstChange" "ma_groupV2Change second = Some secondChange"
      "gc_details firstChange = d # ds" "gc_details secondChange = e # es" "m = withDetails f [u]"
    and e: "approvalPending secondChange e = Some (p, a)" and u: "bounceDetail d a p = Some u"
    by (rule mergeGroupChangeMessages_Some)
  note parts = approvalPending_Some [OF e] bounceDetail_Some [OF u]
  show "\<not> unrelated m" using m parts by (auto simp: unrelated_def)
  show "\<not> unrelated second" using m parts by (simp add: unrelated_def)
  show "\<exists>f. first = Some f \<and> \<not> unrelated f \<and> ma_id m = ma_id f"
    using m parts by (auto simp: unrelated_def)
qed

lemma merge_bounces:
  assumes "ma_type m = ''group-v2-change''" and "ma_groupV2Change m \<noteq> None"
    and "alternates a p ms"
  shows "forE mergeStep ms (OtherMessage (withDetails m [AdminApprovalBounce a n p]), acc) =
    Inr (OtherMessage (withDetails m [AdminApprovalBounce a
      (n + (if p then Suc (length ms) div 2 else length ms div 2)) (p = even (length ms))]), acc)"
  using assms(3)
proof (induction ms arbitrary: p n)
  case Nil
  then show ?case by simp
next
  case (Cons x xs)
  then have "mergeStep x (OtherMessage (withDetails m [AdminApprovalBounce a n p]), acc) =
      Inr (OtherMessage (withDetails m [AdminApprovalBounce a (n + (if p then 1 else 0)) (\<not> p)]), acc)"
    using assms(1,2)
    by (auto simp: mergeStep_def mergeGroupChangeMessages_def withDetails_def is_request_def is_withdrawal_def
        approvalPending_def bounceDetail_def split: if_splits)
  with Cons show ?case by simp
qed

lemma mergeStep_first:
  assumes "is_request a m" and "is_withdrawal a x"
  shows "mergeStep x (OtherMessage m, acc) = Inr (OtherMessage (withDetails m [AdminApprovalBounce a 1 False]), acc)"
  using assms
  by (auto simp: mergeStep_def mergeGroupChangeMessages_def withDetails_def is_request_def is_withdrawal_def
      approvalPending_def bounceDetail_def)

lemma mergeStep_new: "mergeStep m (NoMessage, acc) = Inr (OtherMessage m, acc)"
  by (simp add: mergeStep_def mergeGroupChangeMessages_def)

lemma mergeStep_unrelated:
  assumes "mergeStep m s = Inr t"
  shows "filter unrelated (pushPrevious (fst t) (snd t)) = filter unrelated (pushPrevious (fst s) (snd s) @ [m])"
proof -
  obtain prev acc where s: "s = (prev, acc)" by fastforce
  from assms obtain merged where m: "mergeGroupChangeMessages (previousAttributes prev) m = Inr merged"
    and t: "t = (case merged of None \<Rightarrow> (OtherMessage m, pushPrevious prev acc) | Some x \<Rightarrow> (OtherMessage x, acc))"
    by (auto simp: s mergeStep_def bindE_eq_Inr split: option.splits)
  show ?thesis
  proof (cases merged)
    case None
    then show ?thesis by (simp add: s t)
  next
    case (Some x)
    from merged_related [OF m [unfolded Some]] Some show ?thesis
      by (cases prev) (simp_all add: s t)
  qed
qed

lemma mergeSteps_unrelated:
  assumes "forE mergeStep ms s = Inr t"
  shows "filter unrelated (pushPrevious (fst t) (snd t)) = filter unrelated (pushPrevious (fst s) (snd s) @ ms)"
  using assms by (induction ms arbitrary: s) (auto simp: bindE_eq_Inr dest!: mergeStep_unrelated)

subsection \<open>No message is lost, and none is announced twice\<close>

definition hasDetails :: "MessageAttributesType \<Rightarrow> bool" where
  "hasDetails m \<longleftrightarrow> map_option gc_details (ma_groupV2Change m) \<noteq> Some []"

primrec previousId :: "previous_message \<Rightarrow> string list" where
  "previousId NoMessage = []"
| "previousId (LastMessage m) = [ma_id m]"
| "previousId (OtherMessage m) = [ma_id m]"

definition mergeIds :: "previous_message \<times> MessageAttributesType list \<Rightarrow> string list" where
  "mergeIds s = map ma_id (snd s) @ previousId (fst s)"

definition previousOk :: "previous_message \<Rightarrow> bool" where
  "previousOk prev \<longleftrightarrow> (case previousAttributes prev of None \<Rightarrow> True | Some m \<Rightarrow> hasDetails m)"

lemma mergeGroupChangeMessages_returns:
  assumes "hasDetails second" and "case first of None \<Rightarrow> True | Some f \<Rightarrow> hasDetails f"
  shows "\<exists>m. mergeGroupChangeMessages first second = Inr m"
  using assms unfolding mergeGroupChangeMessages_def
  by (auto simp: hasDetails_def split: option.splits list.splits prod.splits)

lemma merged_hasDetails: "mergeGroupChangeMessages first second = Inr (Some m) \<Longrightarrow> hasDetails m"
  by (elim mergeGroupChangeMessages_Some) (simp add: hasDetails_def)

lemma mergeStep_ids:
  assumes "mergeStep m s = Inr t"
  shows "set (mergeIds t) \<subseteq> set (mergeIds s) \<union> {ma_id m}"
    "distinct (mergeIds s @ [ma_id m]) \<Longrightarrow> distinct (mergeIds t)"
proof -
  obtain prev acc where s: "s = (prev, acc)" by fastforce
  from assms obtain merged where m: "mergeGroupChangeMessages (previousAttributes prev) m = Inr merged"
    and t: "t = (case merged of None \<Rightarrow> (OtherMessage m, pushPrevious prev acc) | Some x \<Rightarrow> (OtherMessage x, acc))"
    by (auto simp: s mergeStep_def bindE_eq_Inr split: option.splits)
  have "mergeIds t = mergeIds s \<or> mergeIds t = mergeIds s @ [ma_id m] \<or> mergeIds t = map ma_id acc @ [ma_id m]"
  proof (cases merged)
    case None
    then show ?thesis by (cases prev) (simp_all add: s t mergeIds_def)
  next
    case (Some x)
    from merged_related(3) [OF m [unfolded Some]] Some show ?thesis
      by (cases prev) (auto simp: s t mergeIds_def)
  qed
  then show "set (mergeIds t) \<subseteq> set (mergeIds s) \<union> {ma_id m}"
    "distinct (mergeIds s @ [ma_id m]) \<Longrightarrow> distinct (mergeIds t)"
    by (elim disjE; auto simp: s mergeIds_def)+
qed

lemma mergeStep_returns:
  assumes "hasDetails m" and "previousOk (fst s)"
  shows "\<exists>t. mergeStep m s = Inr t \<and> previousOk (fst t)"
proof -
  obtain prev acc where s: "s = (prev, acc)" by fastforce
  obtain x where "mergeGroupChangeMessages (previousAttributes prev) m = Inr x"
    using mergeGroupChangeMessages_returns [of m "previousAttributes prev"] assms by (auto simp: s previousOk_def)
  then show ?thesis
    using assms(1) by (cases x) (auto simp: s mergeStep_def previousOk_def dest: merged_hasDetails)
qed

lemma mergeSteps:
  assumes "list_all hasDetails ms" and "previousOk (fst s)" and "distinct (mergeIds s @ map ma_id ms)"
  shows "\<exists>t. forE mergeStep ms s = Inr t \<and> distinct (mergeIds t) \<and>
    set (mergeIds t) \<subseteq> set (mergeIds s) \<union> ma_id ` set ms"
  using assms
proof (induction ms arbitrary: s)
  case Nil
  then show ?case by simp
next
  case (Cons m ms)
  then obtain t where t: "mergeStep m s = Inr t" "previousOk (fst t)"
    using mergeStep_returns [of m s] by auto
  note ids = mergeStep_ids [OF t(1)]
  have "distinct (mergeIds t)" using Cons.prems(3) by (intro ids(2)) simp
  moreover have "(set (mergeIds s) \<union> {ma_id m}) \<inter> ma_id ` set ms = {}" using Cons.prems(3) by auto
  then have "set (mergeIds t) \<inter> ma_id ` set ms = {}" using ids(1) by blast
  ultimately have "distinct (mergeIds t @ map ma_id ms)" using Cons.prems(3) by auto
  from Cons.IH [OF _ t(2) this] Cons.prems(1) obtain u where
    "forE mergeStep ms t = Inr u" "distinct (mergeIds u)" "set (mergeIds u) \<subseteq> set (mergeIds t) \<union> ma_id ` set ms"
    by auto
  then show ?case using t(1) ids(1) by auto
qed

lemma pushPrevious_ids:
  "set (map ma_id (pushPrevious prev acc)) \<subseteq> set (mergeIds (prev, acc))"
  "distinct (mergeIds (prev, acc)) \<Longrightarrow> distinct (map ma_id (pushPrevious prev acc))"
  by (cases prev; auto simp: mergeIds_def)+

definition announce :: "string set \<Rightarrow> MessageAttributesType \<Rightarrow> timeline_effect" where
  "announce cache m = (if ma_id m \<in> cache then SetExisting m else OnNewMessage m)"

lemma cacheSteps:
  assumes "distinct (map ma_id ms)" and "[] \<notin> ma_id ` set ms"
    and "\<And>m. m \<in> set ms \<Longrightarrow> ma_id m \<in> cache \<Longrightarrow> map_option ma_id lastMessage = Some (ma_id m)"
  shows "\<exists>cache'. forE (cacheStep lastMessage) ms (cache, es) = Inr (cache', es @ map (announce cache) ms)"
  using assms
proof (induction ms arbitrary: cache es)
  case Nil
  then show ?case by simp
next
  case (Cons m ms)
  have step: "cacheStep lastMessage m (cache, es) = Inr (insert (ma_id m) cache, es @ [announce cache m])"
    using Cons.prems(2) Cons.prems(3) [of m] by (auto simp: cacheStep_def announce_def insert_absorb)
  have same: "map (announce (insert (ma_id m) cache)) ms = map (announce cache) ms"
    using Cons.prems(1) by (simp add: announce_def) (metis image_eqI)
  have "\<exists>cache'. forE (cacheStep lastMessage) ms (insert (ma_id m) cache, es @ [announce cache m]) =
      Inr (cache', (es @ [announce cache m]) @ map (announce (insert (ma_id m) cache)) ms)"
  proof (rule Cons.IH)
    show "map_option ma_id lastMessage = Some (ma_id x)" if "x \<in> set ms" "ma_id x \<in> insert (ma_id m) cache" for x
    proof -
      have "ma_id x \<noteq> ma_id m" using Cons.prems(1) that(1) by (metis distinct.simps(2) image_eqI list.set_map list.simps(9))
      then show ?thesis using that Cons.prems(3) by simp
    qed
  qed (use Cons.prems in auto)
  then show ?case by (auto simp: step same)
qed

lemma saved_simps [simp]:
  "saved [] = []" "saved (e # es) = savedBy e @ saved es" "saved (es @ es') = saved es @ saved es'"
  "shown [] = []" "shown (e # es) = shownBy e @ shown es" "shown (es @ es') = shown es @ shown es'"
  by (simp_all add: saved_def shown_def)

lemma saved_announce [simp]: "saved (map (announce cache) ms) = []" "shown (map (announce cache) ms) = ms"
  by (induction ms) (simp_all add: announce_def)

lemma saved_saveMerged [simp]: "saved (saveMerged l ms) = ms" "shown (saveMerged l ms) = []"
  by (simp_all add: saveMerged_def split: option.splits list.splits)

section \<open>Properties\<close>

text \<open>
Requests that go back and forth are counted: a request followed by an alternation of withdrawals
and requests of the same person becomes the one first message, whose detail counts the withdrawals and
says whether a request is pending at the end.
\<close>

theorem mergeMessages_counts_bounces:
  assumes "is_request a m" and "alternates a True ms" and "ms \<noteq> []"
  shows "mergeMessages None (m # ms) =
    Inr [withDetails m [AdminApprovalBounce a (length (filter (is_withdrawal a) ms)) (even (length ms))]]"
proof -
  obtain x xs where ms: "ms = x # xs" using assms(3) by (cases ms) simp_all
  have count: "length (filter (is_withdrawal a) zs) = (if p then Suc (length zs) div 2 else length zs div 2)"
    if "alternates a p zs" for p zs
    using that
  proof (induction zs arbitrary: p)
    case (Cons z zs)
    then show ?case by (auto simp: is_request_def is_withdrawal_def)
  qed simp
  have m: "ma_type m = ''group-v2-change''" "ma_groupV2Change m \<noteq> None"
    using assms(1) by (auto simp: is_request_def)
  show ?thesis
    using assms(1,2) count [OF assms(2)] merge_bounces [OF m, of a False xs 1 "[]"]
    by (simp add: ms mergeMessages_def mergeStep_new mergeStep_first)
qed

text \<open>Three messages: someone asks, takes the request back and asks again.\<close>

definition bounceMessage :: "string \<Rightarrow> GroupV2ChangeDetailType list \<Rightarrow> MessageAttributesType" where
  "bounceMessage i ds = \<lparr>ma_id = i, ma_type = ''group-v2-change'',
     ma_groupV2Change = Some \<lparr>gc_from = None, gc_details = ds\<rparr>, ma_sourceServiceId = None, ma_flags = None,
     ma_expirationTimerUpdate = None, ma_readStatus = None, ma_seenStatus = None, ma_conversationId = ''group'',
     ma_received_at = 0, ma_received_at_ms = 0, ma_sent_at = 0, ma_serverGuid = None, ma_timestamp = 0\<rparr>"

theorem mergeMessages_counts_bounces_witness:
  "mergeMessages None [bounceMessage ''1'' [AdminApprovalAddOne ''eve''],
      bounceMessage ''2'' [AdminApprovalRemoveOne ''eve''], bounceMessage ''3'' [AdminApprovalAddOne ''eve'']] =
    Inr [bounceMessage ''1'' [AdminApprovalBounce ''eve'' 1 True]]"
  using mergeMessages_counts_bounces [of "''eve''" "bounceMessage ''1'' [AdminApprovalAddOne ''eve'']"
      "[bounceMessage ''2'' [AdminApprovalRemoveOne ''eve''], bounceMessage ''3'' [AdminApprovalAddOne ''eve'']]"]
  by (simp add: bounceMessage_def is_request_def is_withdrawal_def withDetails_def)

text \<open>
Every other message stays: the messages whose first detail is not about requests are saved as
they are, all of them and in their order, whatever is merged between them.
\<close>

theorem mergeMessages_keeps_unrelated:
  "case mergeMessages lastMessage messages of
     Inl _ \<Rightarrow> True
   | Inr mergedMessages \<Rightarrow> filter unrelated mergedMessages = filter unrelated messages"
  by (auto simp: mergeMessages_def bindE_eq_Inr split: sum.splits option.splits dest!: mergeSteps_unrelated)

text \<open>
Appending returns, and saves and shows the same messages: with fresh identifiers and messages that
have details, every message that is left after merging is saved exactly once and handed to the
message cache and the conversation exactly once, in the same order.
\<close>

theorem appendChangeMessages_saves_and_shows:
  assumes "e_ourAci E \<noteq> None" and "list_all hasDetails messages"
    and "distinct (map ma_id messages)" and "list_all (\<lambda>m. ma_id m \<notin> cache \<and> ma_id m \<noteq> []) messages"
    and "case lastMessage of None \<Rightarrow> True
      | Some l \<Rightarrow> isGroupChangeMessageBounceable l \<and> ma_id l \<noteq> [] \<and> ma_id l \<notin> ma_id ` set messages"
  shows "\<exists>mergedMessages es. mergeMessages lastMessage messages = Inr mergedMessages \<and>
    appendChangeMessages E lastMessage cache messages = Inr es \<and>
    saved es = mergedMessages \<and> shown es = mergedMessages"
proof -
  let ?s = "(case lastMessage of None \<Rightarrow> NoMessage | Some m \<Rightarrow> LastMessage m, [])"
  have ok: "previousOk (fst ?s)"
    using assms(5) by (auto simp: previousOk_def hasDetails_def isGroupChangeMessageBounceable_def split: option.splits)
  have "distinct (mergeIds ?s @ map ma_id messages)"
    using assms(3,5) by (auto simp: mergeIds_def split: option.splits)
  from mergeSteps [OF assms(2) ok this] obtain prev acc where t: "forE mergeStep messages ?s = Inr (prev, acc)"
    "distinct (mergeIds (prev, acc))" "set (mergeIds (prev, acc)) \<subseteq> set (mergeIds ?s) \<union> ma_id ` set messages"
    by auto
  let ?merged = "pushPrevious prev acc"
  have merged: "mergeMessages lastMessage messages = Inr ?merged"
    using t(1) by (simp add: mergeMessages_def)
  have ids: "set (map ma_id ?merged) \<subseteq> set (mergeIds ?s) \<union> ma_id ` set messages"
    using pushPrevious_ids(1) t(3) by blast
  have "\<exists>cache'. forE (cacheStep lastMessage) ?merged (cache, []) = Inr (cache', [] @ map (announce cache) ?merged)"
  proof (rule cacheSteps)
    show "distinct (map ma_id ?merged)" using pushPrevious_ids(2) t(2) by blast
    show "[] \<notin> ma_id ` set ?merged"
    proof
      assume "[] \<in> ma_id ` set ?merged"
      then have "[] \<in> set (mergeIds ?s) \<union> ma_id ` set messages" using ids by auto
      then show False using assms(4,5) by (auto simp: mergeIds_def list_all_iff split: option.splits)
    qed
    show "map_option ma_id lastMessage = Some (ma_id m)" if "m \<in> set ?merged" "ma_id m \<in> cache" for m
      using ids that assms(4) by (fastforce simp: mergeIds_def list_all_iff split: option.splits)
  qed
  then show ?thesis
    using assms(1,5) merged
    by (auto simp: appendChangeMessages_def getCheckedAci_def Let_def split: option.splits)
qed

theorem appendChangeMessages_saves_and_shows_witness:
  "\<exists>mergedMessages es.
    mergeMessages (Some (bounceMessage ''0'' [AdminApprovalAddOne ''eve'']))
      [bounceMessage ''1'' [AdminApprovalRemoveOne ''eve''], bounceMessage ''2'' [TitleChange None]] = Inr mergedMessages \<and>
    appendChangeMessages exampleEnv (Some (bounceMessage ''0'' [AdminApprovalAddOne ''eve''])) {''0''}
      [bounceMessage ''1'' [AdminApprovalRemoveOne ''eve''], bounceMessage ''2'' [TitleChange None]] = Inr es \<and>
    saved es = mergedMessages \<and> shown es = mergedMessages"
  by (rule appendChangeMessages_saves_and_shows)
    (simp_all add: example_defs bounceMessage_def hasDetails_def isGroupChangeMessageBounceable_def)

text \<open>
Merging can drop what a message says: the test that both messages have exactly one detail joins
its two halves with "and", so a request that is followed by a message with more details than its
taking back is merged with that message, and the other details (here any list) are lost.
\<close>

theorem merge_drops_details:
  "mergeMessages None [bounceMessage i [AdminApprovalAddOne a],
      bounceMessage j (AdminApprovalRemoveOne a # otherDetails)] =
    Inr [bounceMessage i [AdminApprovalBounce a 1 False]]"
  by (simp add: mergeMessages_def mergeStep_def mergeGroupChangeMessages_def bounceMessage_def
      approvalPending_def bounceDetail_def)

end
