(* ===== verification/Message_Ids.thy ===== *)
theory Message_Ids
  imports JS_Prelude "HOL-Library.Signed_Division" "HOL-Library.List_Lexorder"
begin

text \<open>
  The identifiers of messages (ts/util/generateMessageId.node.ts): a UUID of version 7 whose first six
  bytes are the counter of the received message, most significant byte first, so that the order of the
  identifiers is the order of the counters. The random bytes and the printing of a UUID (the uuid
  package) are arguments.
\<close>

unbundle bit_operations_syntax

section \<open>The bytes\<close>

text \<open>
  \<open>(counter / d) & 0xff\<close>: the division is exact on the numbers that occur (powers of two), \<open>&\<close> truncates
  it and keeps its last 32 bits, the array keeps the last eight.
\<close>

definition counterByte :: "int \<Rightarrow> int \<Rightarrow> 8 word" where
  "counterByte counter d = ucast ((word_of_int (counter sdiv d) :: 32 word) AND 0xff)"

definition messageIdBytes :: "8 word list \<Rightarrow> int \<Rightarrow> 8 word list" where
  "messageIdBytes random counter =
    (let uuid1 = random[0 := counterByte counter 0x10000000000, 1 := counterByte counter 0x00100000000,
           2 := counterByte counter 0x00001000000, 3 := counterByte counter 0x00000010000,
           4 := counterByte counter 0x00000000100, 5 := counterByte counter 0x00000000001];
         uuid2 = uuid1[6 := uuid1 ! 6 AND 0x0f];
         uuid3 = uuid2[6 := uuid2 ! 6 OR 0x70];
         uuid4 = uuid3[8 := uuid3 ! 8 AND 0x3f]
     in uuid4[8 := uuid4 ! 8 OR 0x80])"

record GeneratedMessageId =
  gm_id :: string
  gm_received_at :: int

definition generateMessageId :: "(8 word list \<Rightarrow> string) \<Rightarrow> 8 word list \<Rightarrow> int \<Rightarrow> GeneratedMessageId" where
  "generateMessageId stringify random counter =
    \<lparr>gm_id = stringify (messageIdBytes random counter), gm_received_at = counter\<rparr>"

section \<open>What the bytes say\<close>

text \<open>A number from its bytes, most significant byte first.\<close>

definition fromBytes :: "8 word list \<Rightarrow> int" where
  "fromBytes bs = foldl (\<lambda>n b. 256 * n + uint b) 0 bs"

lemma uint_counterByte:
  assumes "0 \<le> counter" and "0 < d"
  shows "uint (counterByte counter d) = counter div d mod 256"
proof -
  have "counter sdiv d = counter div d"
    using assms by (simp add: signed_divide_int_def sgn_if)
  then have "uint (counterByte counter d) = take_bit 8 (take_bit 32 (counter div d) AND 0xff)"
    by (simp add: counterByte_def unsigned_ucast_eq unsigned_and_eq uint_word_of_int_eq)
  also have "(0xff :: int) = mask 8" by (simp add: mask_eq_exp_minus_1)
  finally show ?thesis
    by (simp add: take_bit_eq_mask [symmetric] take_bit_eq_mod mod_mod_cancel)
qed

lemma counter_digits:
  fixes c :: int
  assumes "0 \<le> c" and "c < 2 ^ 48"
  shows "256 * (256 * (256 * (256 * (256 * (c div 0x10000000000 mod 256) + c div 0x100000000 mod 256) +
      c div 0x1000000 mod 256) + c div 0x10000 mod 256) + c div 0x100 mod 256) + c div 1 mod 256 = c"
proof -
  define q where "q n = c div 256 ^ n" for n
  have step: "256 * q m + q n mod 256 = q n" if "m = Suc n" for m n
  proof -
    have "q m = q n div 256"
      unfolding that q_def power_Suc2 by (rule zdiv_zmult2_eq) simp
    then show ?thesis by (simp only: mult_div_mod_eq)
  qed
  have q: "q 0 = c" "q 1 = c div 0x100" "q 2 = c div 0x10000" "q 3 = c div 0x1000000"
    "q 4 = c div 0x100000000" "q 5 = c div 0x10000000000" by (simp_all add: q_def)
  have "0 \<le> q 5" using assms(1) unfolding q by (simp add: pos_imp_zdiv_nonneg_iff)
  moreover have "c div 0x10000000000 \<le> (2 ^ 48 - 1) div 0x10000000000"
    by (rule zdiv_mono1) (use assms(2) in simp_all)
  then have "q 5 \<le> 255" unfolding q by simp
  ultimately have "q 5 mod 256 = q 5" by (intro mod_pos_pos_trivial) simp_all
  moreover have "256 * q 1 + q 0 mod 256 = q 0" "256 * q 2 + q 1 mod 256 = q 1" "256 * q 3 + q 2 mod 256 = q 2"
    "256 * q 4 + q 3 mod 256 = q 3" "256 * q 5 + q 4 mod 256 = q 4"
    by (rule step, simp)+
  ultimately have "256 * (256 * (256 * (256 * (256 * (q 5 mod 256) + q 4 mod 256) + q 3 mod 256) + q 2 mod 256) +
      q 1 mod 256) + q 0 mod 256 = q 0"
    by (simp only:)
  then show ?thesis unfolding q by (simp only: div_by_1)
qed

lemma messageIdBytes_nth:
  assumes "length random = 16"
  shows "length (messageIdBytes random c) = 16"
    "take 6 (messageIdBytes random c) =
       [counterByte c 0x10000000000, counterByte c 0x100000000, counterByte c 0x1000000, counterByte c 0x10000,
        counterByte c 0x100, counterByte c 1]"
    "messageIdBytes random c ! 6 = (random ! 6 AND 0x0f) OR 0x70"
    "messageIdBytes random c ! 8 = (random ! 8 AND 0x3f) OR 0x80"
  using assms by (simp_all add: messageIdBytes_def Let_def list_eq_iff_nth_eq nth_list_update less_Suc_eq numeral_eq_Suc)

lemma fromBytes_take6:
  assumes "length random = 16" and "0 \<le> c" and "c < 2 ^ 48"
  shows "fromBytes (take 6 (messageIdBytes random c)) = c"
  using counter_digits [OF assms(2,3)] assms(2)
  by (simp add: messageIdBytes_nth [OF assms(1)] fromBytes_def uint_counterByte)

text \<open>Byte lists of one length are ordered as the numbers they are.\<close>

lemma foldl_bytes_bound:
  fixes bs :: "8 word list"
  shows "m * 256 ^ length bs \<le> foldl (\<lambda>n b. 256 * n + uint b) m bs \<and>
   foldl (\<lambda>n b. 256 * n + uint b) m bs < (m + 1) * 256 ^ length bs"
proof (induction bs arbitrary: m)
  case Nil
  then show ?case by simp
next
  case (Cons b bs)
  have b: "0 \<le> uint b" "uint b \<le> 255" using uint_lt2p [of b] by simp_all
  have "m * 256 * 256 ^ length bs \<le> (256 * m + uint b) * 256 ^ length bs"
    "(256 * m + uint b + 1) * 256 ^ length bs \<le> (m + 1) * 256 * 256 ^ length bs"
    using b by (intro mult_right_mono; simp)+
  moreover have "k * 256 ^ length (b # bs) = k * 256 * 256 ^ length bs" for k :: int by simp
  ultimately show ?case using Cons [of "256 * m + uint b"] by (simp only: foldl.simps) linarith
qed

lemma foldl_bytes_less:
  fixes bs cs :: "8 word list"
  assumes "length bs = length cs" and "foldl (\<lambda>n b. 256 * n + uint b) m bs < foldl (\<lambda>n b. 256 * n + uint b) m cs"
  shows "bs < cs"
  using assms
proof (induction bs cs arbitrary: m rule: list_induct2)
  case Nil
  then show ?case by simp
next
  case (Cons b bs c cs)
  consider "uint b < uint c" | "b = c" | "uint c < uint b"
    by (metis linorder_neqE word_uint_eqI)
  then show ?case
  proof cases
    case 3
    then have "(256 * m + uint c + 1) * 256 ^ length cs \<le> (256 * m + uint b) * 256 ^ length bs"
      unfolding Cons.hyps
      by (intro mult_right_mono) simp_all
    moreover have "foldl (\<lambda>n b. 256 * n + uint b) (256 * m + uint b) bs <
        foldl (\<lambda>n b. 256 * n + uint b) (256 * m + uint c) cs"
      using Cons.prems by simp
    ultimately have False
      using foldl_bytes_bound [of "256 * m + uint c" cs] foldl_bytes_bound [of "256 * m + uint b" bs] Cons.hyps
      by linarith
    then show ?thesis ..
  qed (use Cons in \<open>auto simp: word_less_def\<close>)
qed

lemma less_append:
  fixes xs ys us vs :: "8 word list"
  assumes "length xs = length ys" and "xs < ys"
  shows "xs @ us < ys @ vs"
  using assms by (induction xs ys rule: list_induct2) auto

lemma version_bits: "drop_bit 4 (w AND 0x0f OR 0x70) = (7 :: 8 word)"
  by (simp add: drop_bit_or drop_bit_and)

lemma variant_bits: "drop_bit 6 (w AND 0x3f OR 0x80) = (2 :: 8 word)"
  by (simp add: drop_bit_or drop_bit_and)

section \<open>Properties\<close>

text \<open>
The counter can be read back from an identifier, and the identifier is a UUID of version 7 and of the
RFC variant: for 16 random bytes and a counter of at most 48 bits, the first six bytes are the counter,
the high half of the seventh byte is 7 and the two high bits of the ninth are 10.
\<close>

theorem messageId_roundtrip:
  assumes "length random = 16" and "0 \<le> counter" and "counter < 2 ^ 48"
  shows "fromBytes (take 6 (messageIdBytes random counter)) = counter \<and>
    drop_bit 4 (messageIdBytes random counter ! 6) = 7 \<and> drop_bit 6 (messageIdBytes random counter ! 8) = 2"
  using fromBytes_take6 [OF assms] by (simp add: messageIdBytes_nth [OF assms(1)] version_bits variant_bits)

theorem messageId_roundtrip_witness:
  "fromBytes (take 6 (messageIdBytes (replicate 16 0xff) 0x123456789abc)) = 0x123456789abc \<and>
    drop_bit 4 (messageIdBytes (replicate 16 0xff) 0x123456789abc ! 6) = 7 \<and>
    drop_bit 6 (messageIdBytes (replicate 16 0xff) 0x123456789abc ! 8) = 2"
  by (rule messageId_roundtrip) simp_all

text \<open>
Identifiers sort by the counter: of two identifiers, whatever their random parts, the one with the
smaller counter has the smaller bytes in lexicographic order.
\<close>

theorem messageId_order:
  assumes "length random = 16" and "length random' = 16"
    and "0 \<le> counter" and "counter < counter'" and "counter' < 2 ^ 48"
  shows "messageIdBytes random counter < messageIdBytes random' counter'"
proof -
  let ?a = "messageIdBytes random counter" and ?b = "messageIdBytes random' counter'"
  have "take 6 ?a < take 6 ?b"
    using fromBytes_take6 [OF assms(1,3)] fromBytes_take6 [OF assms(2), of counter'] assms(3-5)
      messageIdBytes_nth(1) [OF assms(1)] messageIdBytes_nth(1) [OF assms(2)]
    by (intro foldl_bytes_less [of _ _ 0]) (simp_all add: fromBytes_def)
  then have "take 6 ?a @ drop 6 ?a < take 6 ?b @ drop 6 ?b"
    using messageIdBytes_nth(1) [OF assms(1)] messageIdBytes_nth(1) [OF assms(2)]
    by (intro less_append) simp_all
  then show ?thesis by simp
qed

theorem messageId_order_witness:
  "messageIdBytes (replicate 16 0xff) 255 < messageIdBytes (replicate 16 0) 256"
  by (rule messageId_order) simp_all

end
