(* ===== verification/Group_Update.thy ===== *)
theory Group_Update
  imports Group_Fetch Group_Messages Message_Ids
begin

text \<open>
  \<open>updateGroup\<close>, \<open>maybeUpdateGroup\<close> and \<open>waitThenMaybeUpdateGroup\<close> of ts/groups.preload.ts: what is done
  with the result of an update. The conversations, the blocked list and the message database are the
  record \<open>App\<close>; what is done to them is a list of effects, in order.
\<close>

section \<open>The application\<close>

record App =
  app_isUnregistered :: "ConversationAttributesType \<Rightarrow> bool"
  app_blockedE164s :: "string list"
  app_blockedServiceIds :: "string list"
  app_blockedGroups :: "string list"
  app_releaseNotesBlocked :: bool
  app_getOrCreate :: "string \<Rightarrow> ConversationAttributesType"
  app_incrementMessageCounter :: int
  app_randomBytes :: "nat \<Rightarrow> bytes"
  app_stringify :: "bytes \<Rightarrow> string"
  app_lastMessage :: "MessageAttributesType option"
  app_cachedIds :: "string set"

definition SIGNAL_ACI :: string where
  "SIGNAL_ACI = ''11111111-1111-4111-8111-111111111111''"

text \<open>\<open>isBlocked\<close> of ts/util/isBlocked.preload.ts.\<close>

definition isBlocked :: "App \<Rightarrow> ConversationAttributesType \<Rightarrow> bool" where
  "isBlocked A attrs =
    (if c_serviceId attrs = Some SIGNAL_ACI then app_releaseNotesBlocked A
     else if isAciString (c_serviceId attrs) \<and> the (c_serviceId attrs) \<in> set (app_blockedServiceIds A) then True
     else if truthy_str (c_e164 attrs) \<and> the (c_e164 attrs) \<in> set (app_blockedE164s A) then True
     else if truthy_str (c_groupId attrs) \<and> the (c_groupId attrs) \<in> set (app_blockedGroups A) then True
     else False)"

text \<open>\<open>getConversationMembers\<close> of ts/util/getConversationMembers.dom.ts.\<close>

definition getConversationMembers :: "env \<Rightarrow> App \<Rightarrow> ConversationAttributesType \<Rightarrow> bool \<Rightarrow>
    ConversationAttributesType list" where
  "getConversationMembers E A attrs includePendingMembers =
    (let reachable = List.map_filter (\<lambda>i. case getConversation E i of
             None \<Rightarrow> None
           | Some c \<Rightarrow> if app_isUnregistered A c \<or> isBlocked A c then None else Some c)
     in if isDirectConversation attrs then [attrs]
        else case c_membersV2 attrs of
          Some ms \<Rightarrow> reachable (map m_aci ms @
            (if includePendingMembers then map p_serviceId (or_list (c_pendingMembersV2 attrs)) else []))
        | None \<Rightarrow> (case c_members attrs of Some ids \<Rightarrow> reachable ids | None \<Rightarrow> []))"

text \<open>\<open>hasMember\<close> of the conversation model.\<close>

definition hasMember :: "env \<Rightarrow> App \<Rightarrow> ConversationAttributesType \<Rightarrow> string \<Rightarrow> bool" where
  "hasMember E A attrs serviceId =
    list_ex (\<lambda>m. c_serviceId m = Some serviceId)
      (List.map_filter (\<lambda>m. getConversation E (c_id m)) (getConversationMembers E A attrs False))"

section \<open>Saving an update\<close>

datatype update_effect =
    SetProfileKey string string
  | GetProfile "string option" "string option" "string option"
  | ScheduleLeave string
  | EnableProfileSharing
  | Timeline timeline_effect
  | SetAttributes ConversationAttributesType "int option"
  | IdUpdated string
  | UpdateConversation

definition changeMessage :: "GroupChangeMessageType \<Rightarrow> MessageAttributesType" where
  "changeMessage m =
    (let blank = \<lparr>ma_id = [], ma_type = [], ma_groupV2Change = None, ma_sourceServiceId = None, ma_flags = None,
           ma_expirationTimerUpdate = None, ma_readStatus = None, ma_seenStatus = None, ma_conversationId = [],
           ma_received_at = 0, ma_received_at_ms = 0, ma_sent_at = 0, ma_serverGuid = None, ma_timestamp = 0\<rparr>
     in case m of
          GroupV2ChangeMessage source change readStatus seenStatus \<Rightarrow>
            blank\<lparr>ma_type := ''group-v2-change'', ma_groupV2Change := Some change, ma_sourceServiceId := source,
              ma_readStatus := readStatus, ma_seenStatus := seenStatus\<rparr>
        | TimerNotificationMessage source flags expireTimer timerSource readStatus seenStatus \<Rightarrow>
            blank\<lparr>ma_type := ''timer-notification'', ma_sourceServiceId := source, ma_flags := Some flags,
              ma_expirationTimerUpdate := Some (expireTimer, timerSource),
              ma_readStatus := Some readStatus, ma_seenStatus := Some seenStatus\<rparr>)"

text \<open>The messages with their identifiers and times: one millisecond apart, ending just before \<open>initialSentAt\<close>.\<close>

definition changeMessagesToSave :: "App \<Rightarrow> string \<Rightarrow> int \<Rightarrow> int \<Rightarrow> string option \<Rightarrow> int \<Rightarrow>
    GroupChangeMessageType list \<Rightarrow> MessageAttributesType list" where
  "changeMessagesToSave A conversationId finalReceivedAt initialSentAt serverGuid now messages =
    map (\<lambda>(k, m).
        let newId = generateMessageId (app_stringify A) (app_randomBytes A k) finalReceivedAt;
            syntheticSentAt = initialSentAt - (int (length messages) + 1) + int k + 1
        in (changeMessage m)\<lparr>ma_id := gm_id newId, ma_received_at := gm_received_at newId,
             ma_conversationId := conversationId, ma_received_at_ms := syntheticSentAt,
             ma_sent_at := syntheticSentAt, ma_serverGuid := serverGuid, ma_timestamp := now\<rparr>)
      (enumerate 0 messages)"

definition contactsNeedingFetch :: "env \<Rightarrow> App \<Rightarrow> (string, string) jsmap \<Rightarrow>
    (ConversationAttributesType \<times> string) list" where
  "contactsNeedingFetch E A newProfileKeys =
    filter (\<lambda>(contact, key). \<not> isMe E contact \<and> key \<noteq> [] \<and> c_profileKey contact \<noteq> Some key)
      (map (\<lambda>(aci, key). (app_getOrCreate A aci, key)) newProfileKeys)"

definition isOurs :: "string \<Rightarrow> string option \<Rightarrow> GroupV2PendingMemberType \<Rightarrow> bool" where
  "isOurs ourAci ourPni item \<longleftrightarrow>
    p_serviceId item = ourAci \<or> (truthy_str ourPni \<and> Some (p_serviceId item) = ourPni)"

record ConversationModel =
  cm_attributes :: ConversationAttributesType
  cm_active_at :: "int option"

definition finalAttributes :: "bool \<Rightarrow> ConversationAttributesType \<Rightarrow> ConversationAttributesType" where
  "finalAttributes sharing newAttributes =
    newAttributes\<lparr>c_profileSharing := (case c_profileSharing newAttributes of
        None \<Rightarrow> if sharing then Some True else None | Some b \<Rightarrow> Some b)\<rparr>"

definition orElse :: "string option \<Rightarrow> string option \<Rightarrow> string option" where
  "orElse a b = (if truthy_str a then a else b)"

definition updateGroup :: "env \<Rightarrow> App \<Rightarrow> ConversationModel \<Rightarrow> int option \<Rightarrow> int option \<Rightarrow> string option \<Rightarrow>
    UpdatesResultType \<Rightarrow> bool \<Rightarrow> update_effect list \<times> unit js" where
  "updateGroup E A conversation receivedAt sentAt serverGuid updates viaFirstStorageSync =
    (case getCheckedAci E of
       Inl e \<Rightarrow> ([], Inl e)
     | Inr ourAci \<Rightarrow>
       let attrs = cm_attributes conversation;
           newAttributes = ur_newAttributes updates;
           messages = ur_messages updates;
           ourPni = e_ourPni E;
           ourPending = filter (isOurs ourAci ourPni) (or_list (c_pendingMembersV2 newAttributes));
           wasMemberOrPending = (hasMember E A attrs ourAci \<or> isMemberPending E attrs ourAci \<or>
             (truthy_str ourPni \<and> isMemberPending E attrs (the ourPni)));
           isMemberOrPending = (\<not> truthy_bool (c_left newAttributes) \<or> ourPending \<noteq> []);
           finalReceivedAt = (if truthy_num receivedAt then the receivedAt else app_incrementMessageCounter A);
           initialSentAt = (if truthy_num sentAt then the sentAt else date_now E);
           previousId = c_groupId attrs;
           idChanged = (truthy_str previousId \<and> previousId \<noteq> c_groupId newAttributes);
           justDiscoveredGroupName = (\<not> truthy_str (c_name attrs) \<and> truthy_str (c_name newAttributes));
           activeAt = (if \<not> viaFirstStorageSync \<and> (justDiscoveredGroupName \<or> messages \<noteq> []) then Some initialSentAt
                       else if truthy_num (cm_active_at conversation) then cm_active_at conversation else None);
           toSave = changeMessagesToSave A (c_id attrs) finalReceivedAt initialSentAt serverGuid (date_now E) messages;
           contacts = contactsNeedingFetch E A (ur_newProfileKeys updates);
           profileEffects = map (\<lambda>(c, key). SetProfileKey (c_id c) key) contacts @
             map (\<lambda>(c, key). GetProfile (c_serviceId c) (c_e164 c) (c_groupId newAttributes)) contacts;
           justAdded = (\<not> wasMemberOrPending \<and> isMemberOrPending);
           addedBy = orElse (case ourPending of [] \<Rightarrow> None | p # _ \<Rightarrow> Some (p_addedByUserId p)) (c_addedBy newAttributes);
           adder = Option.bind addedBy (getConversation E)
       in if justAdded \<and> (case adder of None \<Rightarrow> False | Some c \<Rightarrow> isBlocked A c)
          then (profileEffects @ [ScheduleLeave ''added by blocked user''], Inr ())
          else if justAdded \<and> isBlocked A attrs
          then (profileEffects @ [ScheduleLeave ''group is blocked''], Inr ())
          else
            let trusted = (justAdded \<and> (case adder of None \<Rightarrow> False | Some c \<Rightarrow> isTrustedContact E c));
                sharing = (trusted \<and> c_profileSharing attrs \<noteq> Some True);
                sharingEffects = (if sharing then [EnableProfileSharing] else []);
                timeline = (if toSave = [] then Inr []
                   else appendChangeMessages E (app_lastMessage A) (app_cachedIds A) toSave)
            in case timeline of
                 Inl e \<Rightarrow> (profileEffects @ sharingEffects, Inl e)
               | Inr es \<Rightarrow>
                   (profileEffects @ sharingEffects @ map Timeline es @
                    [SetAttributes (finalAttributes sharing newAttributes) activeAt] @
                    (if idChanged then [IdUpdated (the previousId)] else []) @ [UpdateConversation], Inr ()))"

section \<open>Asking for an update\<close>

text \<open>\<open>maybeFetchNewCredentials\<close> is the result of a request; a failure of any part is thrown again.\<close>

definition maybeUpdateGroup :: "env \<Rightarrow> App \<Rightarrow> Server \<Rightarrow> unit js \<Rightarrow> ConversationModel \<Rightarrow> bool \<Rightarrow>
    WrappedGroupChangeType option \<Rightarrow> int option \<Rightarrow> int option \<Rightarrow> int option \<Rightarrow> string option \<Rightarrow> bool \<Rightarrow>
    (effect list \<times> update_effect list \<times> unit js) option" where
  "maybeUpdateGroup E A S maybeFetchNewCredentials conversation dropInitialJoinMessage groupChange newRevision
      receivedAt sentAt serverGuid viaFirstStorageSync =
    (case maybeFetchNewCredentials of
       Inl e \<Rightarrow> Some ([], [], Inl e)
     | Inr _ \<Rightarrow>
         (case getGroupUpdates S E (cm_attributes conversation) newRevision groupChange dropInitialJoinMessage of
            None \<Rightarrow> None
          | Some (es, Inl e) \<Rightarrow> Some (es, [], Inl e)
          | Some (es, Inr updates) \<Rightarrow>
              Some (es, updateGroup E A conversation receivedAt sentAt serverGuid updates viaFirstStorageSync)))"

abbreviation (input) FIVE_MINUTES :: int where "FIVE_MINUTES \<equiv> 5 * 60000"

text \<open>Whether the update is queued at all: not for a blocked conversation, nor again within five minutes.\<close>

definition shouldUpdateGroup :: "env \<Rightarrow> App \<Rightarrow> ConversationModel \<Rightarrow> int option \<Rightarrow> bool \<Rightarrow> bool" where
  "shouldUpdateGroup E A conversation lastSuccessfulGroupFetch force =
    (if isBlocked A (cm_attributes conversation) then False
     else if \<not> force \<and> nullish lastSuccessfulGroupFetch 0 > date_now E - FIVE_MINUTES then False
     else True)"

section \<open>Properties\<close>

primrec isProfileEffect :: "update_effect \<Rightarrow> bool" where
  "isProfileEffect (SetProfileKey i k) = True"
| "isProfileEffect (GetProfile s e g) = True"
| "isProfileEffect (ScheduleLeave r) = False"
| "isProfileEffect EnableProfileSharing = False"
| "isProfileEffect (Timeline e) = False"
| "isProfileEffect (SetAttributes attrs activeAt) = False"
| "isProfileEffect (IdUpdated i) = False"
| "isProfileEffect UpdateConversation = False"

text \<open>
The messages of an update keep their order and come before the message that caused it: their times
increase strictly and all lie before the time of the message (or before now), and they carry the
identifier of the conversation and one received-at counter.
\<close>

theorem changeMessages_ordered:
  "let saved = changeMessagesToSave A conversationId receivedAt sentAt serverGuid now messages in
   length saved = length messages \<and>
   sorted_wrt (<) (map ma_sent_at saved) \<and>
   list_all (\<lambda>m. ma_sent_at m < sentAt \<and> ma_received_at_ms m = ma_sent_at m \<and> ma_received_at m = receivedAt \<and>
     ma_conversationId m = conversationId) saved"
proof -
  have times: "map ma_sent_at (changeMessagesToSave A conversationId receivedAt sentAt serverGuid now messages) =
      map (\<lambda>k. sentAt - int (length messages) + int k) [0..<length messages]"
    by (rule nth_equalityI) (simp_all add: changeMessagesToSave_def nth_enumerate_eq Let_def)
  have "sorted_wrt (<) (map (\<lambda>k. sentAt - int (length messages) + int k) [0..<length messages])"
    by (simp add: sorted_wrt_iff_nth_less)
  then show ?thesis
    unfolding times [symmetric] Let_def
    by (auto simp: changeMessagesToSave_def list_all_length nth_enumerate_eq Let_def generateMessageId_def)
qed

text \<open>
What a blocked person adds us to is not saved: when we were not in the group and the update has us in
it, added by somebody we have blocked, then nothing of the update reaches the conversation or the timeline;
only profiles are fetched, and leaving the group is scheduled.
\<close>

theorem added_by_blocked_discards:
  assumes "e_ourAci E = Some ourAci"
    and "\<not> hasMember E A (cm_attributes conversation) ourAci"
    and "\<not> isMemberPending E (cm_attributes conversation) ourAci"
    and "case e_ourPni E of None \<Rightarrow> True | Some pni \<Rightarrow> \<not> isMemberPending E (cm_attributes conversation) pni"
    and "c_left (ur_newAttributes updates) = Some False"
    and "filter (isOurs ourAci (e_ourPni E)) (or_list (c_pendingMembersV2 (ur_newAttributes updates))) = []"
    and "c_addedBy (ur_newAttributes updates) = Some adder"
    and "getConversation E adder = Some contact" and "isBlocked A contact"
  shows "\<exists>profileEffects. list_all isProfileEffect profileEffects \<and>
    updateGroup E A conversation receivedAt sentAt serverGuid updates viaFirstStorageSync =
      (profileEffects @ [ScheduleLeave ''added by blocked user''], Inr ())"
proof -
  have pni: "\<not> (truthy_str (e_ourPni E) \<and> isMemberPending E (cm_attributes conversation) (the (e_ourPni E)))"
    using assms(4) by (cases "e_ourPni E") simp_all
  have adder: "orElse None (Some adder) = Some adder" by (simp add: orElse_def)
  show ?thesis
    using assms(1-3,5-9) pni
    by (intro exI conjI) (auto simp: updateGroup_def Let_def adder list_all_iff)
qed

definition blockedBob :: ConversationAttributesType where
  "blockedBob = exampleGroup\<lparr>c_type := ''private'', c_groupId := Some ''bob'', c_serviceId := None\<rparr>"

definition exampleApp :: App where
  "exampleApp =
    \<lparr>app_isUnregistered = (\<lambda>_. False), app_blockedE164s = [], app_blockedServiceIds = [],
     app_blockedGroups = [''bob''], app_releaseNotesBlocked = False, app_getOrCreate = (\<lambda>_. exampleGroup),
     app_incrementMessageCounter = 7, app_randomBytes = (\<lambda>_. replicate 16 0), app_stringify = chars_of_bytes,
     app_lastMessage = None, app_cachedIds = {}\<rparr>"

theorem added_by_blocked_discards_witness:
  "\<exists>profileEffects. list_all isProfileEffect profileEffects \<and>
    updateGroup (exampleEnv\<lparr>getConversation := (\<lambda>_. Some blockedBob)\<rparr>) exampleApp
        \<lparr>cm_attributes = exampleGroup, cm_active_at = None\<rparr> None None None
        (noUpdates (exampleGroup\<lparr>c_addedBy := Some ''bob''\<rparr>)) False =
      (profileEffects @ [ScheduleLeave ''added by blocked user''], Inr ())"
  by (rule added_by_blocked_discards [where ourAci = "''us''" and adder = "''bob''" and contact = blockedBob])
    (simp_all add: example_defs exampleApp_def blockedBob_def noUpdates_def isBlocked_def hasMember_def
      getConversationMembers_def isDirectConversation_def isMemberPending_def isAciString_def SIGNAL_ACI_def
      map_filter_def)

text \<open>
Profile sharing that is switched on for a group is switched off again: when a trusted contact adds us
to a group whose attributes say that we do not share our profile, sharing is enabled (and announced), and
the attributes that are saved at the end still say that we do not share it, because they were read before.
\<close>

theorem profile_sharing_overwritten:
  assumes "e_ourAci E = Some ourAci"
    and "\<not> hasMember E A (cm_attributes conversation) ourAci"
    and "\<not> isMemberPending E (cm_attributes conversation) ourAci"
    and "case e_ourPni E of None \<Rightarrow> True | Some pni \<Rightarrow> \<not> isMemberPending E (cm_attributes conversation) pni"
    and "c_left (ur_newAttributes updates) = Some False" and "ur_messages updates = []"
    and "filter (isOurs ourAci (e_ourPni E)) (or_list (c_pendingMembersV2 (ur_newAttributes updates))) = []"
    and "c_addedBy (ur_newAttributes updates) = Some adder"
    and "getConversation E adder = Some contact" and "isTrustedContact E contact"
    and "\<not> isBlocked A contact" and "\<not> isBlocked A (cm_attributes conversation)"
    and "c_profileSharing (cm_attributes conversation) = Some False"
    and "c_profileSharing (ur_newAttributes updates) = Some False"
  shows "\<exists>es attrs activeAt.
    updateGroup E A conversation receivedAt sentAt serverGuid updates viaFirstStorageSync = (es, Inr ()) \<and>
    EnableProfileSharing \<in> set es \<and> SetAttributes attrs activeAt \<in> set es \<and>
    c_profileSharing attrs = Some False"
proof -
  have pni: "\<not> (truthy_str (e_ourPni E) \<and> isMemberPending E (cm_attributes conversation) (the (e_ourPni E)))"
    using assms(4) by (cases "e_ourPni E") simp_all
  have adder: "orElse None (Some adder) = Some adder" by (simp add: orElse_def)
  have saved: "changeMessagesToSave A i r t g n [] = []" for i r t g n by (simp add: changeMessagesToSave_def)
  let ?result = "updateGroup E A conversation receivedAt sentAt serverGuid updates viaFirstStorageSync"
  have "\<exists>t. EnableProfileSharing \<in> set (fst ?result) \<and>
      SetAttributes (finalAttributes True (ur_newAttributes updates)) t \<in> set (fst ?result) \<and> snd ?result = Inr ()"
    unfolding updateGroup_def Let_def
    by (simp add: adder saved pni assms(1-3,5-13) split del: if_split) blast
  then obtain t where "EnableProfileSharing \<in> set (fst ?result)"
    "SetAttributes (finalAttributes True (ur_newAttributes updates)) t \<in> set (fst ?result)" "snd ?result = Inr ()"
    by blast
  moreover have "c_profileSharing (finalAttributes True (ur_newAttributes updates)) = Some False"
    using assms(14) by (simp add: finalAttributes_def)
  ultimately show ?thesis by (metis prod.collapse)
qed

theorem profile_sharing_overwritten_witness:
  "\<exists>es attrs activeAt.
    updateGroup (exampleEnv\<lparr>getConversation := (\<lambda>_. Some (blockedBob\<lparr>c_groupId := None\<rparr>))\<rparr>) exampleApp
        \<lparr>cm_attributes = exampleGroup\<lparr>c_profileSharing := Some False\<rparr>, cm_active_at = None\<rparr> None None None
        (noUpdates (exampleGroup\<lparr>c_addedBy := Some ''bob'', c_profileSharing := Some False\<rparr>)) False = (es, Inr ()) \<and>
    EnableProfileSharing \<in> set es \<and> SetAttributes attrs activeAt \<in> set es \<and>
    c_profileSharing attrs = Some False"
  by (rule profile_sharing_overwritten [where ourAci = "''us''" and adder = "''bob''"
        and contact = "blockedBob\<lparr>c_groupId := None\<rparr>"])
    (simp_all add: example_defs exampleApp_def blockedBob_def noUpdates_def isBlocked_def hasMember_def
      getConversationMembers_def isDirectConversation_def isMemberPending_def isAciString_def SIGNAL_ACI_def
      map_filter_def isTrustedContact_def numeral_eq_Suc)

end
