(* ===== verification/Bytes_Codec.thy ===== *)
theory Bytes_Codec
  imports Group_Membership
begin

text \<open>
  Bytes as text: ts/context/Bytes.std.ts (the \<open>hex\<close> and \<open>base64\<close> encodings of Node's \<open>Buffer\<close>) and
  ts/util/uuidToBytes.std.ts. What \<open>Buffer\<close> documents is written out: decoding hexadecimal text stops at
  the first pair that is none; decoding base64 skips what is not of the alphabet, accepts the URL alphabet
  too and stops at the padding.

  The encodings share one contract, the locale \<open>text_codec\<close>: decoding what was encoded gives the bytes.
\<close>

section \<open>The contract of an encoding\<close>

locale text_codec =
  fixes encode :: "bytes \<Rightarrow> string" and decode :: "string \<Rightarrow> bytes" and alphabet :: "char \<Rightarrow> bool"
  assumes decode_encode: "decode (encode bs) = bs"
    and encode_alphabet: "c \<in> set (encode bs) \<Longrightarrow> alphabet c"
begin

lemma encode_inj: "encode bs = encode cs \<longleftrightarrow> bs = cs"
  by (metis decode_encode)

lemma not_in_encode: "\<not> alphabet c \<Longrightarrow> c \<notin> set (encode bs)"
  using encode_alphabet by blast

lemma filter_encode: "\<not> alphabet c \<Longrightarrow> filter (\<lambda>x. x \<noteq> c) (encode bs) = encode bs"
  using not_in_encode by (metis (mono_tags, lifting) filter_True)

text \<open>A text that some bytes encode to is a fixed point of decoding and encoding again.\<close>

lemma encode_decode: "encode bs = s \<Longrightarrow> encode (decode s) = s"
  by (auto simp: decode_encode)

end

section \<open>Hexadecimal\<close>

definition hexDigit :: "nat \<Rightarrow> char" where
  "hexDigit n = (if n < 10 then char_of (48 + n) else char_of (87 + n))"

definition hexValue :: "char \<Rightarrow> nat option" where
  "hexValue c =
    (if in_range 48 57 c then Some (of_char c - 48)
     else if in_range 65 70 c then Some (of_char c - 55)
     else if in_range 97 102 c then Some (of_char c - 87) else None)"

definition toHex :: "bytes \<Rightarrow> string" where
  "toHex data = concat (map (\<lambda>b. [hexDigit (unat b div 16), hexDigit (unat b mod 16)]) data)"

fun fromHex :: "string \<Rightarrow> bytes" where
  "fromHex (c # d # rest) =
    (case (hexValue c, hexValue d) of
       (Some v, Some w) \<Rightarrow> of_nat (16 * v + w) # fromHex rest
     | _ \<Rightarrow> [])"
| "fromHex _ = []"

lemma hexDigit_char: "n < 16 \<Longrightarrow> of_char (hexDigit n) = (if n < 10 then 48 + n else 87 + n)"
  by (simp add: hexDigit_def)

lemma hexValue_hexDigit [simp]: "n < 16 \<Longrightarrow> hexValue (hexDigit n) = Some n"
  by (auto simp: hexValue_def in_range_def hexDigit_char)

lemma is_hex_hexDigit [simp]: "n < 16 \<Longrightarrow> is_hex (hexDigit n)"
  by (auto simp: is_hex_def is_digit_def in_range_def hexDigit_char)

lemma byte_less: "unat (b :: 8 word) < 256"
  using unsigned_less [of b, where ?'a = nat] by simp

lemma byte_of_unat: "of_nat (unat b) = (b :: 8 word)"
  by simp

lemma byte_nibbles [simp]: "unat (b :: 8 word) div 16 < 16" "unat b mod 16 < 16"
  using byte_less [of b] by simp_all

lemma byte_of_nibbles: "of_nat (16 * (unat b div 16) + unat b mod 16) = (b :: 8 word)"
  by (metis mult_div_mod_eq byte_of_unat)

lemma fromHex_toHex: "fromHex (toHex bs) = bs"
  by (induction bs) (simp_all add: toHex_def byte_of_nibbles del: of_nat_add of_nat_mult)

lemma toHex_is_hex: "c \<in> set (toHex bs) \<Longrightarrow> is_hex c"
  by (auto simp: toHex_def)

lemma length_toHex [simp]: "length (toHex bs) = 2 * length bs"
  by (induction bs) (simp_all add: toHex_def)

interpretation hex: text_codec toHex fromHex is_hex
  by unfold_locales (auto intro: toHex_is_hex simp: fromHex_toHex)

section \<open>Base64\<close>

definition BASE64 :: string where
  "BASE64 = ''ABCDEFGHIJKLMNOPQRSTUVWXYZabcdefghijklmnopqrstuvwxyz0123456789+/''"

definition base64Digit :: "nat \<Rightarrow> char" where
  "base64Digit n = BASE64 ! n"

definition base64Value :: "char \<Rightarrow> nat option" where
  "base64Value c =
    (if in_range 65 90 c then Some (of_char c - 65)
     else if in_range 97 122 c then Some (of_char c - 71)
     else if in_range 48 57 c then Some (of_char c + 4)
     else if c \<in> set ''+-'' then Some 62
     else if c \<in> set ''/_'' then Some 63 else None)"

fun base64Encode :: "bytes \<Rightarrow> string" where
  "base64Encode [] = []"
| "base64Encode [a] = [base64Digit (unat a div 4), base64Digit (unat a mod 4 * 16), CHR ''='', CHR ''='']"
| "base64Encode [a, b] =
    [base64Digit (unat a div 4), base64Digit (unat a mod 4 * 16 + unat b div 16),
     base64Digit (unat b mod 16 * 4), CHR ''='']"
| "base64Encode (a # b # c # rest) =
    [base64Digit (unat a div 4), base64Digit (unat a mod 4 * 16 + unat b div 16),
     base64Digit (unat b mod 16 * 4 + unat c div 64), base64Digit (unat c mod 64)] @ base64Encode rest"

text \<open>Bytes from sextets; a single sextet at the end has no byte.\<close>

fun ofSextets :: "nat list \<Rightarrow> bytes" where
  "ofSextets (w # x # y # z # rest) =
    [of_nat (w * 4 + x div 16), of_nat (x mod 16 * 16 + y div 4), of_nat (y mod 4 * 64 + z)] @ ofSextets rest"
| "ofSextets [w, x, y] = [of_nat (w * 4 + x div 16), of_nat (x mod 16 * 16 + y div 4)]"
| "ofSextets [w, x] = [of_nat (w * 4 + x div 16)]"
| "ofSextets _ = []"

definition base64Decode :: "string \<Rightarrow> bytes" where
  "base64Decode value = ofSextets (List.map_filter base64Value (takeWhile (\<lambda>c. c \<noteq> CHR ''='') value))"

lemma base64_table:
  "list_all (\<lambda>n. base64Value (base64Digit n) = Some n \<and> base64Digit n \<noteq> CHR ''='') [0..<64]"
  by code_simp

lemma base64Value_digit [simp]:
  assumes "n < 64"
  shows "base64Value (base64Digit n) = Some n" "base64Digit n \<noteq> CHR ''=''"
  using base64_table assms by (auto simp: list_all_iff)

lemma sextets [simp]:
  fixes a b c :: "8 word"
  shows "unat a div 4 < 64" "unat a mod 4 * 16 + unat b div 16 < 64" "unat b mod 16 * 4 + unat c div 64 < 64"
    "unat c mod 64 < 64" "unat a mod 4 * 16 < 64" "unat b mod 16 * 4 < 64"
proof -
  have "unat a < 256" "unat b < 256" "unat c < 256"
    using byte_less [of a] byte_less [of b] byte_less [of c] by simp_all
  then have "unat a div 4 < 64" "unat b div 16 < 16" "unat c div 64 < 4" by simp_all
  moreover have "unat a mod 4 < 4" "unat b mod 16 < 16" "unat c mod 64 < 64" by simp_all
  ultimately show "unat a div 4 < 64" "unat a mod 4 * 16 + unat b div 16 < 64"
      "unat b mod 16 * 4 + unat c div 64 < 64" "unat c mod 64 < 64" "unat a mod 4 * 16 < 64" "unat b mod 16 * 4 < 64"
    by linarith+
qed

lemma byte_first: "of_nat (unat a div 4 * 4 + (unat a mod 4 * 16 + k) div 16) = (a :: 8 word)" if "k < 16"
proof -
  have "(unat a mod 4 * 16 + k) div 16 = unat a mod 4" using that by simp
  then show ?thesis by (metis div_mult_mod_eq byte_of_unat)
qed

lemma byte_second: "of_nat ((m * 16 + unat b div 16) mod 16 * 16 + (unat b mod 16 * 4 + k) div 4) = (b :: 8 word)"
  if "k < 4"
proof -
  have "(m * 16 + unat b div 16) mod 16 = unat b div 16" by simp
  moreover have "(unat b mod 16 * 4 + k) div 4 = unat b mod 16" using that by simp
  ultimately show ?thesis by (metis div_mult_mod_eq byte_of_unat)
qed

lemma byte_third: "of_nat ((m * 4 + unat c div 64) mod 4 * 64 + unat c mod 64) = (c :: 8 word)"
proof -
  have "unat c div 64 < 4" using byte_less [of c] by simp
  then have "(m * 4 + unat c div 64) mod 4 = unat c div 64" by simp
  then show ?thesis by (metis div_mult_mod_eq byte_of_unat)
qed

lemma base64Decode_encode: "base64Decode (base64Encode bs) = bs"
proof (induction bs rule: base64Encode.induct)
  case 1
  then show ?case by (simp add: base64Decode_def)
next
  case (2 a)
  then show ?case using byte_first [of 0 a]
    by (simp add: base64Decode_def del: of_nat_add of_nat_mult)
next
  case (3 a b)
  show ?case using byte_first [of "unat b div 16" a] byte_second [of 0 "unat a mod 4" b]
    by (simp add: base64Decode_def del: of_nat_add of_nat_mult)
next
  case (4 a b c rest)
  have "unat c div 64 < 4" using byte_less [of c] by simp
  with 4 show ?case
    using byte_first [of "unat b div 16" a] byte_second [of "unat c div 64" "unat a mod 4" b]
      byte_third [of "unat b mod 16" c]
    by (simp add: base64Decode_def del: of_nat_add of_nat_mult)
qed

definition isBase64 :: "char \<Rightarrow> bool" where
  "isBase64 c \<longleftrightarrow> base64Value c \<noteq> None \<or> c = CHR ''=''"

lemma base64Encode_alphabet: "c \<in> set (base64Encode bs) \<Longrightarrow> isBase64 c"
  by (induction bs rule: base64Encode.induct) (auto simp: isBase64_def)

interpretation base64: text_codec base64Encode base64Decode isBase64
  by unfold_locales (auto intro: base64Encode_alphabet simp: base64Decode_encode)

section \<open>UUIDs\<close>

definition UUID_BYTE_SIZE :: nat where
  "UUID_BYTE_SIZE = 16"

definition getBytesSubarray :: "bytes \<Rightarrow> nat \<Rightarrow> nat \<Rightarrow> bytes" where
  "getBytesSubarray data start n = take n (drop start data)"

definition formatUuid :: "string \<Rightarrow> string" where
  "formatUuid hex =
    take 8 hex @ ''-'' @ take 4 (drop 8 hex) @ ''-'' @ take 4 (drop 12 hex) @ ''-'' @
    take 4 (drop 16 hex) @ ''-'' @ drop 20 hex"

definition NIL_UUID :: string where
  "NIL_UUID = ''00000000-0000-0000-0000-000000000000''"

definition splitUuids :: "bytes \<Rightarrow> string option list" where
  "splitUuids buffer =
    map (\<lambda>i. let uuid = formatUuid (toHex (getBytesSubarray buffer (i * UUID_BYTE_SIZE) UUID_BYTE_SIZE))
             in if uuid \<noteq> NIL_UUID then Some uuid else None)
      [0..<(length buffer + UUID_BYTE_SIZE - 1) div UUID_BYTE_SIZE]"

definition bytesToUuid :: "bytes \<Rightarrow> string option" where
  "bytesToUuid data =
    (if length data \<noteq> UUID_BYTE_SIZE then None
     else let uuids = splitUuids data
          in if length uuids = 1 then
               (case uuids ! 0 of None \<Rightarrow> None | Some uuid \<Rightarrow> if uuid = '''' then None else Some uuid)
             else None)"

text \<open>
  \<open>parseInt(text, 16)\<close> of one or two characters: leading white space and a sign are skipped, \<open>0x\<close> is a
  prefix, the digits end at the first character that is none. A byte array holds the number modulo 256,
  and 0 for NaN.
\<close>

fun hexPrefix :: "nat \<Rightarrow> string \<Rightarrow> nat" where
  "hexPrefix n [] = n"
| "hexPrefix n (c # cs) = (case hexValue c of None \<Rightarrow> n | Some v \<Rightarrow> hexPrefix (16 * n + v) cs)"

definition parseHexByte :: "string \<Rightarrow> 8 word" where
  "parseHexByte text =
    (let s = dropWhile is_js_space text
     in case s of
          [] \<Rightarrow> 0
        | c # cs \<Rightarrow>
            if c = CHR ''-'' then - of_nat (hexPrefix 0 cs)
            else of_nat (hexPrefix 0 (if c = CHR ''+'' then cs else s)))"

fun chunk2 :: "string \<Rightarrow> string list" where
  "chunk2 (c # d # rest) = [c, d] # chunk2 rest"
| "chunk2 [c] = [[c]]"
| "chunk2 [] = []"

definition uuidToBytes :: "string \<Rightarrow> bytes" where
  "uuidToBytes uuid =
    (if length uuid \<noteq> 36 then [] else map parseHexByte (chunk2 (filter (\<lambda>c. c \<noteq> CHR ''-'') uuid)))"

lemma is_hex_plain: "is_hex c \<Longrightarrow> \<not> is_js_space c \<and> c \<noteq> CHR ''-'' \<and> c \<noteq> CHR ''+''"
  by (auto simp: is_hex_def is_digit_def in_range_def is_js_space_def)

lemma parseHexByte_digits [simp]:
  assumes "m < 16" and "n < 16"
  shows "parseHexByte [hexDigit m, hexDigit n] = of_nat (16 * m + n)"
  using assms is_hex_plain [OF is_hex_hexDigit [OF assms(1)]] by (simp add: parseHexByte_def)

lemma parse_chunks: "map parseHexByte (chunk2 (toHex bs)) = bs"
  by (induction bs) (simp_all add: toHex_def byte_of_nibbles del: of_nat_add of_nat_mult)

lemma filter_formatUuid: "filter (\<lambda>c. c \<noteq> CHR ''-'') (formatUuid h) = filter (\<lambda>c. c \<noteq> CHR ''-'') h"
proof -
  have cut: "take m (drop n h) @ drop (n + m) h = drop n h" for m n
    using append_take_drop_id [of m "drop n h"] by (simp add: add.commute)
  have "take 8 h @ take 4 (drop 8 h) @ take 4 (drop 12 h) @ take 4 (drop 16 h) @ drop 20 h = h"
    using cut [of 4 16] cut [of 4 12] cut [of 4 8] by simp
  then have "filter (\<lambda>c. c \<noteq> CHR ''-'') h = filter (\<lambda>c. c \<noteq> CHR ''-'')
      (take 8 h @ take 4 (drop 8 h) @ take 4 (drop 12 h) @ take 4 (drop 16 h) @ drop 20 h)"
    by (simp only:)
  then show ?thesis by (simp add: formatUuid_def)
qed

lemma uuidToBytes_format: "length bs = 16 \<Longrightarrow> uuidToBytes (formatUuid (toHex bs)) = bs"
proof -
  assume bs: "length bs = 16"
  have "\<not> is_hex CHR ''-''" by code_simp
  then have "filter (\<lambda>c. c \<noteq> CHR ''-'') (formatUuid (toHex bs)) = toHex bs"
    unfolding filter_formatUuid by (rule hex.filter_encode)
  then show ?thesis using bs by (simp add: uuidToBytes_def formatUuid_def parse_chunks)
qed

lemma bytesToUuid_eq:
  "bytesToUuid bs = (if length bs = 16 \<and> formatUuid (toHex bs) \<noteq> NIL_UUID then Some (formatUuid (toHex bs)) else None)"
  by (auto simp: bytesToUuid_def splitUuids_def UUID_BYTE_SIZE_def getBytesSubarray_def formatUuid_def Let_def)

text \<open>The bytes of a printed UUID are the bytes it was printed from.\<close>

lemma uuidToBytes_bytesToUuid: "bytesToUuid bs = Some uuid \<Longrightarrow> uuidToBytes uuid = bs"
  by (auto simp: bytesToUuid_eq uuidToBytes_format split: if_splits)

end
