(* ===== verification/Call_Status.thy ===== *)
theory Call_Status
  imports Bytes_Codec
begin

text \<open>
  The history of calls, first part: the data of ts/types/CallDisposition.std.ts and the pure half of
  ts/util/callDisposition.preload.ts. What a call event does to the status of a call
  (\<open>transitionDirectCallStatus\<close>, \<open>transitionGroupCallStatus\<close>, \<open>transitionAdhocCallStatus\<close>), to its
  timestamp and to its record (\<open>transitionCallHistory\<close>), and how local events come from the states of a
  call. The enumerations \<open>DirectCallStatus\<close>, \<open>GroupCallStatus\<close> and \<open>AdhocCallStatus\<close> are
  subsets of the strings of \<open>CallStatusValue\<close>: one datatype here, with a predicate for each subset.

  The era ids of RingRTC are hashed by RingRTC: \<open>callIdFromEra\<close> is an argument.
\<close>

section \<open>Data\<close>

datatype CallMode = ModeDirect | ModeGroup | ModeAdhoc

datatype CallType = CallAudio | CallVideo | CallGroup | CallAdhoc | CallTypeUnknown

datatype CallDirection = Incoming | Outgoing | DirectionUnknown

datatype CallEvent =
    LocalStarted | LocalRinging | LocalAccepted | LocalDeclined | LocalHangup | LocalRemoteHangup
  | LocalMissed | LocalDelete
  | RemoteAccepted | RemoteNotAccepted | RemoteDelete | RemoteObserved

datatype CallStatus =
    Pending | Accepted | Missed | MissedNotificationProfile | Declined | Deleted | GenericGroupCall
  | GenericAdhocCall | OutgoingRing | Ringing | Joined | JoinedAdhoc | StatusUnknown

definition isDirectCallStatus :: "CallStatus \<Rightarrow> bool" where
  "isDirectCallStatus s \<longleftrightarrow>
    s \<in> {Pending, Accepted, Missed, MissedNotificationProfile, Declined, Deleted, StatusUnknown}"

definition isGroupCallStatus :: "CallStatus \<Rightarrow> bool" where
  "isGroupCallStatus s \<longleftrightarrow>
    s \<in> {GenericGroupCall, OutgoingRing, Ringing, Joined, Accepted, Missed, MissedNotificationProfile, Declined, Deleted}"

definition isAdhocCallStatus :: "CallStatus \<Rightarrow> bool" where
  "isAdhocCallStatus s \<longleftrightarrow> s \<in> {GenericAdhocCall, Pending, JoinedAdhoc, Deleted, StatusUnknown}"

primrec statusOfMode :: "CallMode \<Rightarrow> CallStatus \<Rightarrow> bool" where
  "statusOfMode ModeDirect = isDirectCallStatus"
| "statusOfMode ModeGroup = isGroupCallStatus"
| "statusOfMode ModeAdhoc = isAdhocCallStatus"

record CallDetails =
  cd_callId :: string
  cd_peerId :: string
  cd_ringerId :: "string option"
  cd_startedById :: "string option"
  cd_mode :: CallMode
  cd_type :: CallType
  cd_direction :: CallDirection
  cd_timestamp :: int
  cd_endedTimestamp :: "int option"

record CallEventDetails = CallDetails +
  ce_event :: CallEvent
  ce_eventSource :: string
  ce_eventTimestamp :: int

record CallHistoryDetails = CallDetails +
  ch_status :: CallStatus

text \<open>
  The zod schemas: of the fields of a call only \<open>startedById\<close> has values of its type that the schema
  refuses. \<open>SchemaParseError\<close> is a \<open>TypeError\<close>.
\<close>

definition callDetailsSchema :: "'a CallDetails_scheme \<Rightarrow> bool" where
  "callDetailsSchema d \<longleftrightarrow> cd_startedById d = None \<or> isAciString (cd_startedById d)"

definition parseStrict :: "('a \<Rightarrow> bool) \<Rightarrow> 'a \<Rightarrow> 'a js" where
  "parseStrict schema input =
    (if schema input then Inr input else throw ''zod: issues found when parsing with schema:'')"

primrec callEventValue :: "CallEvent \<Rightarrow> string" where
  "callEventValue LocalStarted = ''LocalStarted''"
| "callEventValue LocalRinging = ''LocalRinging''"
| "callEventValue LocalAccepted = ''LocalAccepted''"
| "callEventValue LocalDeclined = ''LocalDeclined''"
| "callEventValue LocalHangup = ''LocalHangup''"
| "callEventValue LocalRemoteHangup = ''LocalRemoteHangup''"
| "callEventValue LocalMissed = ''LocalMissed''"
| "callEventValue LocalDelete = ''LocalDelete''"
| "callEventValue RemoteAccepted = ''Accepted''"
| "callEventValue RemoteNotAccepted = ''NotAccepted''"
| "callEventValue RemoteDelete = ''Delete''"
| "callEventValue RemoteObserved = ''Observed''"

section \<open>Transitions of the status\<close>

definition transitionDirectCallStatus :: "CallStatus option \<Rightarrow> CallEvent \<Rightarrow> CallDirection \<Rightarrow> CallStatus js" where
  "transitionDirectCallStatus status callEvent direction =
    (if callEvent = RemoteDelete \<or> callEvent = LocalDelete \<or> status = Some Deleted then Inr Deleted
     else if callEvent = RemoteAccepted \<or> callEvent = LocalAccepted then Inr Accepted
     else if status = Some Accepted then Inr Accepted
     else if callEvent = RemoteNotAccepted then (if status = Some Declined then Inr Declined else Inr Missed)
     else if callEvent = RemoteObserved then
       throw (''callHistoryDetails: Direct calls shouldn't send '' @ callEventValue callEvent)
     else if callEvent = LocalMissed then Inr Missed
     else if callEvent = LocalDeclined then Inr Declined
     else if callEvent = LocalHangup then (if direction = Incoming then Inr Declined else Inr Missed)
     else if callEvent = LocalRemoteHangup then (if direction = Incoming then Inr Missed else Inr Declined)
     else if callEvent = LocalStarted \<or> callEvent = LocalRinging then Inr Pending
     else throw ''Unhandled case'')"

definition transitionGroupCallStatus :: "CallStatus option \<Rightarrow> CallEvent \<Rightarrow> CallDirection \<Rightarrow> CallStatus js" where
  "transitionGroupCallStatus status event direction =
    (if event = RemoteDelete \<or> event = LocalDelete \<or> status = Some Deleted then Inr Deleted
     else if status = Some Accepted then Inr Accepted
     else if event = RemoteNotAccepted \<or> event = RemoteObserved then
       throw (''callHistoryDetails: Group calls shouldn't send '' @ callEventValue event)
     else if event = RemoteAccepted \<or> event = LocalAccepted then
       (case status of
          None \<Rightarrow> Inr Joined
        | Some Ringing \<Rightarrow> Inr Accepted
        | Some Missed \<Rightarrow> Inr Accepted
        | Some MissedNotificationProfile \<Rightarrow> Inr Accepted
        | Some Declined \<Rightarrow> Inr Accepted
        | Some GenericGroupCall \<Rightarrow> Inr Joined
        | Some Joined \<Rightarrow> Inr Joined
        | Some OutgoingRing \<Rightarrow> Inr OutgoingRing
        | Some _ \<Rightarrow> throw ''Unhandled case'')
     else if event = LocalStarted then Inr GenericGroupCall
     else if event = LocalRinging then Inr Ringing
     else if event = LocalMissed then Inr Missed
     else if event = LocalDeclined then Inr Declined
     else if event = LocalHangup then (if direction = Incoming then Inr Declined else Inr Missed)
     else if event = LocalRemoteHangup then (if direction = Incoming then Inr Missed else Inr Declined)
     else throw ''Unhandled case'')"

definition transitionAdhocCallStatus :: "CallStatus option \<Rightarrow> CallEvent \<Rightarrow> CallDirection \<Rightarrow> CallStatus js" where
  "transitionAdhocCallStatus status callEvent direction =
    (if callEvent = RemoteDelete \<or> callEvent = LocalDelete \<or> status = Some Deleted then Inr Deleted
     else if callEvent = RemoteAccepted \<or> callEvent = LocalAccepted then Inr JoinedAdhoc
     else if status = Some JoinedAdhoc then Inr JoinedAdhoc
     else if callEvent = RemoteObserved \<or> callEvent = LocalStarted then Inr GenericAdhocCall
     else if callEvent = RemoteNotAccepted \<or> callEvent = LocalMissed \<or> callEvent = LocalDeclined \<or>
       callEvent = LocalHangup \<or> callEvent = LocalRemoteHangup \<or> callEvent = LocalRinging then Inr Pending
     else throw ''Unhandled case'')"

definition transitionTimestamp :: "CallHistoryDetails option \<Rightarrow> CallEventDetails \<Rightarrow> int js" where
  "transitionTimestamp callHistory callEvent =
    (case callHistory of
       None \<Rightarrow> Inr (cd_timestamp callEvent)
     | Some ch \<Rightarrow>
         let latestTimestamp = max (cd_timestamp callEvent) (cd_timestamp ch);
             status = ch_status ch
         in if status = Deleted then Inr (cd_timestamp ch)
            else if status \<in> {Accepted, Joined, JoinedAdhoc} then
              (if ce_event callEvent = RemoteAccepted then Inr latestTimestamp else Inr (cd_timestamp ch))
            else if status = GenericAdhocCall then
              (if ce_event callEvent = RemoteObserved then Inr latestTimestamp else Inr (cd_timestamp ch))
            else if status = Declined then
              (if ce_event callEvent = RemoteNotAccepted then Inr latestTimestamp else Inr (cd_timestamp ch))
            else if status \<in> {Pending, StatusUnknown, GenericGroupCall, OutgoingRing, Ringing, Missed,
              MissedNotificationProfile} then Inr latestTimestamp
            else throw ''Unhandled case'')"

primrec transitionStatus :: "CallMode \<Rightarrow> CallStatus option \<Rightarrow> CallEvent \<Rightarrow> CallDirection \<Rightarrow> CallStatus js" where
  "transitionStatus ModeDirect = transitionDirectCallStatus"
| "transitionStatus ModeGroup = transitionGroupCallStatus"
| "transitionStatus ModeAdhoc = transitionAdhocCallStatus"

text \<open>The assertions of \<open>transitionCallHistory\<close>: the event must be about the call of the record.\<close>

definition assertSameCall :: "CallHistoryDetails option \<Rightarrow> CallEventDetails \<Rightarrow> unit js" where
  "assertSameCall callHistory e =
    (case callHistory of
       None \<Rightarrow> Inr ()
     | Some ch \<Rightarrow>
         bindE (strictAssert (cd_callId ch = cd_callId e) ''callId must be same'') (\<lambda>_.
         bindE (strictAssert (cd_peerId ch = cd_peerId e) ''peerId must be same'') (\<lambda>_.
         bindE (strictAssert (cd_ringerId e = None \<or> cd_ringerId ch = None \<or> cd_ringerId ch = cd_ringerId e)
           ''ringerId must be same if it exists'') (\<lambda>_.
         bindE (strictAssert (cd_startedById e = None \<or> cd_startedById ch = None \<or> cd_startedById ch = cd_startedById e)
           ''startedById must be same if it exists'') (\<lambda>_.
         bindE (strictAssert (cd_direction ch = cd_direction e) ''direction must be same'') (\<lambda>_.
         bindE (strictAssert (cd_type ch = cd_type e) ''type must be same'') (\<lambda>_.
         strictAssert (cd_mode ch = cd_mode e) ''mode must be same'')))))))"

text \<open>\<open>callHistory?.status ?? null\<close>.\<close>

definition statusOf :: "CallHistoryDetails option \<Rightarrow> CallStatus option" where
  "statusOf callHistory = (case callHistory of None \<Rightarrow> None | Some ch \<Rightarrow> Some (ch_status ch))"

lemma statusOf_simps [simp]: "statusOf None = None" "statusOf (Some ch) = Some (ch_status ch)"
  by (simp_all add: statusOf_def)

definition transitionCallHistory :: "CallHistoryDetails option \<Rightarrow> CallEventDetails \<Rightarrow> CallHistoryDetails js" where
  "transitionCallHistory callHistory e =
    bindE (assertSameCall callHistory e) (\<lambda>_.
    let prevStatus = statusOf callHistory
    in bindE (transitionStatus (cd_mode e) prevStatus (ce_event e) (cd_direction e)) (\<lambda>status.
       bindE (transitionTimestamp callHistory e) (\<lambda>timestamp.
       parseStrict callDetailsSchema
         \<lparr>cd_callId = cd_callId e, cd_peerId = cd_peerId e, cd_ringerId = cd_ringerId e,
          cd_startedById = cd_startedById e, cd_mode = cd_mode e, cd_type = cd_type e,
          cd_direction = cd_direction e, cd_timestamp = timestamp, cd_endedTimestamp = None,
          ch_status = status\<rparr>)))"

section \<open>Local events\<close>

datatype RtcCallState = RtcPrering | RtcRinging | RtcAccepted | RtcReconnecting | RtcEnded

datatype CallEndedReason =
    ReasonLocalHangup | ReasonRemoteHangup | ReasonRemoteHangupNeedPermission | ReasonDeclined | ReasonBusy
  | ReasonGlare | ReasonReCall | ReasonReceivedOfferExpired | ReasonReceivedOfferWhileActive
  | ReasonReceivedOfferWithGlare | ReasonSignalingFailure | ReasonGlareFailure | ReasonConnectionFailure
  | ReasonInternalFailure | ReasonTimeout | ReasonAcceptedOnAnotherDevice | ReasonDeclinedOnAnotherDevice
  | ReasonBusyOnAnotherDevice | ReasonUnexpectedReason

definition endedReasonToEvent :: "CallEndedReason \<Rightarrow> CallEvent" where
  "endedReasonToEvent reason =
    (case reason of
       ReasonAcceptedOnAnotherDevice \<Rightarrow> LocalAccepted
     | ReasonRemoteHangup \<Rightarrow> LocalRemoteHangup
     | ReasonLocalHangup \<Rightarrow> LocalHangup
     | _ \<Rightarrow> LocalMissed)"

definition getLocalCallEventFromDirectCall :: "RtcCallState \<Rightarrow> CallEndedReason option \<Rightarrow> CallEvent option js" where
  "getLocalCallEventFromDirectCall state callEndedReason =
    (if state = RtcAccepted then Inr (Some LocalAccepted)
     else if state = RtcEnded then
       bindE (strictAssertSome callEndedReason ''Call ended without reason'') (\<lambda>reason.
       Inr (Some (endedReasonToEvent reason)))
     else if state = RtcRinging then Inr (Some LocalRinging)
     else if state = RtcPrering then Inr None
     else if state = RtcReconnecting then Inr None
     else throw ''Unhandled case'')"

datatype RingUpdate =
    RingRequested | RingExpiredRequest | RingAcceptedOnAnotherDevice | RingDeclinedOnAnotherDevice
  | RingBusyLocally | RingBusyOnAnotherDevice | RingCancelledByRinger

definition ringUpdateToEvent :: "RingUpdate \<Rightarrow> CallEvent" where
  "ringUpdateToEvent update =
    (case update of
       RingAcceptedOnAnotherDevice \<Rightarrow> LocalAccepted
     | RingRequested \<Rightarrow> LocalRinging
     | _ \<Rightarrow> LocalMissed)"

datatype GroupCallJoinState = NotJoined | Joining | JoinPending | JoinJoined

record GroupCallMeta =
  gc_callId :: string
  gc_ringerId :: string

definition getCallDirectionFromRingerId :: "env \<Rightarrow> string \<Rightarrow> CallDirection js" where
  "getCallDirectionFromRingerId E ringerId =
    bindE (strictAssertSome (getConversation E ringerId)
      (''getCallDirectionFromRingerId: Missing ringer conversation ('' @ ringerId @ '')'')) (\<lambda>ringerConversation.
    Inr (if isMe E ringerConversation then Outgoing else Incoming))"

definition getLocalCallEventFromJoinState ::
    "env \<Rightarrow> GroupCallJoinState option \<Rightarrow> GroupCallMeta \<Rightarrow> CallEvent option js" where
  "getLocalCallEventFromJoinState E joinState groupCallMeta =
    bindE (getCallDirectionFromRingerId E (gc_ringerId groupCallMeta)) (\<lambda>direction.
    if direction = Incoming then
      (if joinState = Some JoinJoined then Inr (Some LocalAccepted)
       else if joinState = Some NotJoined \<or> joinState = None then Inr (Some LocalStarted)
       else if joinState = Some Joining \<or> joinState = Some JoinPending then Inr (Some LocalAccepted)
       else throw ''Unhandled case'')
    else if joinState = Some NotJoined \<or> joinState = None then Inr (Some LocalStarted)
    else Inr (Some LocalRinging))"

text \<open>The fields of RingRTC's \<open>Call\<close> and \<open>PeekInfo\<close> that are read.\<close>

record RtcCall =
  rtc_callId :: string
  rtc_remoteUserId :: string
  rtc_isIncoming :: bool
  rtc_isVideoCall :: bool

definition getCallDetailsFromDirectCall :: "string \<Rightarrow> RtcCall \<Rightarrow> int \<Rightarrow> CallDetails js" where
  "getCallDetailsFromDirectCall peerId call eventTimestamp =
    (let ringerId = (if rtc_isIncoming call then Some (rtc_remoteUserId call) else None)
     in parseStrict callDetailsSchema
          \<lparr>cd_callId = rtc_callId call, cd_peerId = peerId, cd_ringerId = ringerId, cd_startedById = ringerId,
           cd_mode = ModeDirect, cd_type = (if rtc_isVideoCall call then CallVideo else CallAudio),
           cd_direction = (if rtc_isIncoming call then Incoming else Outgoing),
           cd_timestamp = eventTimestamp, cd_endedTimestamp = None\<rparr>)"

definition getCallDetailsFromEndedDirectCall ::
    "env \<Rightarrow> string \<Rightarrow> string \<Rightarrow> string \<Rightarrow> bool \<Rightarrow> int \<Rightarrow> CallDetails js" where
  "getCallDetailsFromEndedDirectCall E callId peerId ringerId wasVideoCall eventTimestamp =
    bindE (getCallDirectionFromRingerId E ringerId) (\<lambda>direction.
    parseStrict callDetailsSchema
      \<lparr>cd_callId = callId, cd_peerId = peerId, cd_ringerId = Some ringerId, cd_startedById = Some ringerId,
       cd_mode = ModeDirect, cd_type = (if wasVideoCall then CallVideo else CallAudio),
       cd_direction = direction, cd_timestamp = eventTimestamp, cd_endedTimestamp = None\<rparr>)"

definition getCallDetailsFromGroupCallMeta :: "env \<Rightarrow> string \<Rightarrow> GroupCallMeta \<Rightarrow> int \<Rightarrow> CallDetails js" where
  "getCallDetailsFromGroupCallMeta E peerId groupCallMeta eventTimestamp =
    bindE (getCallDirectionFromRingerId E (gc_ringerId groupCallMeta)) (\<lambda>direction.
    parseStrict callDetailsSchema
      \<lparr>cd_callId = gc_callId groupCallMeta, cd_peerId = peerId, cd_ringerId = Some (gc_ringerId groupCallMeta),
       cd_startedById = Some (gc_ringerId groupCallMeta), cd_mode = ModeGroup, cd_type = CallGroup,
       cd_direction = direction, cd_timestamp = eventTimestamp, cd_endedTimestamp = None\<rparr>)"

definition getCallDetailsForAdhocCall :: "string \<Rightarrow> string \<Rightarrow> int \<Rightarrow> CallDetails js" where
  "getCallDetailsForAdhocCall peerId callId eventTimestamp =
    parseStrict callDetailsSchema
      \<lparr>cd_callId = callId, cd_peerId = peerId, cd_ringerId = None, cd_startedById = None,
       cd_mode = ModeAdhoc, cd_type = CallAdhoc, cd_direction = Incoming,
       cd_timestamp = eventTimestamp, cd_endedTimestamp = None\<rparr>"

definition getCallEventDetails :: "CallDetails \<Rightarrow> CallEvent \<Rightarrow> string \<Rightarrow> int \<Rightarrow> CallEventDetails js" where
  "getCallEventDetails callDetails event eventSource eventTimestamp =
    parseStrict callDetailsSchema (CallDetails.extend callDetails
      (CallEventDetails.fields event eventSource eventTimestamp))"

text \<open>\<open>callIdFromEra\<close> is RingRTC's.\<close>

definition getGroupCallMeta ::
    "(string \<Rightarrow> string) \<Rightarrow> (string option \<times> bytes option) option \<Rightarrow> GroupCallMeta option js" where
  "getGroupCallMeta callIdFromEra peekInfo =
    (case peekInfo of
       Some (Some eraId, Some creatorBytes) \<Rightarrow>
         bindE (strictAssertSome (bytesToUuid creatorBytes) ''peekInfo.creator was invalid uuid'') (\<lambda>ringerId.
         bindE (strictAssert (isAciString (Some ringerId)) ''peekInfo.creator was invalid aci'') (\<lambda>_.
         Inr (Some \<lparr>gc_callId = callIdFromEra eraId, gc_ringerId = ringerId\<rparr>)))
     | _ \<Rightarrow> Inr None)"

definition getPeerIdFromConversation :: "ConversationAttributesType \<Rightarrow> string js" where
  "getPeerIdFromConversation conversation =
    (if c_type conversation = ''direct'' \<or> c_type conversation = ''private'' then
       bindE (strictAssert (isAciString (c_serviceId conversation)) ''ACI must exist for direct chat'') (\<lambda>_.
       Inr (the (c_serviceId conversation)))
     else strictAssertSome (c_groupId conversation) ''groupId must exist for group chat'')"

text \<open>The groups of the call tab.\<close>

record CallHistoryGroup =
  chg_peerId :: string
  chg_mode :: CallMode
  chg_type :: CallType
  chg_direction :: CallDirection
  chg_status :: CallStatus
  chg_timestamp :: int
  chg_children :: "(string \<times> int) list"

definition isSameCallHistoryGroup :: "CallHistoryGroup \<Rightarrow> CallHistoryGroup \<Rightarrow> bool" where
  "isSameCallHistoryGroup a b \<longleftrightarrow>
    chg_peerId a = chg_peerId b \<and> chg_timestamp a = chg_timestamp b \<and> chg_mode a = chg_mode b \<and>
    chg_type a = chg_type b \<and> chg_direction a = chg_direction b \<and> chg_status a = chg_status b"

section \<open>Sequences of events\<close>

text \<open>
  The handlers keep the record they have when the transition throws (see \<open>Call_History\<close>): \<open>deliver\<close> is
  what an event does to the record of its call.
\<close>

definition deliver :: "CallEventDetails \<Rightarrow> CallHistoryDetails option \<Rightarrow> CallHistoryDetails option" where
  "deliver e callHistory =
    (case transitionCallHistory callHistory e of Inl _ \<Rightarrow> callHistory | Inr ch \<Rightarrow> Some ch)"

abbreviation isDelete :: "CallEventDetails \<Rightarrow> bool" where
  "isDelete e \<equiv> ce_event e \<in> {RemoteDelete, LocalDelete}"

abbreviation isAccept :: "CallEventDetails \<Rightarrow> bool" where
  "isAccept e \<equiv> ce_event e \<in> {RemoteAccepted, LocalAccepted}"

text \<open>Events about one call: the fields the assertions compare.\<close>

definition aboutCall :: "CallDetails \<Rightarrow> CallEventDetails \<Rightarrow> bool" where
  "aboutCall d e \<longleftrightarrow>
    cd_callId e = cd_callId d \<and> cd_peerId e = cd_peerId d \<and> cd_ringerId e \<in> {None, cd_ringerId d} \<and>
    cd_startedById e \<in> {None, cd_startedById d} \<and> cd_mode e = cd_mode d \<and> cd_type e = cd_type d \<and>
    cd_direction e = cd_direction d \<and> callDetailsSchema e"

definition recordOf :: "CallDetails \<Rightarrow> CallHistoryDetails \<Rightarrow> bool" where
  "recordOf d ch \<longleftrightarrow>
    cd_callId ch = cd_callId d \<and> cd_peerId ch = cd_peerId d \<and> cd_ringerId ch \<in> {None, cd_ringerId d} \<and>
    cd_startedById ch \<in> {None, cd_startedById d} \<and> cd_mode ch = cd_mode d \<and> cd_type ch = cd_type d \<and>
    cd_direction ch = cd_direction d \<and> statusOfMode (cd_mode d) (ch_status ch)"

definition acceptedStatus :: "CallMode \<Rightarrow> CallStatus" where
  "acceptedStatus mode = (if mode = ModeAdhoc then JoinedAdhoc else Accepted)"

lemmas status_defs = isDirectCallStatus_def isGroupCallStatus_def isAdhocCallStatus_def
lemmas transition_defs = transitionDirectCallStatus_def transitionGroupCallStatus_def transitionAdhocCallStatus_def

lemma assertSameCall_recordOf:
  assumes "aboutCall d e" and "\<And>ch. h = Some ch \<Longrightarrow> recordOf d ch"
  shows "assertSameCall h e = Inr ()"
  using assms by (cases h) (auto simp: assertSameCall_def aboutCall_def recordOf_def)

lemma transitionStatus_typed:
  "transitionStatus m st ev dir = Inr s \<Longrightarrow> statusOfMode m s"
  by (cases m) (auto simp: transition_defs status_defs split: if_splits option.splits CallStatus.splits)

lemma transitionStatus_handled:
  assumes "pred_option (statusOfMode m) st" and err: "transitionStatus m st ev dir = Inl err"
  shows "err_message err \<noteq> ''Unhandled case''"
proof (cases m)
  case ModeDirect
  with err show ?thesis by (cases ev) (auto simp: transitionDirectCallStatus_def split: if_splits)
next
  case ModeGroup
  with assms show ?thesis
    by (cases ev)
      (auto simp: transitionGroupCallStatus_def status_defs split: option.splits CallStatus.splits if_splits)
next
  case ModeAdhoc
  with err show ?thesis by (cases ev) (auto simp: transitionAdhocCallStatus_def split: if_splits)
qed

lemma transitionTimestamp_total:
  assumes "pred_option (\<lambda>ch. statusOfMode m (ch_status ch)) h"
  shows "\<exists>t. transitionTimestamp h e = Inr t"
proof (cases h)
  case (Some ch)
  with assms show ?thesis
    by (cases m; cases "ch_status ch") (auto simp: transitionTimestamp_def Let_def status_defs)
qed (simp add: transitionTimestamp_def)

lemma transitionTimestamp_bounds:
  assumes "transitionTimestamp (Some ch) e = Inr t"
  shows "cd_timestamp ch \<le> t \<and> t \<in> {cd_timestamp ch, cd_timestamp e} \<and>
    (ch_status ch = Deleted \<longrightarrow> t = cd_timestamp ch)"
  using assms by (auto simp: transitionTimestamp_def Let_def split: if_splits)

lemma transitionCallHistory_eq_Inr:
  "transitionCallHistory h e = Inr r \<longleftrightarrow>
    assertSameCall h e = Inr () \<and> callDetailsSchema e \<and>
    (\<exists>s t. transitionStatus (cd_mode e) (statusOf h) (ce_event e) (cd_direction e) = Inr s \<and>
      transitionTimestamp h e = Inr t \<and>
      r = \<lparr>cd_callId = cd_callId e, cd_peerId = cd_peerId e, cd_ringerId = cd_ringerId e,
          cd_startedById = cd_startedById e, cd_mode = cd_mode e, cd_type = cd_type e,
          cd_direction = cd_direction e, cd_timestamp = t, cd_endedTimestamp = None, ch_status = s\<rparr>)"
  by (auto simp: transitionCallHistory_def parseStrict_def callDetailsSchema_def bindE_eq_Inr Let_def
      split: if_splits)

lemma deliver_status:
  assumes about: "aboutCall d e" and rec: "\<And>ch. h = Some ch \<Longrightarrow> recordOf d ch"
  shows "statusOf (deliver e h) =
      (case transitionStatus (cd_mode d) (statusOf h) (ce_event e) (cd_direction d) of
         Inl _ \<Rightarrow> statusOf h | Inr s \<Rightarrow> Some s)"
proof -
  have pre: "pred_option (\<lambda>ch. statusOfMode (cd_mode d) (ch_status ch)) h"
    using rec by (cases h) (simp_all add: recordOf_def)
  obtain t where t: "transitionTimestamp h e = Inr t"
    using transitionTimestamp_total [OF pre] by blast
  have "assertSameCall h e = Inr ()" using assertSameCall_recordOf [OF about rec] by blast
  moreover have "cd_mode e = cd_mode d" "cd_direction e = cd_direction d" "callDetailsSchema e"
    using about by (simp_all add: aboutCall_def)
  ultimately show ?thesis
    by (simp add: deliver_def transitionCallHistory_def t parseStrict_def callDetailsSchema_def bindE_def
        split: sum.splits)
qed

lemma deliver_recordOf:
  assumes "aboutCall d e" and "\<And>ch. h = Some ch \<Longrightarrow> recordOf d ch" and "deliver e h = Some ch'"
  shows "recordOf d ch'"
proof (cases "transitionCallHistory h e")
  case (Inl a)
  with assms show ?thesis by (simp add: deliver_def)
next
  case (Inr r)
  then have "ch' = r" using assms(3) by (simp add: deliver_def)
  with Inr assms(1) show ?thesis
    by (auto simp: transitionCallHistory_eq_Inr recordOf_def aboutCall_def dest: transitionStatus_typed)
qed

lemma statusStep_deleted:
  "(case transitionStatus m st ev dir of Inl _ \<Rightarrow> st | Inr s \<Rightarrow> Some s) = Some Deleted \<longleftrightarrow>
    ev \<in> {RemoteDelete, LocalDelete} \<or> st = Some Deleted"
  by (cases m; cases ev) (auto simp: transition_defs split: option.splits CallStatus.splits)

lemma statusStep_accepted:
  assumes "m \<noteq> ModeGroup"
  shows "(case transitionStatus m st ev dir of Inl _ \<Rightarrow> st | Inr s \<Rightarrow> Some s) = Some (acceptedStatus m) \<longleftrightarrow>
    ev \<notin> {RemoteDelete, LocalDelete} \<and> st \<noteq> Some Deleted \<and>
    (ev \<in> {RemoteAccepted, LocalAccepted} \<or> st = Some (acceptedStatus m))"
  using assms
  by (cases m; cases ev) (auto simp: transition_defs acceptedStatus_def split: option.splits CallStatus.splits)

lemma fold_deliver_deleted:
  assumes "list_all (aboutCall d) es" and "\<And>ch. h = Some ch \<Longrightarrow> recordOf d ch"
  shows "statusOf (fold deliver es h) = Some Deleted \<longleftrightarrow> list_ex isDelete es \<or> statusOf h = Some Deleted"
  using assms
proof (induction es arbitrary: h)
  case (Cons e es)
  then have e: "aboutCall d e" and es: "list_all (aboutCall d) es" by simp_all
  have "statusOf (fold deliver es (deliver e h)) = Some Deleted \<longleftrightarrow>
      list_ex isDelete es \<or> statusOf (deliver e h) = Some Deleted"
    using deliver_recordOf [OF e Cons.prems(2)] by (intro Cons.IH [OF es]) blast
  then show ?case
    by (simp add: deliver_status [OF e Cons.prems(2)] statusStep_deleted) blast
qed simp

lemma fold_deliver_accepted:
  assumes mode: "cd_mode d \<noteq> ModeGroup"
    and "list_all (aboutCall d) es" and "\<And>ch. h = Some ch \<Longrightarrow> recordOf d ch"
  shows "statusOf (fold deliver es h) = Some (acceptedStatus (cd_mode d)) \<longleftrightarrow>
    \<not> list_ex isDelete es \<and> statusOf h \<noteq> Some Deleted \<and>
    (list_ex isAccept es \<or> statusOf h = Some (acceptedStatus (cd_mode d)))"
  using assms(2,3)
proof (induction es arbitrary: h)
  case Nil
  then show ?case by (auto simp: acceptedStatus_def)
next
  case (Cons e es)
  then have e: "aboutCall d e" and es: "list_all (aboutCall d) es" by simp_all
  have "statusOf (fold deliver es (deliver e h)) = Some (acceptedStatus (cd_mode d)) \<longleftrightarrow>
      \<not> list_ex isDelete es \<and> statusOf (deliver e h) \<noteq> Some Deleted \<and>
      (list_ex isAccept es \<or> statusOf (deliver e h) = Some (acceptedStatus (cd_mode d)))"
    using deliver_recordOf [OF e Cons.prems(2)] by (intro Cons.IH [OF es]) blast
  then show ?case
    by (simp add: deliver_status [OF e Cons.prems(2)] statusStep_deleted statusStep_accepted [OF mode]) blast
qed

section \<open>Properties\<close>

definition exampleCall :: CallDetails where
  "exampleCall =
    \<lparr>cd_callId = ''7'', cd_peerId = ''peer'', cd_ringerId = Some ''peer'', cd_startedById = None,
     cd_mode = ModeDirect, cd_type = CallAudio, cd_direction = Incoming, cd_timestamp = 100,
     cd_endedTimestamp = None\<rparr>"

definition exampleCallEvent :: "CallEvent \<Rightarrow> int \<Rightarrow> CallEventDetails" where
  "exampleCallEvent ev t =
    CallDetails.extend (exampleCall\<lparr>cd_timestamp := t\<rparr>) (CallEventDetails.fields ev ''test'' t)"

definition exampleHistory :: "CallStatus \<Rightarrow> CallHistoryDetails" where
  "exampleHistory st = CallDetails.extend exampleCall (CallHistoryDetails.fields st)"

lemmas example_call_defs = exampleCall_def exampleCallEvent_def exampleHistory_def CallDetails.extend_def
  CallEventDetails.fields_def CallHistoryDetails.fields_def

text \<open>
C24: The casts of \<open>transitionCallHistory\<close> are justified and its case distinctions exhaustive: from a record
whose status belongs to the enumeration of its mode, every event leads to a record whose status belongs to
the enumeration of its mode, about the same call, or to an error other than an unhandled case.
\<close>

theorem transitionCallHistory_typed:
  assumes "pred_option (\<lambda>ch. statusOfMode (cd_mode ch) (ch_status ch)) h"
  shows "case transitionCallHistory h e of
      Inl err \<Rightarrow> err_message err \<noteq> ''Unhandled case''
    | Inr r \<Rightarrow> statusOfMode (cd_mode r) (ch_status r) \<and> cd_mode r = cd_mode e \<and> cd_callId r = cd_callId e \<and>
        cd_peerId r = cd_peerId e \<and> (case h of None \<Rightarrow> True | Some ch \<Rightarrow> cd_callId r = cd_callId ch \<and>
          cd_peerId r = cd_peerId ch \<and> cd_type r = cd_type ch \<and> cd_direction r = cd_direction ch)"
proof (cases "transitionCallHistory h e")
  case (Inl err)
  have "err_message err \<noteq> ''Unhandled case''"
    if same: "assertSameCall h e = Inr ()"
  proof -
    have mode: "pred_option (\<lambda>ch. statusOfMode (cd_mode e) (ch_status ch)) h"
      using assms same by (cases h) (auto simp: assertSameCall_def bindE_eq_Inr)
    then have st: "pred_option (statusOfMode (cd_mode e)) (statusOf h)" by (cases h) simp_all
    obtain t where t: "transitionTimestamp h e = Inr t" using transitionTimestamp_total [OF mode] by blast
    with Inl same show ?thesis
      by (auto simp: transitionCallHistory_def bindE_eq_Inl parseStrict_def dest: transitionStatus_handled [OF st]
          split: if_splits)
  qed
  moreover have "err_message err \<noteq> ''Unhandled case''" if "assertSameCall h e \<noteq> Inr ()"
    using that Inl by (cases h) (auto simp: transitionCallHistory_def assertSameCall_def bindE_def strictAssert_def
        split: if_splits sum.splits)
  ultimately show ?thesis using Inl by auto
next
  case (Inr r)
  then have "assertSameCall h e = Inr ()" by (simp add: transitionCallHistory_eq_Inr)
  then have "case h of None \<Rightarrow> True | Some ch \<Rightarrow> cd_callId e = cd_callId ch \<and>
      cd_peerId e = cd_peerId ch \<and> cd_type e = cd_type ch \<and> cd_direction e = cd_direction ch"
    by (cases h) (auto simp: assertSameCall_def bindE_eq_Inr)
  moreover have "statusOfMode (cd_mode r) (ch_status r) \<and> cd_mode r = cd_mode e \<and> cd_callId r = cd_callId e \<and>
      cd_peerId r = cd_peerId e \<and> cd_type r = cd_type e \<and> cd_direction r = cd_direction e"
    using Inr by (auto simp: transitionCallHistory_eq_Inr dest: transitionStatus_typed)
  ultimately show ?thesis using Inr by (cases h) auto
qed

theorem transitionCallHistory_typed_witness:
  "case transitionCallHistory (Some (exampleHistory Pending)) (exampleCallEvent LocalHangup 200) of
      Inl err \<Rightarrow> err_message err \<noteq> ''Unhandled case'' | Inr r \<Rightarrow> statusOfMode (cd_mode r) (ch_status r)"
proof -
  have "pred_option (\<lambda>ch. statusOfMode (cd_mode ch) (ch_status ch)) (Some (exampleHistory Pending))"
    by (simp add: example_call_defs status_defs)
  from transitionCallHistory_typed [OF this, of "exampleCallEvent LocalHangup 200"]
  show ?thesis by (auto split: sum.splits)
qed

text \<open>
C25: What a direct or call-link call ends up as does not depend on the order in which its events arrive: once
every event of the list has been delivered, in any order, the call is deleted if one of them deleted it,
otherwise accepted (joined, for a call link) if one of them accepted it, and neither if none did.
\<close>

theorem delivered_call_settles:
  assumes "list_all (aboutCall d) events" and "cd_mode d \<noteq> ModeGroup"
  shows "if list_ex isDelete events then statusOf (fold deliver events None) = Some Deleted
    else if list_ex isAccept events then statusOf (fold deliver events None) = Some (acceptedStatus (cd_mode d))
    else statusOf (fold deliver events None) \<notin> {Some Deleted, Some (acceptedStatus (cd_mode d))}"
  using fold_deliver_deleted [OF assms(1), of None] fold_deliver_accepted [OF assms(2,1), of None] by simp

theorem delivered_call_settles_witness:
  "statusOf (fold deliver [exampleCallEvent LocalAccepted 100, exampleCallEvent LocalHangup 200] None) = Some Accepted"
  using delivered_call_settles
    [of exampleCall "[exampleCallEvent LocalAccepted 100, exampleCallEvent LocalHangup 200]"]
  by (simp add: aboutCall_def callDetailsSchema_def acceptedStatus_def example_call_defs)

text \<open>
An event never moves the timestamp of a call back: the new timestamp is that of the record or that of the
event, at least that of the record, and unchanged for a deleted call and for a call that was accepted or
joined unless the event is another device's acceptance.
\<close>

theorem transition_timestamp_monotone:
  "case transitionCallHistory (Some ch) e of
     Inl _ \<Rightarrow> True
   | Inr r \<Rightarrow> cd_timestamp ch \<le> cd_timestamp r \<and> cd_timestamp r \<in> {cd_timestamp ch, cd_timestamp e} \<and>
       (if ch_status ch = Deleted then cd_timestamp r = cd_timestamp ch else True) \<and>
       (if ch_status ch \<in> {Accepted, Joined, JoinedAdhoc} \<and> ce_event e \<noteq> RemoteAccepted
        then cd_timestamp r = cd_timestamp ch else True)"
  by (auto simp: transitionCallHistory_eq_Inr transitionTimestamp_def Let_def split: sum.splits if_splits)

text \<open>
  The comment in \<open>transitionTimestamp\<close> says that a declined call takes a new timestamp when it is accepted.
  It does not: the call becomes accepted and keeps the timestamp of the decline.
\<close>

theorem accepted_after_declined_keeps_timestamp:
  "transitionCallHistory (Some (exampleHistory Declined)) (exampleCallEvent RemoteAccepted 200) =
    Inr (exampleHistory Accepted)"
  by (simp add: transitionCallHistory_def assertSameCall_def transitionDirectCallStatus_def transitionTimestamp_def
      parseStrict_def callDetailsSchema_def example_call_defs)

end
