(* ===== verification/Call_Sync.thy ===== *)
theory Call_Sync
  imports Call_Status
begin

text \<open>
  The history of calls between linked devices: the conversions of ts/util/callDisposition.preload.ts and
  ts/types/CallDisposition.std.ts between call records and the protocol messages \<open>CallEvent\<close> and
  \<open>CallLogEvent\<close> of protos/SignalService.proto. The generated encoder and decoder of these messages are not
  modelled: a message is its record, its enumerations are datatypes with the constants of the protocol.
  A timestamp is an integer on both sides (\<open>Number(big)\<close> is exact below \<open>2 ^ 53\<close>).
\<close>

section \<open>Decimal numbers\<close>

fun showNat :: "nat \<Rightarrow> string" where
  "showNat n = (if n < 10 then [hexDigit n] else showNat (n div 10) @ [hexDigit (n mod 10)])"

declare showNat.simps [simp del]

definition bigToString :: "int \<Rightarrow> string" where
  "bigToString n = (if n < 0 then ''-'' @ showNat (nat (- n)) else showNat (nat n))"

text \<open>The digits of a number in a radix of at most 16; \<open>BigInt(text)\<close> throws where this is \<open>None\<close>.\<close>

definition digitsValue :: "nat \<Rightarrow> string \<Rightarrow> nat option" where
  "digitsValue radix s =
    (if s \<noteq> [] \<and> list_all (\<lambda>c. case hexValue c of None \<Rightarrow> False | Some v \<Rightarrow> v < radix) s
     then Some (foldl (\<lambda>n c. radix * n + the (hexValue c)) 0 s) else None)"

definition parseBigInt :: "string \<Rightarrow> int option" where
  "parseBigInt text =
    (let s = js_trim text
     in if s = [] then Some 0
        else if map to_lower (take 2 s) = ''0x'' then map_option int (digitsValue 16 (drop 2 s))
        else if map to_lower (take 2 s) = ''0o'' then map_option int (digitsValue 8 (drop 2 s))
        else if map to_lower (take 2 s) = ''0b'' then map_option int (digitsValue 2 (drop 2 s))
        else if hd s = CHR ''-'' then map_option (\<lambda>n. - int n) (digitsValue 10 (tl s))
        else if hd s = CHR ''+'' then map_option int (digitsValue 10 (tl s))
        else map_option int (digitsValue 10 s))"

lemma showNat_digits: "list_all (\<lambda>c. \<exists>v<10. c = hexDigit v) (showNat n) \<and> showNat n \<noteq> []"
proof (induction n rule: showNat.induct)
  case (1 n)
  have "\<exists>v<10. hexDigit (n mod 10) = hexDigit v" by (intro exI [of _ "n mod 10"]) simp
  with 1 show ?case by (subst (1 2) showNat.simps) auto
qed

lemma foldl_showNat: "foldl (\<lambda>n c. 10 * n + the (hexValue c)) 0 (showNat n) = n"
proof (induction n rule: showNat.induct)
  case (1 n)
  then show ?case by (subst showNat.simps) simp
qed

lemma digitsValue_showNat: "digitsValue 10 (showNat n) = Some n"
proof -
  have "list_all (\<lambda>c. case hexValue c of None \<Rightarrow> False | Some v \<Rightarrow> v < 10) (showNat n)"
    by (rule list.pred_mono_strong [OF conjunct1 [OF showNat_digits]]) auto
  then show ?thesis using showNat_digits [of n] foldl_showNat [of n] by (simp add: digitsValue_def)
qed

text \<open>A decimal digit is neither white space, a sign, nor the letter of a radix.\<close>

lemma decimal_digit_plain:
  assumes "v < 10"
  shows "\<not> is_js_space (hexDigit v) \<and> hexDigit v \<noteq> CHR ''-'' \<and> hexDigit v \<noteq> CHR ''+'' \<and>
    to_lower (hexDigit v) \<notin> set ''xob''"
proof -
  have "of_char (hexDigit v) = 48 + v" using assms by (simp add: hexDigit_char)
  then have c: "48 \<le> (of_char (hexDigit v) :: nat)" "of_char (hexDigit v) \<le> (57 :: nat)" using assms by simp_all
  then have "to_lower (hexDigit v) = hexDigit v" by (simp add: to_lower_def in_range_def)
  with c show ?thesis by (auto simp: is_js_space_def)
qed

lemma js_trim_plain:
  assumes "list_all (\<lambda>c. \<not> is_js_space c) s"
  shows "js_trim s = s"
proof -
  have "dropWhile is_js_space t = t" if "list_all (\<lambda>c. \<not> is_js_space c) t" for t
    using that by (cases t) simp_all
  moreover have "list_all (\<lambda>c. \<not> is_js_space c) (rev s)" using assms by (simp add: list_all_iff)
  ultimately show ?thesis using assms by (simp add: js_trim_def)
qed

lemma parseBigInt_showNat: "parseBigInt (showNat n) = Some (int n)"
proof -
  have plain: "\<not> is_js_space c \<and> c \<noteq> CHR ''-'' \<and> c \<noteq> CHR ''+'' \<and> to_lower c \<notin> set ''xob''"
    if c: "c \<in> set (showNat n)" for c
  proof -
    obtain v where "v < 10" "c = hexDigit v" using c showNat_digits [of n] by (auto simp: list_all_iff)
    then show ?thesis using decimal_digit_plain [of v] by simp
  qed
  then have trim: "js_trim (showNat n) = showNat n" by (intro js_trim_plain) (simp add: list_all_iff)
  obtain c cs where s: "showNat n = c # cs" using showNat_digits [of n] by (cases "showNat n") auto
  then have hd: "showNat n \<noteq> []" "hd (showNat n) \<noteq> CHR ''-''" "hd (showNat n) \<noteq> CHR ''+''"
    using plain by simp_all
  have radix: "map to_lower (take 2 (showNat n)) \<noteq> [CHR ''0'', r]" if "r \<in> set ''xob''" for r
  proof (cases cs)
    case (Cons d ds)
    then have "to_lower d \<notin> set ''xob''" using plain s by simp
    with Cons s that show ?thesis by auto
  qed (simp add: s)
  have "map to_lower (take 2 (showNat n)) \<noteq> ''0x''" "map to_lower (take 2 (showNat n)) \<noteq> ''0o''"
    "map to_lower (take 2 (showNat n)) \<noteq> ''0b''"
    by (rule radix, simp)+
  then show ?thesis unfolding parseBigInt_def trim Let_def digitsValue_showNat
    by (simp only: hd if_False option.map)
qed

lemma parseBigInt_toString: "0 \<le> n \<Longrightarrow> parseBigInt (bigToString n) = Some n"
  by (simp add: bigToString_def parseBigInt_showNat)

section \<open>Call events\<close>

datatype ProtoCallType = UNKNOWN_TYPE | AUDIO_CALL | VIDEO_CALL | GROUP_CALL | AD_HOC_CALL
datatype ProtoCallDirection = UNKNOWN_DIRECTION | INCOMING | OUTGOING
datatype ProtoCallEventKind = UNKNOWN_EVENT | ACCEPTED | NOT_ACCEPTED | DELETE | OBSERVED

record ProtoCallEvent =
  pce_conversationId :: "bytes option"
  pce_callId :: "int option"
  pce_type :: "ProtoCallType option"
  pce_direction :: "ProtoCallDirection option"
  pce_event :: "ProtoCallEventKind option"
  pce_timestamp :: "int option"

definition conversationPeerIdInBytes :: "bytes \<Rightarrow> string" where
  "conversationPeerIdInBytes value =
    (if length value = UUID_BYTE_SIZE then
       (case bytesToUuid value of Some uuid \<Rightarrow> uuid | None \<Rightarrow> base64Encode value)
     else base64Encode value)"

definition roomIdInBytes :: "bytes \<Rightarrow> string" where
  "roomIdInBytes value = toHex value"

record NormalizedCallEvent =
  nce_callId :: string
  nce_timestamp :: int
  nce_direction :: ProtoCallDirection
  nce_event :: ProtoCallEventKind
  nce_type :: ProtoCallType
  nce_conversationId :: string

definition callEventNormalizeSchema :: "ProtoCallEvent \<Rightarrow> NormalizedCallEvent js" where
  "callEventNormalizeSchema p =
    (case (pce_callId p, pce_timestamp p, pce_direction p, pce_event p, pce_type p, pce_conversationId p) of
       (Some callId, Some timestamp, Some direction, Some event, Some ty, Some conversationId) \<Rightarrow>
         Inr \<lparr>nce_callId = bigToString callId, nce_timestamp = timestamp, nce_direction = direction,
           nce_event = event, nce_type = ty,
           nce_conversationId = (if ty = AD_HOC_CALL then roomIdInBytes conversationId
             else conversationPeerIdInBytes conversationId)\<rparr>
     | _ \<Rightarrow> throw ''zod: issues found when parsing with schema:'')"

definition getCallEventForProto :: "ProtoCallEvent \<Rightarrow> string \<Rightarrow> int \<Rightarrow> CallEventDetails js" where
  "getCallEventForProto callEventProto eventSource eventTimestamp =
    bindE (callEventNormalizeSchema callEventProto) (\<lambda>callEvent.
    bindE (case nce_type callEvent of
        GROUP_CALL \<Rightarrow> Inr CallGroup
      | AUDIO_CALL \<Rightarrow> Inr CallAudio
      | VIDEO_CALL \<Rightarrow> Inr CallVideo
      | AD_HOC_CALL \<Rightarrow> Inr CallAdhoc
      | _ \<Rightarrow> throw ''Unknown call type'') (\<lambda>ty.
    let mode = (if ty = CallGroup then ModeGroup else if ty = CallAdhoc then ModeAdhoc else ModeDirect)
    in
    bindE (case nce_direction callEvent of
        INCOMING \<Rightarrow> Inr Incoming
      | OUTGOING \<Rightarrow> Inr Outgoing
      | _ \<Rightarrow> throw ''Unknown call direction'') (\<lambda>direction.
    bindE (case nce_event callEvent of
        ACCEPTED \<Rightarrow> Inr RemoteAccepted
      | NOT_ACCEPTED \<Rightarrow> Inr RemoteNotAccepted
      | DELETE \<Rightarrow> Inr RemoteDelete
      | OBSERVED \<Rightarrow> Inr RemoteObserved
      | _ \<Rightarrow> throw ''Unknown call event'') (\<lambda>event.
    parseStrict callDetailsSchema
      \<lparr>cd_callId = nce_callId callEvent, cd_peerId = nce_conversationId callEvent, cd_ringerId = None,
       cd_startedById = None, cd_mode = mode, cd_type = ty, cd_direction = direction,
       cd_timestamp = nce_timestamp callEvent, cd_endedTimestamp = None, ce_event = event,
       ce_eventSource = eventSource, ce_eventTimestamp = eventTimestamp\<rparr>))))"

primrec directionToProto :: "CallDirection \<Rightarrow> ProtoCallDirection" where
  "directionToProto Incoming = INCOMING"
| "directionToProto Outgoing = OUTGOING"
| "directionToProto DirectionUnknown = UNKNOWN_DIRECTION"

primrec typeToProto :: "CallType \<Rightarrow> ProtoCallType" where
  "typeToProto CallAudio = AUDIO_CALL"
| "typeToProto CallVideo = VIDEO_CALL"
| "typeToProto CallGroup = GROUP_CALL"
| "typeToProto CallAdhoc = AD_HOC_CALL"
| "typeToProto CallTypeUnknown = UNKNOWN_TYPE"

primrec statusToProto :: "CallStatus \<Rightarrow> ProtoCallEventKind option" where
  "statusToProto Accepted = Some ACCEPTED"
| "statusToProto Declined = Some NOT_ACCEPTED"
| "statusToProto Deleted = Some DELETE"
| "statusToProto Missed = None"
| "statusToProto MissedNotificationProfile = None"
| "statusToProto Pending = None"
| "statusToProto GenericGroupCall = None"
| "statusToProto GenericAdhocCall = Some OBSERVED"
| "statusToProto OutgoingRing = None"
| "statusToProto Ringing = None"
| "statusToProto Joined = None"
| "statusToProto JoinedAdhoc = Some ACCEPTED"
| "statusToProto StatusUnknown = Some UNKNOWN_EVENT"

definition shouldSyncStatus :: "CallStatus \<Rightarrow> bool" where
  "shouldSyncStatus callStatus \<longleftrightarrow> statusToProto callStatus \<noteq> None"

definition getBytesForPeerId :: "CallHistoryDetails \<Rightarrow> bytes" where
  "getBytesForPeerId callHistory =
    (if cd_mode callHistory = ModeAdhoc then fromHex (cd_peerId callHistory)
     else if cd_mode callHistory = ModeGroup then base64Decode (cd_peerId callHistory)
     else uuidToBytes (cd_peerId callHistory))"

definition getCallIdForProto :: "CallHistoryDetails \<Rightarrow> int option js" where
  "getCallIdForProto callHistory =
    (case parseBigInt (cd_callId callHistory) of
       Some n \<Rightarrow> Inr (Some n)
     | None \<Rightarrow> if cd_mode callHistory = ModeAdhoc then Inr None
               else throw (''Invalid callId: '' @ cd_callId callHistory))"

definition getProtoForCallHistory :: "CallHistoryDetails \<Rightarrow> ProtoCallEvent js" where
  "getProtoForCallHistory callHistory =
    bindE (strictAssertSome (statusToProto (ch_status callHistory))
      ''getProtoForCallHistory: Cannot create proto for status'') (\<lambda>event.
    bindE (getCallIdForProto callHistory) (\<lambda>callId.
    Inr \<lparr>pce_conversationId = Some (getBytesForPeerId callHistory), pce_callId = callId,
         pce_type = Some (typeToProto (cd_type callHistory)),
         pce_direction = Some (directionToProto (cd_direction callHistory)), pce_event = Some event,
         pce_timestamp = Some (cd_timestamp callHistory)\<rparr>))"

section \<open>Call log events\<close>

datatype CallLogEvent = LogClear | LogClearInConversation | LogMarkedAsRead | LogMarkedAsReadInConversation

record ProtoCallLogEvent =
  pcl_type :: "CallLogEvent option"
  pcl_timestamp :: "int option"
  pcl_conversationId :: "bytes option"
  pcl_callId :: "int option"

record CallLogEventDetails =
  cl_type :: CallLogEvent
  cl_targetTimestamp :: int
  cl_peerIdAsConversationId :: "string option"
  cl_peerIdAsRoomId :: "string option"
  cl_callId :: "string option"
  cl_eventTimestamp :: int

definition getCallLogEventForProto :: "ProtoCallLogEvent \<Rightarrow> int \<Rightarrow> CallLogEventDetails js" where
  "getCallLogEventForProto p eventTimestamp =
    (case (pcl_type p, pcl_timestamp p) of
       (Some ty, Some targetTimestamp) \<Rightarrow>
         Inr \<lparr>cl_type = ty, cl_targetTimestamp = targetTimestamp,
           cl_peerIdAsConversationId = map_option conversationPeerIdInBytes (pcl_conversationId p),
           cl_peerIdAsRoomId = map_option roomIdInBytes (pcl_conversationId p),
           cl_callId = map_option bigToString (pcl_callId p), cl_eventTimestamp = eventTimestamp\<rparr>
     | _ \<Rightarrow> throw ''zod: issues found when parsing with schema:'')"

section \<open>Properties\<close>

text \<open>The ids of a call as the app writes them, from the bytes of the protocol.\<close>

primrec typeOfMode :: "CallMode \<Rightarrow> CallType \<Rightarrow> bool" where
  "typeOfMode ModeDirect ty \<longleftrightarrow> ty \<in> {CallAudio, CallVideo}"
| "typeOfMode ModeGroup ty \<longleftrightarrow> ty = CallGroup"
| "typeOfMode ModeAdhoc ty \<longleftrightarrow> ty = CallAdhoc"

primrec peerIdFromBytes :: "CallMode \<Rightarrow> bytes \<Rightarrow> string \<Rightarrow> bool" where
  "peerIdFromBytes ModeDirect bs peerId \<longleftrightarrow> bytesToUuid bs = Some peerId"
| "peerIdFromBytes ModeGroup bs peerId \<longleftrightarrow> length bs = 32 \<and> peerId = base64Encode bs"
| "peerIdFromBytes ModeAdhoc bs peerId \<longleftrightarrow> peerId = toHex bs"

definition syncedEvent :: "CallStatus \<Rightarrow> CallEvent" where
  "syncedEvent st =
    (case statusToProto st of
       Some ACCEPTED \<Rightarrow> RemoteAccepted | Some NOT_ACCEPTED \<Rightarrow> RemoteNotAccepted
     | Some DELETE \<Rightarrow> RemoteDelete | _ \<Rightarrow> RemoteObserved)"

lemma getBytesForPeerId_eq: "peerIdFromBytes (cd_mode ch) bs (cd_peerId ch) \<Longrightarrow> getBytesForPeerId ch = bs"
  by (cases "cd_mode ch")
    (simp_all add: getBytesForPeerId_def uuidToBytes_bytesToUuid base64.decode_encode hex.decode_encode)

lemma peerId_from_bytes:
  "peerIdFromBytes m bs peerId \<Longrightarrow> typeOfMode m ty \<Longrightarrow>
    (if typeToProto ty = AD_HOC_CALL then roomIdInBytes bs else conversationPeerIdInBytes bs) = peerId"
  by (cases m) (auto simp: conversationPeerIdInBytes_def roomIdInBytes_def UUID_BYTE_SIZE_def bytesToUuid_eq
      split: if_splits)

lemma synced_event_of_history:
  assumes ids: "peerIdFromBytes (cd_mode ch) bs (cd_peerId ch)" "cd_callId ch = bigToString n" "0 \<le> n"
    and ty: "typeOfMode (cd_mode ch) (cd_type ch)" "cd_direction ch \<noteq> DirectionUnknown"
    and st: "shouldSyncStatus (ch_status ch)" "ch_status ch \<noteq> StatusUnknown"
  shows "bindE (getProtoForCallHistory ch) (\<lambda>p. getCallEventForProto p src t) =
    Inr (CallDetails.extend
      \<lparr>cd_callId = cd_callId ch, cd_peerId = cd_peerId ch, cd_ringerId = None, cd_startedById = None,
       cd_mode = cd_mode ch, cd_type = cd_type ch, cd_direction = cd_direction ch,
       cd_timestamp = cd_timestamp ch, cd_endedTimestamp = None\<rparr>
      (CallEventDetails.fields (syncedEvent (ch_status ch)) src t))"
proof -
  obtain k where k: "statusToProto (ch_status ch) = Some k" "k \<noteq> UNKNOWN_EVENT"
    using st by (cases "ch_status ch") (auto simp: shouldSyncStatus_def)
  have peer: "(if typeToProto (cd_type ch) = AD_HOC_CALL then roomIdInBytes bs else conversationPeerIdInBytes bs) =
      cd_peerId ch"
    using ids(1) ty(1) by (rule peerId_from_bytes)
  have proto: "getProtoForCallHistory ch = Inr \<lparr>pce_conversationId = Some bs, pce_callId = Some n,
      pce_type = Some (typeToProto (cd_type ch)), pce_direction = Some (directionToProto (cd_direction ch)),
      pce_event = Some k, pce_timestamp = Some (cd_timestamp ch)\<rparr>"
    using ids by (simp add: getProtoForCallHistory_def getCallIdForProto_def k getBytesForPeerId_eq parseBigInt_toString)
  have norm: "callEventNormalizeSchema \<lparr>pce_conversationId = Some bs, pce_callId = Some n,
      pce_type = Some (typeToProto (cd_type ch)), pce_direction = Some (directionToProto (cd_direction ch)),
      pce_event = Some k, pce_timestamp = Some (cd_timestamp ch)\<rparr> =
      Inr \<lparr>nce_callId = cd_callId ch, nce_timestamp = cd_timestamp ch,
        nce_direction = directionToProto (cd_direction ch), nce_event = k, nce_type = typeToProto (cd_type ch),
        nce_conversationId = cd_peerId ch\<rparr>"
    using peer ids(2) by (simp add: callEventNormalizeSchema_def)
  show ?thesis
    using ty k(2) unfolding proto bindE_simps getCallEventForProto_def norm
    by (cases "cd_mode ch"; cases "cd_type ch"; cases "cd_direction ch"; cases k)
      (simp_all add: parseStrict_def callDetailsSchema_def syncedEvent_def k(1) CallDetails.extend_def
        CallEventDetails.fields_def)
qed

text \<open>The group and the history of the examples.\<close>

definition exampleUuid :: bytes where
  "exampleUuid = replicate 16 0x4a"

definition syncedHistory :: CallHistoryDetails where
  "syncedHistory = (exampleHistory Declined)\<lparr>cd_peerId := formatUuid (toHex exampleUuid), cd_callId := bigToString 7\<rparr>"

lemma exampleUuid_peer: "bytesToUuid exampleUuid = Some (formatUuid (toHex exampleUuid))"
  by code_simp

text \<open>
C26: A synced call arrives as the same call. For a record whose peer id was printed from bytes (a UUID that is
not nil, a group id of 32 bytes in base64, a room id in hexadecimal), whose call id is a decimal number, whose
type fits its mode and whose status is one that is synced, the protocol message of the record is read back as
an event with its call id, peer id, mode, type, direction and timestamp.
\<close>

theorem call_event_roundtrip:
  assumes "peerIdFromBytes (cd_mode ch) bs (cd_peerId ch)" and "cd_callId ch = bigToString n" and "0 \<le> n"
    and "typeOfMode (cd_mode ch) (cd_type ch)" and "cd_direction ch \<noteq> DirectionUnknown"
    and "shouldSyncStatus (ch_status ch)" and "ch_status ch \<noteq> StatusUnknown"
  shows "case bindE (getProtoForCallHistory ch) (\<lambda>p. getCallEventForProto p src t) of
      Inl _ \<Rightarrow> False
    | Inr e \<Rightarrow> cd_callId e = cd_callId ch \<and> cd_peerId e = cd_peerId ch \<and> cd_mode e = cd_mode ch \<and>
        cd_type e = cd_type ch \<and> cd_direction e = cd_direction ch \<and> cd_timestamp e = cd_timestamp ch \<and>
        ce_event e = syncedEvent (ch_status ch) \<and> ce_eventTimestamp e = t"
  unfolding synced_event_of_history [OF assms] by (simp add: CallDetails.extend_def CallEventDetails.fields_def)

theorem call_event_roundtrip_witness:
  "case bindE (getProtoForCallHistory syncedHistory) (\<lambda>p. getCallEventForProto p ''sync'' 300) of
      Inl _ \<Rightarrow> False | Inr e \<Rightarrow> ce_event e = RemoteNotAccepted \<and> cd_timestamp e = 100"
proof -
  have h: "peerIdFromBytes (cd_mode syncedHistory) exampleUuid (cd_peerId syncedHistory)"
      "cd_callId syncedHistory = bigToString 7" "typeOfMode (cd_mode syncedHistory) (cd_type syncedHistory)"
      "cd_direction syncedHistory \<noteq> DirectionUnknown" "shouldSyncStatus (ch_status syncedHistory)"
      "ch_status syncedHistory \<noteq> StatusUnknown"
    by (simp_all add: syncedHistory_def exampleUuid_peer shouldSyncStatus_def example_call_defs)
  have "ch_status syncedHistory = Declined" "cd_timestamp syncedHistory = 100"
    by (simp_all add: syncedHistory_def example_call_defs)
  then show ?thesis
    using call_event_roundtrip [OF h(1,2) _ h(3-6), where src = "''sync''" and t = 300]
    by (auto simp: syncedEvent_def split: sum.splits)
qed

text \<open>
A device that already shows what the sync message says is not disturbed by it: delivering the message of a
record (see the previous property) to a device with the same record leaves the status and the timestamp of the
call as they are, whatever the mode.
\<close>

theorem synced_call_unchanged:
  assumes "peerIdFromBytes (cd_mode ch) bs (cd_peerId ch)" and "cd_callId ch = bigToString n" and "0 \<le> n"
    and "typeOfMode (cd_mode ch) (cd_type ch)" and "cd_direction ch \<noteq> DirectionUnknown"
    and "shouldSyncStatus (ch_status ch)" and "ch_status ch \<noteq> StatusUnknown"
    and "statusOfMode (cd_mode ch) (ch_status ch)"
  shows "case bindE (getProtoForCallHistory ch) (\<lambda>p. getCallEventForProto p src t) of
      Inl _ \<Rightarrow> False
    | Inr e \<Rightarrow> (case deliver e (Some ch) of None \<Rightarrow> False
        | Some r \<Rightarrow> ch_status r = ch_status ch \<and> cd_timestamp r = cd_timestamp ch)"
  unfolding synced_event_of_history [OF assms(1-7)] using assms(6-8)
  by (cases "cd_mode ch"; cases "ch_status ch")
    (simp_all add: deliver_def transitionCallHistory_def assertSameCall_def parseStrict_def callDetailsSchema_def
      transition_defs transitionTimestamp_def CallDetails.extend_def CallEventDetails.fields_def syncedEvent_def
      shouldSyncStatus_def status_defs)

theorem synced_call_unchanged_witness:
  "case bindE (getProtoForCallHistory syncedHistory) (\<lambda>p. getCallEventForProto p ''sync'' 300) of
      Inl _ \<Rightarrow> False
    | Inr e \<Rightarrow> (case deliver e (Some syncedHistory) of None \<Rightarrow> False | Some r \<Rightarrow> ch_status r = Declined)"
proof -
  have h: "peerIdFromBytes (cd_mode syncedHistory) exampleUuid (cd_peerId syncedHistory)"
      "cd_callId syncedHistory = bigToString 7" "typeOfMode (cd_mode syncedHistory) (cd_type syncedHistory)"
      "cd_direction syncedHistory \<noteq> DirectionUnknown" "shouldSyncStatus (ch_status syncedHistory)"
      "ch_status syncedHistory \<noteq> StatusUnknown" "statusOfMode (cd_mode syncedHistory) (ch_status syncedHistory)"
    by (simp_all add: syncedHistory_def exampleUuid_peer shouldSyncStatus_def status_defs example_call_defs)
  have "ch_status syncedHistory = Declined" by (simp add: syncedHistory_def example_call_defs)
  then show ?thesis
    using synced_call_unchanged [OF h(1,2) _ h(3-7), where src = "''sync''" and t = 300] by (auto split: sum.splits option.splits)
qed

text \<open>
  A sync message names no ringer, and the record the transition makes takes its ringer from the event: a message
  from another device erases who rang, though the assertion lets the stored ringer and a missing one agree.
\<close>

theorem synced_event_erases_ringer:
  assumes "cd_ringerId e = None" and "transitionCallHistory (Some ch) e = Inr r"
  shows "cd_ringerId r = None"
  using assms by (auto simp: transitionCallHistory_eq_Inr)

theorem synced_event_erases_ringer_witness:
  "cd_ringerId (exampleHistory Pending) = Some ''peer'' \<and>
    (case transitionCallHistory (Some (exampleHistory Pending)) ((exampleCallEvent RemoteNotAccepted 200)\<lparr>cd_ringerId := None\<rparr>)
     of Inl _ \<Rightarrow> False | Inr r \<Rightarrow> cd_ringerId r = None)"
  using synced_event_erases_ringer [of "(exampleCallEvent RemoteNotAccepted 200)\<lparr>cd_ringerId := None\<rparr>" "exampleHistory Pending"]
  by (simp add: transitionCallHistory_def assertSameCall_def transitionDirectCallStatus_def transitionTimestamp_def
      parseStrict_def callDetailsSchema_def example_call_defs)

end
