(* ===== verification/Call_History.thy ===== *)
theory Call_History
  imports Call_Sync Send_State
begin

text \<open>
  The history of calls, second part: the state and the handlers. The state is the \<open>callsHistory\<close> and
  \<open>callLinks\<close> tables, the call messages of the \<open>messages\<close> table, the \<open>callHistory\<close> slice of the redux store
  (ts/state/ducks/callHistory.preload.ts), the conversations and the message counter. The operations are the
  SQL functions on these tables (ts/sql/Server.node.ts, ts/sql/server/callLinks.node.ts), and the actions of
  ts/util/callDisposition.preload.ts, ts/util/onCallEventSync.preload.ts, ts/util/onCallLogEventSync.preload.ts,
  ts/util/cleanup.preload.ts (\<open>maybeDeleteCall\<close>) and ts/services/callHistoryLoader.preload.ts.

  What leaves this state (sync jobs, notifications, counters of a conversation) is listed as effects in the
  order the code performs it. The cache of message models mirrors the table and is not modelled. A database
  operation does not fail. Where an SQL query leaves an order open, the order of the rows is taken.
\<close>

section \<open>State\<close>

record CallMessage =
  cm_id :: string
  cm_conversationId :: string
  cm_callId :: string
  cm_timestamp :: int
  cm_sent_at :: int
  cm_received_at :: int
  cm_received_at_ms :: int
  cm_readStatus :: "ReadStatus option"
  cm_seenStatus :: "SeenStatus option"
  cm_serverGuid :: "string option"
  cm_expireTimer :: "int option"
  cm_expirationStartTimestamp :: "int option"

record CallConversation =
  cv_id :: string
  cv_peerId :: string
  cv_expireTimer :: "int option"
  cv_active_at :: "int option"
  cv_isArchived :: bool
  cv_muteExpiresAt :: "int option"

record CallLinkRow =
  lk_roomId :: string
  lk_adminKey :: "string option"
  lk_rootKey :: "string option"
  lk_storageID :: "string option"
  lk_deleted :: bool
  lk_deletedAt :: "int option"
  lk_storageNeedsSync :: bool

record CallHistoryState =
  chs_edition :: nat
  chs_unreadCount :: nat
  chs_callHistoryByCallId :: "(string, CallHistoryDetails) jsmap"

datatype call_effect =
    IncrementSentMessageCount string
  | IncrementMessageCount string
  | OnNewMessage CallMessage
  | UpdateLastMessage string
  | UpdateConversation CallConversation
  | UpdateUnread "string list"
  | SendCallLinkUpdateSync string
  | QueueCallEventSync ProtoCallEvent
  | QueueCallLogEventSync ProtoCallLogEvent
  | MessageDeleted string
  | UpdateExpiringMessages
  | RunStorageUpload
  | TriggerCallLinkCleanup

record CallStore =
  st_callsHistory :: "CallHistoryDetails list"
  st_messages :: "CallMessage list"
  st_callLinks :: "CallLinkRow list"
  st_redux :: CallHistoryState
  st_conversations :: "CallConversation list"
  st_messageCounter :: int
  st_effects :: "call_effect list"

text \<open>What the handlers read from elsewhere.\<close>

record CallEnv =
  k_now :: int
  k_isCallActive :: "string \<Rightarrow> bool"
  k_activeCallIds :: "string list"
  k_disappearingCalls :: bool
  k_otherDevices :: bool
  k_cachedMessage :: "string \<Rightarrow> string option"
  k_newMessageId :: "int \<Rightarrow> string"
  k_muteIsActive :: "int \<Rightarrow> bool"
  k_keepMutedChatsArchived :: "bool option"
  k_deleteCallLink :: "CallLinkRow \<Rightarrow> unit js"

definition emit :: "call_effect \<Rightarrow> CallStore \<Rightarrow> CallStore" where
  "emit x s = s\<lparr>st_effects := st_effects s @ [x]\<rparr>"

section \<open>The tables\<close>

text \<open>\<open>callId\<close> is the primary key: \<open>INSERT OR REPLACE\<close> removes the row with the same call id.\<close>

definition saveCallHistoryRow :: "CallHistoryDetails \<Rightarrow> CallStore \<Rightarrow> CallStore" where
  "saveCallHistoryRow callHistory s =
    s\<lparr>st_callsHistory := filter (\<lambda>r. cd_callId r \<noteq> cd_callId callHistory) (st_callsHistory s) @ [callHistory]\<rparr>"

definition getCallHistory :: "CallStore \<Rightarrow> string \<Rightarrow> string \<Rightarrow> CallHistoryDetails option" where
  "getCallHistory s callId peerId =
    find (\<lambda>r. cd_callId r = callId \<and> cd_peerId r = peerId) (st_callsHistory s)"

definition getCallHistoryMessageByCallId :: "CallStore \<Rightarrow> string \<Rightarrow> string \<Rightarrow> CallMessage option" where
  "getCallHistoryMessageByCallId s conversationId callId =
    find (\<lambda>m. cm_conversationId m = conversationId \<and> cm_callId m = callId) (st_messages s)"

definition removeMessageRow :: "string \<Rightarrow> CallStore \<Rightarrow> CallStore" where
  "removeMessageRow msgId s = s\<lparr>st_messages := filter (\<lambda>m. cm_id m \<noteq> msgId) (st_messages s)\<rparr>"

text \<open>With \<open>forceSave\<close> an insertion, without an update of the row with this id.\<close>

definition saveMessageRow :: "bool \<Rightarrow> CallMessage \<Rightarrow> CallStore \<Rightarrow> CallStore" where
  "saveMessageRow forceSave m s =
    s\<lparr>st_messages := (if forceSave then st_messages s @ [m]
        else map (\<lambda>x. if cm_id x = cm_id m then m else x) (st_messages s))\<rparr>"

definition markDeletedWhere :: "CallEnv \<Rightarrow> (CallHistoryDetails \<Rightarrow> bool) \<Rightarrow> CallStore \<Rightarrow> CallStore" where
  "markDeletedWhere K P s =
    s\<lparr>st_callsHistory := map (\<lambda>r. if P r then r\<lparr>ch_status := Deleted, cd_timestamp := k_now K\<rparr> else r)
      (st_callsHistory s)\<rparr>"

definition markCallHistoryDeleted :: "CallEnv \<Rightarrow> string \<Rightarrow> CallStore \<Rightarrow> CallStore" where
  "markCallHistoryDeleted K callId s = markDeletedWhere K (\<lambda>r. cd_callId r = callId) s"

definition deleteCallHistoryByRoomId :: "CallEnv \<Rightarrow> string \<Rightarrow> CallStore \<Rightarrow> CallStore" where
  "deleteCallHistoryByRoomId K roomId s = markDeletedWhere K (\<lambda>r. cd_peerId r = roomId) s"

definition cleanupCallHistoryMessages :: "CallStore \<Rightarrow> CallStore" where
  "cleanupCallHistoryMessages s =
    s\<lparr>st_messages := filter (\<lambda>m. \<not> list_ex (\<lambda>r. cd_callId r = cm_callId m \<and> ch_status r = Deleted)
      (st_callsHistory s)) (st_messages s)\<rparr>"

definition getAllCallHistory :: "CallStore \<Rightarrow> CallHistoryDetails list" where
  "getAllCallHistory s = st_callsHistory s"

text \<open>The unread call messages: joined with the history by call id.\<close>

definition isUnreadCallMessage :: "CallStore \<Rightarrow> CallMessage \<Rightarrow> bool" where
  "isUnreadCallMessage s m \<longleftrightarrow> cm_seenStatus m = Some Unseen \<and>
    list_ex (\<lambda>r. cd_callId r = cm_callId m \<and> cd_direction r = Incoming) (st_callsHistory s)"

definition getCallHistoryUnreadCallConversationIds :: "CallStore \<Rightarrow> string list" where
  "getCallHistoryUnreadCallConversationIds s =
    remdups (map cm_conversationId (filter (isUnreadCallMessage s) (st_messages s)))"

definition getCallHistoryUnreadCount :: "CallStore \<Rightarrow> nat" where
  "getCallHistoryUnreadCount s = length (filter (isUnreadCallMessage s) (st_messages s))"

text \<open>\<open>CallLogEventTarget\<close>: a peer id, or a peer id that is a conversation or a room.\<close>

datatype CallLogEventTarget =
    TargetPeer (tg_timestamp: int) (tg_callId: "string option") "string option"
  | TargetEither (tg_timestamp: int) (tg_callId: "string option") "string option" "string option"

definition lookupTarget :: "CallStore \<Rightarrow> int \<Rightarrow> string option \<Rightarrow> string option \<Rightarrow> CallHistoryDetails option" where
  "lookupTarget s timestamp callId peerId =
    (case (callId, peerId) of
       (Some c, Some p) \<Rightarrow> find (\<lambda>r. cd_peerId r = p \<and> cd_callId r = c) (st_callsHistory s)
     | _ \<Rightarrow>
         (case sort_key (\<lambda>r. - cd_timestamp r)
             (filter (\<lambda>r. (peerId = None \<or> peerId = Some (cd_peerId r)) \<and> cd_timestamp r \<le> timestamp)
               (st_callsHistory s)) of
            [] \<Rightarrow> None
          | r # _ \<Rightarrow> Some r))"

primrec getCallHistoryForCallLogEventTarget :: "CallStore \<Rightarrow> CallLogEventTarget \<Rightarrow> CallHistoryDetails option" where
  "getCallHistoryForCallLogEventTarget s (TargetPeer timestamp callId peerId) = lookupTarget s timestamp callId peerId"
| "getCallHistoryForCallLogEventTarget s (TargetEither timestamp callId asConversation asRoom) =
    (case lookupTarget s timestamp callId asConversation of
       Some r \<Rightarrow> Some r
     | None \<Rightarrow> lookupTarget s timestamp callId asRoom)"

definition clearCallHistory :: "CallEnv \<Rightarrow> CallLogEventTarget \<Rightarrow> CallStore \<Rightarrow> CallStore \<times> string list" where
  "clearCallHistory K target s =
    (case getCallHistoryForCallLogEventTarget s target of
       None \<Rightarrow> (s, [])
     | Some callHistory \<Rightarrow>
         let adminCallLinkIds = map lk_roomId (filter (\<lambda>l. lk_adminKey l \<noteq> None) (st_callLinks s));
             deletedCallIds = map cd_callId (filter (\<lambda>r.
               (cd_timestamp r \<le> cd_timestamp callHistory \<or> cd_mode r = ModeAdhoc \<and> ch_status r = Pending) \<and>
               cd_peerId r \<notin> set adminCallLinkIds) (st_callsHistory s));
             s1 = markDeletedWhere K (\<lambda>r. cd_callId r \<in> set deletedCallIds) s;
             gone = (\<lambda>m. cm_callId m \<in> set deletedCallIds)
         in (s1\<lparr>st_messages := filter (\<lambda>m. \<not> gone m) (st_messages s1)\<rparr>,
             map cm_id (filter gone (st_messages s1))))"

definition getConversationIdForCallHistory :: "CallStore \<Rightarrow> CallHistoryDetails \<Rightarrow> string option" where
  "getConversationIdForCallHistory s callHistory =
    map_option cv_id (find (\<lambda>c. cv_peerId c = cd_peerId callHistory) (st_conversations s))"

definition getMessageReceivedAtForCall :: "CallStore \<Rightarrow> string \<Rightarrow> string \<Rightarrow> int option" where
  "getMessageReceivedAtForCall s callId conversationId =
    map_option cm_received_at (getCallHistoryMessageByCallId s conversationId callId)"

definition updateMessagesWhere ::
    "(CallMessage \<Rightarrow> bool) \<Rightarrow> (CallMessage \<Rightarrow> CallMessage) \<Rightarrow> CallStore \<Rightarrow> CallStore \<times> CallMessage list" where
  "updateMessagesWhere P f s =
    (s\<lparr>st_messages := map (\<lambda>m. if P m then f m else m) (st_messages s)\<rparr>, map f (filter P (st_messages s)))"

text \<open>The generated column \<open>hasExpireTimer\<close>.\<close>

definition hasExpireTimer :: "CallMessage \<Rightarrow> bool" where
  "hasExpireTimer m = (case cm_expireTimer m of None \<Rightarrow> False | Some t \<Rightarrow> t > 0)"

definition markedRead :: "CallMessage \<Rightarrow> CallMessage" where
  "markedRead m = m\<lparr>cm_readStatus := Some RRead, cm_seenStatus := Some Seen\<rparr>"

definition getUnreadCallMessageAndMarkRead ::
    "string \<Rightarrow> int \<Rightarrow> CallStore \<Rightarrow> CallStore \<times> CallMessage option" where
  "getUnreadCallMessageAndMarkRead callId readAt s =
    (let (s', updated) = updateMessagesWhere (\<lambda>m. cm_callId m = callId)
           (\<lambda>m. (markedRead m)\<lparr>cm_expirationStartTimestamp :=
              (if hasExpireTimer m \<and> cm_expirationStartTimestamp m = None then Some readAt
               else cm_expirationStartTimestamp m)\<rparr>) s
     in (s', case updated of [] \<Rightarrow> None | m # _ \<Rightarrow> Some m))"

definition getUnreadCallMessagesAndMarkRead ::
    "CallLogEventTarget \<Rightarrow> int \<Rightarrow> string list \<Rightarrow> bool \<Rightarrow> CallStore \<Rightarrow> (CallStore \<times> CallMessage list) js" where
  "getUnreadCallMessagesAndMarkRead target readAt activeCallIds inConversation s =
    (case getCallHistoryForCallLogEventTarget s target of
       None \<Rightarrow> Inr (s, [])
     | Some callHistory \<Rightarrow>
         bindE (strictAssert (tg_callId target = None \<or> tg_callId target = Some (cd_callId callHistory))
           ''Call ID must be the same as target if supplied'') (\<lambda>_.
         bindE (if cd_mode callHistory = ModeAdhoc then
             bindE (strictAssert (\<not> inConversation)
               ''markAllCallHistoryRead: Not possible to mark read in conversation for Adhoc calls'') (\<lambda>_.
             Inr (Some (cd_timestamp callHistory, \<lambda>_. True)))
           else
             (case getConversationIdForCallHistory s callHistory of
                None \<Rightarrow> Inr None
              | Some conversationId \<Rightarrow>
                  (case getMessageReceivedAtForCall s (cd_callId callHistory) conversationId of
                     None \<Rightarrow> Inr None
                   | Some receivedAt \<Rightarrow>
                       Inr (Some (receivedAt, \<lambda>m. inConversation \<longrightarrow> cm_conversationId m = conversationId))))) (\<lambda>found.
         case found of
           None \<Rightarrow> Inr (s, [])
         | Some (receivedAt, predicate) \<Rightarrow>
             let (s1, updateResult) = updateMessagesWhere
                   (\<lambda>m. predicate m \<and> cm_seenStatus m = Some Unseen \<and> cm_received_at m \<le> receivedAt) markedRead s;
                 (s2, updateExpirationResult) = updateMessagesWhere
                   (\<lambda>m. predicate m \<and> cm_seenStatus m = Some Seen \<and> cm_received_at m \<le> receivedAt \<and>
                     hasExpireTimer m \<and> cm_expirationStartTimestamp m = None \<and>
                     cm_callId m \<notin> set activeCallIds)
                   (\<lambda>m. m\<lparr>cm_expirationStartTimestamp := Some readAt\<rparr>) s1
             in Inr (s2, updateExpirationResult @
                  filter (\<lambda>m. cm_id m \<notin> cm_id ` set updateExpirationResult) updateResult))))"

definition getPrevUnreadCallIdInConversation :: "CallStore \<Rightarrow> string \<Rightarrow> int \<Rightarrow> string option" where
  "getPrevUnreadCallIdInConversation s conversationId receivedAt =
    (case sort_key (\<lambda>m. - cm_received_at m) (sort_key (\<lambda>m. - cm_sent_at m)
       (filter (\<lambda>m. cm_conversationId m = conversationId \<and> isUnreadCallMessage s m \<and> cm_received_at m \<le> receivedAt)
         (st_messages s))) of
       [] \<Rightarrow> None | m # _ \<Rightarrow> Some (cm_callId m))"

definition markCallHistoryMissed :: "string list \<Rightarrow> CallStore \<Rightarrow> CallStore" where
  "markCallHistoryMissed callIds s =
    s\<lparr>st_callsHistory := map (\<lambda>r. if cd_callId r \<in> set callIds then r\<lparr>ch_status := Missed\<rparr> else r)
      (st_callsHistory s)\<rparr>"

text \<open>\<open>partition\<close> with the predicate that keeps at most ten calls, one for each peer.\<close>

fun partitionLatest :: "string list \<Rightarrow> (string \<times> string) list \<Rightarrow> (string \<times> string) list \<times> (string \<times> string) list" where
  "partitionLatest seen [] = ([], [])"
| "partitionLatest seen ((callId, peerId) # rest) =
    (if length seen \<ge> 10 \<or> peerId \<in> set seen then
       (let (latest, past) = partitionLatest seen rest in (latest, (callId, peerId) # past))
     else
       (let (latest, past) = partitionLatest (peerId # seen) rest in ((callId, peerId) # latest, past)))"

definition getRecentStaleRingsAndMarkOlderMissed :: "CallStore \<Rightarrow> CallStore \<times> (string \<times> string) list" where
  "getRecentStaleRingsAndMarkOlderMissed s =
    (let ringingCalls = map (\<lambda>r. (cd_callId r, cd_peerId r)) (sort_key (\<lambda>r. - cd_timestamp r)
           (filter (\<lambda>r. cd_type r = CallGroup \<and> ch_status r = Ringing) (st_callsHistory s)));
         (latestCalls, pastCalls) = partitionLatest [] ringingCalls
     in (markCallHistoryMissed (map fst pastCalls) s, latestCalls))"

definition markAllCallLinksDeleted :: "CallEnv \<Rightarrow> CallStore \<Rightarrow> CallStore \<times> bool" where
  "markAllCallLinksDeleted K s =
    (let synced = (\<lambda>l. lk_adminKey l \<noteq> None \<or> lk_storageID l \<noteq> None);
         marked = (\<lambda>l. synced l \<and> \<not> lk_deleted l)
     in (s\<lparr>st_callLinks := map (\<lambda>l. if marked l then l\<lparr>lk_deleted := True, lk_deletedAt := Some (k_now K),
             lk_storageNeedsSync := True\<rparr> else l) (filter synced (st_callLinks s))\<rparr>,
         list_ex marked (st_callLinks s)))"

definition getAllAdminCallLinks :: "CallStore \<Rightarrow> CallLinkRow list" where
  "getAllAdminCallLinks s =
    filter (\<lambda>l. (lk_adminKey l \<noteq> None \<or> lk_storageID l \<noteq> None) \<and> lk_rootKey l \<noteq> None) (st_callLinks s)"

section \<open>The redux slice\<close>

datatype CallHistoryAction =
    CallHistoryAdd CallHistoryDetails
  | CallHistoryRemove string
  | CallHistoryReset
  | CallHistoryReload "CallHistoryDetails list" nat
  | CallHistoryUpdateUnread nat

definition makeLookup :: "('a \<Rightarrow> 'k) \<Rightarrow> 'a list \<Rightarrow> ('k, 'a) jsmap" where
  "makeLookup key items = js_of_pairs (map (\<lambda>x. (key x, x)) items)"

primrec callHistoryReducer :: "CallHistoryAction \<Rightarrow> CallHistoryState \<Rightarrow> CallHistoryState" where
  "callHistoryReducer (CallHistoryAdd payload) state =
    state\<lparr>chs_edition := chs_edition state + 1,
      chs_callHistoryByCallId := js_set (cd_callId payload) payload (chs_callHistoryByCallId state)\<rparr>"
| "callHistoryReducer (CallHistoryRemove callId) state =
    state\<lparr>chs_edition := chs_edition state + 1,
      chs_callHistoryByCallId := js_del callId (chs_callHistoryByCallId state)\<rparr>"
| "callHistoryReducer CallHistoryReset state =
    state\<lparr>chs_edition := chs_edition state + 1, chs_callHistoryByCallId := []\<rparr>"
| "callHistoryReducer (CallHistoryReload callsHistory unread) state =
    \<lparr>chs_edition = chs_edition state + 1, chs_unreadCount = unread,
     chs_callHistoryByCallId = makeLookup cd_callId callsHistory\<rparr>"
| "callHistoryReducer (CallHistoryUpdateUnread unread) state = state\<lparr>chs_unreadCount := unread\<rparr>"

definition dispatch :: "CallHistoryAction \<Rightarrow> CallStore \<Rightarrow> CallStore" where
  "dispatch action s = s\<lparr>st_redux := callHistoryReducer action (st_redux s)\<rparr>"

definition getCallHistoryLatestCall :: "CallHistoryState \<Rightarrow> CallHistoryDetails option" where
  "getCallHistoryLatestCall state =
    fold (\<lambda>call latestCall.
        if cd_type call = CallAdhoc \<and> ch_status call = Pending then latestCall
        else (case latestCall of
            None \<Rightarrow> Some call
          | Some l \<Rightarrow> if cd_timestamp call > cd_timestamp l then Some call else latestCall))
      (js_values (chs_callHistoryByCallId state)) None"

definition loadCallHistory :: "CallStore \<Rightarrow> CallStore \<times> CallHistoryDetails list \<times> nat" where
  "loadCallHistory s =
    (let s1 = cleanupCallHistoryMessages s in (s1, getAllCallHistory s1, getCallHistoryUnreadCount s1))"

definition reloadCallHistory :: "CallStore \<Rightarrow> CallStore" where
  "reloadCallHistory s =
    (let (s1, callsHistory, unread) = loadCallHistory s in dispatch (CallHistoryReload callsHistory unread) s1)"

end
