(* ===== verification/Call_Actions.thy ===== *)
theory Call_Actions
  imports Call_History
begin

text \<open>
  The handlers of the history of calls (the actions of ts/util/callDisposition.preload.ts and their callers),
  as functions on the state of \<open>Call_History\<close>. A handler that may throw returns the state it leaves and the
  result, an error on the left.
\<close>

section \<open>Conversations\<close>

definition getCallConversation :: "CallStore \<Rightarrow> string \<Rightarrow> CallConversation option" where
  "getCallConversation s key = find (\<lambda>c. cv_id c = key \<or> cv_peerId c = key) (st_conversations s)"

definition isConversationMuted :: "CallEnv \<Rightarrow> CallConversation \<Rightarrow> bool" where
  "isConversationMuted K c = (case cv_muteExpiresAt c of None \<Rightarrow> False | Some t \<Rightarrow> k_muteIsActive K t)"

definition canConversationBeUnarchived :: "CallEnv \<Rightarrow> CallConversation \<Rightarrow> bool" where
  "canConversationBeUnarchived K c =
    (if \<not> cv_isArchived c then False
     else if \<not> isConversationMuted K c then True
     else if k_keepMutedChatsArchived K = Some True then False
     else True)"

definition setConversation :: "CallConversation \<Rightarrow> CallStore \<Rightarrow> CallStore" where
  "setConversation c s =
    s\<lparr>st_conversations := map (\<lambda>x. if cv_id x = cv_id c then c else x) (st_conversations s)\<rparr>"

section \<open>Deleting call messages\<close>

definition getDeleteCallEvent :: "CallHistoryDetails \<Rightarrow> ProtoCallEvent js" where
  "getDeleteCallEvent callDetails = getProtoForCallHistory (callDetails\<lparr>ch_status := Deleted\<rparr>)"

text \<open>\<open>maybeDeleteCall\<close> runs in a queue whose failures are dropped: when it throws, nothing happened yet.\<close>

definition maybeDeleteCall :: "CallEnv \<Rightarrow> bool \<Rightarrow> CallMessage \<Rightarrow> CallStore \<Rightarrow> CallStore" where
  "maybeDeleteCall K fromSync message s =
    (let callId = cm_callId message
     in if callId = [] then s
        else (case js_get (chs_callHistoryByCallId (st_redux s)) callId of
            None \<Rightarrow> s
          | Some callHistory \<Rightarrow>
              if ch_status callHistory \<in> {Pending, Joined, OutgoingRing, Ringing} then s
              else if \<not> fromSync \<and> k_otherDevices K then
                (case getDeleteCallEvent callHistory of
                   Inl _ \<Rightarrow> s
                 | Inr p \<Rightarrow> dispatch (CallHistoryRemove callId)
                     (markCallHistoryDeleted K callId (emit (QueueCallEventSync p) s)))
              else dispatch (CallHistoryRemove callId) (markCallHistoryDeleted K callId s)))"

definition removeMessageById :: "CallEnv \<Rightarrow> bool \<Rightarrow> string \<Rightarrow> CallStore \<Rightarrow> CallStore" where
  "removeMessageById K fromSync msgId s =
    (case find (\<lambda>m. cm_id m = msgId) (st_messages s) of
       None \<Rightarrow> s
     | Some m \<Rightarrow> maybeDeleteCall K fromSync m (removeMessageRow msgId s))"

section \<open>Saving a call\<close>

definition callSeenStatus :: "CallHistoryDetails \<Rightarrow> CallMessage option \<Rightarrow> SeenStatus" where
  "callSeenStatus callHistory prevMessage =
    (let isUnseenDirectCall = cd_mode callHistory = ModeDirect \<and> cd_direction callHistory = Incoming \<and>
           (ch_status callHistory = Missed \<or> ch_status callHistory = Pending);
         isUnseenGroupCall = cd_mode callHistory = ModeGroup \<and> cd_direction callHistory = Incoming \<and>
           (ch_status callHistory = Ringing \<or> ch_status callHistory = GenericGroupCall \<or>
            ch_status callHistory = Missed);
         seenStatus = (if isUnseenDirectCall \<or> isUnseenGroupCall then Unseen else Seen)
     in (case prevMessage of
           None \<Rightarrow> seenStatus
         | Some m \<Rightarrow> (case cm_seenStatus m of None \<Rightarrow> seenStatus | Some prev \<Rightarrow> maxSeenStatus seenStatus prev)))"

definition callMessage ::
    "CallEnv \<Rightarrow> CallHistoryDetails \<Rightarrow> CallConversation \<Rightarrow> CallMessage option \<Rightarrow> int \<Rightarrow> int option \<Rightarrow>
     string option \<Rightarrow> int option \<Rightarrow> CallMessage" where
  "callMessage K callHistory conversation prev counter receivedAtMS serverGuid eventTimestamp =
    (let seenStatus = callSeenStatus callHistory prev;
         expireTimer = (if k_disappearingCalls K then
             (case prev of Some m \<Rightarrow> cm_expireTimer m | None \<Rightarrow> cv_expireTimer conversation) else None);
         start0 = (case prev of None \<Rightarrow> None | Some m \<Rightarrow> cm_expirationStartTimestamp m);
         start = (if expireTimer \<noteq> None \<and> seenStatus = Seen \<and> \<not> k_isCallActive K (cv_id conversation) \<and>
               start0 = None
             then Some (case eventTimestamp of Some t \<Rightarrow> min t (k_now K) | None \<Rightarrow> k_now K) else start0)
     in \<lparr>cm_id = (case prev of Some m \<Rightarrow> cm_id m | None \<Rightarrow> k_newMessageId K counter),
         cm_conversationId = cv_id conversation, cm_callId = cd_callId callHistory,
         cm_timestamp = (case prev of Some m \<Rightarrow> cm_timestamp m | None \<Rightarrow> cd_timestamp callHistory),
         cm_sent_at = (case prev of Some m \<Rightarrow> cm_sent_at m | None \<Rightarrow> cd_timestamp callHistory),
         cm_received_at = counter,
         cm_received_at_ms = (case prev of Some m \<Rightarrow> cm_received_at_ms m
           | None \<Rightarrow> (case receivedAtMS of Some t \<Rightarrow> t | None \<Rightarrow> cd_timestamp callHistory)),
         cm_readStatus = Some RRead, cm_seenStatus = Some seenStatus,
         cm_serverGuid = (case (case prev of None \<Rightarrow> None | Some m \<Rightarrow> cm_serverGuid m) of
             Some g \<Rightarrow> Some g
           | None \<Rightarrow> if serverGuid = Some [] then None else serverGuid),
         cm_expireTimer = expireTimer, cm_expirationStartTimestamp = start\<rparr>)"

definition saveCallHistory ::
    "CallEnv \<Rightarrow> CallHistoryDetails \<Rightarrow> CallConversation \<Rightarrow> int option \<Rightarrow> int option \<Rightarrow> string option \<Rightarrow>
     int option \<Rightarrow> CallStore \<Rightarrow> CallStore" where
  "saveCallHistory K callHistory conversation receivedAtCounter receivedAtMS serverGuid eventTimestamp s =
    (let isDeleted = ch_status callHistory = Deleted;
         s1 = saveCallHistoryRow callHistory s;
         s2 = (if isDeleted then dispatch (CallHistoryRemove (cd_callId callHistory)) s1
               else dispatch (CallHistoryAdd callHistory) s1);
         prevMessage = getCallHistoryMessageByCallId s2 (cv_id conversation) (cd_callId callHistory)
     in if isDeleted then
          (case prevMessage of None \<Rightarrow> s2 | Some m \<Rightarrow> removeMessageById K True (cm_id m) s2)
        else
          (let (counter, s3) =
                 (case prevMessage of
                    Some m \<Rightarrow> (cm_received_at m, s2)
                  | None \<Rightarrow> (case receivedAtCounter of
                      Some n \<Rightarrow> (n, s2)
                    | None \<Rightarrow> (st_messageCounter s2 + 1, s2\<lparr>st_messageCounter := st_messageCounter s2 + 1\<rparr>)));
               message = callMessage K callHistory conversation prevMessage counter receivedAtMS serverGuid
                 eventTimestamp;
               s4 = saveMessageRow (prevMessage = None) message s3;
               s5 = (if prevMessage = None then
                   emit (OnNewMessage message)
                     (emit (if cd_direction callHistory = Outgoing then IncrementSentMessageCount (cv_id conversation)
                        else IncrementMessageCount (cv_id conversation)) s4)
                 else s4);
               s6 = emit (UpdateLastMessage (cv_id conversation)) s5;
               conversation1 = conversation\<lparr>cv_active_at :=
                 Some (max (case cv_active_at conversation of None \<Rightarrow> 0 | Some t \<Rightarrow> t) (cd_timestamp callHistory))\<rparr>;
               conversation2 = (if canConversationBeUnarchived K conversation1
                 then conversation1\<lparr>cv_isArchived := False\<rparr> else conversation1);
               s7 = emit (UpdateConversation conversation2) (setConversation conversation2 s6)
           in emit (UpdateUnread [cv_id conversation]) s7))"

section \<open>Updating from events\<close>

definition updateLocalCallHistory ::
    "CallEnv \<Rightarrow> CallEventDetails \<Rightarrow> int option \<Rightarrow> int option \<Rightarrow> string option \<Rightarrow> CallStore \<Rightarrow>
     CallStore \<times> CallHistoryDetails option js" where
  "updateLocalCallHistory K callEvent receivedAtCounter receivedAtMS serverGuid s =
    (case getCallConversation s (cd_peerId callEvent) of
       None \<Rightarrow> (s, throw ''updateLocalCallHistory: Conversation not found'')
     | Some conversation \<Rightarrow>
         let prevCallHistory = getCallHistory s (cd_callId callEvent) (cd_peerId callEvent)
         in (case transitionCallHistory prevCallHistory callEvent of
               Inl _ \<Rightarrow> (s, Inr None)
             | Inr callHistory \<Rightarrow>
                 (saveCallHistory K callHistory conversation receivedAtCounter receivedAtMS serverGuid
                    (Some (ce_eventTimestamp callEvent)) s,
                  Inr (Some callHistory))))"

definition updateLocalAdhocCallHistory ::
    "CallEventDetails \<Rightarrow> CallStore \<Rightarrow> CallStore \<times> CallHistoryDetails option js" where
  "updateLocalAdhocCallHistory callEvent s =
    (let prevCallHistory = getCallHistory s (cd_callId callEvent) (cd_peerId callEvent)
     in (case transitionCallHistory prevCallHistory callEvent of
           Inl _ \<Rightarrow> (s, Inr None)
         | Inr callHistory \<Rightarrow>
             if ch_status callHistory \<notin> {GenericAdhocCall, Pending, JoinedAdhoc, Deleted} then
               (s, throw ''updateAdhocCallHistory: callHistory must have adhoc status'')
             else
               (let s1 = (if prevCallHistory = Some callHistory then s
                    else
                      (let s' = saveCallHistoryRow callHistory s
                       in if prevCallHistory = None \<and>
                            list_ex (\<lambda>l. lk_roomId l = cd_peerId callEvent) (st_callLinks s')
                          then emit (SendCallLinkUpdateSync (cd_peerId callEvent)) s' else s'));
                    s2 = (if ch_status callHistory = Deleted
                      then dispatch (CallHistoryRemove (cd_callId callHistory)) s1
                      else dispatch (CallHistoryAdd callHistory) s1)
                in (s2, Inr (Some callHistory)))))"

definition updateRemoteCallHistory :: "CallEnv \<Rightarrow> CallHistoryDetails \<Rightarrow> CallStore \<Rightarrow> CallStore" where
  "updateRemoteCallHistory K callHistory s =
    (if \<not> shouldSyncStatus (ch_status callHistory) then s
     else if \<not> k_otherDevices K then s
     else (case getProtoForCallHistory callHistory of
         Inl _ \<Rightarrow> s
       | Inr p \<Rightarrow> emit (QueueCallEventSync p) s))"

definition updateAdhocCallHistory :: "CallEnv \<Rightarrow> CallEventDetails \<Rightarrow> CallStore \<Rightarrow> CallStore \<times> unit js" where
  "updateAdhocCallHistory K callEvent s =
    (case updateLocalAdhocCallHistory callEvent s of
       (s', Inl e) \<Rightarrow> (s', Inl e)
     | (s', Inr None) \<Rightarrow> (s', Inr ())
     | (s', Inr (Some callHistory)) \<Rightarrow> (updateRemoteCallHistory K callHistory s', Inr ()))"

definition updateCallHistoryFromRemoteEvent ::
    "CallEnv \<Rightarrow> CallEventDetails \<Rightarrow> int \<Rightarrow> int \<Rightarrow> CallStore \<Rightarrow> CallStore \<times> unit js" where
  "updateCallHistoryFromRemoteEvent K callEvent receivedAtCounter receivedAtMS s =
    (if cd_mode callEvent = ModeDirect \<or> cd_mode callEvent = ModeGroup then
       (case updateLocalCallHistory K callEvent (Some receivedAtCounter) (Some receivedAtMS) None s of
          (s', r) \<Rightarrow> (s', bindE r (\<lambda>_. Inr ())))
     else
       (case updateLocalAdhocCallHistory callEvent s of (s', r) \<Rightarrow> (s', bindE r (\<lambda>_. Inr ()))))"

definition updateCallHistoryFromLocalEvent ::
    "CallEnv \<Rightarrow> CallEventDetails \<Rightarrow> int option \<Rightarrow> int option \<Rightarrow> string option \<Rightarrow> CallStore \<Rightarrow> CallStore \<times> unit js" where
  "updateCallHistoryFromLocalEvent K callEvent receivedAtCounter receivedAtMS serverGuid s =
    (case updateLocalCallHistory K callEvent receivedAtCounter receivedAtMS serverGuid s of
       (s', Inl e) \<Rightarrow> (s', Inl e)
     | (s', Inr None) \<Rightarrow> (s', Inr ())
     | (s', Inr (Some updatedCallHistory)) \<Rightarrow> (updateRemoteCallHistory K updatedCallHistory s', Inr ()))"

text \<open>The second component of the result: whether the sync message was confirmed.\<close>

definition onCallEventSync ::
    "CallEnv \<Rightarrow> CallEventDetails \<Rightarrow> int \<Rightarrow> int \<Rightarrow> CallStore \<Rightarrow> CallStore \<times> bool js" where
  "onCallEventSync K callEventDetails receivedAtCounter receivedAtMS s =
    (if (cd_mode callEventDetails = ModeDirect \<or> cd_mode callEventDetails = ModeGroup) \<and>
        getCallConversation s (cd_peerId callEventDetails) = None then (s, Inr False)
     else (case updateCallHistoryFromRemoteEvent K callEventDetails receivedAtCounter receivedAtMS s of
         (s', r) \<Rightarrow> (s', bindE r (\<lambda>_. Inr True))))"

definition updateLocalGroupCallHistoryTimestamp ::
    "CallEnv \<Rightarrow> string \<Rightarrow> string \<Rightarrow> int \<Rightarrow> CallStore \<Rightarrow> CallStore \<times> CallHistoryDetails option" where
  "updateLocalGroupCallHistoryTimestamp K conversationId callId timestamp s =
    (case getCallConversation s conversationId of
       None \<Rightarrow> (s, None)
     | Some conversation \<Rightarrow>
         (case getCallHistory s callId (cv_peerId conversation) of
            None \<Rightarrow> (s, None)
          | Some prevCallHistory \<Rightarrow>
              if timestamp \<ge> cd_timestamp prevCallHistory then (s, Some prevCallHistory)
              else
                (let callHistory = prevCallHistory\<lparr>cd_timestamp := timestamp\<rparr>
                 in (saveCallHistory K callHistory conversation None None None None s, Some callHistory))))"

section \<open>Clearing and reading the call log\<close>

definition updateDeletedMessages :: "CallEnv \<Rightarrow> string list \<Rightarrow> CallStore \<Rightarrow> CallStore" where
  "updateDeletedMessages K messageIds s =
    fold (\<lambda>messageId s.
        case k_cachedMessage K messageId of
          None \<Rightarrow> s
        | Some conversationId \<Rightarrow>
            if getCallConversation s conversationId = None then s else emit (MessageDeleted messageId) s)
      messageIds s"

datatype ClearCallHistoryResult = ClearSuccess | ClearError | ClearErrorDeletingCallLinks

definition getClearCallHistoryMessage :: "CallLogEvent \<Rightarrow> CallHistoryDetails \<Rightarrow> ProtoCallLogEvent js" where
  "getClearCallHistoryMessage ty latestCall =
    bindE (getCallIdForProto latestCall) (\<lambda>callId.
    Inr \<lparr>pcl_type = Some ty, pcl_timestamp = Some (cd_timestamp latestCall),
         pcl_conversationId = Some (getBytesForPeerId latestCall), pcl_callId = callId\<rparr>)"

definition deleteAdminCallLinks :: "CallEnv \<Rightarrow> CallLinkRow list \<Rightarrow> CallStore \<Rightarrow> CallStore \<times> nat" where
  "deleteAdminCallLinks K links s =
    fold (\<lambda>callLink (s, failCount).
        case k_deleteCallLink K callLink of
          Inl _ \<Rightarrow> (s, failCount + 1)
        | Inr _ \<Rightarrow> (deleteCallHistoryByRoomId K (lk_roomId callLink) s, failCount))
      links (s, 0)"

definition clearCallHistoryDataAndSync ::
    "CallEnv \<Rightarrow> CallHistoryDetails \<Rightarrow> CallStore \<Rightarrow> CallStore \<times> ClearCallHistoryResult" where
  "clearCallHistoryDataAndSync K latestCall s =
    (let (s1, messageIds) = clearCallHistory K
           (TargetPeer (cd_timestamp latestCall) (Some (cd_callId latestCall)) (Some (cd_peerId latestCall))) s;
         (s2, isStorageSyncNeeded) = markAllCallLinksDeleted K s1;
         s3 = (if isStorageSyncNeeded then emit RunStorageUpload s2 else s2);
         s4 = updateDeletedMessages K messageIds s3
     in (case (if k_otherDevices K then
             bindE (getClearCallHistoryMessage LogClear latestCall) (\<lambda>p. Inr (emit (QueueCallLogEventSync p) s4))
           else Inr s4) of
           Inl _ \<Rightarrow> (s4, ClearError)
         | Inr s5 \<Rightarrow>
             let adminCallLinks = getAllAdminCallLinks s5
             in if length adminCallLinks > 0 then
                  (let (s6, failCount) = deleteAdminCallLinks K adminCallLinks s5;
                       s7 = emit TriggerCallLinkCleanup s6
                   in (s7, if failCount > 0 then ClearErrorDeletingCallLinks else ClearSuccess))
                else (s5, ClearSuccess)))"

datatype MarkCallHistoryReadParams =
    OnlyTargetCall string int
  | AllCallsInConversation CallLogEventTarget int
  | AllCalls CallLogEventTarget int

definition markCallHistoryReadWithoutSync ::
    "CallEnv \<Rightarrow> MarkCallHistoryReadParams \<Rightarrow> CallStore \<Rightarrow> CallStore js" where
  "markCallHistoryReadWithoutSync K params s =
    bindE (case params of
        OnlyTargetCall callId readAt \<Rightarrow>
          (let (s', m) = getUnreadCallMessageAndMarkRead callId readAt s
           in Inr (s', case m of None \<Rightarrow> [] | Some m \<Rightarrow> [m]))
      | AllCallsInConversation target readAt \<Rightarrow>
          getUnreadCallMessagesAndMarkRead target readAt (k_activeCallIds K) True s
      | AllCalls target readAt \<Rightarrow>
          getUnreadCallMessagesAndMarkRead target readAt (k_activeCallIds K) False s)
    (\<lambda>(s1, updatedMessages).
      let s2 = (if length updatedMessages > 0 then emit UpdateExpiringMessages s1 else s1)
      in Inr (emit (UpdateUnread (fold set_add (map cm_conversationId updatedMessages) [])) s2))"

definition markAllCallHistoryReadAndSync :: "CallEnv \<Rightarrow> CallHistoryDetails \<Rightarrow> int \<Rightarrow> bool \<Rightarrow> CallStore \<Rightarrow> CallStore" where
  "markAllCallHistoryReadAndSync K latestCall readAt inConversation s =
    (let target = TargetPeer (cd_timestamp latestCall) (Some (cd_callId latestCall)) (Some (cd_peerId latestCall))
     in (case markCallHistoryReadWithoutSync K
             (if inConversation then AllCallsInConversation target readAt else AllCalls target readAt) s of
           Inl _ \<Rightarrow> s
         | Inr s1 \<Rightarrow>
             (case getClearCallHistoryMessage
                 (if inConversation then LogMarkedAsReadInConversation else LogMarkedAsRead) latestCall of
                Inl _ \<Rightarrow> s1
              | Inr p \<Rightarrow> if k_otherDevices K then emit (QueueCallLogEventSync p) s1 else s1)))"

definition onCallLogEventSync :: "CallEnv \<Rightarrow> CallLogEventDetails \<Rightarrow> CallStore \<Rightarrow> CallStore js" where
  "onCallLogEventSync K d s =
    (let target = TargetEither (cl_targetTimestamp d) (cl_callId d) (cl_peerIdAsConversationId d) (cl_peerIdAsRoomId d);
         readAt = min (k_now K) (cl_eventTimestamp d)
     in (case cl_type d of
           LogClear \<Rightarrow>
             (let unreadConversationIds = getCallHistoryUnreadCallConversationIds s;
                  (s1, messageIds) = clearCallHistory K target s;
                  s2 = updateDeletedMessages K messageIds s1
              in Inr (emit (UpdateUnread unreadConversationIds) (dispatch CallHistoryReset s2)))
         | LogMarkedAsRead \<Rightarrow> markCallHistoryReadWithoutSync K (AllCalls target readAt) s
         | LogMarkedAsReadInConversation \<Rightarrow> markCallHistoryReadWithoutSync K (AllCallsInConversation target readAt) s
         | LogClearInConversation \<Rightarrow> Inr s))"

end
