(* ===== verification/Call_Runs.thy ===== *)
theory Call_Runs
  imports Call_Actions
begin

text \<open>
  The history of calls as a state machine: every handler of \<open>Call_Actions\<close> is a step, a run is a sequence of
  steps from any state. The clean-up of stale rings (ts/services/calling.preload.ts,
  \<open>cleanupStaleRingingCalls\<close>) is two steps, because other handlers run while it asks the server: the
  calls it asks about are the second component of a configuration.

  The environment of a step may be any, with the assumptions that the code makes of it: the id of a new
  message is not in use, and a call id (a random number, or the hash of an era) does not occur with two peers.
\<close>

section \<open>Steps and runs\<close>

datatype call_action =
    RemoteEvent CallEventDetails int int
  | LocalEvent CallEventDetails "int option" "int option" "string option"
  | AdhocEvent CallEventDetails
  | GroupTimestamp string string int
  | CallLogSync CallLogEventDetails
  | ClearAll CallHistoryDetails
  | MarkOneRead string int
  | MarkAllRead CallHistoryDetails int bool
  | DeleteCallMessage string bool
  | ReloadHistory
  | StaleRings
  | StaleRingsPeeked "string list"

type_synonym call_config = "CallStore \<times> string list"

definition or_same :: "'a \<Rightarrow> 'a js \<Rightarrow> 'a" where
  "or_same s r = (case r of Inl _ \<Rightarrow> s | Inr s' \<Rightarrow> s')"

text \<open>\<open>cleanupStaleRingingCalls\<close>: the answers arrive later, \<open>ids\<close> are the calls without peek info.\<close>

definition cleanupStaleRingingCalls :: "call_config \<Rightarrow> call_config" where
  "cleanupStaleRingingCalls cfg =
    (let (s', calls) = getRecentStaleRingsAndMarkOlderMissed (fst cfg) in (s', snd cfg @ map fst calls))"

definition staleRingsPeeked :: "string list \<Rightarrow> call_config \<Rightarrow> call_config" where
  "staleRingsPeeked staleCallIds cfg = (markCallHistoryMissed staleCallIds (fst cfg), snd cfg)"

primrec callAction :: "CallEnv \<Rightarrow> call_action \<Rightarrow> call_config \<Rightarrow> call_config" where
  "callAction K (RemoteEvent e n ms) cfg = (fst (onCallEventSync K e n ms (fst cfg)), snd cfg)"
| "callAction K (LocalEvent e n ms guid) cfg = (fst (updateCallHistoryFromLocalEvent K e n ms guid (fst cfg)), snd cfg)"
| "callAction K (AdhocEvent e) cfg = (fst (updateAdhocCallHistory K e (fst cfg)), snd cfg)"
| "callAction K (GroupTimestamp conv callId t) cfg =
    (fst (updateLocalGroupCallHistoryTimestamp K conv callId t (fst cfg)), snd cfg)"
| "callAction K (CallLogSync d) cfg = (or_same (fst cfg) (onCallLogEventSync K d (fst cfg)), snd cfg)"
| "callAction K (ClearAll latest) cfg = (fst (clearCallHistoryDataAndSync K latest (fst cfg)), snd cfg)"
| "callAction K (MarkOneRead callId readAt) cfg =
    (or_same (fst cfg) (markCallHistoryReadWithoutSync K (OnlyTargetCall callId readAt) (fst cfg)), snd cfg)"
| "callAction K (MarkAllRead latest readAt inConversation) cfg =
    (markAllCallHistoryReadAndSync K latest readAt inConversation (fst cfg), snd cfg)"
| "callAction K (DeleteCallMessage msgId fromSync) cfg = (removeMessageById K fromSync msgId (fst cfg), snd cfg)"
| "callAction K ReloadHistory cfg = (reloadCallHistory (fst cfg), snd cfg)"
| "callAction K StaleRings cfg = cleanupStaleRingingCalls cfg"
| "callAction K (StaleRingsPeeked ids) cfg = staleRingsPeeked ids cfg"

text \<open>The assumptions on the environment, and the modes of the events of each source.\<close>

definition knownPeer :: "CallStore \<Rightarrow> CallEventDetails \<Rightarrow> bool" where
  "knownPeer s e \<longleftrightarrow> list_all (\<lambda>r. cd_callId r = cd_callId e \<longrightarrow> cd_peerId r = cd_peerId e) (st_callsHistory s)"

definition freshMessageIds :: "CallEnv \<Rightarrow> CallStore \<Rightarrow> bool" where
  "freshMessageIds K s \<longleftrightarrow> (\<forall>n. k_newMessageId K n \<notin> cm_id ` set (st_messages s))"

primrec enabled :: "CallEnv \<Rightarrow> call_action \<Rightarrow> call_config \<Rightarrow> bool" where
  "enabled K (RemoteEvent e n ms) cfg \<longleftrightarrow> knownPeer (fst cfg) e \<and> freshMessageIds K (fst cfg)"
| "enabled K (LocalEvent e n ms guid) cfg \<longleftrightarrow>
    knownPeer (fst cfg) e \<and> freshMessageIds K (fst cfg) \<and> cd_mode e \<noteq> ModeAdhoc"
| "enabled K (AdhocEvent e) cfg \<longleftrightarrow> knownPeer (fst cfg) e \<and> cd_mode e = ModeAdhoc"
| "enabled K (GroupTimestamp conv callId t) cfg \<longleftrightarrow> freshMessageIds K (fst cfg) \<and>
    list_all (\<lambda>r. cd_callId r = callId \<longrightarrow> cd_mode r \<noteq> ModeAdhoc) (st_callsHistory (fst cfg))"
| "enabled K (CallLogSync d) cfg \<longleftrightarrow> True"
| "enabled K (ClearAll latest) cfg \<longleftrightarrow> True"
| "enabled K (MarkOneRead callId readAt) cfg \<longleftrightarrow> True"
| "enabled K (MarkAllRead latest readAt inConversation) cfg \<longleftrightarrow> True"
| "enabled K (DeleteCallMessage msgId fromSync) cfg \<longleftrightarrow> True"
| "enabled K ReloadHistory cfg \<longleftrightarrow> True"
| "enabled K StaleRings cfg \<longleftrightarrow> True"
| "enabled K (StaleRingsPeeked ids) cfg \<longleftrightarrow> set ids \<subseteq> set (snd cfg)"

inductive call_run :: "call_config \<Rightarrow> call_action list \<Rightarrow> call_config \<Rightarrow> bool" where
  call_run_nil: "call_run cfg [] cfg"
| call_run_step: "enabled K a cfg \<Longrightarrow> call_run (callAction K a cfg) as cfg' \<Longrightarrow> call_run cfg (a # as) cfg'"

inductive_cases call_run_ConsE: "call_run cfg (a # as) cfg'"
inductive_simps call_run_Nil [simp]: "call_run cfg [] cfg'"

lemma call_run_invariant:
  assumes "call_run cfg as cfg'" and "P cfg"
    and "\<And>K a cfg. a \<in> set as \<Longrightarrow> enabled K a cfg \<Longrightarrow> P cfg \<Longrightarrow> P (callAction K a cfg)"
  shows "P cfg'"
  using assms by (induction rule: call_run.induct) auto

section \<open>The invariant of the tables\<close>

text \<open>
  The lookup of conversations reads their ids and peer ids only. The invariant is stated on the tables: the
  keys of the conversations, the room ids of the call links, the rows of the history, the keys of the messages
  (id, conversation, call) and the calls whose rings are being checked.
\<close>

type_synonym conv_keys = "(string \<times> string) list"
type_synonym msg_key = "string \<times> string \<times> string"

definition convKeys :: "CallStore \<Rightarrow> conv_keys" where
  "convKeys s = map (\<lambda>c. (cv_id c, cv_peerId c)) (st_conversations s)"

definition convIdIn :: "conv_keys \<Rightarrow> string \<Rightarrow> string option" where
  "convIdIn C key = map_option fst (find (\<lambda>(i, q). i = key \<or> q = key) C)"

definition msgKeys :: "CallStore \<Rightarrow> msg_key list" where
  "msgKeys s = map (\<lambda>m. (cm_id m, cm_conversationId m, cm_callId m)) (st_messages s)"

definition keys_ok :: "conv_keys \<Rightarrow> string list \<Rightarrow> bool" where
  "keys_ok C L \<longleftrightarrow> distinct (map fst C) \<and> (\<forall>(i, q) \<in> set C. convIdIn C q = Some i) \<and> (\<forall>l \<in> set L. convIdIn C l = None)"

definition visibleCall :: "conv_keys \<Rightarrow> CallHistoryDetails list \<Rightarrow> msg_key \<Rightarrow> bool" where
  "visibleCall C R = (\<lambda>(i, v, c). \<exists>r \<in> set R. cd_callId r = c \<and> ch_status r \<noteq> Deleted \<and> cd_mode r \<noteq> ModeAdhoc \<and>
    convIdIn C (cd_peerId r) = Some v)"

definition tables_ok :: "conv_keys \<Rightarrow> CallHistoryDetails list \<Rightarrow> msg_key list \<Rightarrow> string list \<Rightarrow> bool" where
  "tables_ok C R M P \<longleftrightarrow>
    distinct (map cd_callId R) \<and> (\<forall>r \<in> set R. statusOfMode (cd_mode r) (ch_status r)) \<and>
    distinct (map fst M) \<and> distinct (map (snd \<circ> snd) M) \<and> (\<forall>k \<in> set M. visibleCall C R k) \<and>
    (\<forall>c \<in> set P. \<exists>r \<in> set R. cd_callId r = c \<and> cd_mode r = ModeGroup)"

definition callInv :: "call_config \<Rightarrow> bool" where
  "callInv cfg \<longleftrightarrow> keys_ok (convKeys (fst cfg)) (map lk_roomId (st_callLinks (fst cfg))) \<and>
    tables_ok (convKeys (fst cfg)) (st_callsHistory (fst cfg)) (msgKeys (fst cfg)) (snd cfg)"

lemma getCallConversation_keys: "convIdIn (convKeys s) key = map_option cv_id (getCallConversation s key)"
proof -
  have "find (\<lambda>(i, q). i = key \<or> q = key) (map (\<lambda>c. (cv_id c, cv_peerId c)) cs) =
      map_option (\<lambda>c. (cv_id c, cv_peerId c)) (find (\<lambda>c. cv_id c = key \<or> cv_peerId c = key) cs)" for cs
    by (induction cs) auto
  from this [of "st_conversations s"] show ?thesis
    unfolding convIdIn_def convKeys_def getCallConversation_def by (simp add: option.map_comp comp_def)
qed

subsection \<open>Changes of the tables that keep the invariant\<close>

text \<open>Rows change their status, messages disappear.\<close>

lemma tables_ok_map:
  assumes ok: "tables_ok C R M P"
    and key: "\<And>r. r \<in> set R \<Longrightarrow> cd_callId (g r) = cd_callId r \<and> cd_peerId (g r) = cd_peerId r \<and> cd_mode (g r) = cd_mode r"
    and typed: "\<And>r. r \<in> set R \<Longrightarrow> statusOfMode (cd_mode r) (ch_status (g r))"
    and kept: "\<And>r k. r \<in> set R \<Longrightarrow> k \<in> set M \<Longrightarrow> Q k \<Longrightarrow> snd (snd k) = cd_callId r \<Longrightarrow> visibleCall C R k \<Longrightarrow>
        ch_status r \<noteq> Deleted \<Longrightarrow> ch_status (g r) \<noteq> Deleted"
  shows "tables_ok C (map g R) (filter Q M) P"
proof -
  have "map cd_callId (map g R) = map cd_callId R" using key by simp
  moreover have "visibleCall C (map g R) k" if k: "k \<in> set (filter Q M)" for k
  proof -
    from k ok have v: "visibleCall C R k" by (simp add: tables_ok_def)
    obtain i w c where [simp]: "k = (i, w, c)" by (cases k)
    from v obtain r where r: "r \<in> set R" "cd_callId r = c" "ch_status r \<noteq> Deleted" "cd_mode r \<noteq> ModeAdhoc"
      "convIdIn C (cd_peerId r) = Some w" by (auto simp: visibleCall_def)
    with k v have "ch_status (g r) \<noteq> Deleted" by (intro kept) auto
    with r key [OF r(1)] show ?thesis by (auto simp: visibleCall_def)
  qed
  moreover have "distinct (map f (filter Q M))" if "distinct (map f M)" for f :: "msg_key \<Rightarrow> string"
    using that by (induction M) auto
  moreover have "\<exists>r \<in> set (map g R). cd_callId r = c \<and> cd_mode r = ModeGroup" if "c \<in> set P" for c
    using that ok key by (fastforce simp: tables_ok_def)
  moreover have "\<forall>r \<in> set (map g R). statusOfMode (cd_mode r) (ch_status r)"
    using key typed by auto
  ultimately show ?thesis using ok unfolding tables_ok_def by (metis (no_types, lifting))
qed

lemma tables_ok_filter: "tables_ok C R M P \<Longrightarrow> tables_ok C R (filter Q M) P"
  using tables_ok_map [of C R M P "\<lambda>r. r" Q] by (simp add: tables_ok_def)

text \<open>The row of a call is written.\<close>

abbreviation upsert :: "CallHistoryDetails \<Rightarrow> CallHistoryDetails list \<Rightarrow> CallHistoryDetails list" where
  "upsert ch R \<equiv> filter (\<lambda>r. cd_callId r \<noteq> cd_callId ch) R @ [ch]"

lemma visibleCall_upsert_other:
  "visibleCall C R k \<Longrightarrow> snd (snd k) \<noteq> cd_callId ch \<Longrightarrow> visibleCall C (upsert ch R) k"
  by (cases k) (auto simp: visibleCall_def)

lemma tables_ok_upsert:
  assumes ok: "tables_ok C R M P" and typed: "statusOfMode (cd_mode ch) (ch_status ch)"
    and mode: "\<And>r. r \<in> set R \<Longrightarrow> cd_callId r = cd_callId ch \<Longrightarrow> cd_mode r = cd_mode ch"
    and msgs: "distinct (map fst M')" "distinct (map (snd \<circ> snd) M')"
      "\<And>k. k \<in> set M' \<Longrightarrow> k \<in> set M \<and> snd (snd k) \<noteq> cd_callId ch \<or> visibleCall C (upsert ch R) k"
  shows "tables_ok C (upsert ch R) M' P"
proof -
  have "distinct (map cd_callId (upsert ch R))"
    using ok by (auto simp: tables_ok_def distinct_map_filter)
  moreover have "\<forall>r \<in> set (upsert ch R). statusOfMode (cd_mode r) (ch_status r)"
    using ok typed by (auto simp: tables_ok_def)
  moreover have "visibleCall C (upsert ch R) k" if "k \<in> set M'" for k
    using msgs(3) [OF that] ok visibleCall_upsert_other [of C R k ch] by (auto simp: tables_ok_def)
  moreover have "\<exists>r \<in> set (upsert ch R). cd_callId r = c \<and> cd_mode r = ModeGroup" if "c \<in> set P" for c
  proof -
    from ok that obtain r where "r \<in> set R" "cd_callId r = c" "cd_mode r = ModeGroup" by (auto simp: tables_ok_def)
    then show ?thesis using mode [of r] by (cases "c = cd_callId ch") auto
  qed
  ultimately show ?thesis using msgs(1,2) by (simp add: tables_ok_def)
qed

subsection \<open>What the parts of the handlers change\<close>

lemma emit_simps [simp]:
  "st_callsHistory (emit x s) = st_callsHistory s" "st_messages (emit x s) = st_messages s"
  "st_callLinks (emit x s) = st_callLinks s" "st_conversations (emit x s) = st_conversations s"
  "st_redux (emit x s) = st_redux s" "convKeys (emit x s) = convKeys s" "msgKeys (emit x s) = msgKeys s"
  by (simp_all add: emit_def convKeys_def msgKeys_def)

lemma dispatch_simps [simp]:
  "st_callsHistory (dispatch a s) = st_callsHistory s" "st_messages (dispatch a s) = st_messages s"
  "st_callLinks (dispatch a s) = st_callLinks s" "st_conversations (dispatch a s) = st_conversations s"
  "convKeys (dispatch a s) = convKeys s" "msgKeys (dispatch a s) = msgKeys s"
  by (simp_all add: dispatch_def convKeys_def msgKeys_def)

lemma saveCallHistoryRow_simps [simp]:
  "st_callsHistory (saveCallHistoryRow ch s) = upsert ch (st_callsHistory s)"
  "st_messages (saveCallHistoryRow ch s) = st_messages s" "st_callLinks (saveCallHistoryRow ch s) = st_callLinks s"
  "st_conversations (saveCallHistoryRow ch s) = st_conversations s"
  "convKeys (saveCallHistoryRow ch s) = convKeys s" "msgKeys (saveCallHistoryRow ch s) = msgKeys s"
  by (simp_all add: saveCallHistoryRow_def convKeys_def msgKeys_def)

lemma markDeletedWhere_simps [simp]:
  "st_messages (markDeletedWhere K P s) = st_messages s" "st_callLinks (markDeletedWhere K P s) = st_callLinks s"
  "st_conversations (markDeletedWhere K P s) = st_conversations s"
  "convKeys (markDeletedWhere K P s) = convKeys s" "msgKeys (markDeletedWhere K P s) = msgKeys s"
  by (simp_all add: markDeletedWhere_def convKeys_def msgKeys_def)

lemma removeMessageRow_simps [simp]:
  "st_callsHistory (removeMessageRow i s) = st_callsHistory s" "st_callLinks (removeMessageRow i s) = st_callLinks s"
  "st_conversations (removeMessageRow i s) = st_conversations s" "st_redux (removeMessageRow i s) = st_redux s"
  "convKeys (removeMessageRow i s) = convKeys s"
  "msgKeys (removeMessageRow i s) = filter (\<lambda>k. fst k \<noteq> i) (msgKeys s)"
  by (simp_all add: removeMessageRow_def convKeys_def msgKeys_def filter_map comp_def)

lemma set_find: "find P xs = Some x \<Longrightarrow> x \<in> set xs \<and> P x"
  by (induction xs) (auto split: if_splits)

lemma convKeys_setConversation:
  assumes "distinct (map cv_id (st_conversations s))" and "c \<in> set (st_conversations s)"
    and "cv_id c' = cv_id c" and "cv_peerId c' = cv_peerId c"
  shows "convKeys (setConversation c' s) = convKeys s"
proof -
  have "cv_peerId x = cv_peerId c'" if "x \<in> set (st_conversations s)" "cv_id x = cv_id c'" for x
    using that assms by (metis distinct_map inj_onD)
  then show ?thesis using assms(3) by (auto simp: convKeys_def setConversation_def)
qed

lemma setConversation_simps [simp]:
  "st_callsHistory (setConversation c s) = st_callsHistory s" "st_messages (setConversation c s) = st_messages s"
  "st_callLinks (setConversation c s) = st_callLinks s" "msgKeys (setConversation c s) = msgKeys s"
  by (simp_all add: setConversation_def msgKeys_def)

abbreviation deletedRow :: "CallEnv \<Rightarrow> CallHistoryDetails \<Rightarrow> CallHistoryDetails" where
  "deletedRow K r \<equiv> r\<lparr>ch_status := Deleted, cd_timestamp := k_now K\<rparr>"

lemma deleted_typed: "statusOfMode m Deleted"
  by (cases m) (simp_all add: status_defs)

text \<open>Deleting a message removes it and may mark the row of its call deleted.\<close>

lemma removeMessageById_changes:
  obtains Q where "st_callsHistory (removeMessageById K fs i s) =
      map (\<lambda>r. if Q r then deletedRow K r else r) (st_callsHistory s)"
    and "\<And>r. Q r \<Longrightarrow> \<exists>k \<in> set (msgKeys s). fst k = i \<and> snd (snd k) = cd_callId r"
    and "msgKeys (removeMessageById K fs i s) = filter (\<lambda>k. fst k \<noteq> i) (msgKeys s)"
    and "convKeys (removeMessageById K fs i s) = convKeys s"
    and "st_callLinks (removeMessageById K fs i s) = st_callLinks s"
proof (cases "find (\<lambda>m. cm_id m = i) (st_messages s)")
  case None
  then have "filter (\<lambda>k. fst k \<noteq> i) (msgKeys s) = msgKeys s"
    by (auto simp: msgKeys_def find_None_iff intro!: filter_True)
  with None show ?thesis by (intro that [of "\<lambda>_. False"]) (simp_all add: removeMessageById_def)
next
  case (Some m)
  then have m: "m \<in> set (st_messages s)" "cm_id m = i" using set_find by fastforce+
  let ?s = "removeMessageRow i s"
  let ?t = "maybeDeleteCall K fs m ?s"
  have key: "\<exists>k \<in> set (msgKeys s). fst k = i \<and> snd (snd k) = cm_callId m"
    using m by (auto simp: msgKeys_def intro!: bexI [of _ m])
  have t: "removeMessageById K fs i s = ?t" using Some by (simp add: removeMessageById_def)
  have "\<exists>Q. st_callsHistory ?t = map (\<lambda>r. if Q r then deletedRow K r else r) (st_callsHistory s) \<and>
      (\<forall>r. Q r \<longrightarrow> cd_callId r = cm_callId m)"
    by (auto simp: maybeDeleteCall_def Let_def markCallHistoryDeleted_def markDeletedWhere_def
        intro: exI [of _ "\<lambda>_. False"] exI [of _ "\<lambda>r. cd_callId r = cm_callId m"]
        split: option.splits sum.splits)
  then obtain Q where Q: "st_callsHistory ?t = map (\<lambda>r. if Q r then deletedRow K r else r) (st_callsHistory s)"
    "\<And>r. Q r \<Longrightarrow> cd_callId r = cm_callId m" by blast
  moreover have "msgKeys ?t = filter (\<lambda>k. fst k \<noteq> i) (msgKeys s)" "convKeys ?t = convKeys s"
    "st_callLinks ?t = st_callLinks s"
    by (auto simp: maybeDeleteCall_def Let_def markCallHistoryDeleted_def split: option.splits sum.splits)
  ultimately show ?thesis using key by (intro that [of Q]) (simp_all add: t)
qed

text \<open>Keys with one component in common are one key.\<close>

lemma tables_ok_unique:
  assumes "tables_ok C R M P" and "k \<in> set M" and "k' \<in> set M"
  shows "snd (snd k) = snd (snd k') \<Longrightarrow> k = k'" and "fst k = fst k' \<Longrightarrow> k = k'"
  using assms by (auto simp: tables_ok_def distinct_map inj_on_def)

lemma callInv_remove:
  assumes inv: "callInv (s, P)"
  shows "callInv (removeMessageById K fs i s, P)"
proof -
  have ok: "tables_ok (convKeys s) (st_callsHistory s) (msgKeys s) P" using inv by (simp add: callInv_def)
  obtain Q where Q: "st_callsHistory (removeMessageById K fs i s) =
      map (\<lambda>r. if Q r then deletedRow K r else r) (st_callsHistory s)"
    "\<And>r. Q r \<Longrightarrow> \<exists>k \<in> set (msgKeys s). fst k = i \<and> snd (snd k) = cd_callId r"
    "msgKeys (removeMessageById K fs i s) = filter (\<lambda>k. fst k \<noteq> i) (msgKeys s)"
    "convKeys (removeMessageById K fs i s) = convKeys s"
    "st_callLinks (removeMessageById K fs i s) = st_callLinks s"
    using removeMessageById_changes by blast
  have "tables_ok (convKeys s) (map (\<lambda>r. if Q r then deletedRow K r else r) (st_callsHistory s))
      (filter (\<lambda>k. fst k \<noteq> i) (msgKeys s)) P"
  proof (rule tables_ok_map [OF ok])
    fix r :: CallHistoryDetails and k
    assume k: "k \<in> set (msgKeys s)" "fst k \<noteq> i" "snd (snd k) = cd_callId r" "ch_status r \<noteq> Deleted"
    then have "\<not> Q r" using Q(2) tables_ok_unique(1) [OF ok k(1)] by metis
    with k(4) show "ch_status (if Q r then deletedRow K r else r) \<noteq> Deleted" by simp
  qed (use ok in \<open>auto simp: tables_ok_def deleted_typed\<close>)
  with inv Q show ?thesis by (simp add: callInv_def)
qed

text \<open>Saving a call that is not deleted writes its row and its message.\<close>

lemma callMessage_key:
  "cm_id (callMessage K ch conv prev n ms guid t) = (case prev of Some m \<Rightarrow> cm_id m | None \<Rightarrow> k_newMessageId K n)"
  "cm_conversationId (callMessage K ch conv prev n ms guid t) = cv_id conv"
  "cm_callId (callMessage K ch conv prev n ms guid t) = cd_callId ch"
  by (simp_all add: callMessage_def Let_def)

lemma getMessage_simps [simp]:
  "getCallHistoryMessageByCallId (dispatch a s) v c = getCallHistoryMessageByCallId s v c"
  "getCallHistoryMessageByCallId (saveCallHistoryRow ch s) v c = getCallHistoryMessageByCallId s v c"
  by (simp_all add: getCallHistoryMessageByCallId_def)

lemma saveMessageRow_simps [simp]:
  "st_callsHistory (saveMessageRow f m s) = st_callsHistory s" "st_callLinks (saveMessageRow f m s) = st_callLinks s"
  "st_conversations (saveMessageRow f m s) = st_conversations s" "convKeys (saveMessageRow f m s) = convKeys s"
  "msgKeys (saveMessageRow f m s) = (let k = (cm_id m, cm_conversationId m, cm_callId m) in
     if f then msgKeys s @ [k] else map (\<lambda>x. if fst x = cm_id m then k else x) (msgKeys s))"
  by (simp_all add: saveMessageRow_def convKeys_def msgKeys_def Let_def)

lemma counter_simps [simp]:
  "st_callsHistory (s\<lparr>st_messageCounter := n\<rparr>) = st_callsHistory s" "convKeys (s\<lparr>st_messageCounter := n\<rparr>) = convKeys s"
  "msgKeys (s\<lparr>st_messageCounter := n\<rparr>) = msgKeys s"
  by (simp_all add: convKeys_def msgKeys_def)

lemma saveCallHistory_saved:
  fixes K n ms guid t
  assumes "ch_status ch \<noteq> Deleted" and dist: "distinct (map cv_id (st_conversations s))"
    and conv: "conv \<in> set (st_conversations s)"
  defines "s' \<equiv> saveCallHistory K ch conv n ms guid t s"
    and "prev \<equiv> getCallHistoryMessageByCallId s (cv_id conv) (cd_callId ch)"
  shows "st_callsHistory s' = upsert ch (st_callsHistory s)" "convKeys s' = convKeys s"
    "st_callLinks s' = st_callLinks s"
    "\<exists>j. msgKeys s' = (case prev of
        None \<Rightarrow> msgKeys s @ [(k_newMessageId K j, cv_id conv, cd_callId ch)]
      | Some m \<Rightarrow> map (\<lambda>x. if fst x = cm_id m then (cm_id m, cv_id conv, cd_callId ch) else x) (msgKeys s))"
proof -
  have conv': "convKeys (setConversation c u) = convKeys s"
    if "st_conversations u = st_conversations s" "cv_id c = cv_id conv" "cv_peerId c = cv_peerId conv" for u c
    using convKeys_setConversation [of u conv c] that dist conv by (simp add: convKeys_def)
  show "st_callsHistory s' = upsert ch (st_callsHistory s)" "st_callLinks s' = st_callLinks s"
    unfolding s'_def saveCallHistory_def using assms(1) by (simp_all add: Let_def split: prod.splits option.splits)
  show "convKeys s' = convKeys s"
    unfolding s'_def saveCallHistory_def using assms(1)
    by (simp add: Let_def split: prod.splits option.splits) (auto intro!: conv')
  show "\<exists>j. msgKeys s' = (case prev of
        None \<Rightarrow> msgKeys s @ [(k_newMessageId K j, cv_id conv, cd_callId ch)]
      | Some m \<Rightarrow> map (\<lambda>x. if fst x = cm_id m then (cm_id m, cv_id conv, cd_callId ch) else x) (msgKeys s))"
    unfolding s'_def saveCallHistory_def prev_def using assms(1)
    by (auto simp: Let_def callMessage_key split: prod.splits option.splits)
qed

text \<open>Before a call is saved, its messages are in the conversation of its peer.\<close>

lemma call_messages_of_peer:
  assumes "tables_ok C R M P" and "k \<in> set M" and "snd (snd k) = c"
    and "\<And>r. r \<in> set R \<Longrightarrow> cd_callId r = c \<Longrightarrow> cd_peerId r = peer"
    and "convIdIn C peer = Some v"
  shows "fst (snd k) = v"
  using assms by (cases k) (fastforce simp: tables_ok_def visibleCall_def)

lemma callInv_save:
  assumes inv: "callInv (s, P)" and conv: "conv \<in> set (st_conversations s)"
    and peer: "convIdIn (convKeys s) (cd_peerId ch) = Some (cv_id conv)"
    and typed: "statusOfMode (cd_mode ch) (ch_status ch)" "cd_mode ch \<noteq> ModeAdhoc"
    and same: "\<And>r. r \<in> set (st_callsHistory s) \<Longrightarrow> cd_callId r = cd_callId ch \<Longrightarrow>
        cd_peerId r = cd_peerId ch \<and> cd_mode r = cd_mode ch"
    and fresh: "freshMessageIds K s"
  shows "callInv (saveCallHistory K ch conv n ms guid t s, P)"
proof -
  let ?C = "convKeys s" and ?R = "st_callsHistory s" and ?M = "msgKeys s"
  let ?prev = "getCallHistoryMessageByCallId s (cv_id conv) (cd_callId ch)"
  have ok: "tables_ok ?C ?R ?M P" and keys: "keys_ok ?C (map lk_roomId (st_callLinks s))"
    using inv by (simp_all add: callInv_def)
  have dist: "distinct (map cv_id (st_conversations s))"
    using keys by (simp add: keys_ok_def convKeys_def comp_def)
  have ofPeer: "fst (snd k) = cv_id conv" if "k \<in> set ?M" "snd (snd k) = cd_callId ch" for k
    using call_messages_of_peer [OF ok that, of "cd_peerId ch"] same peer by blast
  have noPrev: "snd (snd k) \<noteq> cd_callId ch" if "?prev = None" "k \<in> set ?M" for k
    using that ofPeer [OF that(2)] by (auto simp: getCallHistoryMessageByCallId_def msgKeys_def find_None_iff)
  have prevKey: "(cm_id m, cv_id conv, cd_callId ch) \<in> set ?M" if "?prev = Some m" for m
    using set_find [OF that [unfolded getCallHistoryMessageByCallId_def]]
    by (auto simp: msgKeys_def intro!: rev_image_eqI [of m])
  have mode: "cd_mode r = cd_mode ch" if "r \<in> set ?R" "cd_callId r = cd_callId ch" for r
    using same [OF that] by simp
  show ?thesis
  proof (cases "ch_status ch = Deleted")
    case False
    note saved = saveCallHistory_saved [OF False dist conv, of K n ms guid t]
    have visible: "visibleCall ?C (upsert ch ?R) k" if "snd (snd k) = cd_callId ch" "fst (snd k) = cv_id conv" for k
      using that False typed(2) peer by (cases k) (auto simp: visibleCall_def)
    have "tables_ok ?C (upsert ch ?R) (msgKeys (saveCallHistory K ch conv n ms guid t s)) P"
    proof (cases ?prev)
      case None
      obtain j where j: "msgKeys (saveCallHistory K ch conv n ms guid t s) =
          ?M @ [(k_newMessageId K j, cv_id conv, cd_callId ch)]"
        using saved(4) None by auto
      have "k_newMessageId K j \<notin> fst ` set ?M"
        using fresh by (simp add: freshMessageIds_def msgKeys_def image_image)
      moreover have "cd_callId ch \<notin> (snd \<circ> snd) ` set ?M"
        using noPrev [OF None] by (metis comp_apply imageE)
      ultimately show ?thesis unfolding j
        using ok noPrev [OF None] visible [of "(k_newMessageId K j, cv_id conv, cd_callId ch)"]
        by (intro tables_ok_upsert [OF ok typed(1) mode]) (auto simp: tables_ok_def comp_def)
    next
      case (Some m)
      have "(if fst x = cm_id m then (cm_id m, cv_id conv, cd_callId ch) else x) = x" if "x \<in> set ?M" for x
        using tables_ok_unique(2) [OF ok that prevKey [OF Some]] by auto
      then have "map (\<lambda>x. if fst x = cm_id m then (cm_id m, cv_id conv, cd_callId ch) else x) ?M = ?M"
        by (intro map_idI)
      then have j: "msgKeys (saveCallHistory K ch conv n ms guid t s) = ?M"
        using saved(4) Some by auto
      show ?thesis unfolding j using ok visible ofPeer
        by (intro tables_ok_upsert [OF ok typed(1) mode]) (auto simp: tables_ok_def)
    qed
    with keys saved show ?thesis by (simp add: callInv_def)
  next
    case True
    let ?s2 = "dispatch (CallHistoryRemove (cd_callId ch)) (saveCallHistoryRow ch s)"
    let ?M2 = "filter (\<lambda>k. snd (snd k) \<noteq> cd_callId ch) ?M"
    have ok2: "tables_ok ?C (upsert ch ?R) ?M2 P"
      using ok by (intro tables_ok_upsert [OF ok typed(1) mode])
        (auto simp: tables_ok_def distinct_map_filter)
    show ?thesis
    proof (cases ?prev)
      case None
      then have "?M2 = ?M" using noPrev by (intro filter_True) blast
      with ok2 keys None True show ?thesis by (simp add: callInv_def saveCallHistory_def Let_def)
    next
      case (Some m)
      then have eq: "saveCallHistory K ch conv n ms guid t s = removeMessageById K True (cm_id m) ?s2"
        using True by (simp add: saveCallHistory_def Let_def)
      obtain Q where Q: "st_callsHistory (removeMessageById K True (cm_id m) ?s2) =
          map (\<lambda>r. if Q r then deletedRow K r else r) (upsert ch ?R)"
        "\<And>r. Q r \<Longrightarrow> \<exists>k \<in> set ?M. fst k = cm_id m \<and> snd (snd k) = cd_callId r"
        "msgKeys (removeMessageById K True (cm_id m) ?s2) = filter (\<lambda>k. fst k \<noteq> cm_id m) ?M"
        "convKeys (removeMessageById K True (cm_id m) ?s2) = ?C"
        "st_callLinks (removeMessageById K True (cm_id m) ?s2) = st_callLinks s"
        using removeMessageById_changes [of K True "cm_id m" ?s2] by auto
      have "fst k \<noteq> cm_id m \<longleftrightarrow> snd (snd k) \<noteq> cd_callId ch" if "k \<in> set ?M" for k
        using tables_ok_unique [OF ok that prevKey [OF Some]] by auto
      then have M2: "filter (\<lambda>k. fst k \<noteq> cm_id m) ?M = ?M2" by (intro filter_cong) simp_all
      have "tables_ok ?C (map (\<lambda>r. if Q r then deletedRow K r else r) (upsert ch ?R)) (filter (\<lambda>_. True) ?M2) P"
      proof (rule tables_ok_map [OF ok2])
        fix r :: CallHistoryDetails and k
        assume k: "k \<in> set ?M2" "snd (snd k) = cd_callId r" "ch_status r \<noteq> Deleted"
        have "\<not> Q r"
        proof
          assume "Q r"
          then obtain k' where k': "k' \<in> set ?M" "fst k' = cm_id m" "snd (snd k') = cd_callId r" using Q(2) by blast
          then have "k' = k" using tables_ok_unique(1) [OF ok k'(1), of k] k by simp
          with k k' tables_ok_unique(2) [OF ok k'(1) prevKey [OF Some]] show False by auto
        qed
        with k(3) show "ch_status (if Q r then deletedRow K r else r) \<noteq> Deleted" by simp
      qed (use ok2 in \<open>auto simp: tables_ok_def deleted_typed\<close>)
      with keys Q M2 show ?thesis by (simp add: callInv_def eq)
    qed
  qed
qed

section \<open>Every step keeps the invariant\<close>

lemma transition_record:
  assumes "transitionCallHistory prev e = Inr ch"
  shows "cd_callId ch = cd_callId e" "cd_peerId ch = cd_peerId e" "cd_mode ch = cd_mode e"
    "statusOfMode (cd_mode ch) (ch_status ch)" "\<And>r. prev = Some r \<Longrightarrow> cd_mode r = cd_mode e"
  using assms by (auto simp: transitionCallHistory_eq_Inr assertSameCall_def bindE_eq_Inr dest: transitionStatus_typed)

text \<open>The row of the call of an event, if there is one, is the record the transition starts from.\<close>

lemma transition_row:
  assumes inv: "callInv (s, P)" and "knownPeer s e"
    and "transitionCallHistory (getCallHistory s (cd_callId e) (cd_peerId e)) e = Inr ch"
    and r: "r \<in> set (st_callsHistory s)" "cd_callId r = cd_callId ch"
  shows "getCallHistory s (cd_callId e) (cd_peerId e) = Some r"
proof -
  have id: "cd_callId r = cd_callId e" "cd_peerId r = cd_peerId e"
    using assms(2) r transition_record [OF assms(3)] by (auto simp: knownPeer_def list_all_iff)
  show ?thesis
  proof -
    have "\<exists>r'. getCallHistory s (cd_callId e) (cd_peerId e) = Some r'"
      using r(1) id by (cases "getCallHistory s (cd_callId e) (cd_peerId e)") (auto simp: getCallHistory_def find_None_iff)
    then obtain r' where r': "getCallHistory s (cd_callId e) (cd_peerId e) = Some r'" by blast
    then have "r' \<in> set (st_callsHistory s)" "cd_callId r' = cd_callId e"
      using set_find unfolding getCallHistory_def by fastforce+
    moreover have "distinct (map cd_callId (st_callsHistory s))" using inv by (simp add: callInv_def tables_ok_def)
    ultimately have "r' = r" using r(1) id by (metis distinct_map inj_onD)
    with r' show ?thesis by simp
  qed
qed

lemma transition_row_mode:
  assumes inv: "callInv (s, P)" and "knownPeer s e"
    and tr: "transitionCallHistory (getCallHistory s (cd_callId e) (cd_peerId e)) e = Inr ch"
    and r: "r \<in> set (st_callsHistory s)" "cd_callId r = cd_callId ch"
  shows "cd_peerId r = cd_peerId ch \<and> cd_mode r = cd_mode ch"
proof -
  have row: "getCallHistory s (cd_callId e) (cd_peerId e) = Some r" by (rule transition_row [OF assms])
  then have "cd_peerId r = cd_peerId e" using set_find unfolding getCallHistory_def by fastforce
  moreover have "cd_mode r = cd_mode e" using transition_record(5) [OF tr row] .
  ultimately show ?thesis using transition_record [OF tr] by simp
qed

lemma getCallConversation_mem: "getCallConversation s key = Some c \<Longrightarrow> c \<in> set (st_conversations s)"
  unfolding getCallConversation_def using set_find by fastforce

lemma callInv_emit [simp]: "callInv (emit x s, P) = callInv (s, P)"
  by (simp add: callInv_def)

lemma callInv_dispatch [simp]: "callInv (dispatch a s, P) = callInv (s, P)"
  by (simp add: callInv_def)

lemma callInv_updateRemote [simp]: "callInv (updateRemoteCallHistory K ch s, P) = callInv (s, P)"
  by (simp add: updateRemoteCallHistory_def split: sum.splits)

lemma callInv_local:
  assumes "callInv (s, P)" and "knownPeer s e" and "freshMessageIds K s" and "cd_mode e \<noteq> ModeAdhoc"
  shows "callInv (fst (updateLocalCallHistory K e n ms guid s), P)"
proof (cases "getCallConversation s (cd_peerId e)")
  case None
  with assms show ?thesis by (simp add: updateLocalCallHistory_def)
next
  case (Some conv)
  show ?thesis
  proof (cases "transitionCallHistory (getCallHistory s (cd_callId e) (cd_peerId e)) e")
    case (Inl a)
    with assms Some show ?thesis by (simp add: updateLocalCallHistory_def Let_def)
  next
    case (Inr ch)
    note rec = transition_record [OF Inr]
    have "callInv (saveCallHistory K ch conv n ms guid (Some (ce_eventTimestamp e)) s, P)"
    proof (rule callInv_save [OF assms(1) getCallConversation_mem [OF Some]])
      show "convIdIn (convKeys s) (cd_peerId ch) = Some (cv_id conv)"
        using Some rec by (simp add: getCallConversation_keys)
    qed (use assms rec transition_row_mode [OF assms(1,2) Inr] in auto)
    with Some Inr show ?thesis by (simp add: updateLocalCallHistory_def Let_def)
  qed
qed

text \<open>A call without a conversation: no message is of a call in the mode of call links.\<close>

lemma callInv_adhoc:
  assumes inv: "callInv (s, P)" and "knownPeer s e" and "cd_mode e = ModeAdhoc"
  shows "callInv (fst (updateLocalAdhocCallHistory e s), P)"
proof (cases "transitionCallHistory (getCallHistory s (cd_callId e) (cd_peerId e)) e")
  case (Inl a)
  with inv show ?thesis by (simp add: updateLocalAdhocCallHistory_def Let_def)
next
  case (Inr ch)
  note rec = transition_record [OF Inr]
  have ok: "tables_ok (convKeys s) (st_callsHistory s) (msgKeys s) P" using inv by (simp add: callInv_def)
  have mode: "cd_mode r = cd_mode ch" if "r \<in> set (st_callsHistory s)" "cd_callId r = cd_callId ch" for r
    using transition_row_mode [OF inv assms(2) Inr that] by simp
  have "snd (snd k) \<noteq> cd_callId ch" if "k \<in> set (msgKeys s)" for k
    using ok that mode rec assms(3) by (cases k) (fastforce simp: tables_ok_def visibleCall_def)
  then have "tables_ok (convKeys s) (upsert ch (st_callsHistory s)) (msgKeys s) P"
    using ok rec by (intro tables_ok_upsert [OF ok _ mode]) (auto simp: tables_ok_def)
  then have "callInv (saveCallHistoryRow ch s, P)" using inv by (simp add: callInv_def)
  with inv Inr show ?thesis by (auto simp: updateLocalAdhocCallHistory_def Let_def)
qed

lemma callInv_remote:
  assumes "callInv (s, P)" and "knownPeer s e" and "freshMessageIds K s"
  shows "callInv (fst (onCallEventSync K e n ms s), P)"
proof (cases "cd_mode e")
  case ModeAdhoc
  then show ?thesis using callInv_adhoc [OF assms(1,2)]
    by (cases "updateLocalAdhocCallHistory e s") (simp add: onCallEventSync_def updateCallHistoryFromRemoteEvent_def)
qed (use callInv_local [OF assms, of "Some n" "Some ms" None] assms(1) in
    \<open>auto simp: onCallEventSync_def updateCallHistoryFromRemoteEvent_def split: prod.splits\<close>)

lemma callInv_timestamp:
  assumes inv: "callInv (s, P)" and "freshMessageIds K s"
    and "list_all (\<lambda>r. cd_callId r = callId \<longrightarrow> cd_mode r \<noteq> ModeAdhoc) (st_callsHistory s)"
  shows "callInv (fst (updateLocalGroupCallHistoryTimestamp K key callId t s), P)"
proof (cases "getCallConversation s key")
  case None
  with inv show ?thesis by (simp add: updateLocalGroupCallHistoryTimestamp_def)
next
  case (Some conv)
  show ?thesis
  proof (cases "getCallHistory s callId (cv_peerId conv)")
    case None
    with inv Some show ?thesis by (simp add: updateLocalGroupCallHistoryTimestamp_def)
  next
    case (Some ch)
    then have ch: "ch \<in> set (st_callsHistory s)" "cd_callId ch = callId" "cd_peerId ch = cv_peerId conv"
      using set_find unfolding getCallHistory_def by fastforce+
    have conv: "conv \<in> set (st_conversations s)" using \<open>getCallConversation s key = Some conv\<close> getCallConversation_mem by blast
    have ok: "tables_ok (convKeys s) (st_callsHistory s) (msgKeys s) P" and
      keys: "\<forall>(i, q) \<in> set (convKeys s). convIdIn (convKeys s) q = Some i"
      using inv by (simp_all add: callInv_def keys_ok_def)
    have peer: "convIdIn (convKeys s) (cv_peerId conv) = Some (cv_id conv)"
      using conv keys by (fastforce simp: convKeys_def)
    have dist: "distinct (map cd_callId (st_callsHistory s))" using ok by (simp add: tables_ok_def)
    have same: "r = ch" if "r \<in> set (st_callsHistory s)" "cd_callId r = cd_callId ch" for r
      using dist that ch(1) by (metis distinct_map inj_onD)
    have "cd_mode ch \<noteq> ModeAdhoc" using assms(3) ch by (simp add: list_all_iff)
    moreover have "statusOfMode (cd_mode ch) (ch_status ch)" using ok ch(1) by (simp add: tables_ok_def)
    ultimately have "callInv (saveCallHistory K (ch\<lparr>cd_timestamp := t\<rparr>) conv None None None None s, P)"
    proof (intro callInv_save [OF inv conv])
      fix r assume "r \<in> set (st_callsHistory s)" "cd_callId r = cd_callId (ch\<lparr>cd_timestamp := t\<rparr>)"
      then have "r = ch" by (intro same) simp_all
      then show "cd_peerId r = cd_peerId (ch\<lparr>cd_timestamp := t\<rparr>) \<and> cd_mode r = cd_mode (ch\<lparr>cd_timestamp := t\<rparr>)"
        by simp
    qed (use peer ch(3) assms(2) in simp_all)
    with inv Some \<open>getCallConversation s key = Some conv\<close> show ?thesis
      by (simp add: updateLocalGroupCallHistoryTimestamp_def Let_def)
  qed
qed

lemma callInv_adhocLocal:
  assumes "callInv (s, P)" and "knownPeer s e" and "cd_mode e = ModeAdhoc"
  shows "callInv (fst (updateAdhocCallHistory K e s), P)"
  using callInv_adhoc [OF assms]
  by (cases "updateLocalAdhocCallHistory e s") (auto simp: updateAdhocCallHistory_def split: sum.splits option.splits)

lemma callInv_localEvent:
  assumes "callInv (s, P)" and "knownPeer s e" and "freshMessageIds K s" and "cd_mode e \<noteq> ModeAdhoc"
  shows "callInv (fst (updateCallHistoryFromLocalEvent K e n ms guid s), P)"
  using callInv_local [OF assms, of n ms guid]
  by (cases "updateLocalCallHistory K e n ms guid s")
    (auto simp: updateCallHistoryFromLocalEvent_def split: sum.splits option.splits)

text \<open>Clearing: rows are marked deleted together with the removal of their messages.\<close>

lemma callInv_markDeleted:
  assumes inv: "callInv (s, P)"
    and gone: "\<And>r k. r \<in> set (st_callsHistory s) \<Longrightarrow> D r \<Longrightarrow> k \<in> set (msgKeys s) \<Longrightarrow> Q k \<Longrightarrow> visibleCall (convKeys s) (st_callsHistory s) k \<Longrightarrow>
        snd (snd k) \<noteq> cd_callId r"
  shows "tables_ok (convKeys s) (st_callsHistory (markDeletedWhere K D s)) (filter Q (msgKeys s)) P"
proof -
  have ok: "tables_ok (convKeys s) (st_callsHistory s) (msgKeys s) P" using inv by (simp add: callInv_def)
  have "tables_ok (convKeys s) (map (\<lambda>r. if D r then deletedRow K r else r) (st_callsHistory s)) (filter Q (msgKeys s)) P"
  proof (rule tables_ok_map [OF ok])
    fix r :: CallHistoryDetails and k
    assume "r \<in> set (st_callsHistory s)" "k \<in> set (msgKeys s)" "Q k" "snd (snd k) = cd_callId r"
      "visibleCall (convKeys s) (st_callsHistory s) k" "ch_status r \<noteq> Deleted"
    then show "ch_status (if D r then deletedRow K r else r) \<noteq> Deleted"
      using gone [of r k] by (cases "D r") simp_all
  qed (use ok in \<open>auto simp: tables_ok_def deleted_typed\<close>)
  then show ?thesis by (simp add: markDeletedWhere_def)
qed

lemma clearCallHistory_changes:
  obtains ids where
    "st_callsHistory (fst (clearCallHistory K target s)) =
       st_callsHistory (markDeletedWhere K (\<lambda>r. cd_callId r \<in> set ids) s)"
    "msgKeys (fst (clearCallHistory K target s)) = filter (\<lambda>k. snd (snd k) \<notin> set ids) (msgKeys s)"
    "convKeys (fst (clearCallHistory K target s)) = convKeys s"
    "st_callLinks (fst (clearCallHistory K target s)) = st_callLinks s"
proof (cases "getCallHistoryForCallLogEventTarget s target")
  case None
  then show ?thesis by (intro that [of "[]"]) (simp_all add: clearCallHistory_def markDeletedWhere_def)
next
  case (Some ch)
  let ?ids = "map cd_callId (filter (\<lambda>r.
      (cd_timestamp r \<le> cd_timestamp ch \<or> cd_mode r = ModeAdhoc \<and> ch_status r = Pending) \<and>
      cd_peerId r \<notin> set (map lk_roomId (filter (\<lambda>l. lk_adminKey l \<noteq> None) (st_callLinks s)))) (st_callsHistory s))"
  show ?thesis
    by (rule that [of ?ids]) (simp_all add: clearCallHistory_def Some Let_def msgKeys_def convKeys_def filter_map comp_def)
qed

lemma callInv_clear:
  assumes inv: "callInv (s, P)"
  shows "callInv (fst (clearCallHistory K target s), P)"
proof -
  obtain ids where c: "st_callsHistory (fst (clearCallHistory K target s)) =
      st_callsHistory (markDeletedWhere K (\<lambda>r. cd_callId r \<in> set ids) s)"
    "msgKeys (fst (clearCallHistory K target s)) = filter (\<lambda>k. snd (snd k) \<notin> set ids) (msgKeys s)"
    "convKeys (fst (clearCallHistory K target s)) = convKeys s"
    "st_callLinks (fst (clearCallHistory K target s)) = st_callLinks s"
    by (rule clearCallHistory_changes)
  have "tables_ok (convKeys s) (st_callsHistory (markDeletedWhere K (\<lambda>r. cd_callId r \<in> set ids) s))
      (filter (\<lambda>k. snd (snd k) \<notin> set ids) (msgKeys s)) P"
    by (rule callInv_markDeleted [OF inv]) auto
  with inv c show ?thesis by (simp add: callInv_def)
qed

lemma updateDeletedMessages_simps [simp]:
  "callInv (updateDeletedMessages K ids s, P) = callInv (s, P)"
  "st_callLinks (updateDeletedMessages K ids s) = st_callLinks s"
proof -
  show "callInv (updateDeletedMessages K ids s, P) = callInv (s, P)"
    unfolding updateDeletedMessages_def by (induction ids arbitrary: s) (simp_all split: option.splits)
  show "st_callLinks (updateDeletedMessages K ids s) = st_callLinks s"
    unfolding updateDeletedMessages_def by (induction ids arbitrary: s) (simp_all split: option.splits)
qed

text \<open>Marking messages read changes no key.\<close>

lemma updateMessagesWhere_keys:
  assumes "\<And>m. cm_id (f m) = cm_id m \<and> cm_conversationId (f m) = cm_conversationId m \<and> cm_callId (f m) = cm_callId m"
  shows "callInv (fst (updateMessagesWhere Q f s), P) = callInv (s, P)"
  using assms by (simp add: updateMessagesWhere_def callInv_def convKeys_def msgKeys_def if_distrib comp_def cong: if_cong)

lemma callInv_markRead:
  assumes "callInv (s, P)" and "markCallHistoryReadWithoutSync K params s = Inr s'"
  shows "callInv (s', P)"
proof -
  have one: "callInv (fst (getUnreadCallMessageAndMarkRead c t s), P)" for c t
    unfolding getUnreadCallMessageAndMarkRead_def Let_def split_beta fst_conv
    by (subst updateMessagesWhere_keys) (simp_all add: markedRead_def assms(1))
  have many: "callInv (fst r, P)" if "getUnreadCallMessagesAndMarkRead tg t act inConv s = Inr r" for tg t act inConv r
    using that assms(1)
    by (auto simp: getUnreadCallMessagesAndMarkRead_def bindE_eq_Inr Let_def split_beta updateMessagesWhere_keys markedRead_def
        split: option.splits if_splits)
  show ?thesis
    using assms(2) one many
    by (cases params)
      (auto simp: markCallHistoryReadWithoutSync_def bindE_eq_Inr Let_def split_beta split: if_splits; metis fst_conv)+
qed

text \<open>The rows of a call link have no messages: a room id is not the peer id of a conversation.\<close>

lemma callInv_deleteByRoomId:
  assumes inv: "callInv (s, P)" and room: "convIdIn (convKeys s) roomId = None"
  shows "callInv (deleteCallHistoryByRoomId K roomId s, P)"
proof -
  have ok: "tables_ok (convKeys s) (st_callsHistory s) (msgKeys s) P" using inv by (simp add: callInv_def)
  have "tables_ok (convKeys s) (st_callsHistory (markDeletedWhere K (\<lambda>r. cd_peerId r = roomId) s))
      (filter (\<lambda>_. True) (msgKeys s)) P"
  proof (rule callInv_markDeleted [OF inv])
    fix r k assume r: "r \<in> set (st_callsHistory s)" "cd_peerId r = roomId"
      and "visibleCall (convKeys s) (st_callsHistory s) k"
    then obtain r' where r': "r' \<in> set (st_callsHistory s)" "cd_callId r' = snd (snd k)"
      "convIdIn (convKeys s) (cd_peerId r') \<noteq> None" by (cases k) (auto simp: visibleCall_def)
    have dist: "distinct (map cd_callId (st_callsHistory s))" using ok by (simp add: tables_ok_def)
    have "r' \<noteq> r" using r(2) r'(3) room by auto
    with r(1) r'(1,2) dist show "snd (snd k) \<noteq> cd_callId r" by (metis distinct_map inj_onD)
  qed
  with inv show ?thesis by (simp add: callInv_def deleteCallHistoryByRoomId_def)
qed

lemma callInv_deleteAdminCallLinks:
  assumes "callInv (s, P)" and "\<forall>l \<in> set links. convIdIn (convKeys s) (lk_roomId l) = None"
  shows "callInv (fst (fold (\<lambda>callLink (s, failCount).
        case k_deleteCallLink K callLink of
          Inl _ \<Rightarrow> (s, failCount + 1)
        | Inr _ \<Rightarrow> (deleteCallHistoryByRoomId K (lk_roomId callLink) s, failCount)) links (s, n)), P)"
  using assms
proof (induction links arbitrary: s n)
  case (Cons l links)
  have "convKeys (deleteCallHistoryByRoomId K (lk_roomId l) s) = convKeys s"
    by (simp add: deleteCallHistoryByRoomId_def)
  with Cons callInv_deleteByRoomId [OF Cons.prems(1), of "lk_roomId l" K] show ?case
    by (auto split: sum.splits)
qed simp

lemma callInv_clearAll:
  assumes inv: "callInv (s, P)"
  shows "callInv (fst (clearCallHistoryDataAndSync K latest s), P)"
proof -
  let ?target = "TargetPeer (cd_timestamp latest) (Some (cd_callId latest)) (Some (cd_peerId latest))"
  let ?s1 = "fst (clearCallHistory K ?target s)" and ?ids = "snd (clearCallHistory K ?target s)"
  let ?s2 = "fst (markAllCallLinksDeleted K ?s1)"
  define s4 where "s4 = updateDeletedMessages K ?ids
      (if snd (markAllCallLinksDeleted K ?s1) then emit RunStorageUpload ?s2 else ?s2)"
  have inv1: "callInv (?s1, P)" by (rule callInv_clear [OF inv])
  have links: "lk_roomId ` set (st_callLinks ?s2) \<subseteq> lk_roomId ` set (st_callLinks ?s1)"
    by (auto simp: markAllCallLinksDeleted_def Let_def)
  have inv2: "callInv (?s2, P)"
    using inv1 links by (auto simp: callInv_def keys_ok_def markAllCallLinksDeleted_def Let_def convKeys_def msgKeys_def)
  then have inv4: "callInv (s4, P)" by (simp add: s4_def)
  have room: "convIdIn (convKeys u) (lk_roomId l) = None"
    if "callInv (u, P)" "l \<in> set (getAllAdminCallLinks u)" for u l
    using that by (auto simp: callInv_def keys_ok_def getAllAdminCallLinks_def)
  have inv6: "callInv (fst (deleteAdminCallLinks K (getAllAdminCallLinks u) u), P)" if "callInv (u, P)" for u
    unfolding deleteAdminCallLinks_def by (rule callInv_deleteAdminCallLinks) (use that room in auto)
  have fst_eq: "fst (clearCallHistoryDataAndSync K latest s) =
      (case (if k_otherDevices K then
             bindE (getClearCallHistoryMessage LogClear latest) (\<lambda>p. Inr (emit (QueueCallLogEventSync p) s4))
           else Inr s4) of
         Inl _ \<Rightarrow> s4
       | Inr s5 \<Rightarrow> if length (getAllAdminCallLinks s5) > 0
           then emit TriggerCallLinkCleanup (fst (deleteAdminCallLinks K (getAllAdminCallLinks s5) s5)) else s5)"
    by (simp add: clearCallHistoryDataAndSync_def s4_def Let_def split_beta split: sum.splits)
  show ?thesis
    unfolding fst_eq using inv4 inv6 by (auto simp: bindE_def split: sum.splits)
qed

lemma callInv_markAll:
  assumes "callInv (s, P)"
  shows "callInv (markAllCallHistoryReadAndSync K latest t c s, P)"
  using assms by (auto simp: markAllCallHistoryReadAndSync_def Let_def intro: callInv_markRead split: sum.splits)

lemma callInv_log:
  assumes "callInv (s, P)" and "onCallLogEventSync K d s = Inr s'"
  shows "callInv (s', P)"
proof (cases "cl_type d")
  case LogClear
  then show ?thesis
    using assms callInv_clear [OF assms(1)]
    by (simp add: onCallLogEventSync_def Let_def split_beta) (metis callInv_dispatch callInv_emit updateDeletedMessages_simps(1))
qed (use assms callInv_markRead in \<open>auto simp: onCallLogEventSync_def Let_def\<close>)

lemma callInv_reload:
  assumes inv: "callInv (s, P)"
  shows "callInv (reloadCallHistory s, P)"
proof -
  have "msgKeys (cleanupCallHistoryMessages s) =
      filter (\<lambda>k. \<not> list_ex (\<lambda>r. cd_callId r = snd (snd k) \<and> ch_status r = Deleted) (st_callsHistory s)) (msgKeys s)"
    by (simp add: cleanupCallHistoryMessages_def msgKeys_def filter_map comp_def)
  moreover have "tables_ok (convKeys s) (st_callsHistory s) (filter Q (msgKeys s)) P" for Q
    using inv by (intro tables_ok_filter) (simp add: callInv_def)
  ultimately have "callInv (cleanupCallHistoryMessages s, P)"
    using inv by (simp add: callInv_def) (simp add: cleanupCallHistoryMessages_def convKeys_def)
  then show ?thesis by (simp add: reloadCallHistory_def loadCallHistory_def Let_def)
qed

text \<open>Missed rings: only ringing group calls are marked.\<close>

lemma callInv_missed:
  assumes inv: "callInv (s, P)"
    and group: "\<And>r. r \<in> set (st_callsHistory s) \<Longrightarrow> cd_callId r \<in> set ids \<Longrightarrow> cd_mode r = ModeGroup"
  shows "callInv (markCallHistoryMissed ids s, P)"
proof -
  have ok: "tables_ok (convKeys s) (st_callsHistory s) (msgKeys s) P" using inv by (simp add: callInv_def)
  have "tables_ok (convKeys s) (map (\<lambda>r. if cd_callId r \<in> set ids then r\<lparr>ch_status := Missed\<rparr> else r) (st_callsHistory s))
      (filter (\<lambda>_. True) (msgKeys s)) P"
    by (rule tables_ok_map [OF ok]) (use ok group in \<open>auto simp: tables_ok_def isGroupCallStatus_def\<close>)
  with inv show ?thesis by (simp add: callInv_def markCallHistoryMissed_def convKeys_def msgKeys_def)
qed

lemma markMissed_row:
  "\<exists>r \<in> set R. cd_callId r = c \<and> cd_mode r = m \<Longrightarrow>
    \<exists>r \<in> set (map (\<lambda>r. if Q r then r\<lparr>ch_status := Missed\<rparr> else r) R). cd_callId r = c \<and> cd_mode r = m"
  by (induction R) auto

lemma partitionLatest_set:
  "set (fst (partitionLatest seen cs)) \<union> set (snd (partitionLatest seen cs)) = set cs"
  by (induction seen cs rule: partitionLatest.induct) (auto simp: Let_def split_beta)

lemma callInv_staleRings:
  assumes inv: "callInv (s, P)"
  shows "callInv (cleanupStaleRingingCalls (s, P))"
proof -
  have ok: "tables_ok (convKeys s) (st_callsHistory s) (msgKeys s) P" using inv by (simp add: callInv_def)
  let ?ringing = "map (\<lambda>r. (cd_callId r, cd_peerId r)) (sort_key (\<lambda>r. - cd_timestamp r)
      (filter (\<lambda>r. cd_type r = CallGroup \<and> ch_status r = Ringing) (st_callsHistory s)))"
  let ?parts = "partitionLatest [] ?ringing"
  let ?s = "markCallHistoryMissed (map fst (snd ?parts)) s"
  have ring: "\<exists>r \<in> set (st_callsHistory s). cd_callId r = c \<and> cd_mode r = ModeGroup"
    if "c \<in> fst ` (set (fst ?parts) \<union> set (snd ?parts))" for c
  proof -
    from that obtain r where r: "r \<in> set (st_callsHistory s)" "cd_callId r = c" "ch_status r = Ringing"
      unfolding partitionLatest_set by auto
    then have "statusOfMode (cd_mode r) Ringing" using ok by (auto simp: tables_ok_def)
    then have "cd_mode r = ModeGroup" by (cases "cd_mode r") (simp_all add: status_defs)
    with r show ?thesis by blast
  qed
  have dist: "distinct (map cd_callId (st_callsHistory s))" using ok by (simp add: tables_ok_def)
  have group: "cd_mode r = ModeGroup" if "r \<in> set (st_callsHistory s)" "cd_callId r \<in> set (map fst (snd ?parts))" for r
  proof -
    have "cd_callId r \<in> fst ` (set (fst ?parts) \<union> set (snd ?parts))" using that(2) by auto
    from ring [OF this] that(1) dist show ?thesis by (metis distinct_map inj_onD)
  qed
  have inv': "callInv (?s, P)" by (rule callInv_missed [OF inv group])
  have "\<exists>r \<in> set (st_callsHistory ?s). cd_callId r = c \<and> cd_mode r = ModeGroup" if "c \<in> set (map fst (fst ?parts))" for c
  proof -
    have "c \<in> fst ` (set (fst ?parts) \<union> set (snd ?parts))" using that by auto
    from markMissed_row [OF ring [OF this]] show ?thesis by (simp add: markCallHistoryMissed_def del: set_map)
  qed
  with inv' have "callInv (?s, P @ map fst (fst ?parts))"
    by (auto simp: callInv_def tables_ok_def)
  then show ?thesis
    by (simp add: cleanupStaleRingingCalls_def getRecentStaleRingsAndMarkOlderMissed_def Let_def split_beta)
qed

lemma callInv_peeked:
  assumes inv: "callInv (s, P)" and ids: "set ids \<subseteq> set P"
  shows "callInv (staleRingsPeeked ids (s, P))"
proof -
  have ok: "tables_ok (convKeys s) (st_callsHistory s) (msgKeys s) P" using inv by (simp add: callInv_def)
  have dist: "distinct (map cd_callId (st_callsHistory s))" using ok by (simp add: tables_ok_def)
  have "cd_mode r = ModeGroup" if "r \<in> set (st_callsHistory s)" "cd_callId r \<in> set ids" for r
  proof -
    have "\<exists>r' \<in> set (st_callsHistory s). cd_callId r' = cd_callId r \<and> cd_mode r' = ModeGroup"
      using ok ids that(2) by (auto simp: tables_ok_def)
    with that(1) dist show ?thesis by (metis distinct_map inj_onD)
  qed
  then show ?thesis by (simp add: staleRingsPeeked_def callInv_missed [OF inv])
qed

lemma callAction_callInv:
  assumes "callInv cfg" and "enabled K a cfg"
  shows "callInv (callAction K a cfg)"
proof -
  obtain s P where [simp]: "cfg = (s, P)" by (cases cfg)
  note inv = assms(1) [simplified]
  have same: "callInv (or_same s r, P)" if "\<And>s'. r = Inr s' \<Longrightarrow> callInv (s', P)" for r
    using that inv by (simp add: or_same_def split: sum.splits)
  show ?thesis
  proof (cases a)
    case (CallLogSync d)
    have "callInv (or_same s (onCallLogEventSync K d s), P)" by (rule same) (rule callInv_log [OF inv])
    with CallLogSync show ?thesis by simp
  next
    case (MarkOneRead c t)
    have "callInv (or_same s (markCallHistoryReadWithoutSync K (OnlyTargetCall c t) s), P)"
      by (rule same) (rule callInv_markRead [OF inv])
    with MarkOneRead show ?thesis by simp
  qed (use assms(2) inv in \<open>simp_all add: callInv_remote callInv_localEvent callInv_adhocLocal callInv_timestamp
      callInv_clearAll callInv_markAll callInv_remove callInv_reload callInv_staleRings callInv_peeked\<close>)
qed

end
