(* ===== verification/Call_Tombstones.thy ===== *)
theory Call_Tombstones
  imports Call_Runs
begin

text \<open>
  What the runs of \<open>Call_Runs\<close> guarantee: the invariant of the tables, and that a deleted call, which stays in
  the table as a tombstone so that late events do not bring it back, stays deleted. With the two situations in
  which the history does not behave that way.
\<close>

section \<open>Deleted calls\<close>

definition callDeleted :: "string \<Rightarrow> CallStore \<Rightarrow> bool" where
  "callDeleted c s = list_ex (\<lambda>r. cd_callId r = c \<and> ch_status r = Deleted) (st_callsHistory s)"

lemma callDeleted_rows: "st_callsHistory s' = st_callsHistory s \<Longrightarrow> callDeleted c s' = callDeleted c s"
  by (simp add: callDeleted_def)

lemma callDeleted_simps [simp]:
  "callDeleted c (emit x s) = callDeleted c s" "callDeleted c (dispatch a s) = callDeleted c s"
  "callDeleted c (updateRemoteCallHistory K ch s) = callDeleted c s"
  by (simp_all add: callDeleted_def updateRemoteCallHistory_def split: sum.splits)

lemma callDeleted_map:
  assumes "callDeleted c s" and "st_callsHistory s' = map g (st_callsHistory s)"
    and "\<And>r. r \<in> set (st_callsHistory s) \<Longrightarrow> ch_status r = Deleted \<Longrightarrow> cd_callId (g r) = cd_callId r \<and> ch_status (g r) = Deleted"
  shows "callDeleted c s'"
proof -
  obtain r where "r \<in> set (st_callsHistory s)" "cd_callId r = c" "ch_status r = Deleted"
    using assms(1) by (auto simp: callDeleted_def list_ex_iff)
  with assms(2,3) show ?thesis by (auto simp: callDeleted_def list_ex_iff intro!: bexI [of _ r])
qed

lemma callDeleted_upsert:
  assumes "callDeleted c s"
    and "\<And>r. r \<in> set (st_callsHistory s) \<Longrightarrow> cd_callId r = cd_callId ch \<Longrightarrow> ch_status r = Deleted \<Longrightarrow> ch_status ch = Deleted"
    and "st_callsHistory s' = upsert ch (st_callsHistory s)"
  shows "callDeleted c s'"
  using assms by (cases "cd_callId ch = c") (auto simp: callDeleted_def list_ex_iff)

lemma callDeleted_remove:
  assumes "callDeleted c s"
  shows "callDeleted c (removeMessageById K fs i s)"
proof -
  obtain Q where Q: "st_callsHistory (removeMessageById K fs i s) =
      map (\<lambda>r. if Q r then deletedRow K r else r) (st_callsHistory s)"
    using removeMessageById_changes by blast
  show ?thesis by (rule callDeleted_map [OF assms Q]) simp
qed

lemma callDeleted_markDeleted: "callDeleted c s \<Longrightarrow> callDeleted c (markDeletedWhere K D s)"
  by (rule callDeleted_map [where g = "\<lambda>r. if D r then deletedRow K r else r"]) (simp_all add: markDeletedWhere_def)

text \<open>Saving a call: a record of the same call that is deleted is replaced by a deleted one.\<close>

lemma callDeleted_save:
  assumes "callDeleted c s"
    and del: "\<And>r. r \<in> set (st_callsHistory s) \<Longrightarrow> cd_callId r = cd_callId ch \<Longrightarrow> ch_status r = Deleted \<Longrightarrow> ch_status ch = Deleted"
  shows "callDeleted c (saveCallHistory K ch conv n ms guid t s)"
proof -
  have row: "callDeleted c (saveCallHistoryRow ch s)"
    by (rule callDeleted_upsert [OF assms saveCallHistoryRow_simps(1)])
  have "callDeleted c u" if "st_callsHistory u = upsert ch (st_callsHistory s)" for u
    using callDeleted_upsert [OF assms that] .
  then show ?thesis
    using row by (auto simp: saveCallHistory_def Let_def split_beta intro: callDeleted_remove split: option.splits)
qed

text \<open>The record of a deleted call stays deleted under every event.\<close>

lemma transition_deleted:
  assumes inv: "callInv (s, P)" and "knownPeer s e"
    and tr: "transitionCallHistory (getCallHistory s (cd_callId e) (cd_peerId e)) e = Inr ch"
    and r: "r \<in> set (st_callsHistory s)" "cd_callId r = cd_callId ch" "ch_status r = Deleted"
  shows "ch_status ch = Deleted"
proof -
  have "getCallHistory s (cd_callId e) (cd_peerId e) = Some r"
    using transition_row [OF inv assms(2) tr r(1,2)] .
  with tr have "transitionStatus (cd_mode e) (Some Deleted) (ce_event e) (cd_direction e) = Inr (ch_status ch)"
    using r(3) by (auto simp: transitionCallHistory_eq_Inr)
  then show ?thesis by (cases "cd_mode e") (auto simp: transition_defs)
qed

lemma callDeleted_local:
  assumes "callInv (s, P)" and "knownPeer s e" and "callDeleted c s"
  shows "callDeleted c (fst (updateLocalCallHistory K e n ms guid s))"
  using assms(3) transition_deleted [OF assms(1,2)]
  by (auto simp: updateLocalCallHistory_def Let_def intro: callDeleted_save split: option.splits sum.splits)

lemma callDeleted_adhoc:
  assumes "callInv (s, P)" and "knownPeer s e" and "callDeleted c s"
  shows "callDeleted c (fst (updateLocalAdhocCallHistory e s))"
proof (cases "transitionCallHistory (getCallHistory s (cd_callId e) (cd_peerId e)) e")
  case (Inl a)
  with assms(3) show ?thesis by (simp add: updateLocalAdhocCallHistory_def Let_def)
next
  case (Inr ch)
  have "callDeleted c (saveCallHistoryRow ch s)"
    by (rule callDeleted_upsert [OF assms(3) transition_deleted [OF assms(1,2) Inr]]) simp_all
  with Inr assms(3) show ?thesis by (auto simp: updateLocalAdhocCallHistory_def Let_def)
qed

lemma callDeleted_clear: "callDeleted c s \<Longrightarrow> callDeleted c (fst (clearCallHistory K target s))"
  by (metis callDeleted_markDeleted callDeleted_rows clearCallHistory_changes)

lemma callDeleted_updateDeleted [simp]: "callDeleted c (updateDeletedMessages K ids s) = callDeleted c s"
  unfolding updateDeletedMessages_def by (induction ids arbitrary: s) (simp_all split: option.splits)

lemma callDeleted_adminLinks:
  "callDeleted c s \<Longrightarrow> callDeleted c (fst (fold (\<lambda>callLink (s, failCount).
        case k_deleteCallLink K callLink of
          Inl _ \<Rightarrow> (s, failCount + 1)
        | Inr _ \<Rightarrow> (deleteCallHistoryByRoomId K (lk_roomId callLink) s, failCount)) links (s, n)))"
proof (induction links arbitrary: s n)
  case (Cons l links)
  then show ?case using callDeleted_markDeleted [of c s K]
    by (auto simp: deleteCallHistoryByRoomId_def split: sum.splits)
qed simp

lemma callDeleted_clearAll: "callDeleted c s \<Longrightarrow> callDeleted c (fst (clearCallHistoryDataAndSync K latest s))"
proof -
  assume "callDeleted c s"
  then have s1: "callDeleted c (fst (clearCallHistory K target s))" for target by (rule callDeleted_clear)
  have links: "callDeleted c (fst (markAllCallLinksDeleted K u)) = callDeleted c u" for u
    by (simp add: callDeleted_def markAllCallLinksDeleted_def Let_def)
  have admin: "callDeleted c (fst (deleteAdminCallLinks K ls u))" if "callDeleted c u" for ls u
    unfolding deleteAdminCallLinks_def by (rule callDeleted_adminLinks [OF that])
  show ?thesis
    unfolding clearCallHistoryDataAndSync_def Let_def split_beta
    using s1 links admin by (auto simp: bindE_def split: sum.splits)
qed

lemma updateMessagesWhere_rows [simp]:
  "st_callsHistory (fst (updateMessagesWhere Q f s)) = st_callsHistory s"
  by (simp add: updateMessagesWhere_def)

lemma markRead_rows:
  assumes "markCallHistoryReadWithoutSync K params s = Inr s'"
  shows "st_callsHistory s' = st_callsHistory s"
proof -
  have one: "st_callsHistory (fst (getUnreadCallMessageAndMarkRead c t s)) = st_callsHistory s" for c t
    unfolding getUnreadCallMessageAndMarkRead_def Let_def split_beta fst_conv by simp
  have many: "st_callsHistory (fst r) = st_callsHistory s"
    if "getUnreadCallMessagesAndMarkRead tg t act inConv s = Inr r" for tg t act inConv r
    using that
    by (auto simp: getUnreadCallMessagesAndMarkRead_def bindE_eq_Inr Let_def split_beta split: option.splits if_splits)
  show ?thesis
    using assms one many
    by (cases params)
      (auto simp: markCallHistoryReadWithoutSync_def bindE_eq_Inr Let_def split_beta split: if_splits; metis fst_conv)+
qed

text \<open>Old rings that are marked missed are not deleted calls.\<close>

lemma callDeleted_staleRings:
  assumes inv: "callInv (s, P)" and del: "callDeleted c s"
  shows "callDeleted c (fst (cleanupStaleRingingCalls (s, P)))"
proof -
  let ?ringing = "map (\<lambda>r. (cd_callId r, cd_peerId r)) (sort_key (\<lambda>r. - cd_timestamp r)
      (filter (\<lambda>r. cd_type r = CallGroup \<and> ch_status r = Ringing) (st_callsHistory s)))"
  let ?past = "map fst (snd (partitionLatest [] ?ringing))"
  have dist: "distinct (map cd_callId (st_callsHistory s))" using inv by (simp add: callInv_def tables_ok_def)
  have "callDeleted c (markCallHistoryMissed ?past s)"
  proof (rule callDeleted_map [OF del])
    show "st_callsHistory (markCallHistoryMissed ?past s) =
        map (\<lambda>r. if cd_callId r \<in> set ?past then r\<lparr>ch_status := Missed\<rparr> else r) (st_callsHistory s)"
      by (simp add: markCallHistoryMissed_def)
    fix r assume r: "r \<in> set (st_callsHistory s)" "ch_status r = Deleted"
    have "cd_callId r \<notin> set ?past"
    proof
      assume "cd_callId r \<in> set ?past"
      then have "cd_callId r \<in> fst ` (set (fst (partitionLatest [] ?ringing)) \<union> set (snd (partitionLatest [] ?ringing)))"
        by auto
      then obtain r' where "r' \<in> set (st_callsHistory s)" "cd_callId r' = cd_callId r" "ch_status r' = Ringing"
        unfolding partitionLatest_set by auto
      with r dist show False by (metis CallStatus.distinct(107) distinct_map inj_onD)
    qed
    then show "cd_callId (if cd_callId r \<in> set ?past then r\<lparr>ch_status := Missed\<rparr> else r) = cd_callId r \<and>
        ch_status (if cd_callId r \<in> set ?past then r\<lparr>ch_status := Missed\<rparr> else r) = Deleted"
      using r(2) by simp
  qed
  then show ?thesis
    by (simp add: cleanupStaleRingingCalls_def getRecentStaleRingsAndMarkOlderMissed_def Let_def split_beta)
qed

primrec isPeeked :: "call_action \<Rightarrow> bool" where
  "isPeeked (RemoteEvent e n ms) = False"
| "isPeeked (LocalEvent e n ms guid) = False"
| "isPeeked (AdhocEvent e) = False"
| "isPeeked (GroupTimestamp conv callId t) = False"
| "isPeeked (CallLogSync d) = False"
| "isPeeked (ClearAll latest) = False"
| "isPeeked (MarkOneRead callId readAt) = False"
| "isPeeked (MarkAllRead latest readAt inConversation) = False"
| "isPeeked (DeleteCallMessage msgId fromSync) = False"
| "isPeeked ReloadHistory = False"
| "isPeeked StaleRings = False"
| "isPeeked (StaleRingsPeeked ids) = True"

lemma callDeleted_timestamp:
  assumes inv: "callInv (s, P)" and del: "callDeleted c s"
  shows "callDeleted c (fst (updateLocalGroupCallHistoryTimestamp K key callId t s))"
proof -
  have dist: "distinct (map cd_callId (st_callsHistory s))" using inv by (simp add: callInv_def tables_ok_def)
  have "callDeleted c (saveCallHistory K (ch\<lparr>cd_timestamp := t\<rparr>) conv None None None None s)"
    if "getCallHistory s callId peer = Some ch" for ch conv peer
  proof (rule callDeleted_save [OF del])
    fix r assume "r \<in> set (st_callsHistory s)" "cd_callId r = cd_callId (ch\<lparr>cd_timestamp := t\<rparr>)" "ch_status r = Deleted"
    moreover have "ch \<in> set (st_callsHistory s)" using that set_find unfolding getCallHistory_def by fastforce
    ultimately have "r = ch" using dist by (simp add: distinct_map inj_on_def)
    with \<open>ch_status r = Deleted\<close> show "ch_status (ch\<lparr>cd_timestamp := t\<rparr>) = Deleted" by simp
  qed
  with del show ?thesis by (auto simp: updateLocalGroupCallHistoryTimestamp_def Let_def split: option.splits)
qed

lemma callAction_callDeleted:
  assumes inv: "callInv cfg" and en: "enabled K a cfg" and del: "callDeleted c (fst cfg)" and "\<not> isPeeked a"
  shows "callDeleted c (fst (callAction K a cfg))"
proof -
  obtain s P where [simp]: "cfg = (s, P)" by (cases cfg)
  note inv = inv [simplified] and del = del [simplified]
  have local: "callDeleted c (fst (updateLocalCallHistory K e n ms guid s))" if "knownPeer s e" for e n ms guid
    by (rule callDeleted_local [OF inv that del])
  have adhoc: "callDeleted c (fst (updateLocalAdhocCallHistory e s))" if "knownPeer s e" for e
    by (rule callDeleted_adhoc [OF inv that del])
  show ?thesis
  proof (cases a)
    case (RemoteEvent e n ms)
    then have "knownPeer s e" using en by simp
    with del show ?thesis using RemoteEvent local adhoc
      by (simp add: onCallEventSync_def updateCallHistoryFromRemoteEvent_def split_beta)
  next
    case (LocalEvent e n ms guid)
    then have "callDeleted c (fst (updateLocalCallHistory K e n ms guid s))" using en local by simp
    then show ?thesis
      by (cases "updateLocalCallHistory K e n ms guid s")
        (auto simp: LocalEvent updateCallHistoryFromLocalEvent_def split: sum.splits option.splits)
  next
    case (AdhocEvent e)
    then have "callDeleted c (fst (updateLocalAdhocCallHistory e s))" using en adhoc by simp
    then show ?thesis
      by (cases "updateLocalAdhocCallHistory e s")
        (auto simp: AdhocEvent updateAdhocCallHistory_def split: sum.splits option.splits)
  next
    case (CallLogSync d)
    then show ?thesis using del callDeleted_clear [OF del]
      by (cases "cl_type d")
        (auto simp: onCallLogEventSync_def or_same_def Let_def split_beta callDeleted_rows [OF markRead_rows] split: sum.splits)
  next
    case (MarkOneRead callId t)
    with del show ?thesis by (auto simp: or_same_def callDeleted_rows [OF markRead_rows] split: sum.splits)
  next
    case (MarkAllRead latest t b)
    with del show ?thesis
      by (auto simp: markAllCallHistoryReadAndSync_def Let_def callDeleted_rows [OF markRead_rows] split: sum.splits)
  next
    case ReloadHistory
    with del show ?thesis
      by (simp add: reloadCallHistory_def loadCallHistory_def Let_def)
        (simp add: callDeleted_def cleanupCallHistoryMessages_def)
  qed (use assms(4) inv del in \<open>simp_all add: callDeleted_timestamp callDeleted_clearAll callDeleted_remove
      callDeleted_staleRings\<close>)
qed

section \<open>Properties\<close>

text \<open>A store with a direct and a group conversation and no calls.\<close>

definition exampleCallEnv :: "string \<Rightarrow> CallEnv" where
  "exampleCallEnv prefix =
    \<lparr>k_now = 5000, k_isCallActive = (\<lambda>_. False), k_activeCallIds = [], k_disappearingCalls = False,
     k_otherDevices = True, k_cachedMessage = (\<lambda>_. None), k_newMessageId = (\<lambda>n. prefix @ bigToString n),
     k_muteIsActive = (\<lambda>_. False), k_keepMutedChatsArchived = None, k_deleteCallLink = (\<lambda>_. Inr ())\<rparr>"

definition exampleConversation :: "string \<Rightarrow> string \<Rightarrow> CallConversation" where
  "exampleConversation i peer =
    \<lparr>cv_id = i, cv_peerId = peer, cv_expireTimer = None, cv_active_at = None, cv_isArchived = False,
     cv_muteExpiresAt = None\<rparr>"

definition exampleStore :: "CallHistoryDetails list \<Rightarrow> CallStore" where
  "exampleStore rows =
    \<lparr>st_callsHistory = rows, st_messages = [], st_callLinks = [],
     st_redux = \<lparr>chs_edition = 0, chs_unreadCount = 0, chs_callHistoryByCallId = makeLookup cd_callId rows\<rparr>,
     st_conversations = [exampleConversation ''c1'' ''peer'', exampleConversation ''c2'' ''group''],
     st_messageCounter = 0, st_effects = []\<rparr>"

definition groupRing :: CallHistoryDetails where
  "groupRing = (exampleHistory Ringing)\<lparr>cd_mode := ModeGroup, cd_type := CallGroup, cd_peerId := ''group''\<rparr>"

lemmas example_store_defs = exampleStore_def exampleConversation_def exampleCallEnv_def groupRing_def example_call_defs

lemma exampleStore_inv: "callInv (exampleStore [], [])"
  by (simp add: callInv_def exampleStore_def exampleConversation_def keys_ok_def convKeys_def convIdIn_def tables_ok_def
      msgKeys_def)

lemma groupRing_inv: "callInv (exampleStore [groupRing], [])"
  by (simp add: callInv_def keys_ok_def convKeys_def convIdIn_def tables_ok_def msgKeys_def status_defs example_store_defs)


definition exampleRun :: "call_action list" where
  "exampleRun = [RemoteEvent (exampleCallEvent LocalRinging 100) 1 100, RemoteEvent (exampleCallEvent RemoteAccepted 150) 2 150]"

definition exampleAfterRing :: call_config where
  "exampleAfterRing = callAction (exampleCallEnv ''m'') (exampleRun ! 0) (exampleStore [], [])"

definition exampleAfterAccept :: call_config where
  "exampleAfterAccept = callAction (exampleCallEnv ''n'') (exampleRun ! 1) exampleAfterRing"

lemma exampleAfterRing_eval:
  "map cm_id (st_messages (fst exampleAfterRing)) = [''m1''] \<and>
   map (\<lambda>r. (cd_callId r, cd_peerId r)) (st_callsHistory (fst exampleAfterRing)) = [(''7'', ''peer'')]"
  by code_simp

lemma exampleAfterAccept_eval:
  "map cm_id (st_messages (fst exampleAfterAccept)) = [''m1''] \<and>
   map ch_status (st_callsHistory (fst exampleAfterAccept)) = [Accepted] \<and> snd exampleAfterAccept = []"
  by code_simp

lemma exampleRun_runs: "call_run (exampleStore [], []) exampleRun exampleAfterAccept"
proof -
  have ids: "cm_id ` set (st_messages (fst exampleAfterRing)) = {''m1''}"
    using exampleAfterRing_eval by (metis list.set(1) list.simps(15) set_map)
  have rows: "list_all (\<lambda>r. cd_callId r = ''7'' \<longrightarrow> cd_peerId r = ''peer'') (st_callsHistory (fst exampleAfterRing))"
    using exampleAfterRing_eval by (cases "st_callsHistory (fst exampleAfterRing)") simp_all
  have "enabled (exampleCallEnv ''m'') (exampleRun ! 0) (exampleStore [], [])"
    by (simp add: exampleRun_def knownPeer_def freshMessageIds_def exampleStore_def)
  moreover have "enabled (exampleCallEnv ''n'') (exampleRun ! 1) exampleAfterRing"
    using rows by (simp add: exampleRun_def knownPeer_def freshMessageIds_def ids) (simp add: exampleCallEnv_def example_call_defs)
  ultimately have "call_run (exampleStore [], []) [exampleRun ! 0, exampleRun ! 1] exampleAfterAccept"
    unfolding exampleAfterAccept_def exampleAfterRing_def
    by (intro call_run_step [of "exampleCallEnv ''m''" "exampleRun ! 0"] call_run_step [of "exampleCallEnv ''n''" "exampleRun ! 1"])
      simp_all
  then show ?thesis by (simp add: exampleRun_def)
qed


text \<open>
C18: A deleted call stays deleted. In every run from a consistent store in which no answer to a check of stale
rings arrives, whatever other events, messages and log events arrive and however the log is cleared, read or
reloaded, the record of a call that was deleted says so at the end.
\<close>

theorem deleted_call_stays_deleted:
  assumes "callInv cfg" and "call_run cfg as cfg'" and "list_all (\<lambda>a. \<not> isPeeked a) as" and "callDeleted c (fst cfg)"
  shows "callDeleted c (fst cfg')"
proof -
  have "callInv cfg' \<and> callDeleted c (fst cfg')"
    by (rule call_run_invariant [OF assms(2), of "\<lambda>cfg. callInv cfg \<and> callDeleted c (fst cfg)"])
      (use assms(1,3,4) callAction_callInv callAction_callDeleted in \<open>auto simp: list_all_iff\<close>)
  then show ?thesis ..
qed

definition deletedStore :: CallStore where
  "deletedStore = exampleStore [exampleHistory Deleted]"

theorem deleted_call_stays_deleted_witness:
  "callDeleted ''7'' (fst (callAction (exampleCallEnv ''m'') (RemoteEvent (exampleCallEvent RemoteAccepted 150) 2 150)
    (deletedStore, [])))"
proof (rule deleted_call_stays_deleted)
  show "callInv (deletedStore, [])"
    by (simp add: deletedStore_def callInv_def keys_ok_def convKeys_def convIdIn_def tables_ok_def msgKeys_def status_defs
        example_store_defs)
  show "call_run (deletedStore, []) [RemoteEvent (exampleCallEvent RemoteAccepted 150) 2 150]
      (callAction (exampleCallEnv ''m'') (RemoteEvent (exampleCallEvent RemoteAccepted 150) 2 150) (deletedStore, []))"
    by (rule call_run_step [of "exampleCallEnv ''m''"])
      (simp_all add: deletedStore_def knownPeer_def freshMessageIds_def example_store_defs)
qed (simp_all add: deletedStore_def callDeleted_def example_store_defs)

text \<open>
  The exception is real: \<open>cleanupStaleRingingCalls\<close> marks the calls it asked about missed without looking at them
  again. When another device deletes a ringing group call while the server is asked, the answer brings the call
  back as missed.
\<close>

definition groupDelete :: CallEventDetails where
  "groupDelete = (exampleCallEvent RemoteDelete 150)\<lparr>cd_mode := ModeGroup, cd_type := CallGroup, cd_peerId := ''group''\<rparr>"

theorem stale_ring_revives_deleted_call:
  "let during = fold (callAction (exampleCallEnv ''m'')) [StaleRings, RemoteEvent groupDelete 2 150] (exampleStore [groupRing], []);
       after = callAction (exampleCallEnv ''m'') (StaleRingsPeeked (snd during)) during
   in callDeleted ''7'' (fst during) \<and> map ch_status (st_callsHistory (fst after)) = [Missed]"
  by code_simp

text \<open>
  Clearing the call log on another device resets the list of calls that the app shows: a call newer than the
  cleared ones is still in the table, not deleted, and no longer in the list.
\<close>

theorem cleared_log_hides_newer_calls:
  "let newer = (exampleHistory Missed)\<lparr>cd_callId := ''8'', cd_timestamp := 200\<rparr>;
       d = \<lparr>cl_type = LogClear, cl_targetTimestamp = 100, cl_peerIdAsConversationId = Some ''peer'',
         cl_peerIdAsRoomId = None, cl_callId = Some ''7'', cl_eventTimestamp = 300\<rparr>;
       s = fst (callAction (exampleCallEnv ''m'') (CallLogSync d) (exampleStore [exampleHistory Missed, newer], []))
   in map ch_status (st_callsHistory s) = [Deleted, Missed] \<and> chs_callHistoryByCallId (st_redux s) = []"
  by code_simp

end
