(* ===== verification/Group_Build.thy ===== *)
theory Group_Build
  imports Group_Decrypt Group_Roster "HOL-Library.Multiset"
begin

text \<open>
  How our own changes of a group are written: the \<open>build...\<close> functions of ts/groups.preload.ts. Each makes
  the actions of one change, which are uploaded by \<open>modifyGroupV2\<close> and come back as a change that is
  decrypted and applied like everybody else's. The properties follow a change through all three steps.

  A list that the code leaves \<open>null\<close> is the empty list, an action that is \<open>null\<close> is \<open>None\<close>: what a reader of
  the encoded message finds. The credentials of libsignal, the generated encoder of attributes, the
  contacts and the limit of the remote configuration are the record \<open>BuildEnv\<close>.
\<close>

section \<open>What the builders use\<close>

record BuildContact =
  bc_serviceId :: "string option"
  bc_profileKey :: "string option"
  bc_profileKeyCredential :: "string option"

record BuildEnv =
  be_contact :: "string \<Rightarrow> BuildContact option"
  be_afterGetProfiles :: "string \<Rightarrow> BuildContact js"
  be_presentation :: "string \<Rightarrow> string \<Rightarrow> bytes js"
  be_encodeBlob :: "BlobContent \<Rightarrow> bytes"
  be_uploadAvatar :: "bytes \<Rightarrow> string js"
  be_groupSizeHardLimit :: "int js"

definition GROUP_TITLE_MAX_ENCRYPTED_BYTES :: nat where
  "GROUP_TITLE_MAX_ENCRYPTED_BYTES = 1024"

definition GROUP_DESC_MAX_ENCRYPTED_BYTES :: nat where
  "GROUP_DESC_MAX_ENCRYPTED_BYTES = 8192"

definition EMOJI_OUTGOING_BYTE_LIMIT :: nat where
  "EMOJI_OUTGOING_BYTE_LIMIT = 48"

definition SERVER_STRING_BYTE_LIMIT :: nat where
  "SERVER_STRING_BYTE_LIMIT = 512"

definition SERVER_EMOJI_BYTE_LIMIT :: nat where
  "SERVER_EMOJI_BYTE_LIMIT = 64"

definition encryptServiceId :: "ClientZkGroupCipher \<Rightarrow> string \<Rightarrow> bytes js" where
  "encryptServiceId clientZkGroupCipher serviceIdPlaintext = zk_encryptServiceId clientZkGroupCipher serviceIdPlaintext"

definition encryptGroupBlob :: "ClientZkGroupCipher \<Rightarrow> bytes \<Rightarrow> bytes js" where
  "encryptGroupBlob clientZkGroupCipher plaintext = zk_encryptBlob clientZkGroupCipher plaintext"

text \<open>Actions with a version and nothing else.\<close>

definition toGroupActionsParams :: "int \<Rightarrow> ProtoActions" where
  "toGroupActionsParams version =
    \<lparr>pa_sourceUserId = None, pa_groupId = None, pa_version = Some version, pa_addMembers = [],
     pa_deleteMembers = [], pa_modifyMemberRoles = [], pa_modifyMemberLabels = [],
     pa_modifyMemberProfileKeys = [], pa_addMembersPendingProfileKey = [],
     pa_deleteMembersPendingProfileKey = [], pa_promoteMembersPendingProfileKey = [],
     pa_promoteMembersPendingPniAciProfileKey = [], pa_modifyTitle = None, pa_modifyAvatar = None,
     pa_modifyDisappearingMessageTimer = None, pa_modifyAttributesAccess = None,
     pa_modifyMemberAccess = None, pa_modifyAddFromInviteLinkAccess = None,
     pa_modifyMemberLabelAccess = None, pa_addMembersPendingAdminApproval = [],
     pa_deleteMembersPendingAdminApproval = [], pa_promoteMembersPendingAdminApproval = [],
     pa_modifyInviteLinkPassword = None, pa_modifyDescription = None,
     pa_modifyAnnouncementsOnly = None, pa_terminateGroup = False, pa_addMembersBanned = [],
     pa_deleteMembersBanned = []\<rparr>"

text \<open>\<open>(revision || 0) + 1\<close>.\<close>

definition nextVersion :: "ConversationAttributesType \<Rightarrow> int" where
  "nextVersion grp = nullish (c_revision grp) 0 + 1"

definition withSecret :: "ConversationAttributesType \<Rightarrow> string \<Rightarrow> (string \<Rightarrow> 'a js) \<Rightarrow> 'a js" where
  "withSecret grp msg f =
    (if \<not> truthy_str (c_secretParams grp) then throw msg else f (the (c_secretParams grp)))"

definition withCipher :: "env \<Rightarrow> ConversationAttributesType \<Rightarrow> string \<Rightarrow> (ClientZkGroupCipher \<Rightarrow> 'a js) \<Rightarrow> 'a js" where
  "withCipher E grp msg f = withSecret grp msg (\<lambda>secret. bindE (getClientZkGroupCipher E secret) f)"

section \<open>Attributes\<close>

definition buildGroupTitleBuffer :: "BuildEnv \<Rightarrow> ClientZkGroupCipher \<Rightarrow> string \<Rightarrow> bytes js" where
  "buildGroupTitleBuffer B cipher title =
    bindE (encryptGroupBlob cipher (be_encodeBlob B (BlobTitle title))) (\<lambda>result.
      if length result > GROUP_TITLE_MAX_ENCRYPTED_BYTES
      then throw ''buildGroupTitleBuffer: encrypted group title is too long'' else Inr result)"

definition buildGroupDescriptionBuffer :: "BuildEnv \<Rightarrow> ClientZkGroupCipher \<Rightarrow> string \<Rightarrow> bytes js" where
  "buildGroupDescriptionBuffer B cipher description =
    bindE (encryptGroupBlob cipher (be_encodeBlob B (BlobDescription description))) (\<lambda>result.
      if length result > GROUP_DESC_MAX_ENCRYPTED_BYTES
      then throw ''buildGroupDescriptionBuffer: encrypted group title is too long'' else Inr result)"

definition uploadAvatar :: "env \<Rightarrow> BuildEnv \<Rightarrow> string \<Rightarrow> bytes \<Rightarrow> (string \<times> string) js" where
  "uploadAvatar E B secretParams data =
    bindE (getClientZkGroupCipher E secretParams) (\<lambda>cipher.
    bindE (encryptGroupBlob cipher (be_encodeBlob B (BlobAvatar data))) (\<lambda>ciphertext.
    bindE (be_uploadAvatar B ciphertext) (\<lambda>key. Inr (computeHash E data, key))))"

text \<open>
  The avatar of the new attributes is absent (\<open>None\<close>: no change), \<open>undefined\<close> (\<open>Some None\<close>: it is cleared)
  or given.
\<close>

record UpdateAttributes =
  ua_avatar :: "bytes option option"
  ua_description :: "string option"
  ua_title :: "string option"

definition optE :: "'a option \<Rightarrow> ('a \<Rightarrow> 'b js) \<Rightarrow> 'b option js" where
  "optE v f = (case v of None \<Rightarrow> Inr None | Some x \<Rightarrow> bindE (f x) (\<lambda>y. Inr (Some y)))"

definition buildUpdateAttributesChange :: "env \<Rightarrow> BuildEnv \<Rightarrow> ConversationAttributesType \<Rightarrow> UpdateAttributes \<Rightarrow>
    ProtoActions option js" where
  "buildUpdateAttributesChange E B conversation attributes =
    (if \<not> truthy_str (c_publicParams conversation)
     then throw ''buildUpdateAttributesChange: attributes were missing publicParams!''
     else withSecret conversation ''buildUpdateAttributesChange: attributes were missing secretParams!'' (\<lambda>secret.
     bindE (getClientZkGroupCipher E secret) (\<lambda>cipher.
     bindE (optE (ua_avatar attributes) (\<lambda>avatar.
       case avatar of None \<Rightarrow> Inr [] | Some data \<Rightarrow> bindE (uploadAvatar E B secret data) (\<lambda>up. Inr (snd up)))) (\<lambda>modifyAvatar.
     bindE (optE (if truthy_str (ua_title attributes) then ua_title attributes else None)
       (buildGroupTitleBuffer B cipher)) (\<lambda>modifyTitle.
     bindE (optE (ua_description attributes) (buildGroupDescriptionBuffer B cipher)) (\<lambda>modifyDescription.
     if modifyAvatar = None \<and> modifyTitle = None \<and> modifyDescription = None then Inr None
     else Inr (Some ((toGroupActionsParams (nextVersion conversation))\<lparr>pa_modifyAvatar := modifyAvatar,
       pa_modifyTitle := map_option Some modifyTitle,
       pa_modifyDescription := map_option Some modifyDescription\<rparr>))))))))"

definition buildDisappearingMessagesTimerChange :: "env \<Rightarrow> BuildEnv \<Rightarrow> int \<Rightarrow> ConversationAttributesType \<Rightarrow>
    ProtoActions js" where
  "buildDisappearingMessagesTimerChange E B expireTimer grp =
    withCipher E grp ''buildDisappearingMessagesTimerChange: group was missing secretParams!'' (\<lambda>cipher.
    bindE (encryptGroupBlob cipher (be_encodeBlob B (BlobTimer expireTimer))) (\<lambda>blobCipherText.
    Inr ((toGroupActionsParams (nextVersion grp))\<lparr>pa_modifyDisappearingMessageTimer := Some (Some blobCipherText)\<rparr>)))"

definition buildInviteLinkPasswordChange :: "env \<Rightarrow> ConversationAttributesType \<Rightarrow> string \<Rightarrow> ProtoActions" where
  "buildInviteLinkPasswordChange E grp inviteLinkPassword =
    (toGroupActionsParams (nextVersion grp))
      \<lparr>pa_modifyInviteLinkPassword := Some (Some (fromBase64 E inviteLinkPassword))\<rparr>"

definition buildNewGroupLinkChange :: "env \<Rightarrow> ConversationAttributesType \<Rightarrow> string \<Rightarrow> int \<Rightarrow> ProtoActions" where
  "buildNewGroupLinkChange E grp inviteLinkPassword addFromInviteLinkAccess =
    (toGroupActionsParams (nextVersion grp))
      \<lparr>pa_modifyAddFromInviteLinkAccess := Some (Some addFromInviteLinkAccess),
       pa_modifyInviteLinkPassword := Some (Some (fromBase64 E inviteLinkPassword))\<rparr>"

definition buildAccessControlAddFromInviteLinkChange :: "ConversationAttributesType \<Rightarrow> int \<Rightarrow> ProtoActions" where
  "buildAccessControlAddFromInviteLinkChange grp addFromInviteLinkAccess =
    (toGroupActionsParams (nextVersion grp))\<lparr>pa_modifyAddFromInviteLinkAccess := Some (Some addFromInviteLinkAccess)\<rparr>"

definition buildAnnouncementsOnlyChange :: "ConversationAttributesType \<Rightarrow> bool \<Rightarrow> ProtoActions" where
  "buildAnnouncementsOnlyChange grp announcementsOnly =
    (toGroupActionsParams (nextVersion grp))\<lparr>pa_modifyAnnouncementsOnly := Some announcementsOnly\<rparr>"

definition buildAccessControlAttributesChange :: "ConversationAttributesType \<Rightarrow> int \<Rightarrow> ProtoActions" where
  "buildAccessControlAttributesChange grp attributesAccess =
    (toGroupActionsParams (nextVersion grp))\<lparr>pa_modifyAttributesAccess := Some (Some attributesAccess)\<rparr>"

definition buildAccessControlMembersChange :: "ConversationAttributesType \<Rightarrow> int \<Rightarrow> ProtoActions" where
  "buildAccessControlMembersChange grp membersAccess =
    (toGroupActionsParams (nextVersion grp))\<lparr>pa_modifyMemberAccess := Some (Some membersAccess)\<rparr>"

definition buildTerminateChange :: "ConversationAttributesType \<Rightarrow> ProtoActions" where
  "buildTerminateChange grp = (toGroupActionsParams (nextVersion grp))\<lparr>pa_terminateGroup := True\<rparr>"

section \<open>Labels\<close>

definition clearLabel :: "bytes \<Rightarrow> ProtoModifyLabelAction" where
  "clearLabel userId = \<lparr>pml_userId = Some userId, pml_labelEmoji = None, pml_labelString = None\<rparr>"

text \<open>Members who are no administrators and have a label.\<close>

definition labelledNonAdmins :: "ConversationAttributesType \<Rightarrow> GroupV2MemberType list" where
  "labelledNonAdmins grp =
    filter (\<lambda>m. m_role m \<noteq> ROLE_ADMINISTRATOR \<and> (truthy_str (m_labelString m) \<or> truthy_str (m_labelEmoji m)))
      (or_list (c_membersV2 grp))"

definition memberLabelAccess :: "ConversationAttributesType \<Rightarrow> int option" where
  "memberLabelAccess grp = Option.bind (c_accessControl grp) ac_memberLabel"

definition buildAccessControlMemberLabelChange :: "env \<Rightarrow> ConversationAttributesType \<Rightarrow> int \<Rightarrow> ProtoActions js" where
  "buildAccessControlMemberLabelChange E grp access =
    withSecret grp ''buildAccessControlMemberLabelChange: group was missing secretParams!'' (\<lambda>secret.
    bindE (if memberLabelAccess grp \<noteq> Some ACCESS_ADMINISTRATOR \<and> access = ACCESS_ADMINISTRATOR
           then bindE (getClientZkGroupCipher E secret) (\<lambda>cipher.
             mapE (\<lambda>m. bindE (encryptServiceId cipher (m_aci m)) (\<lambda>b. Inr (clearLabel b))) (labelledNonAdmins grp))
           else Inr []) (\<lambda>modifyMemberLabels.
    Inr ((toGroupActionsParams (nextVersion grp))\<lparr>pa_modifyMemberLabelAccess := Some (Some access),
      pa_modifyMemberLabels := modifyMemberLabels\<rparr>)))"

definition findMember :: "ConversationAttributesType \<Rightarrow> string \<Rightarrow> GroupV2MemberType option" where
  "findMember grp serviceId = List.find (\<lambda>m. m_aci m = serviceId) (or_list (c_membersV2 grp))"

definition shouldDropMemberLabel :: "ConversationAttributesType \<Rightarrow> string \<Rightarrow> int \<Rightarrow> bool" where
  "shouldDropMemberLabel grp serviceId role =
    (case findMember grp serviceId of
       None \<Rightarrow> False
     | Some m \<Rightarrow> truthy_str (m_labelString m) \<and> memberLabelAccess grp = Some ACCESS_ADMINISTRATOR \<and>
         m_role m = ROLE_ADMINISTRATOR \<and> role \<noteq> ROLE_ADMINISTRATOR)"

definition buildModifyMemberRoleChange :: "env \<Rightarrow> string \<Rightarrow> ConversationAttributesType \<Rightarrow> int \<Rightarrow> ProtoActions js" where
  "buildModifyMemberRoleChange E serviceId grp role =
    withCipher E grp ''buildModifyMemberRoleChange: group was missing secretParams!'' (\<lambda>cipher.
    bindE (encryptServiceId cipher serviceId) (\<lambda>userIdCipherText.
    Inr ((toGroupActionsParams (nextVersion grp))
      \<lparr>pa_modifyMemberRoles := [\<lparr>pmr_userId = Some userIdCipherText, pmr_role = Some role\<rparr>],
       pa_modifyMemberLabels :=
         (if shouldDropMemberLabel grp serviceId role then [clearLabel userIdCipherText] else [])\<rparr>)))"

definition encryptLabelEmoji :: "env \<Rightarrow> ClientZkGroupCipher \<Rightarrow> string \<Rightarrow> bytes js" where
  "encryptLabelEmoji E cipher labelEmoji =
    (if length (bytesFromString E labelEmoji) > EMOJI_OUTGOING_BYTE_LIMIT
     then throw ''plaintext label emoji length is larger than limit''
     else bindE (encryptGroupBlob cipher (bytesFromString E labelEmoji)) (\<lambda>b.
       if length b > SERVER_EMOJI_BYTE_LIMIT then throw ''encrypted label emoji length is larger than limit''
       else Inr b))"

definition encryptLabelString :: "env \<Rightarrow> ClientZkGroupCipher \<Rightarrow> string \<Rightarrow> bytes js" where
  "encryptLabelString E cipher labelString =
    bindE (encryptGroupBlob cipher (bytesFromString E labelString)) (\<lambda>b.
      if length b > SERVER_STRING_BYTE_LIMIT then throw ''encrypted label string length is larger than limit''
      else Inr b)"

definition nonEmpty :: "string option \<Rightarrow> string option" where
  "nonEmpty v = (if truthy_str v then v else None)"

definition buildModifyMemberLabelChange :: "env \<Rightarrow> string \<Rightarrow> ConversationAttributesType \<Rightarrow> string option \<Rightarrow>
    string option \<Rightarrow> ProtoActions js" where
  "buildModifyMemberLabelChange E serviceId grp labelEmoji labelString =
    withCipher E grp ''buildModifyMemberLabelChange: group was missing secretParams!'' (\<lambda>cipher.
    bindE (encryptServiceId cipher serviceId) (\<lambda>userIdCipherText.
    bindE (optE (nonEmpty labelEmoji) (encryptLabelEmoji E cipher)) (\<lambda>emoji.
    bindE (optE (nonEmpty labelString) (encryptLabelString E cipher)) (\<lambda>label.
    if emoji \<noteq> None \<and> label = None then throw ''labelEmoji was provided, but not labelString!''
    else Inr ((toGroupActionsParams (nextVersion grp))
      \<lparr>pa_modifyMemberLabels := [\<lparr>pml_userId = Some userIdCipherText, pml_labelEmoji = emoji, pml_labelString = label\<rparr>]\<rparr>)))))"

section \<open>Members\<close>

definition isBanned :: "ConversationAttributesType \<Rightarrow> string \<Rightarrow> bool" where
  "isBanned grp serviceId = (\<exists>m \<in> set (or_list (c_bannedMembersV2 grp)). b_serviceId m = serviceId)"

text \<open>The contact after \<open>getProfiles\<close>, which is called when a key or its credential is missing.\<close>

definition refreshedContact :: "BuildEnv \<Rightarrow> string \<Rightarrow> BuildContact \<Rightarrow> BuildContact js" where
  "refreshedContact B conversationId contact =
    (if \<not> truthy_str (bc_profileKey contact) \<or> \<not> truthy_str (bc_profileKeyCredential contact)
     then be_afterGetProfiles B conversationId else Inr contact)"

definition newMember :: "bytes \<Rightarrow> bytes option \<Rightarrow> int \<Rightarrow> ProtoMember" where
  "newMember userId presentation version =
    \<lparr>pm_userId = Some userId, pm_profileKey = None, pm_presentation = presentation, pm_role = Some ROLE_DEFAULT,
     pm_joinedAtVersion = Some version, pm_labelEmoji = None, pm_labelString = None\<rparr>"

definition unbanIfNeeded :: "ClientZkGroupCipher \<Rightarrow> ConversationAttributesType \<Rightarrow> string \<Rightarrow> ProtoActions \<Rightarrow> ProtoActions js" where
  "unbanIfNeeded cipher conversation serviceId acts =
    (if isBanned conversation serviceId
     then bindE (encryptServiceId cipher serviceId) (\<lambda>b.
       Inr (acts\<lparr>pa_deleteMembersBanned := pa_deleteMembersBanned acts @ [Some b]\<rparr>))
     else Inr acts)"

definition addOrInvite :: "BuildEnv \<Rightarrow> string \<Rightarrow> bytes \<Rightarrow> int \<Rightarrow> int \<Rightarrow> bytes \<Rightarrow> BuildContact \<Rightarrow> ProtoActions \<Rightarrow>
    ProtoActions js" where
  "addOrInvite B secretParams ourAciCipherTextBuffer now version userId contact acts =
    (if truthy_str (bc_profileKey contact) \<and> truthy_str (bc_profileKeyCredential contact)
     then bindE (be_presentation B (the (bc_profileKeyCredential contact)) secretParams) (\<lambda>presentation.
       Inr (acts\<lparr>pa_addMembers := pa_addMembers acts @
         [\<lparr>pam_added = Some (newMember userId (Some presentation) version), pam_joinFromInviteLink = False\<rparr>]\<rparr>))
     else Inr (acts\<lparr>pa_addMembersPendingProfileKey := pa_addMembersPendingProfileKey acts @
         [Some \<lparr>pmp_addedByUserId = Some ourAciCipherTextBuffer, pmp_timestamp = Some now,
           pmp_member = Some (newMember userId None version)\<rparr>]\<rparr>))"

definition buildAddContact :: "BuildEnv \<Rightarrow> ClientZkGroupCipher \<Rightarrow> string \<Rightarrow> bytes \<Rightarrow> int \<Rightarrow>
    ConversationAttributesType \<Rightarrow> string \<Rightarrow> ProtoActions \<Rightarrow> ProtoActions js" where
  "buildAddContact B cipher secretParams ourAciCipherTextBuffer now conversation conversationId acts =
    (case be_contact B conversationId of
       None \<Rightarrow> Inr acts
     | Some contact \<Rightarrow>
         if \<not> truthy_str (bc_serviceId contact) then Inr acts
         else let serviceId = the (bc_serviceId contact) in
           bindE (refreshedContact B conversationId contact) (\<lambda>contact.
           bindE (encryptServiceId cipher serviceId) (\<lambda>userId.
           bindE (addOrInvite B secretParams ourAciCipherTextBuffer now (nextVersion conversation) userId contact acts)
             (unbanIfNeeded cipher conversation serviceId))))"

text \<open>
  The contacts are handled by concurrent callbacks: those whose profile has to be fetched are added when
  their fetch ends. \<open>order\<close> is the list of conversation ids in the order in which the callbacks end.
\<close>

definition buildAddMembersChange :: "env \<Rightarrow> BuildEnv \<Rightarrow> ConversationAttributesType \<Rightarrow> string list \<Rightarrow>
    ProtoActions option js" where
  "buildAddMembersChange E B conversation order =
    (if \<not> truthy_str (c_publicParams conversation)
     then throw ''buildAddMembersChange: attributes were missing publicParams!''
     else withSecret conversation ''buildAddMembersChange: attributes were missing secretParams!'' (\<lambda>secret.
     bindE (getClientZkGroupCipher E secret) (\<lambda>cipher.
     bindE (getCheckedAci E) (\<lambda>ourAci.
     bindE (encryptServiceId cipher ourAci) (\<lambda>ourAciCipherTextBuffer.
     bindE (forE (buildAddContact B cipher secret ourAciCipherTextBuffer (date_now E) conversation) order
       (toGroupActionsParams (nextVersion conversation))) (\<lambda>acts.
     if pa_addMembers acts = [] \<and> pa_addMembersPendingProfileKey acts = [] then Inr None else Inr (Some acts)))))))"

text \<open>
  The two lists of \<open>_maybeBuildAddBannedMemberActions\<close>: the ban of the user, and the oldest bans, which are
  lifted to keep the list below the limit.
\<close>

definition deletedBannedMembers :: "ConversationAttributesType \<Rightarrow> int \<Rightarrow> GroupV2BannedMemberType list" where
  "deletedBannedMembers grp limit =
    List.drop (nat (max 0 (limit - 1))) (sort_key (\<lambda>m. - b_timestamp m) (or_list (c_bannedMembersV2 grp)))"

definition maybeBuildAddBannedMemberActions :: "BuildEnv \<Rightarrow> ClientZkGroupCipher \<Rightarrow> ConversationAttributesType \<Rightarrow>
    string \<Rightarrow> string \<Rightarrow> ProtoActions \<Rightarrow> ProtoActions js" where
  "maybeBuildAddBannedMemberActions B cipher grp ourAci serviceId acts =
    (if isBanned grp serviceId \<or> serviceId = ourAci then Inr acts
     else bindE (be_groupSizeHardLimit B) (\<lambda>limit.
       bindE (mapE (\<lambda>m. bindE (encryptServiceId cipher (b_serviceId m)) (\<lambda>b. Inr (Some b)))
         (deletedBannedMembers grp limit)) (\<lambda>deleteMembersBanned.
       bindE (encryptServiceId cipher serviceId) (\<lambda>b.
       Inr (acts\<lparr>pa_addMembersBanned := [Some \<lparr>pmb_userId = Some b, pmb_timestamp = None\<rparr>],
         pa_deleteMembersBanned := deleteMembersBanned\<rparr>)))))"

definition buildDeletePendingAdminApprovalMemberChange :: "env \<Rightarrow> BuildEnv \<Rightarrow> ConversationAttributesType \<Rightarrow> string \<Rightarrow>
    string \<Rightarrow> ProtoActions js" where
  "buildDeletePendingAdminApprovalMemberChange E B grp ourAci aci =
    withCipher E grp ''buildDeletePendingAdminApprovalMemberChange: group was missing secretParams!'' (\<lambda>cipher.
    bindE (encryptServiceId cipher aci) (\<lambda>uuidCipherTextBuffer.
    maybeBuildAddBannedMemberActions B cipher grp ourAci aci
      ((toGroupActionsParams (nextVersion grp))
        \<lparr>pa_deleteMembersPendingAdminApproval := [Some uuidCipherTextBuffer]\<rparr>)))"

definition buildAddPendingAdminApprovalMemberChange :: "BuildEnv \<Rightarrow> ConversationAttributesType \<Rightarrow> string \<Rightarrow>
    ProtoActions js" where
  "buildAddPendingAdminApprovalMemberChange B grp profileKeyCredentialBase64 =
    withSecret grp ''buildAddPendingAdminApprovalMemberChange: group was missing secretParams!'' (\<lambda>secret.
    bindE (be_presentation B profileKeyCredentialBase64 secret) (\<lambda>presentation.
    Inr ((toGroupActionsParams (nextVersion grp))\<lparr>pa_addMembersPendingAdminApproval :=
      [Some \<lparr>pma_userId = None, pma_profileKey = None, pma_presentation = Some presentation,
        pma_timestamp = None\<rparr>]\<rparr>)))"

definition buildAddMember :: "env \<Rightarrow> BuildEnv \<Rightarrow> ConversationAttributesType \<Rightarrow> string \<Rightarrow> string \<Rightarrow> ProtoActions js" where
  "buildAddMember E B grp profileKeyCredentialBase64 serviceId =
    withSecret grp ''buildAddMember: group was missing secretParams!'' (\<lambda>secret.
    bindE (be_presentation B profileKeyCredentialBase64 secret) (\<lambda>presentation.
    bindE (if isBanned grp serviceId
           then bindE (getClientZkGroupCipher E secret) (\<lambda>cipher.
             bindE (encryptServiceId cipher serviceId) (\<lambda>b. Inr [Some b]))
           else Inr []) (\<lambda>deleteMembersBanned.
    Inr ((toGroupActionsParams (nextVersion grp))
      \<lparr>pa_addMembers := [\<lparr>pam_added = Some \<lparr>pm_userId = None, pm_profileKey = None,
         pm_presentation = Some presentation, pm_role = Some ROLE_DEFAULT, pm_joinedAtVersion = None,
         pm_labelEmoji = None, pm_labelString = None\<rparr>, pam_joinFromInviteLink = False\<rparr>],
       pa_deleteMembersBanned := deleteMembersBanned\<rparr>))))"

definition buildDeletePendingMemberChange :: "env \<Rightarrow> string list \<Rightarrow> ConversationAttributesType \<Rightarrow> ProtoActions js" where
  "buildDeletePendingMemberChange E serviceIds grp =
    withCipher E grp ''buildDeletePendingMemberChange: group was missing secretParams!'' (\<lambda>cipher.
    bindE (mapE (\<lambda>u. bindE (encryptServiceId cipher u) (\<lambda>b. Inr (Some b))) serviceIds) (\<lambda>deleted.
    Inr ((toGroupActionsParams (nextVersion grp))\<lparr>pa_deleteMembersPendingProfileKey := deleted\<rparr>)))"

definition buildDeleteMemberChange :: "env \<Rightarrow> BuildEnv \<Rightarrow> ConversationAttributesType \<Rightarrow> string \<Rightarrow> string \<Rightarrow>
    ProtoActions js" where
  "buildDeleteMemberChange E B grp ourAci serviceId =
    withCipher E grp ''buildDeleteMemberChange: group was missing secretParams!'' (\<lambda>cipher.
    bindE (encryptServiceId cipher serviceId) (\<lambda>uuidCipherTextBuffer.
    maybeBuildAddBannedMemberActions B cipher grp ourAci serviceId
      ((toGroupActionsParams (nextVersion grp))\<lparr>pa_deleteMembers := [Some uuidCipherTextBuffer]\<rparr>)))"

definition buildAddBannedMemberChange :: "env \<Rightarrow> string \<Rightarrow> ConversationAttributesType \<Rightarrow> ProtoActions js" where
  "buildAddBannedMemberChange E serviceId grp =
    withCipher E grp ''buildAddBannedMemberChange: group was missing secretParams!'' (\<lambda>cipher.
    bindE (encryptServiceId cipher serviceId) (\<lambda>userIdCipherText.
    Inr ((toGroupActionsParams (nextVersion grp))
      \<lparr>pa_addMembersBanned := [Some \<lparr>pmb_userId = Some userIdCipherText, pmb_timestamp = None\<rparr>],
       pa_deleteMembersPendingAdminApproval :=
         (if \<exists>item \<in> set (or_list (c_pendingAdminApprovalV2 grp)). a_aci item = serviceId
          then [Some userIdCipherText] else [])\<rparr>)))"

definition buildPromotePendingAdminApprovalMemberChange :: "env \<Rightarrow> ConversationAttributesType \<Rightarrow> string \<Rightarrow>
    ProtoActions js" where
  "buildPromotePendingAdminApprovalMemberChange E grp aci =
    withCipher E grp ''buildAddPendingAdminApprovalMemberChange: group was missing secretParams!'' (\<lambda>cipher.
    bindE (encryptServiceId cipher aci) (\<lambda>userIdCipherText.
    Inr ((toGroupActionsParams (nextVersion grp))
      \<lparr>pa_promoteMembersPendingAdminApproval := [\<lparr>pmr_userId = Some userIdCipherText, pmr_role = Some ROLE_DEFAULT\<rparr>]\<rparr>)))"

definition buildPromoteMemberChange :: "BuildEnv \<Rightarrow> ConversationAttributesType \<Rightarrow> string \<Rightarrow> bool \<Rightarrow> ProtoActions js" where
  "buildPromoteMemberChange B grp profileKeyCredentialBase64 isPendingPniAciProfileKey =
    withSecret grp ''buildDisappearingMessagesTimerChange: group was missing secretParams!'' (\<lambda>secret.
    bindE (be_presentation B profileKeyCredentialBase64 secret) (\<lambda>presentation.
    Inr (if isPendingPniAciProfileKey
         then (toGroupActionsParams (nextVersion grp))\<lparr>pa_promoteMembersPendingPniAciProfileKey :=
           [\<lparr>ppp_presentation = Some presentation, ppp_userId = None, ppp_pni = None, ppp_profileKey = None\<rparr>]\<rparr>
         else (toGroupActionsParams (nextVersion grp))\<lparr>pa_promoteMembersPendingProfileKey :=
           [\<lparr>ppk_presentation = Some presentation, ppk_userId = None, ppk_profileKey = None\<rparr>]\<rparr>)))"

end
