(* ===== verification/Group_Own_Changes.thy ===== *)
theory Group_Own_Changes
  imports Group_Build
begin

text \<open>
  What our own changes of a group do: a change that Group_Build writes is decrypted and applied with the
  functions that handle everybody's changes, and has the effect it was written for. Removing a member, the
  bounded list of bans and adding members are here; labels and attributes are in Group_Own_Attributes.
\<close>

section \<open>Decrypting what we encrypted\<close>

text \<open>What libsignal documents: decrypting the encryption of a service id gives the service id.\<close>

definition cipherEncrypts :: "ClientZkGroupCipher \<Rightarrow> string \<Rightarrow> bool" where
  "cipherEncrypts cipher u \<longleftrightarrow>
    (case zk_encryptServiceId cipher u of
       Inl _ \<Rightarrow> False
     | Inr b \<Rightarrow> b \<noteq> [] \<and> decryptServiceId cipher b = Inr u \<and> (isAciString (Some u) \<longrightarrow> decryptAci cipher b = Inr u))"

lemma cipherEncryptsE:
  assumes "cipherEncrypts cipher u"
  obtains b where "encryptServiceId cipher u = Inr b" "b \<noteq> []" "decryptServiceId cipher b = Inr u"
    "isAciString (Some u) \<Longrightarrow> decryptAci cipher b = Inr u"
  using assms by (auto simp: cipherEncrypts_def encryptServiceId_def split: sum.splits)

lemma compactMap_simps [simp]:
  "compactMap f [] = Inr []"
  "f x = Inr (Some y) \<Longrightarrow> compactMap f (x # xs) = bindE (compactMap f xs) (\<lambda>ys. Inr (y # ys))"
  by (auto simp: compactMap_def bindE_def split: sum.splits)

lemma encrypt_list:
  assumes "list_all (cipherEncrypts cipher) us"
  obtains bs where "mapE (\<lambda>u. bindE (encryptServiceId cipher u) (\<lambda>b. Inr (Some b))) us = Inr bs"
    "compactMap (decryptUnbanned cipher) bs = Inr us"
proof -
  have "\<exists>bs. mapE (\<lambda>u. bindE (encryptServiceId cipher u) (\<lambda>b. Inr (Some b))) us = Inr bs \<and>
      compactMap (decryptUnbanned cipher) bs = Inr us"
    using assms
  proof (induction us)
    case (Cons u us)
    then obtain bs where bs: "mapE (\<lambda>u. bindE (encryptServiceId cipher u) (\<lambda>b. Inr (Some b))) us = Inr bs"
      "compactMap (decryptUnbanned cipher) bs = Inr us" by auto
    from Cons.prems have "cipherEncrypts cipher u" by simp
    then obtain b where "encryptServiceId cipher u = Inr b" "decryptServiceId cipher b = Inr u"
      by (rule cipherEncryptsE)
    then have "decryptUnbanned cipher (Some b) = Inr (Some u)" by (simp add: decryptUnbanned_def)
    with bs \<open>encryptServiceId cipher u = Inr b\<close> show ?case
      by (intro exI [of _ "Some b # bs"]) simp
  qed simp
  then show thesis using that by blast
qed

lemma decryptGroupChange_simple:
  assumes "getClientZkGroupCipher E secret = Inr cipher" and "src \<noteq> []"
    and "compactMap (decryptDeletedAci cipher ''decryptGroupChange: deleteMember.deletedUserId was missing'') dm = Inr dm'"
    and "compactMap (decryptDeletedAci cipher
      ''decryptGroupChange: deleteMemberPendingAdminApproval.deletedUserId was missing'') da = Inr da'"
    and "compactMap (decryptBanned E cipher) ab = Inr ab'"
    and "compactMap (decryptUnbanned cipher) db = Inr db'"
  shows "\<exists>acts. decryptGroupChange E ((toGroupActionsParams v)\<lparr>pa_deleteMembers := dm,
      pa_deleteMembersPendingAdminApproval := da, pa_addMembersBanned := ab, pa_deleteMembersBanned := db,
      pa_sourceUserId := Some src\<rparr>) secret = Inr acts \<and>
    g_version acts = Some v \<and> or_list (g_modifyMemberRoles acts) = [] \<and> or_list (g_modifyMemberLabels acts) = [] \<and>
    rosterSpec acts = fold specUnban db' \<circ> fold (specBan \<circ> b_serviceId) ab' \<circ> fold specDenyRequest da' \<circ>
      fold specDeleteMember dm'"
proof -
  have "ab = [] \<Longrightarrow> ab' = []" "db = [] \<Longrightarrow> db' = []" using assms(5,6) by auto
  moreover have "\<exists>s. decryptSource cipher ((toGroupActionsParams v)\<lparr>pa_deleteMembers := dm,
      pa_deleteMembersPendingAdminApproval := da, pa_addMembersBanned := ab, pa_deleteMembersBanned := db,
      pa_sourceUserId := Some src\<rparr>) = Inr s"
    using assms(2) by (simp add: decryptSource_def Let_def)
  ultimately show ?thesis
    using assms
    by (auto simp: decryptGroupChange_def toGroupActionsParams_def decryptAccess_def rosterSpec_def comp_def
        decryptSource_def)
qed

section \<open>Bans\<close>

definition needsBan :: "ConversationAttributesType \<Rightarrow> string \<Rightarrow> string \<Rightarrow> bool" where
  "needsBan grp ourAci u \<longleftrightarrow> \<not> isBanned grp u \<and> u \<noteq> ourAci"

text \<open>The bans of a group after we ban \<open>u\<close>: the oldest ones above the limit are lifted.\<close>

definition bansAfter :: "ConversationAttributesType \<Rightarrow> string \<Rightarrow> int \<Rightarrow> string \<Rightarrow> string set" where
  "bansAfter grp ourAci limit u =
    (if needsBan grp ourAci u
     then insert u (ro_banned (rosterOf grp)) - b_serviceId ` set (deletedBannedMembers grp limit)
     else ro_banned (rosterOf grp))"

lemma set_deletedBannedMembers: "set (deletedBannedMembers grp limit) \<subseteq> set (or_list (c_bannedMembersV2 grp))"
  unfolding deletedBannedMembers_def using set_drop_subset by fastforce

lemma maybeBuild_ok:
  assumes "be_groupSizeHardLimit B = Inr limit" and u: "cipherEncrypts cipher u"
    and bans: "list_all (\<lambda>m. cipherEncrypts cipher (b_serviceId m)) (or_list (c_bannedMembersV2 grp))"
    and none: "pa_addMembersBanned acts = []" "pa_deleteMembersBanned acts = []"
  obtains ab db ab' db' where
    "maybeBuildAddBannedMemberActions B cipher grp ourAci u acts =
      Inr (acts\<lparr>pa_addMembersBanned := ab, pa_deleteMembersBanned := db\<rparr>)"
    "compactMap (decryptBanned E cipher) ab = Inr ab'" "compactMap (decryptUnbanned cipher) db = Inr db'"
    "map b_serviceId ab' = (if needsBan grp ourAci u then [u] else [])"
    "db' = (if needsBan grp ourAci u then map b_serviceId (deletedBannedMembers grp limit) else [])"
proof (cases "needsBan grp ourAci u")
  case False
  then have "maybeBuildAddBannedMemberActions B cipher grp ourAci u acts =
      Inr (acts\<lparr>pa_addMembersBanned := [], pa_deleteMembersBanned := []\<rparr>)"
    using none by (cases acts) (auto simp: maybeBuildAddBannedMemberActions_def needsBan_def)
  then show thesis by (rule that [of _ _ "[]" "[]"]) (use False in auto)
next
  case True
  have "list_all (cipherEncrypts cipher) (map b_serviceId (deletedBannedMembers grp limit))"
    using bans set_deletedBannedMembers [of grp limit] by (auto simp: list_all_iff)
  then obtain bs where bs: "mapE (\<lambda>u. bindE (encryptServiceId cipher u) (\<lambda>b. Inr (Some b)))
      (map b_serviceId (deletedBannedMembers grp limit)) = Inr bs"
    "compactMap (decryptUnbanned cipher) bs = Inr (map b_serviceId (deletedBannedMembers grp limit))"
    by (rule encrypt_list)
  have map: "mapE (\<lambda>m. bindE (encryptServiceId cipher (b_serviceId m)) (\<lambda>b. Inr (Some b))) xs =
      mapE (\<lambda>u. bindE (encryptServiceId cipher u) (\<lambda>b. Inr (Some b))) (map b_serviceId xs)" for xs
    by (induction xs) simp_all
  obtain b where b: "encryptServiceId cipher u = Inr b" "b \<noteq> []" "decryptServiceId cipher b = Inr u"
    using u by (rule cipherEncryptsE)
  let ?ban = "\<lparr>pmb_userId = Some b, pmb_timestamp = None\<rparr>"
  have ban: "decryptBanned E cipher (Some ?ban) =
      Inr (Some \<lparr>b_serviceId = u, b_timestamp = normalizeTimestamp E None\<rparr>)"
    using b(3) by (simp add: decryptBanned_def)
  have build: "maybeBuildAddBannedMemberActions B cipher grp ourAci u acts =
      Inr (acts\<lparr>pa_addMembersBanned := [Some ?ban], pa_deleteMembersBanned := bs\<rparr>)"
    using True assms(1) bs(1) b(1)
    by (simp add: maybeBuildAddBannedMemberActions_def needsBan_def map)
  have "compactMap (decryptBanned E cipher) [Some ?ban] =
      Inr [\<lparr>b_serviceId = u, b_timestamp = normalizeTimestamp E None\<rparr>]"
    using ban by simp
  with build show thesis by (rule that) (use bs(2) True in auto)
qed

lemma fold_unban: "fold specUnban us r = r\<lparr>ro_banned := ro_banned r - set us\<rparr>"
  by (induction us arbitrary: r) (simp_all add: specUnban_def flip: Diff_insert2)

lemma fold_ban: "fold (specBan \<circ> f) xs r = r\<lparr>ro_banned := ro_banned r \<union> f ` set xs\<rparr>"
  by (induction xs arbitrary: r) (auto simp: specBan_def)

lemma bansAfter_eq:
  assumes "map b_serviceId ab' = (if needsBan grp ourAci u then [u] else [])"
    and "db' = (if needsBan grp ourAci u then map b_serviceId (deletedBannedMembers grp limit) else [])"
  shows "ro_banned (rosterOf grp) \<union> b_serviceId ` set ab' - set db' = bansAfter grp ourAci limit u"
proof -
  have "b_serviceId ` set ab' = (if needsBan grp ourAci u then {u} else {})"
    using arg_cong [OF assms(1), of set] by (simp split: if_splits)
  then show ?thesis using assms(2) by (auto simp: bansAfter_def)
qed

text \<open>The three steps of a removal.\<close>

lemma removal_effect:
  assumes secret: "c_secretParams grp = Some secret" "secret \<noteq> []" "getClientZkGroupCipher E secret = Inr cipher"
    and cipher: "cipher_ids cipher" "cipherEncrypts cipher u"
      "list_all (\<lambda>m. cipherEncrypts cipher (b_serviceId m)) (or_list (c_bannedMembersV2 grp))"
    and us: "e_ourAci E = Some ourAci" "isAciString (Some u)"
    and limit: "be_groupSizeHardLimit B = Inr limit" and src: "src \<noteq> []"
  shows "\<exists>change acts r. buildDeleteMemberChange E B grp ourAci u = Inr change \<and>
    decryptGroupChange E (change\<lparr>pa_sourceUserId := Some src\<rparr>) secret = Inr acts \<and>
    applyGroupChange E acts grp who = Inr r \<and>
    c_revision (gr_newAttributes r) = Some (nextVersion grp) \<and>
    rosterOf (gr_newAttributes r) = (rosterOf grp)
      \<lparr>ro_members := ro_members (rosterOf grp) - {u}, ro_banned := bansAfter grp ourAci limit u\<rparr>"
proof -
  obtain b where b: "encryptServiceId cipher u = Inr b" "b \<noteq> []" "decryptAci cipher b = Inr u"
    using cipher(2) us(2) by (metis cipherEncryptsE)
  let ?p = "(toGroupActionsParams (nextVersion grp))\<lparr>pa_deleteMembers := [Some b]\<rparr>"
  have none: "pa_addMembersBanned ?p = []" "pa_deleteMembersBanned ?p = []"
    by (simp_all add: toGroupActionsParams_def)
  obtain ab db ab' db' where bans:
    "maybeBuildAddBannedMemberActions B cipher grp ourAci u ?p =
      Inr (?p\<lparr>pa_addMembersBanned := ab, pa_deleteMembersBanned := db\<rparr>)"
    "compactMap (decryptBanned E cipher) ab = Inr ab'" "compactMap (decryptUnbanned cipher) db = Inr db'"
    "map b_serviceId ab' = (if needsBan grp ourAci u then [u] else [])"
    "db' = (if needsBan grp ourAci u then map b_serviceId (deletedBannedMembers grp limit) else [])"
    by (rule maybeBuild_ok [OF limit cipher(2,3) none])
  have build: "buildDeleteMemberChange E B grp ourAci u =
      Inr (?p\<lparr>pa_addMembersBanned := ab, pa_deleteMembersBanned := db\<rparr>)"
    using secret b(1) bans(1) by (simp add: buildDeleteMemberChange_def withCipher_def withSecret_def)
  have dm: "compactMap (decryptDeletedAci cipher ''decryptGroupChange: deleteMember.deletedUserId was missing'')
      [Some b] = Inr [u]"
    using b by (simp add: decryptDeletedAci_def assertBytes_def dropOnError_def)
  obtain acts where acts: "decryptGroupChange E (?p\<lparr>pa_addMembersBanned := ab, pa_deleteMembersBanned := db,
      pa_sourceUserId := Some src\<rparr>) secret = Inr acts"
    "or_list (g_modifyMemberRoles acts) = []" "or_list (g_modifyMemberLabels acts) = []"
    "g_version acts = Some (nextVersion grp)"
    "rosterSpec acts = fold specUnban db' \<circ> fold (specBan \<circ> b_serviceId) ab' \<circ> fold specDenyRequest [] \<circ>
      fold specDeleteMember [u]"
    using decryptGroupChange_simple [OF secret(3) src dm _ bans(2,3), of "[]" "[]" "nextVersion grp"]
    by (auto simp: toGroupActionsParams_def)
  have "\<exists>r. applyGroupChange E acts grp who = Inr r"
    using applyGroupChange_applies [OF decryptGroupChange_wf [OF acts(1) secret(3) cipher(1)] _ acts(2,3)] us(1)
    by simp
  then obtain r where r: "applyGroupChange E acts grp who = Inr r" by blast
  have "rosterOf (gr_newAttributes r) = (rosterOf grp)
      \<lparr>ro_members := ro_members (rosterOf grp) - {u}, ro_banned := bansAfter grp ourAci limit u\<rparr>"
    using bansAfter_eq [OF bans(4,5)]
    by (simp add: applyGroupChange_roster [OF r] acts(5) fold_unban fold_ban specDeleteMember_def)
  moreover have "c_revision (gr_newAttributes r) = Some (nextVersion grp)"
    using applyGroupChange_revision [OF r] acts(4) by simp
  ultimately show ?thesis using build acts(1) r by auto
qed

text \<open>The bans are cut to the limit, and the newest are kept.\<close>

lemma card_bansAfter:
  assumes "needsBan grp ourAci u" and d: "distinct (map b_serviceId (or_list (c_bannedMembersV2 grp)))" and "1 \<le> limit"
  shows "int (card (bansAfter grp ourAci limit u)) = min (int (length (or_list (c_bannedMembersV2 grp))) + 1) limit"
proof -
  let ?bs = "or_list (c_bannedMembersV2 grp)"
  let ?sorted = "sort_key (\<lambda>m. - b_timestamp m) ?bs"
  let ?n = "nat (max 0 (limit - 1))"
  have set: "set (take ?n ?sorted) \<union> set (drop ?n ?sorted) = set ?bs"
    by (metis append_take_drop_id set_append set_sort)
  have "distinct (map b_serviceId ?sorted)"
    using d by (metis distinct_map distinct_sort inj_on_cong set_sort)
  then have dist: "distinct (map b_serviceId (take ?n ?sorted) @ map b_serviceId (drop ?n ?sorted))"
    by (metis append_take_drop_id map_append)
  have u: "u \<notin> b_serviceId ` set ?bs"
    using assms(1) by (auto simp: needsBan_def isBanned_def)
  have "bansAfter grp ourAci limit u = insert u (b_serviceId ` set (take ?n ?sorted))"
    using assms(1) dist u unfolding bansAfter_def deletedBannedMembers_def
    by (auto simp: rosterOf_def set [symmetric] image_Un dest: in_set_takeD in_set_dropD)
  moreover have "u \<notin> b_serviceId ` set (take ?n ?sorted)"
    using u set by blast
  moreover have "card (b_serviceId ` set (take ?n ?sorted)) = length (take ?n ?sorted)"
    using dist by (metis distinct_append distinct_card length_map set_map)
  ultimately show ?thesis using assms(3) by simp
qed

lemma lifted_bans_oldest:
  assumes "old \<in> set (deletedBannedMembers grp limit)" and "kept \<in> set (or_list (c_bannedMembersV2 grp))"
    and "kept \<notin> set (deletedBannedMembers grp limit)"
  shows "b_timestamp old \<le> b_timestamp kept"
proof -
  let ?sorted = "sort_key (\<lambda>m. - b_timestamp m) (or_list (c_bannedMembersV2 grp))"
  let ?n = "nat (max 0 (limit - 1))"
  have "kept \<in> set ?sorted" using assms(2) by simp
  then have "kept \<in> set (take ?n ?sorted)"
    using assms(3) unfolding deletedBannedMembers_def by (metis Un_iff append_take_drop_id set_append)
  moreover have "sorted (map (\<lambda>m. - b_timestamp m) (take ?n ?sorted @ drop ?n ?sorted))"
    by (metis append_take_drop_id sorted_sort_key)
  then have "\<forall>x \<in> set (take ?n ?sorted). \<forall>y \<in> set (drop ?n ?sorted). - b_timestamp x \<le> - b_timestamp y"
    unfolding map_append sorted_append set_map ball_simps by blast
  moreover have "old \<in> set (drop ?n ?sorted)"
    using assms(1) by (simp only: deletedBannedMembers_def)
  ultimately show ?thesis by (meson neg_le_iff_le)
qed

section \<open>Properties\<close>

text \<open>
C22: Removing a member works end to end: the change that \<open>buildDeleteMemberChange\<close> writes decrypts, applies,
advances the revision by one and yields exactly the group without that member; unless it is ourselves who
leave, the removed member is banned, and nothing else of the membership changes but the bans that were
lifted for it. (Relied on: the cipher decrypts what it encrypted and gives no empty service id.)
\<close>

theorem removed_member_is_banned:
  assumes secret: "c_secretParams grp = Some secret" "secret \<noteq> []" "getClientZkGroupCipher E secret = Inr cipher"
    and cipher: "cipher_ids cipher" "cipherEncrypts cipher u"
      "list_all (\<lambda>m. cipherEncrypts cipher (b_serviceId m)) (or_list (c_bannedMembersV2 grp))"
    and us: "e_ourAci E = Some ourAci" "isAciString (Some u)"
    and limit: "be_groupSizeHardLimit B = Inr limit" and src: "src \<noteq> []"
  shows "\<exists>change acts r. buildDeleteMemberChange E B grp ourAci u = Inr change \<and>
    decryptGroupChange E (change\<lparr>pa_sourceUserId := Some src\<rparr>) secret = Inr acts \<and>
    applyGroupChange E acts grp who = Inr r \<and>
    (let before = rosterOf grp; after = rosterOf (gr_newAttributes r) in
      c_revision (gr_newAttributes r) = Some (nullish (c_revision grp) 0 + 1) \<and>
      ro_members after = ro_members before - {u} \<and>
      ro_pending after = ro_pending before \<and> ro_admin after = ro_admin before \<and>
      (if u = ourAci then ro_banned after = ro_banned before
       else u \<in> ro_banned after \<and> ro_banned after \<subseteq> insert u (ro_banned before)))"
proof -
  have "if u = ourAci then bansAfter grp ourAci limit u = ro_banned (rosterOf grp)
      else u \<in> bansAfter grp ourAci limit u \<and> bansAfter grp ourAci limit u \<subseteq> insert u (ro_banned (rosterOf grp))"
    using set_deletedBannedMembers [of grp limit]
    by (auto simp: bansAfter_def needsBan_def isBanned_def rosterOf_def)
  then show ?thesis
    using removal_effect [OF assms, of who] by (fastforce simp: Let_def nextVersion_def)
qed

definition banExample :: ConversationAttributesType where
  "banExample = exampleGroup\<lparr>
    c_membersV2 := Some [exampleMember ''us'', exampleMember ''c0ffee00-1111-4222-8333-444455556666''],
    c_bannedMembersV2 := Some [\<lparr>b_serviceId = ''old'', b_timestamp = 1\<rparr>, \<lparr>b_serviceId = ''new'', b_timestamp = 9\<rparr>]\<rparr>"

definition exampleBuildEnv :: BuildEnv where
  "exampleBuildEnv =
    \<lparr>be_contact = (\<lambda>id. if id = ''unknown'' then None else
       Some \<lparr>bc_serviceId = Some id, bc_profileKey = Some ''key'',
             bc_profileKeyCredential = (if id = ''fresh'' then None else Some ''cred'')\<rparr>),
     be_afterGetProfiles = (\<lambda>id. Inr \<lparr>bc_serviceId = Some id, bc_profileKey = Some ''key'', bc_profileKeyCredential = None\<rparr>),
     be_presentation = (\<lambda>cred secret. Inr [1]), be_encodeBlob = (\<lambda>_. [7]),
     be_uploadAvatar = (\<lambda>_. Inr ''avatar-key''), be_groupSizeHardLimit = Inr 2\<rparr>"

lemma banExample_facts:
  "c_secretParams banExample = Some ''secret''" "be_groupSizeHardLimit exampleBuildEnv = Inr 2"
  "or_list (c_bannedMembersV2 banExample) =
    [\<lparr>b_serviceId = ''old'', b_timestamp = 1\<rparr>, \<lparr>b_serviceId = ''new'', b_timestamp = 9\<rparr>]"
  "ro_banned (rosterOf banExample) = {''old'', ''new''}"
  by (simp_all add: banExample_def exampleGroup_def exampleBuildEnv_def rosterOf_def)

lemma nonemptyCipher_encrypts: "u \<noteq> [] \<Longrightarrow> cipherEncrypts nonemptyCipher u"
  by (simp add: cipherEncrypts_def nonemptyCipher_def exampleCipher_def decryptServiceId_def decryptAci_def)
    (simp add: bytes_of_chars_def)

theorem removed_member_is_banned_witness:
  "\<exists>change acts r. buildDeleteMemberChange nonemptyEnv exampleBuildEnv banExample ''us''
      ''c0ffee00-1111-4222-8333-444455556666'' = Inr change \<and>
    decryptGroupChange nonemptyEnv (change\<lparr>pa_sourceUserId := Some [1]\<rparr>) ''secret'' = Inr acts \<and>
    applyGroupChange nonemptyEnv acts banExample ''us'' = Inr r \<and>
    ''c0ffee00-1111-4222-8333-444455556666'' \<in> ro_banned (rosterOf (gr_newAttributes r))"
proof -
  have uuid: "isAciString (Some ''c0ffee00-1111-4222-8333-444455556666'')" by code_simp
  show ?thesis
    using removed_member_is_banned [OF banExample_facts(1) _ nonemptyEnv_facts(2,1) _ _ nonemptyEnv_facts(3) uuid
        banExample_facts(2), of "[1]" "''us''"]
    by (auto simp: nonemptyCipher_encrypts banExample_facts Let_def)
qed

text \<open>
C30: The list of bans is bounded: after a member who was not banned is removed, the group has one more ban than
before, cut to the hard limit of the group size; and a ban that was lifted to make room is not newer than
any ban that was kept.
\<close>

theorem ban_list_bounded:
  assumes secret: "c_secretParams grp = Some secret" "secret \<noteq> []" "getClientZkGroupCipher E secret = Inr cipher"
    and cipher: "cipher_ids cipher" "cipherEncrypts cipher u"
      "list_all (\<lambda>m. cipherEncrypts cipher (b_serviceId m)) (or_list (c_bannedMembersV2 grp))"
    and us: "e_ourAci E = Some ourAci" "isAciString (Some u)"
    and limit: "be_groupSizeHardLimit B = Inr limit" and src: "src \<noteq> []"
    and bans: "1 \<le> limit" "distinct (map b_serviceId (or_list (c_bannedMembersV2 grp)))"
      "u \<notin> ro_banned (rosterOf grp)" "u \<noteq> ourAci"
  shows "\<exists>change acts r. buildDeleteMemberChange E B grp ourAci u = Inr change \<and>
    decryptGroupChange E (change\<lparr>pa_sourceUserId := Some src\<rparr>) secret = Inr acts \<and>
    applyGroupChange E acts grp who = Inr r \<and>
    (let after = ro_banned (rosterOf (gr_newAttributes r)); bs = or_list (c_bannedMembersV2 grp) in
      int (card after) = min (int (length bs) + 1) limit \<and>
      (\<forall>old \<in> set bs. \<forall>kept \<in> set bs. b_serviceId old \<notin> after \<longrightarrow> b_serviceId kept \<in> after \<longrightarrow>
        b_timestamp old \<le> b_timestamp kept))"
proof -
  let ?bs = "or_list (c_bannedMembersV2 grp)"
  have need: "needsBan grp ourAci u"
    using bans(3,4) by (auto simp: needsBan_def isBanned_def rosterOf_def)
  have after: "b_serviceId m \<in> bansAfter grp ourAci limit u \<longleftrightarrow> m \<notin> set (deletedBannedMembers grp limit)"
    if "m \<in> set ?bs" for m
  proof -
    have "m = m'" if "m' \<in> set (deletedBannedMembers grp limit)" "b_serviceId m = b_serviceId m'" for m'
      using bans(2) \<open>m \<in> set ?bs\<close> that set_deletedBannedMembers [of grp limit]
      by (auto simp: distinct_map dest: inj_onD)
    then show ?thesis
      using need \<open>m \<in> set ?bs\<close> by (auto simp: bansAfter_def rosterOf_def)
  qed
  have "\<forall>old \<in> set ?bs. \<forall>kept \<in> set ?bs. b_serviceId old \<notin> bansAfter grp ourAci limit u \<longrightarrow>
      b_serviceId kept \<in> bansAfter grp ourAci limit u \<longrightarrow> b_timestamp old \<le> b_timestamp kept"
    using after lifted_bans_oldest by blast
  then show ?thesis
    using removal_effect [OF assms(1-10), of who] card_bansAfter [OF need bans(2,1)] by (auto simp: Let_def)
qed

theorem ban_list_bounded_witness:
  "\<exists>change acts r. buildDeleteMemberChange nonemptyEnv exampleBuildEnv banExample ''us''
      ''c0ffee00-1111-4222-8333-444455556666'' = Inr change \<and>
    decryptGroupChange nonemptyEnv (change\<lparr>pa_sourceUserId := Some [1]\<rparr>) ''secret'' = Inr acts \<and>
    applyGroupChange nonemptyEnv acts banExample ''us'' = Inr r \<and>
    card (ro_banned (rosterOf (gr_newAttributes r))) = 2"
proof -
  have uuid: "isAciString (Some ''c0ffee00-1111-4222-8333-444455556666'')" by code_simp
  show ?thesis
    using ban_list_bounded [of banExample "''secret''" nonemptyEnv nonemptyCipher
        "''c0ffee00-1111-4222-8333-444455556666''" "''us''" exampleBuildEnv 2 "[1]" "''us''"]
    by (auto simp: nonemptyEnv_facts nonemptyCipher_encrypts uuid banExample_facts Let_def)
qed

section \<open>Adding members\<close>

definition contactServiceId :: "BuildEnv \<Rightarrow> string \<Rightarrow> string option" where
  "contactServiceId B conversationId =
    (case be_contact B conversationId of None \<Rightarrow> None | Some c \<Rightarrow> nonEmpty (bc_serviceId c))"

definition encryptedId :: "ClientZkGroupCipher \<Rightarrow> string \<Rightarrow> bytes" where
  "encryptedId cipher u = (case zk_encryptServiceId cipher u of Inl _ \<Rightarrow> [] | Inr b \<Rightarrow> b)"

text \<open>The users a change adds or invites, and the contacts it is meant to add.\<close>

definition newUsers :: "ProtoActions \<Rightarrow> bytes option list" where
  "newUsers acts = map (\<lambda>a. Option.bind (pam_added a) pm_userId) (pa_addMembers acts) @
     map (\<lambda>p. Option.bind (Option.bind p pmp_member) pm_userId) (pa_addMembersPendingProfileKey acts)"

definition wantedUsers :: "BuildEnv \<Rightarrow> string list \<Rightarrow> string list" where
  "wantedUsers B order = List.map_filter (contactServiceId B) order"

lemma encryptServiceId_eq: "encryptServiceId cipher u = Inr b \<Longrightarrow> encryptedId cipher u = b"
  by (simp add: encryptServiceId_def encryptedId_def)

lemma unbanIfNeeded_Inr:
  assumes "unbanIfNeeded cipher conversation u acts = Inr acts'"
  shows "newUsers acts' = newUsers acts \<and> pa_deleteMembersBanned acts' =
    pa_deleteMembersBanned acts @ (if isBanned conversation u then [Some (encryptedId cipher u)] else [])"
  using assms by (auto simp: unbanIfNeeded_def bindE_eq_Inr newUsers_def dest: encryptServiceId_eq split: if_splits)

lemma buildAddContact_step:
  assumes "buildAddContact B cipher secret our now conversation cid acts = Inr acts'"
  shows "case contactServiceId B cid of
      None \<Rightarrow> acts' = acts
    | Some u \<Rightarrow> mset (newUsers acts') = add_mset (Some (encryptedId cipher u)) (mset (newUsers acts)) \<and>
        pa_deleteMembersBanned acts' =
          pa_deleteMembersBanned acts @ (if isBanned conversation u then [Some (encryptedId cipher u)] else [])"
proof (cases "contactServiceId B cid")
  case None
  then show ?thesis
    using assms by (auto simp: buildAddContact_def contactServiceId_def nonEmpty_def split: option.splits if_splits)
next
  case (Some u)
  then obtain contact where contact: "be_contact B cid = Some contact" "bc_serviceId contact = Some u" "u \<noteq> []"
    by (auto simp: contactServiceId_def nonEmpty_def split: option.splits if_splits)
  with assms obtain c b acts1 where
    c: "encryptServiceId cipher u = Inr b" "unbanIfNeeded cipher conversation u acts1 = Inr acts'"
    and acts1: "addOrInvite B secret our now (nextVersion conversation) b c acts = Inr acts1"
    by (auto simp: buildAddContact_def Let_def bindE_eq_Inr)
  have "mset (newUsers acts1) = add_mset (Some b) (mset (newUsers acts))"
    "pa_deleteMembersBanned acts1 = pa_deleteMembersBanned acts"
    using acts1 by (auto simp: addOrInvite_def newUsers_def newMember_def bindE_eq_Inr split: if_splits)
  with Some unbanIfNeeded_Inr [OF c(2)] encryptServiceId_eq [OF c(1)] show ?thesis by simp
qed

lemma buildAddContacts:
  assumes "forE (buildAddContact B cipher secret our now conversation) order acts = Inr acts'"
  shows "mset (newUsers acts') = mset (newUsers acts) + mset (map (\<lambda>u. Some (encryptedId cipher u)) (wantedUsers B order)) \<and>
    pa_deleteMembersBanned acts' = pa_deleteMembersBanned acts @
      map (\<lambda>u. Some (encryptedId cipher u)) (filter (isBanned conversation) (wantedUsers B order))"
  using assms
proof (induction order arbitrary: acts)
  case (Cons cid order)
  then obtain acts1 where a: "buildAddContact B cipher secret our now conversation cid acts = Inr acts1"
    "forE (buildAddContact B cipher secret our now conversation) order acts1 = Inr acts'"
    by (auto simp: bindE_eq_Inr)
  show ?case
    using buildAddContact_step [OF a(1)] Cons.IH [OF a(2)]
    by (auto simp: wantedUsers_def map_filter_simps split: option.splits)
qed (simp add: wantedUsers_def map_filter_simps)

text \<open>
C38: \<open>buildAddMembersChange\<close> forgets nobody and adds nobody twice: in whatever order the callbacks end, the
contacts that are known and have a service cid are each added or invited exactly once, and exactly those of
them who were banned are unbanned; there is no change only if there is no such contact.
\<close>

theorem add_members_complete:
  assumes "buildAddMembersChange E B conversation order = Inr change"
    and "getClientZkGroupCipher E (the (c_secretParams conversation)) = Inr cipher"
  shows "case change of
      None \<Rightarrow> wantedUsers B order = []
    | Some acts \<Rightarrow> wantedUsers B order \<noteq> [] \<and> pa_version acts = Some (nextVersion conversation) \<and>
        mset (newUsers acts) = mset (map (\<lambda>u. Some (encryptedId cipher u)) (wantedUsers B order)) \<and>
        pa_deleteMembersBanned acts =
          map (\<lambda>u. Some (encryptedId cipher u)) (filter (isBanned conversation) (wantedUsers B order))"
proof -
  from assms obtain our acts where
    acts: "forE (buildAddContact B cipher (the (c_secretParams conversation)) our (date_now E) conversation) order
      (toGroupActionsParams (nextVersion conversation)) = Inr acts"
    and change: "change = (if pa_addMembers acts = [] \<and> pa_addMembersPendingProfileKey acts = [] then None else Some acts)"
    by (auto simp: buildAddMembersChange_def withSecret_def bindE_eq_Inr split: if_splits)
  have version: "pa_version acts = Some (nextVersion conversation)"
  proof (rule forE_invariant [OF acts, where P = "\<lambda>acts. pa_version acts = Some (nextVersion conversation)"])
    fix cid a a'
    assume "buildAddContact B cipher (the (c_secretParams conversation)) our (date_now E) conversation cid a = Inr a'"
      and "pa_version a = Some (nextVersion conversation)"
    then show "pa_version a' = Some (nextVersion conversation)"
      by (auto simp: buildAddContact_def addOrInvite_def Let_def bindE_eq_Inr unbanIfNeeded_def split: option.splits if_splits)
  qed (simp add: toGroupActionsParams_def)
  have users: "mset (newUsers acts) = mset (map (\<lambda>u. Some (encryptedId cipher u)) (wantedUsers B order))"
    "pa_deleteMembersBanned acts = map (\<lambda>u. Some (encryptedId cipher u)) (filter (isBanned conversation) (wantedUsers B order))"
    using buildAddContacts [OF acts] by (simp_all add: newUsers_def toGroupActionsParams_def)
  have "newUsers acts = [] \<longleftrightarrow> wantedUsers B order = []"
    using arg_cong [OF users(1), of size] by auto
  moreover have "pa_addMembers acts = [] \<and> pa_addMembersPendingProfileKey acts = [] \<longleftrightarrow> newUsers acts = []"
    by (simp add: newUsers_def)
  ultimately show ?thesis using change version users by auto
qed

theorem add_members_complete_witness:
  "\<exists>acts. buildAddMembersChange nonemptyEnv exampleBuildEnv banExample [''bob'', ''unknown'', ''old'', ''fresh''] = Inr (Some acts) \<and>
    length (newUsers acts) = 3 \<and> length (pa_deleteMembersBanned acts) = 1"
proof -
  have "\<exists>acts. buildAddMembersChange nonemptyEnv exampleBuildEnv banExample [''bob'', ''unknown'', ''old'', ''fresh''] = Inr (Some acts)"
    by (simp add: buildAddMembersChange_def withSecret_def banExample_def exampleGroup_def nonemptyEnv_facts
        encryptServiceId_def nonemptyCipher_def exampleCipher_def buildAddContact_def addOrInvite_def exampleBuildEnv_def
        refreshedContact_def unbanIfNeeded_def isBanned_def toGroupActionsParams_def Let_def)
  then obtain acts where acts: "buildAddMembersChange nonemptyEnv exampleBuildEnv banExample
      [''bob'', ''unknown'', ''old'', ''fresh''] = Inr (Some acts)" by blast
  have wanted: "wantedUsers exampleBuildEnv [''bob'', ''unknown'', ''old'', ''fresh''] = [''bob'', ''old'', ''fresh'']"
    by (simp_all add: wantedUsers_def map_filter_simps contactServiceId_def exampleBuildEnv_def nonEmpty_def)
  have banned: "isBanned banExample u \<longleftrightarrow> u = ''old'' \<or> u = ''new''" for u
    by (auto simp: isBanned_def banExample_facts)
  have "mset (newUsers acts) = mset (map (\<lambda>u. Some (encryptedId nonemptyCipher u)) [''bob'', ''old'', ''fresh''])"
    "length (pa_deleteMembersBanned acts) = 1"
    using add_members_complete [OF acts nonemptyEnv_facts(2)] by (simp_all add: wanted banned)
  then have "size (mset (newUsers acts)) = 3" "length (pa_deleteMembersBanned acts) = 1" by simp_all
  with acts show ?thesis by simp
qed

end
