(* ===== verification/Group_Own_Attributes.thy ===== *)
theory Group_Own_Attributes
  imports Group_Own_Changes
begin

text \<open>
  What our own changes of labels, roles, title and description do, and which contacts are added: as in
  Group_Own_Changes, a change is followed from the \<open>build...\<close> function that writes it through its decryption
  to the attributes of the group after it was applied. The rule on labels is \<open>labelPolicy\<close>.
\<close>

section \<open>Labels\<close>

text \<open>
  In a group where only administrators may set labels, nobody else has one. A label has a text whenever it
  has an emoji.
\<close>

definition unlabelled :: "GroupV2MemberType \<Rightarrow> bool" where
  "unlabelled m \<longleftrightarrow> \<not> truthy_str (m_labelString m) \<and> \<not> truthy_str (m_labelEmoji m)"

definition labelPolicy :: "ConversationAttributesType \<Rightarrow> bool" where
  "labelPolicy attrs \<longleftrightarrow> (memberLabelAccess attrs = Some ACCESS_ADMINISTRATOR \<longrightarrow>
    list_all (\<lambda>m. m_role m = ROLE_ADMINISTRATOR \<or> unlabelled m) (or_list (c_membersV2 attrs)))"

definition relabel :: "string set \<Rightarrow> GroupV2MemberType \<Rightarrow> GroupV2MemberType" where
  "relabel us m = (if m_aci m \<in> us then m\<lparr>m_labelEmoji := None, m_labelString := None\<rparr> else m)"

definition setRole :: "string \<Rightarrow> int \<Rightarrow> GroupV2MemberType \<Rightarrow> GroupV2MemberType" where
  "setRole u role m = (if m_aci m = u then m\<lparr>m_role := role\<rparr> else m)"

definition byAci :: "GroupV2MemberType list \<Rightarrow> (string, GroupV2MemberType) jsmap" where
  "byAci ms = map (\<lambda>m. (m_aci m, m)) ms"

lemma byAci_get:
  "distinct (map m_aci ms) \<Longrightarrow> m \<in> set ms \<Longrightarrow> js_get (byAci ms) (m_aci m) = Some m"
  by (induction ms) (auto simp: byAci_def rev_image_eqI)

lemma byAci_set:
  assumes "distinct (map m_aci ms)" and "m \<in> set ms" and "m_aci w = m_aci m"
  shows "js_set (m_aci m) w (byAci ms) = byAci (map (\<lambda>x. if m_aci x = m_aci m then w else x) ms)"
  using assms by (induction ms) (auto simp: byAci_def rev_image_eqI intro!: map_idI [symmetric])

lemma byAci_update:
  assumes d: "distinct (map m_aci ms)" and m: "m \<in> set ms" and f: "m_aci (f m) = m_aci m"
  shows "js_set (m_aci m) (f m) (byAci ms) = byAci (map (\<lambda>x. if m_aci x = m_aci m then f x else x) ms)"
proof -
  have "x = m" if "x \<in> set ms" "m_aci x = m_aci m" for x
    using d m that by (auto simp: distinct_map dest: inj_onD)
  then have eq: "map (\<lambda>x. if m_aci x = m_aci m then f m else x) ms = map (\<lambda>x. if m_aci x = m_aci m then f x else x) ms"
    by auto
  show ?thesis using byAci_set [OF d m f] unfolding eq .
qed

definition clearLabelAction :: "string \<Rightarrow> DecryptedModifyMemberLabelAction" where
  "clearLabelAction u = \<lparr>ml_userId = u, ml_labelEmoji = None, ml_labelString = None\<rparr>"

lemma relabel_simps [simp]:
  "m_aci (relabel us m) = m_aci m" "m_role (relabel us m) = m_role m" "m_aci (setRole u r m) = m_aci m"
  by (simp_all add: relabel_def setRole_def)

lemma forE_clearLabels:
  assumes "as_members s = byAci ms" and "distinct (map m_aci ms)" and "set us \<subseteq> m_aci ` set ms" and "[] \<notin> set us"
  shows "\<exists>s'. forE applyModifyMemberLabel (map clearLabelAction us) s = Inr s' \<and>
    s' = s\<lparr>as_members := byAci (map (relabel (set us)) ms)\<rparr>"
  using assms
proof (induction us arbitrary: s ms)
  case Nil
  then have "map (relabel {}) ms = ms" by (auto simp: relabel_def intro: map_idI)
  with Nil show ?case by simp
next
  case (Cons u us)
  from Cons.prems(3) obtain m where m: "m \<in> set ms" "m_aci m = u" by auto
  let ?f = "\<lambda>m. m\<lparr>m_labelEmoji := None, m_labelString := None\<rparr>"
  have rel: "map (relabel {u}) ms = map (\<lambda>x. if m_aci x = u then ?f x else x) ms"
    by (auto simp: relabel_def)
  have step: "applyModifyMemberLabel (clearLabelAction u) s = Inr (s\<lparr>as_members := byAci (map (relabel {u}) ms)\<rparr>)"
    using Cons.prems m byAci_get [OF Cons.prems(2) m(1)] byAci_update [OF Cons.prems(2) m(1), of ?f]
    by (auto simp: applyModifyMemberLabel_def clearLabelAction_def rel)
  have both: "map (relabel (set us)) (map (relabel {u}) ms) = map (relabel (set (u # us))) ms"
    by (auto simp: relabel_def)
  have "\<exists>s'. forE applyModifyMemberLabel (map clearLabelAction us) (s\<lparr>as_members := byAci (map (relabel {u}) ms)\<rparr>) = Inr s' \<and>
      s' = (s\<lparr>as_members := byAci (map (relabel {u}) ms)\<rparr>)\<lparr>as_members := byAci (map (relabel (set us)) (map (relabel {u}) ms))\<rparr>"
    using Cons.prems(2-4) by (intro Cons.IH) (auto simp: comp_def image_image)
  then show ?case unfolding both by (simp add: step)
qed

lemma forE_setRole:
  assumes "as_members s = byAci ms" and "distinct (map m_aci ms)" and "u \<in> m_aci ` set ms" and "u \<noteq> []" and "role \<noteq> 0"
  shows "applyModifyMemberRole \<lparr>mr_userId = u, mr_role = role\<rparr> s = Inr (s\<lparr>as_members := byAci (map (setRole u role) ms)\<rparr>)"
proof -
  from assms(3) obtain m where m: "m \<in> set ms" "m_aci m = u" by auto
  show ?thesis
    using assms m byAci_get [OF assms(2) m(1)] byAci_update [OF assms(2) m(1), of "\<lambda>m. m\<lparr>m_role := role\<rparr>"]
    by (simp add: applyModifyMemberRole_def setRole_def [abs_def])
qed

text \<open>Changes that touch only roles, labels and the access to labels.\<close>

definition onlyLabels :: "DecryptedGroupChangeActions \<Rightarrow> bool" where
  "onlyLabels acts \<longleftrightarrow>
    or_list (g_addMembers acts) = [] \<and> or_list (g_deleteMembers acts) = [] \<and>
    or_list (g_modifyMemberProfileKeys acts) = [] \<and> or_list (g_addMembersPendingProfileKey acts) = [] \<and>
    or_list (g_deleteMembersPendingProfileKey acts) = [] \<and> or_list (g_promoteMembersPendingProfileKey acts) = [] \<and>
    or_list (g_promoteMembersPendingPniAciProfileKey acts) = [] \<and>
    or_list (g_addMembersPendingAdminApproval acts) = [] \<and> or_list (g_deleteMembersPendingAdminApproval acts) = [] \<and>
    or_list (g_promoteMembersPendingAdminApproval acts) = [] \<and> g_modifyAvatar acts = None \<and>
    g_modifyAttributesAccess acts = None \<and> g_modifyMemberAccess acts = None \<and>
    g_modifyAddFromInviteLinkAccess acts = None"

lemma decryptGroupChange_labels:
  assumes "getClientZkGroupCipher E secret = Inr cipher" and "src \<noteq> []"
    and "compactMap (decryptModifyRole cipher ''decryptGroupChange: modifyMemberRole.userId was missing''
      ''decryptGroupChange: modifyMemberRole had invalid role'') rs = Inr rs'"
    and "compactMap (decryptModifyMemberLabelAction E cipher) ls = Inr ls'"
    and "case access of None \<Rightarrow> True | Some a \<Rightarrow> isValidAccess a"
  shows "\<exists>acts. decryptGroupChange E ((toGroupActionsParams v)\<lparr>pa_modifyMemberRoles := rs, pa_modifyMemberLabels := ls,
      pa_modifyMemberLabelAccess := access, pa_sourceUserId := Some src\<rparr>) secret = Inr acts \<and>
    onlyLabels acts \<and> or_list (g_modifyMemberRoles acts) = rs' \<and> or_list (g_modifyMemberLabels acts) = ls' \<and>
    g_modifyMemberLabelAccess acts = Option.bind access id"
proof -
  have "\<exists>s. decryptSource cipher ((toGroupActionsParams v)\<lparr>pa_modifyMemberRoles := rs, pa_modifyMemberLabels := ls,
      pa_modifyMemberLabelAccess := access, pa_sourceUserId := Some src\<rparr>) = Inr s"
    using assms(2) by (simp add: decryptSource_def Let_def)
  moreover have "decryptAccess isValidAccess msg access = Inr (Option.bind access id)" for msg
    using assms(5) by (auto simp: decryptAccess_def split: option.splits)
  moreover have "decryptAccess valid msg None = Inr None" for valid msg
    by (simp add: decryptAccess_def)
  ultimately show ?thesis
    using assms(1,3,4) by (auto simp: decryptGroupChange_def toGroupActionsParams_def onlyLabels_def)
qed

lemma applyGroupChange_labels:
  assumes "onlyLabels acts" and "e_ourAci E = Some us"
    and "forE applyModifyMemberRole (or_list (g_modifyMemberRoles acts))
      (startLookups grp (nullish (g_version acts) 0)) = Inr s1"
    and "forE applyModifyMemberLabel (or_list (g_modifyMemberLabels acts)) s1 = Inr s2"
  shows "\<exists>r. applyGroupChange E acts grp src = Inr r \<and> c_membersV2 (gr_newAttributes r) = Some (js_values (as_members s2)) \<and>
    memberLabelAccess (gr_newAttributes r) = (case g_modifyMemberLabelAccess acts of
        Some a \<Rightarrow> Some (validOr isValidAccess ACCESS_MEMBER a)
      | None \<Rightarrow> ac_memberLabel (nullish (c_accessControl (as_result s2)) defaultAccessControl))"
proof -
  have add: "as_members (fold applyAddBanned bs s) = as_members s \<and> as_result (fold applyAddBanned bs s) = as_result s" for bs s
    by (induction bs arbitrary: s) (simp_all add: applyAddBanned_def)
  have del: "as_members (fold applyDeleteBanned ds s) = as_members s \<and> as_result (fold applyDeleteBanned ds s) = as_result s" for ds s
    by (induction ds arbitrary: s) (simp_all add: applyDeleteBanned_def)
  note [simp] = add del
  have "c_accessControl (applyModifyTitle E u w t x) = c_accessControl x"
    "c_accessControl (applyModifyTimer y x) = c_accessControl x"
    "c_accessControl (applyModifyInviteLinkPassword z x) = c_accessControl x"
    "c_accessControl (applyModifyDescription d x) = c_accessControl x"
    "c_accessControl (applyFlags acts x) = c_accessControl x"
    "c_accessControl (finishLookups u s) = c_accessControl (as_result s)" for u w t x y z d s
    by (auto simp: applyModifyTitle_def applyModifyTimer_def applyModifyInviteLinkPassword_def
        applyModifyDescription_def applyFlags_def finishLookups_def Let_def split: option.splits)
  note [simp] = this
  have "c_accessControl (applyAccessControl acts x) = Some (let ac = nullish (c_accessControl x) defaultAccessControl in
      case g_modifyMemberLabelAccess acts of None \<Rightarrow> ac
      | Some a \<Rightarrow> ac\<lparr>ac_memberLabel := Some (validOr isValidAccess ACCESS_MEMBER a)\<rparr>)" for x
    using assms(1) by (simp add: applyAccessControl_def onlyLabels_def Let_def)
  note [simp] = this
  show ?thesis
    using assms
    by (simp add: applyGroupChange_def applyMemberActions_def applyAttributeActions_def applyApprovalActions_def
        applyLastActions_def onlyLabels_def Let_def mapResult_def memberLabelAccess_def del: forE.simps(2)
        split: option.splits)
qed

definition cipherMembers :: "ClientZkGroupCipher \<Rightarrow> ConversationAttributesType \<Rightarrow> bool" where
  "cipherMembers cipher grp \<longleftrightarrow>
    list_all (\<lambda>m. cipherEncrypts cipher (m_aci m) \<and> isAciString (Some (m_aci m))) (or_list (c_membersV2 grp)) \<and>
    distinct (map m_aci (or_list (c_membersV2 grp)))"

lemma aci_nonempty: "isAciString (Some u) \<Longrightarrow> u \<noteq> []"
proof -
  have "\<not> isAciString (Some [])" by code_simp
  then show "isAciString (Some u) \<Longrightarrow> u \<noteq> []" by auto
qed

lemma encrypt_clear:
  assumes "cipherEncrypts cipher u" and "isAciString (Some u)"
  obtains b where "encryptServiceId cipher u = Inr b" "b \<noteq> []"
    "decryptModifyMemberLabelAction E cipher (clearLabel b) = Inr (Some (clearLabelAction u))" "decryptAci cipher b = Inr u"
proof -
  obtain b where b: "encryptServiceId cipher u = Inr b" "b \<noteq> []" "decryptAci cipher b = Inr u"
    using assms by (metis cipherEncryptsE)
  then have "decryptModifyMemberLabelAction E cipher (clearLabel b) = Inr (Some (clearLabelAction u))"
    by (simp add: decryptModifyMemberLabelAction_def clearLabel_def clearLabelAction_def assertBytes_def
        dropOnError_def decryptLabel_def)
  with b show thesis using that by blast
qed

lemma encrypt_clears:
  assumes "list_all (\<lambda>m. cipherEncrypts cipher (m_aci m) \<and> isAciString (Some (m_aci m))) ms"
  shows "\<exists>ls. mapE (\<lambda>m. bindE (encryptServiceId cipher (m_aci m)) (\<lambda>b. Inr (clearLabel b))) ms = Inr ls \<and>
    compactMap (decryptModifyMemberLabelAction E cipher) ls = Inr (map clearLabelAction (map m_aci ms))"
  using assms
proof (induction ms)
  case (Cons m ms)
  then obtain ls where ls: "mapE (\<lambda>m. bindE (encryptServiceId cipher (m_aci m)) (\<lambda>b. Inr (clearLabel b))) ms = Inr ls"
    "compactMap (decryptModifyMemberLabelAction E cipher) ls = Inr (map clearLabelAction (map m_aci ms))" by auto
  from Cons.prems have "cipherEncrypts cipher (m_aci m)" "isAciString (Some (m_aci m))" by simp_all
  then obtain b where "encryptServiceId cipher (m_aci m) = Inr b"
    "decryptModifyMemberLabelAction E cipher (clearLabel b) = Inr (Some (clearLabelAction (m_aci m)))"
    by (rule encrypt_clear [of cipher "m_aci m" E])
  with ls show ?case by (intro exI [of _ "clearLabel b # ls"]) simp
qed simp

lemma start_byAci:
  "distinct (map m_aci (or_list (c_membersV2 grp))) \<Longrightarrow>
    as_members (startLookups grp v) = byAci (or_list (c_membersV2 grp))"
  by (simp add: startLookups_def js_of_pairs_distinct comp_def byAci_def)

lemma values_byAci [simp]: "js_values (byAci ms) = ms"
  by (simp add: byAci_def comp_def)

text \<open>The users whose labels the change of the access clears.\<close>

definition clearedBy :: "ConversationAttributesType \<Rightarrow> int \<Rightarrow> string list" where
  "clearedBy grp access =
    (if memberLabelAccess grp \<noteq> Some ACCESS_ADMINISTRATOR \<and> access = ACCESS_ADMINISTRATOR
     then map m_aci (labelledNonAdmins grp) else [])"

lemma unlabelled_relabel [simp]:
  "unlabelled (relabel us m) \<longleftrightarrow> unlabelled m \<or> m_aci m \<in> us"
  by (auto simp: unlabelled_def relabel_def)

lemma label_access_effect:
  assumes secret: "c_secretParams grp = Some secret" "secret \<noteq> []" "getClientZkGroupCipher E secret = Inr cipher"
    and members: "cipherMembers cipher grp" and access: "isValidAccess (Some access)"
    and us: "e_ourAci E = Some ourAci" and src: "src \<noteq> []"
  shows "\<exists>change acts r. buildAccessControlMemberLabelChange E grp access = Inr change \<and>
    decryptGroupChange E (change\<lparr>pa_sourceUserId := Some src\<rparr>) secret = Inr acts \<and>
    applyGroupChange E acts grp who = Inr r \<and> memberLabelAccess (gr_newAttributes r) = Some access \<and>
    c_membersV2 (gr_newAttributes r) = Some (map (relabel (set (clearedBy grp access))) (or_list (c_membersV2 grp)))"
proof -
  let ?ms = "or_list (c_membersV2 grp)"
  let ?us = "clearedBy grp access"
  have sub: "set ?us \<subseteq> m_aci ` set ?ms" by (auto simp: clearedBy_def labelledNonAdmins_def)
  have ne: "[] \<notin> set ?us"
    using sub members aci_nonempty by (fastforce simp: cipherMembers_def list_all_iff)
  have "list_all (\<lambda>m. cipherEncrypts cipher (m_aci m) \<and> isAciString (Some (m_aci m))) (labelledNonAdmins grp)"
    using members by (auto simp: cipherMembers_def list_all_iff labelledNonAdmins_def)
  then obtain ls where ls:
    "mapE (\<lambda>m. bindE (encryptServiceId cipher (m_aci m)) (\<lambda>b. Inr (clearLabel b))) (labelledNonAdmins grp) = Inr ls"
    "compactMap (decryptModifyMemberLabelAction E cipher) ls = Inr (map clearLabelAction (map m_aci (labelledNonAdmins grp)))"
    using encrypt_clears by blast
  let ?ls = "if memberLabelAccess grp \<noteq> Some ACCESS_ADMINISTRATOR \<and> access = ACCESS_ADMINISTRATOR then ls else []"
  let ?p = "(toGroupActionsParams (nextVersion grp))\<lparr>pa_modifyMemberLabelAccess := Some (Some access),
      pa_modifyMemberLabels := ?ls\<rparr>"
  have build: "buildAccessControlMemberLabelChange E grp access = Inr ?p"
    using secret ls(1) by (auto simp: buildAccessControlMemberLabelChange_def withSecret_def)
  have dec: "compactMap (decryptModifyMemberLabelAction E cipher) ?ls = Inr (map clearLabelAction ?us)"
    using ls(2) by (simp add: clearedBy_def)
  obtain acts where acts: "decryptGroupChange E (?p\<lparr>pa_sourceUserId := Some src\<rparr>) secret = Inr acts" "onlyLabels acts"
    "or_list (g_modifyMemberRoles acts) = []" "or_list (g_modifyMemberLabels acts) = map clearLabelAction ?us"
    "g_modifyMemberLabelAccess acts = Some access"
    using decryptGroupChange_labels [OF secret(3) src _ dec, of "[]" "[]" "Some (Some access)" "nextVersion grp"] access
    by (auto simp: toGroupActionsParams_def)
  obtain s2 where s2: "forE applyModifyMemberLabel (map clearLabelAction ?us)
      (startLookups grp (nullish (g_version acts) 0)) = Inr s2"
    "as_members s2 = byAci (map (relabel (set ?us)) ?ms)"
    using forE_clearLabels [OF start_byAci _ sub ne] members by (fastforce simp: cipherMembers_def)
  have "\<exists>r. applyGroupChange E acts grp who = Inr r \<and> c_membersV2 (gr_newAttributes r) = Some (js_values (as_members s2)) \<and>
      memberLabelAccess (gr_newAttributes r) = Some (validOr isValidAccess ACCESS_MEMBER access)"
    using applyGroupChange_labels [OF acts(2) us, of grp "startLookups grp (nullish (g_version acts) 0)" s2 who] acts s2(1)
    by simp
  then show ?thesis using build acts(1) s2(2) access by (auto simp: validOr_def)
qed

text \<open>
C32: Restricting labels to administrators takes the labels away: the change that
\<open>buildAccessControlMemberLabelChange\<close> writes, once decrypted and applied, sets the access, keeps the members,
their roles and the labels of administrators, and leaves a group in which no other member has a label if
only administrators may set one (provided this held before).
\<close>

theorem label_access_keeps_policy:
  assumes secret: "c_secretParams grp = Some secret" "secret \<noteq> []" "getClientZkGroupCipher E secret = Inr cipher"
    and members: "cipherMembers cipher grp" and access: "isValidAccess (Some access)"
    and us: "e_ourAci E = Some ourAci" and src: "src \<noteq> []" and policy: "labelPolicy grp"
  shows "\<exists>change acts r. buildAccessControlMemberLabelChange E grp access = Inr change \<and>
    decryptGroupChange E (change\<lparr>pa_sourceUserId := Some src\<rparr>) secret = Inr acts \<and>
    applyGroupChange E acts grp who = Inr r \<and> memberLabelAccess (gr_newAttributes r) = Some access \<and>
    labelPolicy (gr_newAttributes r) \<and>
    list_all2 (\<lambda>old new. m_aci new = m_aci old \<and> m_role new = m_role old \<and>
        (if m_role old = ROLE_ADMINISTRATOR then new = old else True))
      (or_list (c_membersV2 grp)) (or_list (c_membersV2 (gr_newAttributes r)))"
proof -
  let ?ms = "or_list (c_membersV2 grp)"
  let ?us = "set (clearedBy grp access)"
  have role: "m_role m \<noteq> ROLE_ADMINISTRATOR" if "m \<in> set ?ms" "m_aci m \<in> ?us" for m
  proof -
    from that(2) obtain m' where "m' \<in> set ?ms" "m_aci m' = m_aci m" "m_role m' \<noteq> ROLE_ADMINISTRATOR"
      by (auto simp: clearedBy_def labelledNonAdmins_def split: if_splits)
    moreover have "m' = m"
      using members calculation that(1) by (auto simp: cipherMembers_def distinct_map dest: inj_onD)
    ultimately show ?thesis by simp
  qed
  have "m_role m = ROLE_ADMINISTRATOR \<or> unlabelled m \<or> m_aci m \<in> ?us"
    if "access = ACCESS_ADMINISTRATOR" "m \<in> set ?ms" for m
    using that policy
    by (auto simp: clearedBy_def labelPolicy_def labelledNonAdmins_def list_all_iff unlabelled_def)
  then have "access = ACCESS_ADMINISTRATOR \<Longrightarrow>
      list_all (\<lambda>m. m_role m = ROLE_ADMINISTRATOR \<or> unlabelled m) (map (relabel ?us) ?ms)"
    by (auto simp: list_all_iff)
  moreover have "list_all2 (\<lambda>old new. m_aci new = m_aci old \<and> m_role new = m_role old \<and>
      (if m_role old = ROLE_ADMINISTRATOR then new = old else True)) ?ms (map (relabel ?us) ?ms)"
    using role by (auto simp: list_all2_map2 list_all2_same relabel_def)
  ultimately show ?thesis
    using label_access_effect [OF assms(1-7), of who] by (fastforce simp: labelPolicy_def)
qed

definition labelExample :: ConversationAttributesType where
  "labelExample = exampleGroup\<lparr>c_membersV2 := Some
    [(exampleMember ''c0ffee00-1111-4222-8333-444455556666'')\<lparr>m_labelString := Some ''Boss''\<rparr>,
     (exampleMember ''deadbeef-1111-4222-8333-444455556666'')\<lparr>m_role := ROLE_ADMINISTRATOR, m_labelString := Some ''Admin''\<rparr>]\<rparr>"

lemma labelExample_facts:
  "c_secretParams labelExample = Some ''secret''" "cipherMembers nonemptyCipher labelExample" "labelPolicy labelExample"
  "isValidAccess (Some ACCESS_ADMINISTRATOR)"
proof -
  have uuids: "isAciString (Some ''c0ffee00-1111-4222-8333-444455556666'')"
    "isAciString (Some ''deadbeef-1111-4222-8333-444455556666'')" by code_simp+
  show "c_secretParams labelExample = Some ''secret''" "labelPolicy labelExample" "isValidAccess (Some ACCESS_ADMINISTRATOR)"
    by (simp_all add: labelExample_def exampleGroup_def labelPolicy_def memberLabelAccess_def isValidAccess_def)
  show "cipherMembers nonemptyCipher labelExample"
    using uuids by (simp add: cipherMembers_def labelExample_def exampleMember_def nonemptyCipher_encrypts)
qed

theorem label_access_keeps_policy_witness:
  "\<exists>change acts r. buildAccessControlMemberLabelChange nonemptyEnv labelExample ACCESS_ADMINISTRATOR = Inr change \<and>
    decryptGroupChange nonemptyEnv (change\<lparr>pa_sourceUserId := Some [1]\<rparr>) ''secret'' = Inr acts \<and>
    applyGroupChange nonemptyEnv acts labelExample ''us'' = Inr r \<and>
    memberLabelAccess (gr_newAttributes r) = Some ACCESS_ADMINISTRATOR \<and> labelPolicy (gr_newAttributes r)"
  using label_access_keeps_policy [OF labelExample_facts(1) _ nonemptyEnv_facts(2) labelExample_facts(2,4)
      nonemptyEnv_facts(3) _ labelExample_facts(3), of "[1]" "''us''"] by auto

lemma find_unique:
  assumes "m \<in> set xs" and "P m" and "\<And>x. x \<in> set xs \<Longrightarrow> P x \<Longrightarrow> x = m"
  shows "List.find P xs = Some m"
proof (cases "List.find P xs")
  case None
  then show ?thesis using assms(1,2) by (simp add: find_None_iff)
next
  case (Some x)
  then have "x \<in> set xs" "P x" by (auto simp: find_Some_iff)
  with Some assms(3) show ?thesis by blast
qed

lemma role_change_effect:
  assumes secret: "c_secretParams grp = Some secret" "secret \<noteq> []" "getClientZkGroupCipher E secret = Inr cipher"
    and members: "cipherMembers cipher grp" and role: "isValidRole (Some role)"
    and us: "e_ourAci E = Some ourAci" and src: "src \<noteq> []" and u: "u \<in> m_aci ` set (or_list (c_membersV2 grp))"
  shows "\<exists>change acts r. buildModifyMemberRoleChange E u grp role = Inr change \<and>
    decryptGroupChange E (change\<lparr>pa_sourceUserId := Some src\<rparr>) secret = Inr acts \<and>
    applyGroupChange E acts grp who = Inr r \<and>
    memberLabelAccess (gr_newAttributes r) = ac_memberLabel (nullish (c_accessControl grp) defaultAccessControl) \<and>
    c_membersV2 (gr_newAttributes r) = Some (map (relabel (if shouldDropMemberLabel grp u role then {u} else {}))
      (map (setRole u role) (or_list (c_membersV2 grp))))"
proof -
  let ?ms = "or_list (c_membersV2 grp)"
  have dist: "distinct (map m_aci ?ms)" using members by (simp add: cipherMembers_def)
  have enc: "cipherEncrypts cipher u" "isAciString (Some u)"
    using members u by (auto simp: cipherMembers_def list_all_iff)
  have ne: "u \<noteq> []" using aci_nonempty [OF enc(2)] .
  from enc obtain b where b: "encryptServiceId cipher u = Inr b" "b \<noteq> []"
    "decryptModifyMemberLabelAction E cipher (clearLabel b) = Inr (Some (clearLabelAction u))" "decryptAci cipher b = Inr u"
    by (rule encrypt_clear [of cipher u E])
  let ?us = "if shouldDropMemberLabel grp u role then [u] else []"
  let ?ls = "if shouldDropMemberLabel grp u role then [clearLabel b] else []"
  let ?rs = "[\<lparr>pmr_userId = Some b, pmr_role = Some role\<rparr>]"
  let ?p = "(toGroupActionsParams (nextVersion grp))\<lparr>pa_modifyMemberRoles := ?rs, pa_modifyMemberLabels := ?ls\<rparr>"
  have build: "buildModifyMemberRoleChange E u grp role = Inr ?p"
    using secret b(1) by (simp add: buildModifyMemberRoleChange_def withCipher_def withSecret_def)
  have dec: "compactMap (decryptModifyMemberLabelAction E cipher) ?ls = Inr (map clearLabelAction ?us)"
    using b(3) by simp
  have decr: "compactMap (decryptModifyRole cipher ''decryptGroupChange: modifyMemberRole.userId was missing''
      ''decryptGroupChange: modifyMemberRole had invalid role'') ?rs = Inr [\<lparr>mr_userId = u, mr_role = role\<rparr>]"
    using b role by (simp add: decryptModifyRole_def assertBytes_def dropOnError_def)
  obtain acts where acts: "decryptGroupChange E (?p\<lparr>pa_sourceUserId := Some src\<rparr>) secret = Inr acts" "onlyLabels acts"
    "or_list (g_modifyMemberRoles acts) = [\<lparr>mr_userId = u, mr_role = role\<rparr>]"
    "or_list (g_modifyMemberLabels acts) = map clearLabelAction ?us" "g_modifyMemberLabelAccess acts = None"
    using decryptGroupChange_labels [OF secret(3) src decr dec, of None "nextVersion grp"]
    by (auto simp: toGroupActionsParams_def)
  let ?s = "startLookups grp (nullish (g_version acts) 0)"
  let ?s1 = "?s\<lparr>as_members := byAci (map (setRole u role) ?ms)\<rparr>"
  have s1: "forE applyModifyMemberRole [\<lparr>mr_userId = u, mr_role = role\<rparr>] ?s = Inr ?s1"
    using forE_setRole [OF start_byAci [OF dist] dist u ne, of role] role by (auto simp: isValidRole_def)
  have "set ?us \<subseteq> m_aci ` set (map (setRole u role) ?ms)"
    using u by (auto simp: image_image)
  then obtain s2 where s2: "forE applyModifyMemberLabel (map clearLabelAction ?us) ?s1 = Inr s2"
    "s2 = ?s1\<lparr>as_members := byAci (map (relabel (set ?us)) (map (setRole u role) ?ms))\<rparr>"
    using forE_clearLabels [of ?s1 "map (setRole u role) ?ms" ?us] dist ne by (auto simp: comp_def)
  have "\<exists>r. applyGroupChange E acts grp who = Inr r \<and> c_membersV2 (gr_newAttributes r) = Some (js_values (as_members s2)) \<and>
      memberLabelAccess (gr_newAttributes r) = ac_memberLabel (nullish (c_accessControl (as_result s2)) defaultAccessControl)"
    using applyGroupChange_labels [OF acts(2) us, of grp ?s1 s2 who] acts s1 s2(1) by simp
  moreover have "as_members s2 = byAci (map (relabel (if shouldDropMemberLabel grp u role then {u} else {}))
      (map (setRole u role) ?ms))" "c_accessControl (as_result s2) = c_accessControl grp"
    by (simp_all add: s2(2) startLookups_def)
  ultimately show ?thesis using build acts(1) by auto
qed

text \<open>
A change of a role keeps the rule on labels: the change that \<open>buildModifyMemberRoleChange\<close> writes for a
member, once decrypted and applied, gives exactly this member the role, and if only administrators may have
labels and no other member had one, then still no other member has one: the label of an administrator who
is demoted goes with the role. (No member has an emoji without a text, which is what we write ourselves.)
\<close>

theorem role_change_keeps_policy:
  assumes secret: "c_secretParams grp = Some secret" "secret \<noteq> []" "getClientZkGroupCipher E secret = Inr cipher"
    and members: "cipherMembers cipher grp" and role: "isValidRole (Some role)"
    and us: "e_ourAci E = Some ourAci" and src: "src \<noteq> []" and u: "u \<in> m_aci ` set (or_list (c_membersV2 grp))"
    and policy: "labelPolicy grp"
      "list_all (\<lambda>m. truthy_str (m_labelEmoji m) \<longrightarrow> truthy_str (m_labelString m)) (or_list (c_membersV2 grp))"
  shows "\<exists>change acts r. buildModifyMemberRoleChange E u grp role = Inr change \<and>
    decryptGroupChange E (change\<lparr>pa_sourceUserId := Some src\<rparr>) secret = Inr acts \<and>
    applyGroupChange E acts grp who = Inr r \<and> labelPolicy (gr_newAttributes r) \<and>
    list_all2 (\<lambda>old new. m_aci new = m_aci old \<and> m_role new = (if m_aci old = u then role else m_role old))
      (or_list (c_membersV2 grp)) (or_list (c_membersV2 (gr_newAttributes r)))"
proof -
  let ?ms = "or_list (c_membersV2 grp)"
  let ?new = "map (relabel (if shouldDropMemberLabel grp u role then {u} else {})) (map (setRole u role) ?ms)"
  have find: "findMember grp u = Some m" if "m \<in> set ?ms" "m_aci m = u" for m
  proof -
    have inj: "inj_on m_aci (set ?ms)"
      using members by (simp add: cipherMembers_def distinct_map)
    have "x = m" if "x \<in> set ?ms" "m_aci x = u" for x
      using inj_onD [OF inj] that \<open>m \<in> set ?ms\<close> \<open>m_aci m = u\<close> by metis
    then show ?thesis
      unfolding findMember_def using \<open>m \<in> set ?ms\<close> \<open>m_aci m = u\<close> by (rule_tac find_unique)
  qed
  have "m_role n = ROLE_ADMINISTRATOR \<or> unlabelled n"
    if "memberLabelAccess grp = Some ACCESS_ADMINISTRATOR" "n \<in> set ?new" for n
  proof -
    from that(2) obtain m where m: "m \<in> set ?ms"
      "n = relabel (if shouldDropMemberLabel grp u role then {u} else {}) (setRole u role m)" by auto
    have old: "m_role m = ROLE_ADMINISTRATOR \<or> unlabelled m" "truthy_str (m_labelEmoji m) \<longrightarrow> truthy_str (m_labelString m)"
      using policy that(1) m(1) by (auto simp: labelPolicy_def list_all_iff)
    show ?thesis
      using old find [OF m(1)] that(1)
      by (auto simp: m(2) relabel_def setRole_def unlabelled_def shouldDropMemberLabel_def)
  qed
  then have "memberLabelAccess grp = Some ACCESS_ADMINISTRATOR \<Longrightarrow>
      list_all (\<lambda>m. m_role m = ROLE_ADMINISTRATOR \<or> unlabelled m) ?new"
    by (simp add: list_all_iff)
  moreover have "list_all2 (\<lambda>old new. m_aci new = m_aci old \<and> m_role new = (if m_aci old = u then role else m_role old)) ?ms ?new"
    by (auto simp: list_all2_map2 list_all2_same setRole_def)
  moreover have "ac_memberLabel (nullish (c_accessControl grp) defaultAccessControl) = Some ACCESS_ADMINISTRATOR \<longleftrightarrow>
      memberLabelAccess grp = Some ACCESS_ADMINISTRATOR"
    by (cases "c_accessControl grp") (simp_all add: memberLabelAccess_def defaultAccessControl_def)
  ultimately show ?thesis
    using role_change_effect [OF assms(1-8), of who] by (fastforce simp: labelPolicy_def)
qed

definition adminOnly :: ConversationAttributesType where
  "adminOnly = labelExample\<lparr>c_accessControl := Some \<lparr>ac_attributes = ACCESS_MEMBER, ac_members = ACCESS_MEMBER,
     ac_addFromInviteLink = ACCESS_UNSATISFIABLE, ac_memberLabel = Some ACCESS_ADMINISTRATOR\<rparr>,
     c_membersV2 := Some [exampleMember ''c0ffee00-1111-4222-8333-444455556666'',
     (exampleMember ''deadbeef-1111-4222-8333-444455556666'')\<lparr>m_role := ROLE_ADMINISTRATOR, m_labelString := Some ''Admin''\<rparr>]\<rparr>"

theorem role_change_keeps_policy_witness:
  "\<exists>change acts r. buildModifyMemberRoleChange nonemptyEnv ''deadbeef-1111-4222-8333-444455556666'' adminOnly ROLE_DEFAULT
      = Inr change \<and>
    decryptGroupChange nonemptyEnv (change\<lparr>pa_sourceUserId := Some [1]\<rparr>) ''secret'' = Inr acts \<and>
    applyGroupChange nonemptyEnv acts adminOnly ''us'' = Inr r \<and> labelPolicy (gr_newAttributes r)"
proof -
  have uuids: "isAciString (Some ''c0ffee00-1111-4222-8333-444455556666'')"
    "isAciString (Some ''deadbeef-1111-4222-8333-444455556666'')" by code_simp+
  have facts: "c_secretParams adminOnly = Some ''secret''" "labelPolicy adminOnly"
    "list_all (\<lambda>m. truthy_str (m_labelEmoji m) \<longrightarrow> truthy_str (m_labelString m)) (or_list (c_membersV2 adminOnly))"
    "''deadbeef-1111-4222-8333-444455556666'' \<in> m_aci ` set (or_list (c_membersV2 adminOnly))"
    "isValidRole (Some ROLE_DEFAULT)"
    by (simp_all add: adminOnly_def labelExample_def exampleGroup_def exampleMember_def labelPolicy_def unlabelled_def
        isValidRole_def)
  have members: "cipherMembers nonemptyCipher adminOnly"
    using uuids by (simp add: cipherMembers_def adminOnly_def exampleMember_def nonemptyCipher_encrypts)
  show ?thesis
    using role_change_keeps_policy [OF facts(1) _ nonemptyEnv_facts(2) members facts(5) nonemptyEnv_facts(3) _
        facts(4,2,3), of "[1]" "''us''"] by auto
qed

section \<open>Title and description\<close>

definition encrypted :: "BuildEnv \<Rightarrow> ClientZkGroupCipher \<Rightarrow> BlobContent \<Rightarrow> bytes" where
  "encrypted B cipher content = (case zk_encryptBlob cipher (be_encodeBlob B content) of Inl _ \<Rightarrow> [] | Inr c \<Rightarrow> c)"

text \<open>The documented behaviour of the cipher and of the generated encoder for one attribute.\<close>

definition attributeCodec :: "env \<Rightarrow> BuildEnv \<Rightarrow> ClientZkGroupCipher \<Rightarrow> BlobContent \<Rightarrow> bool" where
  "attributeCodec E B cipher content \<longleftrightarrow>
    (case zk_encryptBlob cipher (be_encodeBlob B content) of
       Inl _ \<Rightarrow> False
     | Inr c \<Rightarrow> c \<noteq> [] \<and> bindE (zk_decryptBlob cipher c) (decodeAttributeBlob E) = Inr (Some content))"

lemma attributeCodecE:
  assumes "attributeCodec E B cipher content"
  shows "encryptGroupBlob cipher (be_encodeBlob B content) = Inr (encrypted B cipher content)"
    "encrypted B cipher content \<noteq> []" "decryptBlobAs E cipher (encrypted B cipher content) = Inr (Some content)"
  using assms
  by (auto simp: attributeCodec_def encryptGroupBlob_def encrypted_def decryptBlobAs_def decryptGroupBlob_def
      split: sum.splits)

lemma apply_attributes:
  assumes "wellFormedActions acts" and "onlyLabels acts" and "e_ourAci E = Some us"
    and "or_list (g_modifyMemberRoles acts) = []" "or_list (g_modifyMemberLabels acts) = []"
    and "g_modifyTitle acts = Some (Some (Some (BlobTitle t)))"
    and "g_modifyDescription acts = Some (Some (Some (BlobDescription d)))"
  shows "\<exists>r. applyGroupChange E acts grp who = Inr r \<and> c_name (gr_newAttributes r) = Some (js_trim t) \<and>
    c_description (gr_newAttributes r) = Some (js_trim d)"
proof -
  have add: "as_result (fold applyAddBanned bs s) = as_result s" for bs s
    by (induction bs arbitrary: s) (simp_all add: applyAddBanned_def)
  have del: "as_result (fold applyDeleteBanned ds s) = as_result s" for ds s
    by (induction ds arbitrary: s) (simp_all add: applyDeleteBanned_def)
  note [simp] = add del
  have "c_name (applyModifyTimer y x) = c_name x" "c_name (applyModifyInviteLinkPassword z x) = c_name x"
    "c_name (applyModifyDescription e x) = c_name x" "c_name (applyFlags acts x) = c_name x"
    "c_name (finishLookups u s) = c_name (as_result s)" "c_name (applyAccessControl acts x) = c_name x"
    "c_description (applyFlags acts x) = c_description x"
    "c_description (finishLookups u s) = c_description (as_result s)" for x y z e u s
    by (auto simp: applyModifyTimer_def applyModifyInviteLinkPassword_def applyModifyDescription_def applyFlags_def
        finishLookups_def applyAccessControl_def Let_def split: option.splits)
  note [simp] = this
  show ?thesis
    using assms
    by (simp add: applyGroupChange_def applyMemberActions_def applyAttributeActions_def applyApprovalActions_def
        applyLastActions_def onlyLabels_def Let_def mapResult_def applyModifyTitle_def)
      (simp add: applyModifyDescription_def)
qed


definition titleEnv :: env where
  "titleEnv = nonemptyEnv\<lparr>decodeAttributeBlob := (\<lambda>b. Inr (Some
     (if take 1 b = [1] then BlobTitle (chars_of_bytes (drop 1 b)) else BlobDescription (chars_of_bytes (drop 1 b)))))\<rparr>"

definition titleBuildEnv :: BuildEnv where
  "titleBuildEnv = exampleBuildEnv\<lparr>be_encodeBlob := (\<lambda>c. case c of BlobTitle t \<Rightarrow> 1 # bytes_of_chars t
     | BlobDescription d \<Rightarrow> 2 # bytes_of_chars d | _ \<Rightarrow> [])\<rparr>"

end
