(* ===== verification/Group_Link.thy ===== *)
theory Group_Link
  imports Group_Build Bytes_Codec
begin

text \<open>
  The invite link of a group: \<open>buildGroupLink\<close> and \<open>parseGroupLink\<close> of ts/groups.preload.ts with
  ts/util/webSafeBase64.std.ts and the URL of ts/util/signalRoutes.std.ts. The generated encoder of the
  message \<open>GroupInviteLink\<close> is the record \<open>LinkCodec\<close>; base64 is that of Bytes_Codec.
\<close>

section \<open>Base64 in a URL\<close>

definition toWebSafeBase64 :: "string \<Rightarrow> string" where
  "toWebSafeBase64 base64 =
    filter (\<lambda>c. c \<noteq> CHR ''='')
      (map (\<lambda>c. if c = CHR ''+'' then CHR ''-'' else c)
        (map (\<lambda>c. if c = CHR ''/'' then CHR ''_'' else c) base64))"

definition fromWebSafeBase64 :: "string \<Rightarrow> string" where
  "fromWebSafeBase64 webSafeBase64 =
    (let base64 = map (\<lambda>c. if c = CHR ''-'' then CHR ''+'' else c)
           (map (\<lambda>c. if c = CHR ''_'' then CHR ''/'' else c) webSafeBase64);
         remainder = length base64 mod 4
     in if remainder = 3 then base64 @ ''=''
        else if remainder = 2 then base64 @ ''==''
        else if remainder = 1 then base64 @ ''===''
        else base64)"

section \<open>Links\<close>

text \<open>The name of an error, written before its message.\<close>

definition LINK_VERSION_ERROR :: string where
  "LINK_VERSION_ERROR = ''LINK_VERSION_ERROR''"

text \<open>\<open>contentsV1\<close>: the master key and the password of the link.\<close>

record GroupInviteLinkContentsV1 =
  gil_groupMasterKey :: "bytes option"
  gil_inviteLinkPassword :: "bytes option"

record LinkCodec =
  encodeGroupInviteLink :: "GroupInviteLinkContentsV1 \<Rightarrow> bytes"
  decodeGroupInviteLink :: "bytes \<Rightarrow> GroupInviteLinkContentsV1 option js"

definition GROUP_INVITE_LINK_PASSWORD_LENGTH :: nat where
  "GROUP_INVITE_LINK_PASSWORD_LENGTH = 16"

definition generateGroupInviteLinkPassword :: "(nat \<Rightarrow> bytes) \<Rightarrow> bytes" where
  "generateGroupInviteLinkPassword getRandomBytes = getRandomBytes GROUP_INVITE_LINK_PASSWORD_LENGTH"

definition groupInviteUrl :: "string \<Rightarrow> string" where
  "groupInviteUrl inviteCode = ''https://tell.cc/g#'' @ inviteCode"

definition buildGroupLink :: "env \<Rightarrow> LinkCodec \<Rightarrow> ConversationAttributesType \<Rightarrow> string option js" where
  "buildGroupLink E L conversation =
    (if \<not> isGroupV2 E conversation then Inr None
     else if \<not> truthy_str (c_groupInviteLinkPassword conversation) then Inr None
     else bindE (strictAssert (truthy_str (c_masterKey conversation)) ''buildGroupLink requires the master key!'') (\<lambda>_.
       let bytes = encodeGroupInviteLink L
             \<lparr>gil_groupMasterKey = Some (base64Decode (the (c_masterKey conversation))),
              gil_inviteLinkPassword = Some (base64Decode (the (c_groupInviteLinkPassword conversation)))\<rparr>
       in Inr (Some (groupInviteUrl (toWebSafeBase64 (base64Encode bytes))))))"

definition parseGroupLink :: "LinkCodec \<Rightarrow> string \<Rightarrow> (string \<times> string) js" where
  "parseGroupLink L value =
    bindE (decodeGroupInviteLink L (base64Decode (fromWebSafeBase64 value))) (\<lambda>contents.
    case contents of
      None \<Rightarrow> throw (LINK_VERSION_ERROR @ '': parseGroupLink: Parsed proto is missing contentsV1'')
    | Some contentsV1 \<Rightarrow>
        if \<not> bytesIsNotEmpty (gil_groupMasterKey contentsV1)
        then throw ''contentsV1.groupMasterKey had no data!''
        else if \<not> bytesIsNotEmpty (gil_inviteLinkPassword contentsV1)
        then throw ''contentsV1.inviteLinkPassword had no data!''
        else let masterKey = base64Encode (the (gil_groupMasterKey contentsV1));
                 inviteLinkPassword = base64Encode (the (gil_inviteLinkPassword contentsV1))
             in if length masterKey \<noteq> 44 then throw ''masterKey had unexpected length''
                else if length inviteLinkPassword = 0 then throw ''inviteLinkPassword had unexpected length''
                else Inr (masterKey, inviteLinkPassword))"

section \<open>The web safe form loses nothing\<close>

lemma base64_plain:
  "list_all (\<lambda>n. base64Digit n \<noteq> CHR ''='' \<and> base64Digit n \<noteq> CHR ''-'' \<and> base64Digit n \<noteq> CHR ''_'') [0..<64]"
  by code_simp

lemma base64Digit_plain [simp]:
  assumes "n < 64"
  shows "base64Digit n \<noteq> CHR ''-''" "base64Digit n \<noteq> CHR ''_''"
  using base64_plain assms by (auto simp: list_all_iff)

text \<open>The text is made of digits, filled up with padding to a multiple of four.\<close>

definition padded :: "string \<Rightarrow> nat \<Rightarrow> bool" where
  "padded body k \<longleftrightarrow> k < 3 \<and> (length body + k) mod 4 = 0 \<and>
    list_all (\<lambda>c. c \<noteq> CHR ''='' \<and> c \<noteq> CHR ''-'' \<and> c \<noteq> CHR ''_'') body"

lemma base64Encode_shape: "\<exists>body k. base64Encode bs = body @ replicate k CHR ''='' \<and> padded body k"
proof (induction bs rule: base64Encode.induct)
  case 1
  show ?case by (rule exI [of _ "[]"], rule exI [of _ 0]) (simp add: padded_def)
next
  case (2 a)
  show ?case
    by (rule exI [of _ "[base64Digit (unat a div 4), base64Digit (unat a mod 4 * 16)]"], rule exI [of _ 2])
      (simp add: padded_def numeral_2_eq_2)
next
  case (3 a b)
  show ?case
    by (rule exI [of _ "[base64Digit (unat a div 4), base64Digit (unat a mod 4 * 16 + unat b div 16),
         base64Digit (unat b mod 16 * 4)]"], rule exI [of _ 1]) (simp add: padded_def)
next
  case (4 a b c rest)
  then obtain body k where ih: "base64Encode rest = body @ replicate k CHR ''=''" "padded body k" by blast
  let ?front = "[base64Digit (unat a div 4), base64Digit (unat a mod 4 * 16 + unat b div 16),
     base64Digit (unat b mod 16 * 4 + unat c div 64), base64Digit (unat c mod 64)]"
  have "padded (?front @ body) k" using ih(2) by (simp add: padded_def)
  with ih(1) show ?case by (intro exI [of _ "?front @ body"] exI [of _ k]) simp
qed

definition web :: "char \<Rightarrow> char" where
  "web c = (let c = (if c = CHR ''/'' then CHR ''_'' else c) in if c = CHR ''+'' then CHR ''-'' else c)"

definition unweb :: "char \<Rightarrow> char" where
  "unweb c = (let c = (if c = CHR ''_'' then CHR ''/'' else c) in if c = CHR ''-'' then CHR ''+'' else c)"

lemma unweb_web: "c \<noteq> CHR ''-'' \<Longrightarrow> c \<noteq> CHR ''_'' \<Longrightarrow> unweb (web c) = c"
  by (cases "c = CHR ''/''"; cases "c = CHR ''+''") (simp_all add: web_def unweb_def)

lemma web_padding: "web c = CHR ''='' \<longleftrightarrow> c = CHR ''=''"
  by (cases "c = CHR ''/''"; cases "c = CHR ''+''") (simp_all add: web_def)

lemma toWebSafe_web: "toWebSafeBase64 s = filter (\<lambda>c. c \<noteq> CHR ''='') (map web s)"
  by (simp add: toWebSafeBase64_def web_def [abs_def] comp_def Let_def)

lemma fromWebSafe_unweb:
  "fromWebSafeBase64 s = map unweb s @
    (if length s mod 4 = 3 then ''='' else if length s mod 4 = 2 then ''=='' else if length s mod 4 = 1 then ''==='' else [])"
proof -
  have eq: "map (\<lambda>c. if c = CHR ''-'' then CHR ''+'' else c) (map (\<lambda>c. if c = CHR ''_'' then CHR ''/'' else c) s) = map unweb s"
    by (simp add: unweb_def comp_def Let_def)
  show ?thesis unfolding fromWebSafeBase64_def Let_def eq length_map by simp
qed

lemma fromWebSafe_toWebSafe: "fromWebSafeBase64 (toWebSafeBase64 (base64Encode bs)) = base64Encode bs"
proof -
  obtain body k where s: "base64Encode bs = body @ replicate k CHR ''=''" "padded body k"
    using base64Encode_shape by blast
  have k: "k = 0 \<and> length body mod 4 = 0 \<or> k = 1 \<and> length body mod 4 = 3 \<or> k = 2 \<and> length body mod 4 = 2"
  proof -
    have "k < 3" "(length body + k) mod 4 = 0" using s(2) by (simp_all add: padded_def)
    then show ?thesis by presburger
  qed
  have "filter (\<lambda>c. c \<noteq> CHR ''='') (map web body) = map web body"
    using s(2) web_padding by (intro filter_True) (auto simp: padded_def list_all_iff)
  moreover have "filter (\<lambda>c. c \<noteq> CHR ''='') (map web (replicate k CHR ''='')) = []"
    using web_padding [of "CHR ''=''"] by simp
  ultimately have body: "toWebSafeBase64 (base64Encode bs) = map web body"
    by (simp only: s(1) toWebSafe_web map_append filter_append append_Nil2)
  have "map unweb (map web body) = body"
    using s(2) unweb_web unfolding map_map padded_def list_all_iff by (intro map_idI) simp
  then have "fromWebSafeBase64 (map web body) = body @ replicate k CHR ''=''"
    unfolding fromWebSafe_unweb length_map using k by (elim disjE conjE) (simp_all add: numeral_2_eq_2)
  then show ?thesis using body s(1) by metis
qed


definition exampleLinkCodec :: LinkCodec where
  "exampleLinkCodec =
    \<lparr>encodeGroupInviteLink = (\<lambda>c. the (gil_groupMasterKey c) @ the (gil_inviteLinkPassword c)),
     decodeGroupInviteLink = (\<lambda>b. Inr (Some \<lparr>gil_groupMasterKey = Some (take 32 b),
       gil_inviteLinkPassword = Some (drop 32 b)\<rparr>))\<rparr>"


end
