(* ===== verification/Group_Modify.thy ===== *)
theory Group_Modify
  imports Group_Build
begin

text \<open>
  Sending our own change of a group: \<open>modifyGroupV2\<close> of ts/groups.preload.ts, which builds a change, uploads it,
  applies it locally and queues the message to the group, and tries again after a conflict or a rejected
  credential.

  What the attempts meet is the record \<open>ModifyWorld\<close>: the conversation when attempt \<open>i\<close> runs, the answer of
  the server, the local update of Group_Update, the clock. The effects of a run are the list of
  \<open>modify_effect\<close>; what it returns is a result or an error.
\<close>

section \<open>One attempt\<close>

record GroupChangeResponse =
  gcr_groupChange :: "bytes option"
  gcr_endorsements :: "bytes option"

record ModifyWorld =
  mw_conversation :: "nat \<Rightarrow> ConversationAttributesType"
  mw_prepare :: "nat \<Rightarrow> unit js"
  mw_createGroupChange :: "nat \<Rightarrow> ProtoActions option js"
  mw_upload :: "nat \<Rightarrow> ProtoActions \<Rightarrow> GroupChangeResponse js"
  mw_maybeUpdateGroup :: "nat \<Rightarrow> string \<Rightarrow> int \<Rightarrow> unit js"
  mw_groupV2Info :: "nat \<Rightarrow> (string list \<times> int) option"
  mw_membersAfter :: "nat \<Rightarrow> GroupV2MemberType list option"
  mw_saveEndorsements :: "nat \<Rightarrow> bytes \<Rightarrow> unit js"
  mw_catchTime :: "nat \<Rightarrow> int"
  mw_fetchLatest :: "nat \<Rightarrow> unit js"
  mw_getProfiles :: "nat \<Rightarrow> unit js"

datatype modify_effect =
    UploadedChange "int option" ProtoActions
  | AppliedLocally string int
  | QueuedGroupUpdate string "string list" int
  | SavedEndorsements bytes
  | FetchedLatest
  | RefreshedCredentials

type_synonym 'a run = "modify_effect list \<times> 'a js"

definition emit :: "modify_effect \<Rightarrow> unit run" where
  "emit e = ([e], Inr ())"

definition lift :: "'a js \<Rightarrow> 'a run" where
  "lift m = ([], m)"

definition bindR :: "'a run \<Rightarrow> ('a \<Rightarrow> 'b run) \<Rightarrow> 'b run" where
  "bindR m f =
    (case m of
       (es, Inl e) \<Rightarrow> (es, Inl e)
     | (es, Inr x) \<Rightarrow> (case f x of (es', r) \<Rightarrow> (es @ es', r)))"

lemma bindR_simps [simp]:
  "bindR (es, Inl e) f = (es, Inl e)" "bindR (es, Inr x) f = (es @ fst (f x), snd (f x))"
  by (simp_all add: bindR_def split: prod.splits)

lemma bindR_sel:
  "fst (bindR m f) = fst m @ (case snd m of Inl _ \<Rightarrow> [] | Inr x \<Rightarrow> fst (f x))"
  "snd (bindR m f) = (case snd m of Inl e \<Rightarrow> Inl e | Inr x \<Rightarrow> snd (f x))"
  by (auto simp: bindR_def split: prod.splits sum.splits)

text \<open>An effect that happens when the call succeeds; a failure while endorsements are saved is only logged.\<close>

definition after :: "unit js \<Rightarrow> modify_effect \<Rightarrow> unit run" where
  "after m e = (case m of Inl err \<Rightarrow> ([], Inl err) | Inr _ \<Rightarrow> emit e)"

definition saveGroupEndorsements :: "ModifyWorld \<Rightarrow> nat \<Rightarrow> bytes option \<Rightarrow> unit run" where
  "saveGroupEndorsements W i response =
    (if bytesIsNotEmpty response
     then (case mw_saveEndorsements W i (the response) of
             Inl _ \<Rightarrow> lift (Inr ()) | Inr _ \<Rightarrow> emit (SavedEndorsements (the response)))
     else lift (Inr ()))"

text \<open>
  The job of an attempt once the event queue is empty and profiles were fetched: it checks the revision,
  uploads the change, applies it locally and queues the message to the group.
\<close>

definition finishUpdate :: "ModifyWorld \<Rightarrow> bool \<Rightarrow> nat \<Rightarrow> string \<Rightarrow> bytes option \<Rightarrow> unit run" where
  "finishUpdate W syncMessageOnly i groupChangeBase64 endorsements =
    bindR (lift (strictAssertSome (mw_groupV2Info W i) ''missing groupV2Info'')) (\<lambda>info.
    bindR (emit (QueuedGroupUpdate groupChangeBase64 (if syncMessageOnly then [] else fst info) (snd info))) (\<lambda>_.
    bindR (lift (strictAssertSome (mw_membersAfter W i) ''modifyGroupV2: missing membersV2'')) (\<lambda>_.
    saveGroupEndorsements W i endorsements)))"

definition applyResponse :: "env \<Rightarrow> ModifyWorld \<Rightarrow> bool \<Rightarrow> nat \<Rightarrow> int \<Rightarrow> GroupChangeResponse \<Rightarrow> unit run" where
  "applyResponse E W syncMessageOnly i newRevision response =
    bindR (lift (strictAssertSome (gcr_groupChange response) ''modifyGroupV2: missing groupChange'')) (\<lambda>groupChange.
    let groupChangeBase64 = toBase64 E groupChange in
    bindR (after (mw_maybeUpdateGroup W i groupChangeBase64 newRevision) (AppliedLocally groupChangeBase64 newRevision)) (\<lambda>_.
    finishUpdate W syncMessageOnly i groupChangeBase64 (gcr_endorsements response)))"

definition checkCanUpload :: "ConversationAttributesType \<Rightarrow> ProtoActions \<Rightarrow> unit js" where
  "checkCanUpload conversation actions =
    (if Some (nullish (c_revision conversation) 0 + 1) \<noteq> pa_version actions
     then throw ''modifyGroupV2: Revision mismatch''
     else bindE (strictAssert (truthy_str (c_groupId conversation)) ''modifyGroupV2: missing groupId'') (\<lambda>_.
       bindE (strictAssert (truthy_str (c_secretParams conversation)) ''modifyGroupV2: missing secretParams'') (\<lambda>_.
       strictAssert (truthy_str (c_publicParams conversation)) ''modifyGroupV2: missing publicParams'')))"

definition modifyJob :: "env \<Rightarrow> ModifyWorld \<Rightarrow> bool \<Rightarrow> nat \<Rightarrow> unit run" where
  "modifyJob E W syncMessageOnly i =
    bindR (lift (mw_createGroupChange W i)) (\<lambda>change.
    case change of
      None \<Rightarrow> lift (Inr ())
    | Some actions \<Rightarrow>
        bindR (lift (checkCanUpload (mw_conversation W i) actions)) (\<lambda>_.
        bindR (case mw_upload W i actions of
            Inl e \<Rightarrow> lift (Inl e)
          | Inr response \<Rightarrow> ([UploadedChange (c_revision (mw_conversation W i)) actions], Inr response))
          (applyResponse E W syncMessageOnly i (nullish (pa_version actions) 0))))"

definition modifyAttempt :: "env \<Rightarrow> ModifyWorld \<Rightarrow> bool \<Rightarrow> nat \<Rightarrow> unit run" where
  "modifyAttempt E W syncMessageOnly i =
    bindR (lift (mw_prepare W i)) (\<lambda>_. modifyJob E W syncMessageOnly i)"

section \<open>The loop\<close>

definition MAX_ATTEMPTS :: nat where
  "MAX_ATTEMPTS = 5"

definition error_code :: "js_error \<Rightarrow> int option" where
  "error_code e = (case e of JsError code _ \<Rightarrow> code)"

fun modifyLoop :: "env \<Rightarrow> ModifyWorld \<Rightarrow> bool \<Rightarrow> int \<Rightarrow> nat \<Rightarrow> nat \<Rightarrow> bool \<Rightarrow> unit run" where
  "modifyLoop E W syncMessageOnly timeoutTime 0 i refreshedCredentials = ([], Inr ())"
| "modifyLoop E W syncMessageOnly timeoutTime (Suc n) i refreshedCredentials =
    (case modifyAttempt E W syncMessageOnly i of
       (es, Inr _) \<Rightarrow> (es, Inr ())
     | (es, Inl e) \<Rightarrow>
         bindR (es, Inr ()) (\<lambda>_.
         if error_code e = Some 409 \<and> mw_catchTime W i \<le> timeoutTime
         then bindR (after (mw_fetchLatest W i) FetchedLatest) (\<lambda>_.
           modifyLoop E W syncMessageOnly timeoutTime n (Suc i) refreshedCredentials)
         else if error_code e = Some 400 \<and> \<not> refreshedCredentials
         then bindR (after (mw_getProfiles W i) RefreshedCredentials) (\<lambda>_.
           modifyLoop E W syncMessageOnly timeoutTime n (Suc i) True)
         else if error_code e = Some 409 then ([FetchedLatest], Inl e)
         else ([], Inl e)))"

definition modifyGroupV2 :: "env \<Rightarrow> ModifyWorld \<Rightarrow> int \<Rightarrow> bool \<Rightarrow> unit run" where
  "modifyGroupV2 E W startTime syncMessageOnly =
    (if \<not> isGroupV2 E (mw_conversation W 0) then lift (throw ''modifyGroupV2: Called for non-GroupV2 conversation'')
     else modifyLoop E W syncMessageOnly (startTime + 60000) MAX_ATTEMPTS 0 False)"

section \<open>What an attempt does\<close>

definition isUpload :: "modify_effect \<Rightarrow> bool" where
  "isUpload e = (case e of UploadedChange _ _ \<Rightarrow> True | _ \<Rightarrow> False)"

definition isApplied :: "modify_effect \<Rightarrow> bool" where
  "isApplied e = (case e of AppliedLocally _ _ \<Rightarrow> True | _ \<Rightarrow> False)"

definition isRefresh :: "modify_effect \<Rightarrow> bool" where
  "isRefresh e = (e = RefreshedCredentials)"

text \<open>An uploaded change is for the next revision of the group.\<close>

definition nextRevisionOnly :: "modify_effect \<Rightarrow> bool" where
  "nextRevisionOnly e =
    (case e of UploadedChange revision actions \<Rightarrow> pa_version actions = Some (nullish revision 0 + 1) | _ \<Rightarrow> True)"

lemmas effect_tests = isUpload_def isApplied_def isRefresh_def nextRevisionOnly_def

definition quiet :: "modify_effect list \<Rightarrow> bool" where
  "quiet es \<longleftrightarrow> list_all (\<lambda>e. \<not> isUpload e \<and> \<not> isApplied e \<and> \<not> isRefresh e \<and> nextRevisionOnly e) es"

lemma quiet_finishUpdate: "quiet (fst (finishUpdate W b i g en))"
  by (auto simp: finishUpdate_def saveGroupEndorsements_def bindR_sel lift_def emit_def strictAssertSome_def quiet_def
      effect_tests split: sum.splits option.splits)

lemma applyResponse_effects:
  obtains "fst (applyResponse E W b i v response) = []" "isl (snd (applyResponse E W b i v response))"
  | g es where "fst (applyResponse E W b i v response) = AppliedLocally g v # es" "quiet es"
proof (cases "gcr_groupChange response")
  case None
  then show thesis using that(1) by (simp add: applyResponse_def bindR_sel lift_def strictAssertSome_def)
next
  case (Some g)
  show thesis
  proof (cases "mw_maybeUpdateGroup W i (toBase64 E g) v")
    case (Inl e)
    then show thesis using Some that(1) by (simp add: applyResponse_def bindR_sel lift_def strictAssertSome_def after_def)
  next
    case (Inr u)
    then show thesis
      using Some that(2) [of "toBase64 E g" "fst (finishUpdate W b i (toBase64 E g) (gcr_endorsements response))"]
        quiet_finishUpdate
      by (simp add: applyResponse_def bindR_sel lift_def strictAssertSome_def after_def emit_def Let_def)
  qed
qed

lemma modifyJob_cases:
  obtains (none) "fst (modifyJob E W b i) = []" "isl (snd (modifyJob E W b i)) \<or> mw_createGroupChange W i = Inr None"
  | (upload) actions response where "checkCanUpload (mw_conversation W i) actions = Inr ()"
      "modifyJob E W b i = (let m = applyResponse E W b i (nullish (pa_version actions) 0) response in
        (UploadedChange (c_revision (mw_conversation W i)) actions # fst m, snd m))"
proof (cases "mw_createGroupChange W i")
  case (Inl e)
  then show thesis using none by (simp add: modifyJob_def lift_def)
next
  case change: (Inr change)
  show thesis
  proof (cases change)
    case None
    then show thesis using none change by (simp add: modifyJob_def lift_def)
  next
    case (Some actions)
    show thesis
    proof (cases "checkCanUpload (mw_conversation W i) actions")
      case (Inl e)
      then show thesis using none change Some by (simp add: modifyJob_def lift_def)
    next
      case ok: (Inr u)
      show thesis
      proof (cases "mw_upload W i actions")
        case (Inl e)
        then show thesis using none change Some ok by (simp add: modifyJob_def lift_def)
      next
        case (Inr response)
        then show thesis using upload [of actions response] change Some ok by (simp add: modifyJob_def lift_def Let_def)
      qed
    qed
  qed
qed

text \<open>The effects of a job, and that it uploaded and applied a change if it succeeded with one.\<close>

lemma modifyJob_effects:
  "list_all nextRevisionOnly (fst (modifyJob E W b i)) \<and>
   length (filter isUpload (fst (modifyJob E W b i))) \<le> 1 \<and>
   filter isRefresh (fst (modifyJob E W b i)) = [] \<and>
   (isl (snd (modifyJob E W b i)) \<or> mw_createGroupChange W i = Inr None \<or>
     length (filter isUpload (fst (modifyJob E W b i))) = 1 \<and> length (filter isApplied (fst (modifyJob E W b i))) = 1)"
proof -
  have quiet: "list_all nextRevisionOnly es" "filter isUpload es = []" "filter isApplied es = []" "filter isRefresh es = []"
    if "quiet es" for es
    using that by (auto simp: quiet_def list_all_iff filter_empty_conv)
  consider (none) "fst (modifyJob E W b i) = []" "isl (snd (modifyJob E W b i)) \<or> mw_createGroupChange W i = Inr None"
    | (upload) actions response where "checkCanUpload (mw_conversation W i) actions = Inr ()"
      "modifyJob E W b i = (let m = applyResponse E W b i (nullish (pa_version actions) 0) response in
        (UploadedChange (c_revision (mw_conversation W i)) actions # fst m, snd m))"
    by (rule modifyJob_cases)
  then show ?thesis
  proof cases
    case upload
    have v: "nextRevisionOnly (UploadedChange (c_revision (mw_conversation W i)) actions)"
      using upload(1) by (auto simp: checkCanUpload_def nextRevisionOnly_def split: if_splits)
    show ?thesis
    proof (rule applyResponse_effects [of E W b i "nullish (pa_version actions) 0" response])
      assume "fst (applyResponse E W b i (nullish (pa_version actions) 0) response) = []"
        "isl (snd (applyResponse E W b i (nullish (pa_version actions) 0) response))"
      with v show ?thesis by (simp add: upload(2) Let_def isUpload_def isRefresh_def)
    next
      fix g es
      assume "fst (applyResponse E W b i (nullish (pa_version actions) 0) response) =
          AppliedLocally g (nullish (pa_version actions) 0) # es" "quiet es"
      with v show ?thesis by (simp add: upload(2) Let_def effect_tests quiet)
    qed
  qed auto
qed

lemma modifyAttempt_effects:
  "list_all nextRevisionOnly (fst (modifyAttempt E W b i))"
  "length (filter isUpload (fst (modifyAttempt E W b i))) \<le> 1"
  "filter isRefresh (fst (modifyAttempt E W b i)) = []"
  "isl (snd (modifyAttempt E W b i)) \<or> mw_createGroupChange W i = Inr None \<or>
    filter isApplied (fst (modifyAttempt E W b i)) \<noteq> []"
  using modifyJob_effects [of E W b i]
  by (auto simp: modifyAttempt_def bindR_sel lift_def split: sum.splits)

section \<open>Properties\<close>

text \<open>Effects with at most \<open>n\<close> uploads and \<open>k\<close> refreshes.\<close>

definition within :: "nat \<Rightarrow> nat \<Rightarrow> modify_effect list \<Rightarrow> bool" where
  "within n k es \<longleftrightarrow> list_all nextRevisionOnly es \<and> length (filter isUpload es) \<le> n \<and> length (filter isRefresh es) \<le> k"

lemma within_bindR:
  assumes "within n k (fst m)" and "\<And>x. snd m = Inr x \<Longrightarrow> within n' k' (fst (f x))"
  shows "within (n + n') (k + k') (fst (bindR m f))"
  using assms by (cases "snd m") (fastforce simp: within_def bindR_sel)+

lemma within_after:
  "within 0 0 (fst (after m FetchedLatest))" "within 0 1 (fst (after m RefreshedCredentials))"
  by (auto simp: within_def after_def emit_def effect_tests split: sum.splits)

lemma modifyLoop_bounded: "within n (if r then 0 else 1) (fst (modifyLoop E W b t n i r))"
proof (induction E W b t n i r rule: modifyLoop.induct)
  case (1 E W b t i r)
  show ?case by (simp add: within_def)
next
  case (2 E W b t n i r)
  obtain es res where a: "modifyAttempt E W b i = (es, res)" by (cases "modifyAttempt E W b i")
  have es: "within 1 0 es"
    using modifyAttempt_effects(1-3) [of E W b i] by (simp add: a within_def)
  show ?case
  proof (cases res)
    case (Inr u)
    then show ?thesis using es by (auto simp: a within_def)
  next
    case (Inl err)
    let ?rest = "if error_code err = Some 409 \<and> mw_catchTime W i \<le> t
        then bindR (after (mw_fetchLatest W i) FetchedLatest) (\<lambda>_. modifyLoop E W b t n (Suc i) r)
        else if error_code err = Some 400 \<and> \<not> r
        then bindR (after (mw_getProfiles W i) RefreshedCredentials) (\<lambda>_. modifyLoop E W b t n (Suc i) True)
        else if error_code err = Some 409 then ([FetchedLatest], Inl err) else ([], Inl err)"
    have eq: "modifyLoop E W b t (Suc n) i r = bindR (es, Inr ()) (\<lambda>_. ?rest)"
      by (simp add: a Inl)
    note ih = 2 [OF a [symmetric] Inl]
    have "within n (if r then 0 else 1) (fst ?rest)"
      using ih within_bindR [OF within_after(1) [of "mw_fetchLatest W i"], of n "if r then 0 else 1" "\<lambda>_. modifyLoop E W b t n (Suc i) r"]
        within_bindR [OF within_after(2) [of "mw_getProfiles W i"], of n 0 "\<lambda>_. modifyLoop E W b t n (Suc i) True"]
      by (auto simp: within_def effect_tests)
    then show ?thesis
      using within_bindR [of 1 0 "(es, Inr ())" n "if r then 0 else 1" "\<lambda>_. ?rest"] es unfolding eq by simp
  qed
qed

text \<open>
C27: A modification is bounded and never skips a revision: in every run of \<open>modifyGroupV2\<close> at most five changes are
uploaded, credentials are refreshed at most once, and each uploaded change is for exactly the revision that
follows the one the conversation had when the attempt ran.
\<close>

theorem modify_bounded:
  "let effects = fst (modifyGroupV2 E W startTime syncMessageOnly) in
    length (filter isUpload effects) \<le> 5 \<and> length (filter isRefresh effects) \<le> 1 \<and> list_all nextRevisionOnly effects"
  using modifyLoop_bounded [where E = E and W = W and b = syncMessageOnly and t = "startTime + 60000"
      and n = MAX_ATTEMPTS and i = 0 and r = False]
  by (simp add: modifyGroupV2_def lift_def MAX_ATTEMPTS_def Let_def within_def)

text \<open>Attempts that failed in a way the loop tries again after.\<close>

definition retriable :: "env \<Rightarrow> ModifyWorld \<Rightarrow> bool \<Rightarrow> nat \<Rightarrow> bool" where
  "retriable E W syncMessageOnly i =
    (case snd (modifyAttempt E W syncMessageOnly i) of
       Inl e \<Rightarrow> error_code e = Some 409 \<or> error_code e = Some 400
     | Inr _ \<Rightarrow> False)"

lemma modifyLoop_outcome:
  "case snd (modifyLoop E W b t n i r) of
     Inl e \<Rightarrow> True
   | Inr _ \<Rightarrow> (\<exists>j \<in> {i..<i + n}. mw_createGroupChange W j = Inr None) \<or>
       filter isApplied (fst (modifyLoop E W b t n i r)) \<noteq> [] \<or> list_all (retriable E W b) [i..<i + n]"
proof (induction E W b t n i r rule: modifyLoop.induct)
  case (2 E W b t n i r)
  obtain es res where a: "modifyAttempt E W b i = (es, res)" by (cases "modifyAttempt E W b i")
  show ?case
  proof (cases res)
    case (Inr u)
    then show ?thesis using modifyAttempt_effects(4) [of E W b i] by (auto simp: a)
  next
    case (Inl err)
    have up: "[i..<i + Suc n] = i # [Suc i..<Suc i + n]" by (simp add: upt_conv_Cons)
    have again: "retriable E W b i" if "error_code err = Some 409 \<or> error_code err = Some 400"
      using that by (simp add: retriable_def a Inl)
    have tail: "case snd (bindR (es, Inr ()) (\<lambda>_. bindR m (\<lambda>_. modifyLoop E W b t n (Suc i) r'))) of
        Inl e \<Rightarrow> True
      | Inr _ \<Rightarrow> (\<exists>j \<in> {i..<i + Suc n}. mw_createGroupChange W j = Inr None) \<or>
          filter isApplied (fst (bindR (es, Inr ()) (\<lambda>_. bindR m (\<lambda>_. modifyLoop E W b t n (Suc i) r')))) \<noteq> [] \<or>
          list_all (retriable E W b) [i..<i + Suc n]"
      if "case snd (modifyLoop E W b t n (Suc i) r') of
          Inl e \<Rightarrow> True
        | Inr _ \<Rightarrow> (\<exists>j \<in> {Suc i..<Suc i + n}. mw_createGroupChange W j = Inr None) \<or>
            filter isApplied (fst (modifyLoop E W b t n (Suc i) r')) \<noteq> [] \<or>
            list_all (retriable E W b) [Suc i..<Suc i + n]"
        and "retriable E W b i" for r' and m :: "unit run"
      using that unfolding up by (auto simp: bindR_sel split: sum.splits)
    let ?rest = "if error_code err = Some 409 \<and> mw_catchTime W i \<le> t
        then bindR (after (mw_fetchLatest W i) FetchedLatest) (\<lambda>_. modifyLoop E W b t n (Suc i) r)
        else if error_code err = Some 400 \<and> \<not> r
        then bindR (after (mw_getProfiles W i) RefreshedCredentials) (\<lambda>_. modifyLoop E W b t n (Suc i) True)
        else if error_code err = Some 409 then ([FetchedLatest], Inl err) else ([], Inl err)"
    have eq: "modifyLoop E W b t (Suc n) i r = bindR (es, Inr ()) (\<lambda>_. ?rest)"
      by (simp add: a Inl)
    note ih = 2 [OF a [symmetric] Inl]
    consider (conflict) "error_code err = Some 409 \<and> mw_catchTime W i \<le> t"
      | (credentials) "\<not> (error_code err = Some 409 \<and> mw_catchTime W i \<le> t)" "error_code err = Some 400 \<and> \<not> r"
      | (failed) "\<not> (error_code err = Some 409 \<and> mw_catchTime W i \<le> t)" "\<not> (error_code err = Some 400 \<and> \<not> r)" by blast
    then show ?thesis
    proof cases
      case conflict
      show ?thesis unfolding eq if_P [OF conflict] by (rule tail) (use ih(1) conflict again in auto)
    next
      case credentials
      show ?thesis unfolding eq if_not_P [OF credentials(1)] if_P [OF credentials(2)]
        by (rule tail) (use ih(2) credentials again in auto)
    next
      case failed
      show ?thesis unfolding eq if_not_P [OF failed(1)] if_not_P [OF failed(2)] by (simp add: bindR_sel)
    qed
  qed
qed simp

text \<open>
C28: What a success means: if \<open>modifyGroupV2\<close> returns, then one of its attempts had nothing to change, or it applied a
change locally, or each of the five attempts was refused by a conflict (409) or for its credentials (400).
\<close>

theorem modify_outcome:
  "case snd (modifyGroupV2 E W startTime syncMessageOnly) of
     Inl e \<Rightarrow> True
   | Inr _ \<Rightarrow> list_ex (\<lambda>i. mw_createGroupChange W i = Inr None) [0..<5] \<or>
       list_ex isApplied (fst (modifyGroupV2 E W startTime syncMessageOnly)) \<or>
       list_all (retriable E W syncMessageOnly) [0..<5]"
  using modifyLoop_outcome [where E = E and W = W and b = syncMessageOnly and t = "startTime + 60000"
      and n = MAX_ATTEMPTS and i = 0 and r = False]
  by (auto simp: modifyGroupV2_def lift_def MAX_ATTEMPTS_def list_ex_iff filter_empty_conv split: sum.splits)

text \<open>
The last case is real, and not an error: when five attempts in a row conflict within the minute, the
loop ends and \<open>modifyGroupV2\<close> returns as if it had succeeded, with no change applied.
\<close>

lemma modifyLoop_conflicts:
  assumes "\<And>i. mw_prepare W i = Inr ()" and "\<And>i. mw_createGroupChange W i = Inr (Some (actions i))"
    and "\<And>i. checkCanUpload (mw_conversation W i) (actions i) = Inr ()"
    and "\<And>i. mw_upload W i (actions i) = Inl (JsError (Some 409) msg)"
    and "\<And>i. mw_fetchLatest W i = Inr ()" and "\<And>i. mw_catchTime W i \<le> t"
  shows "modifyLoop E W b t n i r = (replicate n FetchedLatest, Inr ())"
proof (induction n arbitrary: i)
  case (Suc n)
  have "modifyAttempt E W b i = ([], Inl (JsError (Some 409) msg))" for i
    using assms(1-4) by (simp add: modifyAttempt_def modifyJob_def lift_def)
  then show ?case using Suc assms(5,6) by (simp add: error_code_def after_def emit_def)
qed simp

theorem conflicts_are_swallowed:
  assumes "isGroupV2 E (mw_conversation W 0)"
    and "\<And>i. mw_prepare W i = Inr ()" and "\<And>i. mw_createGroupChange W i = Inr (Some (actions i))"
    and "\<And>i. checkCanUpload (mw_conversation W i) (actions i) = Inr ()"
    and "\<And>i. mw_upload W i (actions i) = Inl (JsError (Some 409) msg)"
    and "\<And>i. mw_fetchLatest W i = Inr ()" and "\<And>i. mw_catchTime W i \<le> startTime + 60000"
  shows "modifyGroupV2 E W startTime b = (replicate 5 FetchedLatest, Inr ())"
  using modifyLoop_conflicts [OF assms(2-7)] assms(1) by (simp add: modifyGroupV2_def MAX_ATTEMPTS_def)

definition conflictWorld :: ModifyWorld where
  "conflictWorld =
    \<lparr>mw_conversation = (\<lambda>_. exampleGroup), mw_prepare = (\<lambda>_. Inr ()),
     mw_createGroupChange = (\<lambda>_. Inr (Some (buildTerminateChange exampleGroup))),
     mw_upload = (\<lambda>_ _. Inl (JsError (Some 409) ''conflict'')), mw_maybeUpdateGroup = (\<lambda>_ _ _. Inr ()),
     mw_groupV2Info = (\<lambda>_. None), mw_membersAfter = (\<lambda>_. None), mw_saveEndorsements = (\<lambda>_ _. Inr ()),
     mw_catchTime = (\<lambda>_. 0), mw_fetchLatest = (\<lambda>_. Inr ()), mw_getProfiles = (\<lambda>_. Inr ())\<rparr>"

theorem conflicts_are_swallowed_witness:
  "modifyGroupV2 exampleEnv conflictWorld 0 False = (replicate 5 FetchedLatest, Inr ())"
proof (rule conflicts_are_swallowed)
  show "isGroupV2 exampleEnv (mw_conversation conflictWorld 0)"
    by (simp add: conflictWorld_def) code_simp
  show "checkCanUpload (mw_conversation conflictWorld i) (buildTerminateChange exampleGroup) = Inr ()" for i
    by (simp add: conflictWorld_def checkCanUpload_def buildTerminateChange_def toGroupActionsParams_def
        nextVersion_def exampleGroup_def)
qed (simp_all add: conflictWorld_def)

end
