(* ===== verification/Session_Store.thy ===== *)
theory Session_Store
  imports Call_Sync
begin

text \<open>
  The store of the Signal protocol: ts/SignalProtocolStore.preload.ts. It keeps sessions, sender keys and
  pre keys in memory and in the database. Changes are collected while a zone (a transaction) is entered and
  written in one database transaction when the outermost call of the zone ends.

  This theory has the state, the zones and the operations on it; a call is split into its start, its
  operations and its end, because other calls run in between. Session_Zones composes them to runs.
  Records of libsignal are a type variable with the functions of the record \<open>LibSignal\<close>; the address
  that is parsed from the id of a session is the address the session was stored under.
\<close>

section \<open>Zones\<close>

record Zone =
  z_id :: nat
  z_pendingKyberPreKeysToRemove :: bool
  z_pendingPreKeysToRemove :: bool
  z_pendingSenderKeys :: bool
  z_pendingSessions :: bool
  z_pendingUnprocessed :: bool

definition GLOBAL_ZONE :: Zone where
  "GLOBAL_ZONE =
    \<lparr>z_id = 0, z_pendingKyberPreKeysToRemove = False, z_pendingPreKeysToRemove = False,
     z_pendingSenderKeys = False, z_pendingSessions = False, z_pendingUnprocessed = False\<rparr>"

text \<open>Zones are compared as objects.\<close>

definition sameZone :: "Zone \<Rightarrow> Zone \<Rightarrow> bool" where
  "sameZone a b = (z_id a = z_id b)"

section \<open>Records\<close>

record QualifiedAddress =
  qa_ourServiceId :: string
  qa_serviceId :: string
  qa_deviceId :: nat

definition addressToString :: "string \<Rightarrow> nat \<Rightarrow> string" where
  "addressToString serviceId deviceId = serviceId @ ''.'' @ showNat deviceId"

definition qualifiedAddressToString :: "QualifiedAddress \<Rightarrow> string" where
  "qualifiedAddressToString a = qa_ourServiceId a @ '':'' @ addressToString (qa_serviceId a) (qa_deviceId a)"

record SessionType =
  se_id :: string
  se_ourServiceId :: string
  se_serviceId :: string
  se_conversationId :: string
  se_deviceId :: nat
  se_record :: bytes

record SenderKeyType =
  sk_id :: string
  sk_senderId :: string
  sk_distributionId :: string
  sk_data :: bytes
  sk_lastUpdatedDate :: int

record KyberPreKeyType =
  kp_id :: string
  kp_ourServiceId :: string
  kp_keyId :: nat
  kp_data :: bytes
  kp_isConfirmed :: bool
  kp_isLastResort :: bool

record PreKeyType =
  pre_id :: string
  pre_ourServiceId :: string
  pre_keyId :: nat
  pre_publicKey :: bytes

record KyberPreKeyTripleType =
  kt_id :: string
  kt_signedPreKeyId :: nat
  kt_baseKey :: bytes

record UnprocessedType =
  un_id :: string
  un_content :: bytes
  un_isEncrypted :: bool

text \<open>An entry of a cache; \<open>ce_item\<close> is missing while it is not hydrated.\<close>

record ('d, 'i) CacheEntryType =
  ce_fromDB :: 'd
  ce_item :: "'i option"

record ('r, 'k) LibSignal =
  deserializeSession :: "bytes \<Rightarrow> 'r js"
  serializeSession :: "'r \<Rightarrow> bytes"
  hasCurrentState :: "'r \<Rightarrow> bool"
  archiveCurrentState :: "'r \<Rightarrow> 'r"
  remoteRegistrationId :: "'r \<Rightarrow> nat"
  deserializeSenderKey :: "bytes \<Rightarrow> 'k js"
  serializeSenderKey :: "'k \<Rightarrow> bytes"

record protocol_db =
  db_sessions :: "(string, SessionType) jsmap"
  db_senderKeys :: "(string, SenderKeyType) jsmap"
  db_preKeys :: "(string, PreKeyType) jsmap"
  db_kyberPreKeys :: "(string, KyberPreKeyType) jsmap"
  db_kyberTriples :: "KyberPreKeyTripleType list"
  db_unprocessed :: "(string, UnprocessedType) jsmap"

text \<open>The changes of a zone that are not written yet.\<close>

record ('r, 'k) pending =
  pe_kyberPreKeysToRemove :: "string list"
  pe_preKeysToRemove :: "string list"
  pe_senderKeys :: "(string, (SenderKeyType, 'k) CacheEntryType) jsmap"
  pe_sessions :: "(string, (SessionType, 'r) CacheEntryType) jsmap"
  pe_unprocessed :: "(string, UnprocessedType) jsmap"
  pe_kyberTriples :: "(string, KyberPreKeyTripleType) jsmap"

record ('r, 'k) store =
  st_sessions :: "(string, (SessionType, 'r) CacheEntryType) jsmap"
  st_senderKeys :: "(string, (SenderKeyType, 'k) CacheEntryType) jsmap"
  st_preKeys :: "(string, PreKeyType) jsmap"
  st_kyberPreKeys :: "(string, KyberPreKeyType) jsmap"
  st_kyberTriples :: "string list"
  st_pending :: "('r, 'k) pending"
  st_currentZone :: "Zone option"
  st_currentZoneDepth :: nat
  st_zoneQueue :: "(Zone \<times> nat) list"
  st_db :: protocol_db

definition noPending :: "('r, 'k) pending" where
  "noPending =
    \<lparr>pe_kyberPreKeysToRemove = [], pe_preKeysToRemove = [], pe_senderKeys = [], pe_sessions = [],
     pe_unprocessed = [], pe_kyberTriples = []\<rparr>"

section \<open>The database transaction\<close>

definition getKyberTripleCacheKey :: "KyberPreKeyTripleType \<Rightarrow> string" where
  "getKyberTripleCacheKey t = kt_id t @ '':'' @ showNat (kt_signedPreKeyId t) @ '':'' @ toHex (kt_baseKey t)"

definition delAll :: "'k list \<Rightarrow> ('k, 'v) jsmap \<Rightarrow> ('k, 'v) jsmap" where
  "delAll ks m = fold js_del ks m"

definition setAll :: "('k \<times> 'v) list \<Rightarrow> ('k, 'v) jsmap \<Rightarrow> ('k, 'v) jsmap" where
  "setAll kvs m = fold (\<lambda>(k, v). js_set k v) kvs m"

text \<open>The foreign key deletes the triples of a removed key.\<close>

definition removeKyberPreKeyById :: "string list \<Rightarrow> protocol_db \<Rightarrow> protocol_db" where
  "removeKyberPreKeyById ids d = d\<lparr>db_kyberPreKeys := delAll ids (db_kyberPreKeys d),
     db_kyberTriples := filter (\<lambda>t. kt_id t \<notin> set ids) (db_kyberTriples d)\<rparr>"

definition createOrUpdateSession :: "SessionType \<Rightarrow> protocol_db \<Rightarrow> protocol_db js" where
  "createOrUpdateSession data d =
    (if se_id data = [] then throw ''createOrUpdateSession: Provided data did not have a truthy id''
     else if se_conversationId data = []
     then throw ''createOrUpdateSession: Provided data did not have a truthy conversationId''
     else Inr (d\<lparr>db_sessions := js_set (se_id data) data (db_sessions d)\<rparr>))"

definition createOrUpdateSenderKey :: "SenderKeyType \<Rightarrow> protocol_db \<Rightarrow> protocol_db" where
  "createOrUpdateSenderKey key d = d\<lparr>db_senderKeys := js_set (sk_id key) key (db_senderKeys d)\<rparr>"

definition saveUnprocessed :: "UnprocessedType \<Rightarrow> protocol_db \<Rightarrow> protocol_db js" where
  "saveUnprocessed data d =
    (if un_id data = [] then throw ''saveUnprocessed: id was falsey''
     else Inr (d\<lparr>db_unprocessed := js_set (un_id data) data (db_unprocessed d)\<rparr>))"

definition markKyberTripleSeenOrFail :: "KyberPreKeyTripleType \<Rightarrow> protocol_db \<Rightarrow> protocol_db js" where
  "markKyberTripleSeenOrFail t d =
    (if t \<in> set (db_kyberTriples d) then throw ''Duplicate kyber triple''
     else if \<not> js_has (db_kyberPreKeys d) (kt_id t) then throw ''FOREIGN KEY constraint failed''
     else Inr (d\<lparr>db_kyberTriples := db_kyberTriples d @ [t]\<rparr>))"

text \<open>\<open>commitDecryptResult\<close> of ts/sql/Server.node.ts: everything or nothing.\<close>

definition commitDecryptResult :: "('r, 'k) pending \<Rightarrow> protocol_db \<Rightarrow> protocol_db js" where
  "commitDecryptResult p d =
    (let d1 = d\<lparr>db_kyberPreKeys := db_kyberPreKeys (removeKyberPreKeyById (pe_kyberPreKeysToRemove p) d),
                db_kyberTriples := db_kyberTriples (removeKyberPreKeyById (pe_kyberPreKeysToRemove p) d),
                db_preKeys := delAll (pe_preKeysToRemove p) (db_preKeys d)\<rparr>;
         d2 = fold createOrUpdateSenderKey (map ce_fromDB (js_values (pe_senderKeys p))) d1
     in bindE (forE createOrUpdateSession (map ce_fromDB (js_values (pe_sessions p))) d2) (\<lambda>d3.
        bindE (forE saveUnprocessed (js_values (pe_unprocessed p)) d3)
          (forE markKyberTripleSeenOrFail (js_values (pe_kyberTriples p)))))"

section \<open>Committing and reverting a zone\<close>

definition isPrefix :: "string \<Rightarrow> string \<Rightarrow> bool" where
  "isPrefix p s = (take (length p) s = p)"

text \<open>The caches after a successful write.\<close>

definition applyPending :: "('r, 'k) pending \<Rightarrow> ('r, 'k) store \<Rightarrow> ('r, 'k) store" where
  "applyPending p s =
    s\<lparr>st_kyberPreKeys := delAll (pe_kyberPreKeysToRemove p) (st_kyberPreKeys s),
      st_kyberTriples := filter (\<lambda>k. \<forall>v \<in> set (pe_kyberPreKeysToRemove p). \<not> isPrefix (v @ '':'') k)
        (st_kyberTriples s @ filter (\<lambda>k. k \<notin> set (st_kyberTriples s)) (js_keys (pe_kyberTriples p))),
      st_preKeys := delAll (pe_preKeysToRemove p) (st_preKeys s),
      st_senderKeys := setAll (pe_senderKeys p) (st_senderKeys s),
      st_sessions := setAll (pe_sessions p) (st_sessions s)\<rparr>"

text \<open>
  The commit has two halves, because other calls of the zone run while the database writes: it takes the
  pending changes away, and applies them to the caches after the write. \<open>io\<close> is the outcome of the
  database beyond its constraints (a full disk, a closed database).
\<close>

definition startCommit :: "('r, 'k) store \<Rightarrow> ('r, 'k) store \<times> ('r, 'k) pending" where
  "startCommit s = (s\<lparr>st_pending := noPending\<rparr>, st_pending s)"

definition finishCommit :: "unit js \<Rightarrow> ('r, 'k) pending \<Rightarrow> ('r, 'k) store \<Rightarrow> ('r, 'k) store \<times> unit js" where
  "finishCommit io p s =
    (case bindE io (\<lambda>_. commitDecryptResult p (st_db s)) of
       Inl e \<Rightarrow> (s, Inl e)
     | Inr d \<Rightarrow> (applyPending p (s\<lparr>st_db := d\<rparr>), Inr ()))"

definition commitZoneChanges :: "unit js \<Rightarrow> ('r, 'k) store \<Rightarrow> ('r, 'k) store \<times> unit js" where
  "commitZoneChanges io s =
    (if st_pending s = noPending then (s, Inr ())
     else case startCommit s of (s1, p) \<Rightarrow> finishCommit io p s1)"

text \<open>All pending changes are dropped but the triples.\<close>

definition revertZoneChanges :: "('r, 'k) store \<Rightarrow> ('r, 'k) store" where
  "revertZoneChanges s = s\<lparr>st_pending := noPending\<lparr>pe_kyberTriples := pe_kyberTriples (st_pending s)\<rparr>\<rparr>"

section \<open>Entering and leaving a zone\<close>

definition enterZone :: "Zone \<Rightarrow> ('r, 'k) store \<Rightarrow> ('r, 'k) store" where
  "enterZone zone s =
    (let s1 = s\<lparr>st_currentZoneDepth := st_currentZoneDepth s + 1\<rparr>
     in if st_currentZoneDepth s1 = 1 then s1\<lparr>st_currentZone := Some zone\<rparr> else s1)"

text \<open>
  The calls that leaving the last user of a zone lets in: the first in the queue and those directly behind
  it in the same zone. They are entered at once.
\<close>

definition toEnter :: "(Zone \<times> nat) list \<Rightarrow> (Zone \<times> nat) list" where
  "toEnter queue = (case queue of [] \<Rightarrow> [] | c # rest \<Rightarrow> c # takeWhile (\<lambda>d. sameZone (fst d) (fst c)) rest)"

definition leaveZone :: "('r, 'k) store \<Rightarrow> ('r, 'k) store \<times> (Zone \<times> nat) list" where
  "leaveZone s =
    (let s1 = s\<lparr>st_currentZoneDepth := st_currentZoneDepth s - 1\<rparr>
     in if st_currentZoneDepth s1 \<noteq> 0 then (s1, [])
        else let next = toEnter (st_zoneQueue s);
                 s2 = s1\<lparr>st_currentZone := None, st_zoneQueue := drop (length next) (st_zoneQueue s)\<rparr>
             in (fold (\<lambda>c. enterZone (fst c)) next s2, next))"

definition isInTopLevelZone :: "('r, 'k) store \<Rightarrow> bool" where
  "isInTopLevelZone s = (st_currentZoneDepth s = 1)"

text \<open>
  The start of \<open>withZone\<close>. A call of another zone waits in the queue (the result is False).
\<close>

definition beginZone :: "Zone \<Rightarrow> nat \<Rightarrow> ('r, 'k) store \<Rightarrow> ('r, 'k) store \<times> bool" where
  "beginZone zone call s =
    (case st_currentZone s of
       Some current \<Rightarrow> if \<not> sameZone current zone
         then (s\<lparr>st_zoneQueue := st_zoneQueue s @ [(zone, call)]\<rparr>, False)
         else (enterZone zone s, True)
     | None \<Rightarrow> (enterZone zone s, True))"

text \<open>
  The end of a body: an outermost call reverts its changes when it failed and writes them when it
  succeeded, every other call just leaves.
\<close>

datatype ('r, 'k) ending = Leave "('r, 'k) store" | Write "('r, 'k) store" "('r, 'k) pending"

definition endBody :: "bool \<Rightarrow> ('r, 'k) store \<Rightarrow> ('r, 'k) ending" where
  "endBody succeeded s =
    (if \<not> succeeded then Leave (if isInTopLevelZone s then revertZoneChanges s else s)
     else if isInTopLevelZone s \<and> st_pending s \<noteq> noPending
     then (case startCommit s of (s1, p) \<Rightarrow> Write s1 p)
     else Leave s)"

section \<open>Operations inside a zone\<close>

text \<open>An operation commits at once when its zone does not collect its kind of change.\<close>

definition commitUnless :: "bool \<Rightarrow> unit js \<Rightarrow> ('r, 'k) store \<Rightarrow> ('r, 'k) store \<times> unit js" where
  "commitUnless collects io s = (if collects then (s, Inr ()) else commitZoneChanges io s)"

definition putSession :: "('r, 'k) LibSignal \<Rightarrow> (string \<Rightarrow> string) \<Rightarrow> QualifiedAddress \<Rightarrow> 'r \<Rightarrow>
    ('r, 'k) store \<Rightarrow> ('r, 'k) store" where
  "putSession L conversationOf address record s =
    (let key = qualifiedAddressToString address;
         fromDB = \<lparr>se_id = key, se_ourServiceId = qa_ourServiceId address, se_serviceId = qa_serviceId address,
           se_conversationId = conversationOf (qa_serviceId address), se_deviceId = qa_deviceId address,
           se_record = serializeSession L record\<rparr>
     in s\<lparr>st_pending := (st_pending s)\<lparr>pe_sessions :=
          js_set key \<lparr>ce_fromDB = fromDB, ce_item = Some record\<rparr> (pe_sessions (st_pending s))\<rparr>\<rparr>)"

definition storeSession :: "('r, 'k) LibSignal \<Rightarrow> (string \<Rightarrow> string) \<Rightarrow> QualifiedAddress \<Rightarrow> 'r \<Rightarrow> Zone \<Rightarrow> unit js \<Rightarrow>
    ('r, 'k) store \<Rightarrow> ('r, 'k) store \<times> unit js" where
  "storeSession L conversationOf address record zone io s =
    commitUnless (z_pendingSessions zone) io (putSession L conversationOf address record s)"

text \<open>A session that cannot be deserialized is logged and treated as missing.\<close>

definition loadSession :: "('r, 'k) LibSignal \<Rightarrow> QualifiedAddress \<Rightarrow> ('r, 'k) store \<Rightarrow> ('r, 'k) store \<times> 'r option" where
  "loadSession L address s =
    (let key = qualifiedAddressToString address;
         isPending = js_has (pe_sessions (st_pending s)) key;
         entry = js_get (if isPending then pe_sessions (st_pending s) else st_sessions s) key
     in case entry of
          None \<Rightarrow> (s, None)
        | Some e \<Rightarrow>
            (case ce_item e of
               Some item \<Rightarrow> (s, Some item)
             | None \<Rightarrow>
                 (case deserializeSession L (se_record (ce_fromDB e)) of
                    Inl _ \<Rightarrow> (s, None)
                  | Inr item \<Rightarrow>
                      let e' = e\<lparr>ce_item := Some item\<rparr>
                      in (if isPending
                          then s\<lparr>st_pending := (st_pending s)\<lparr>pe_sessions := js_set key e' (pe_sessions (st_pending s))\<rparr>\<rparr>
                          else s\<lparr>st_sessions := js_set key e' (st_sessions s)\<rparr>, Some item))))"

definition putSenderKey :: "('r, 'k) LibSignal \<Rightarrow> int \<Rightarrow> QualifiedAddress \<Rightarrow> string \<Rightarrow> 'k \<Rightarrow>
    ('r, 'k) store \<Rightarrow> ('r, 'k) store" where
  "putSenderKey L now address distributionId record s =
    (let senderId = qualifiedAddressToString address;
         key = senderId @ ''--'' @ distributionId;
         fromDB = \<lparr>sk_id = key, sk_senderId = senderId, sk_distributionId = distributionId,
           sk_data = serializeSenderKey L record, sk_lastUpdatedDate = now\<rparr>
     in s\<lparr>st_pending := (st_pending s)\<lparr>pe_senderKeys :=
          js_set key \<lparr>ce_fromDB = fromDB, ce_item = Some record\<rparr> (pe_senderKeys (st_pending s))\<rparr>\<rparr>)"

text \<open>Errors while a sender key is saved are logged.\<close>

definition saveSenderKey :: "('r, 'k) LibSignal \<Rightarrow> int \<Rightarrow> QualifiedAddress \<Rightarrow> string \<Rightarrow> 'k \<Rightarrow> Zone \<Rightarrow> unit js \<Rightarrow>
    ('r, 'k) store \<Rightarrow> ('r, 'k) store \<times> unit js" where
  "saveSenderKey L now address distributionId record zone io s =
    (fst (commitUnless (z_pendingSenderKeys zone) io (putSenderKey L now address distributionId record s)), Inr ())"

definition putPreKeysToRemove :: "string list \<Rightarrow> ('r, 'k) store \<Rightarrow> ('r, 'k) store" where
  "putPreKeysToRemove ids s =
    s\<lparr>st_pending := (st_pending s)\<lparr>pe_preKeysToRemove := fold set_add ids (pe_preKeysToRemove (st_pending s))\<rparr>\<rparr>"

definition removePreKeys :: "string list \<Rightarrow> Zone \<Rightarrow> unit js \<Rightarrow> ('r, 'k) store \<Rightarrow> ('r, 'k) store \<times> unit js" where
  "removePreKeys ids zone io s = commitUnless (z_pendingPreKeysToRemove zone) io (putPreKeysToRemove ids s)"

definition putKyberPreKeysToRemove :: "string list \<Rightarrow> ('r, 'k) store \<Rightarrow> ('r, 'k) store" where
  "putKyberPreKeysToRemove ids s =
    s\<lparr>st_pending := (st_pending s)\<lparr>pe_kyberPreKeysToRemove :=
      fold set_add ids (pe_kyberPreKeysToRemove (st_pending s))\<rparr>\<rparr>"

definition removeKyberPreKeys :: "string list \<Rightarrow> Zone \<Rightarrow> unit js \<Rightarrow> ('r, 'k) store \<Rightarrow> ('r, 'k) store \<times> unit js" where
  "removeKyberPreKeys ids zone io s =
    commitUnless (z_pendingKyberPreKeysToRemove zone) io (putKyberPreKeysToRemove ids s)"

text \<open>A triple of a key of last resort may be used only once.\<close>

definition putKyberTriple :: "KyberPreKeyTripleType \<Rightarrow> ('r, 'k) store \<Rightarrow> ('r, 'k) store js" where
  "putKyberTriple triple s =
    (let cacheKey = getKyberTripleCacheKey triple
     in if cacheKey \<in> set (st_kyberTriples s) \<or> js_has (pe_kyberTriples (st_pending s)) cacheKey
        then throw ''Duplicate kyber triple''
        else Inr (s\<lparr>st_pending := (st_pending s)\<lparr>pe_kyberTriples :=
          js_set cacheKey triple (pe_kyberTriples (st_pending s))\<rparr>\<rparr>))"

definition getKeyId :: "string \<Rightarrow> nat \<Rightarrow> string" where
  "getKeyId ourServiceId keyId = ourServiceId @ '':'' @ showNat keyId"

definition maybeRemoveKyberPreKey :: "string \<Rightarrow> nat \<Rightarrow> nat \<Rightarrow> bytes \<Rightarrow> Zone \<Rightarrow> unit js \<Rightarrow> ('r, 'k) store \<Rightarrow>
    ('r, 'k) store \<times> unit js" where
  "maybeRemoveKyberPreKey ourServiceId keyId signedPreKeyId baseKey zone io s =
    (let key = getKeyId ourServiceId keyId
     in case js_get (st_kyberPreKeys s) key of
          None \<Rightarrow> (s, Inr ())
        | Some entry \<Rightarrow>
            if \<not> kp_isLastResort entry then removeKyberPreKeys [key] zone io s
            else (case putKyberTriple \<lparr>kt_id = key, kt_signedPreKeyId = signedPreKeyId, kt_baseKey = baseKey\<rparr> s of
                    Inl e \<Rightarrow> (s, Inl e)
                  | Inr s1 \<Rightarrow> commitUnless (z_pendingKyberPreKeysToRemove zone) io s1))"

definition putUnprocessed :: "UnprocessedType list \<Rightarrow> ('r, 'k) store \<Rightarrow> ('r, 'k) store" where
  "putUnprocessed array s =
    s\<lparr>st_pending := (st_pending s)\<lparr>pe_unprocessed :=
      fold (\<lambda>e. js_set (un_id e) e) array (pe_unprocessed (st_pending s))\<rparr>\<rparr>"

definition addMultipleUnprocessed :: "UnprocessedType list \<Rightarrow> Zone \<Rightarrow> unit js \<Rightarrow> ('r, 'k) store \<Rightarrow>
    ('r, 'k) store \<times> unit js" where
  "addMultipleUnprocessed array zone io s = commitUnless (z_pendingUnprocessed zone) io (putUnprocessed array s)"

text \<open>
  Removing sessions runs in the global zone and writes to the database itself. A failure of \<open>removeSession\<close>
  is logged; nothing is removed then.
\<close>

definition removeSession :: "QualifiedAddress \<Rightarrow> unit js \<Rightarrow> ('r, 'k) store \<Rightarrow> ('r, 'k) store" where
  "removeSession address io s =
    (let key = qualifiedAddressToString address
     in case io of
          Inl _ \<Rightarrow> s
        | Inr _ \<Rightarrow> s\<lparr>st_db := (st_db s)\<lparr>db_sessions := js_del key (db_sessions (st_db s))\<rparr>,
            st_sessions := js_del key (st_sessions s),
            st_pending := (st_pending s)\<lparr>pe_sessions := js_del key (pe_sessions (st_pending s))\<rparr>\<rparr>)"

definition sessionIdsWhere :: "(SessionType \<Rightarrow> bool) \<Rightarrow> ('r, 'k) store \<Rightarrow> string list" where
  "sessionIdsWhere P s = map (se_id \<circ> ce_fromDB) (filter (\<lambda>e. P (ce_fromDB e)) (js_values (st_sessions s)))"

definition removeSessionsWhere :: "(SessionType \<Rightarrow> bool) \<Rightarrow> unit js \<Rightarrow> ('r, 'k) store \<Rightarrow> ('r, 'k) store \<times> unit js" where
  "removeSessionsWhere P io s =
    (let ids = sessionIdsWhere P s;
         s1 = s\<lparr>st_sessions := delAll ids (st_sessions s),
                st_pending := (st_pending s)\<lparr>pe_sessions := delAll ids (pe_sessions (st_pending s))\<rparr>\<rparr>
     in case io of
          Inl e \<Rightarrow> (s1, Inl e)
        | Inr _ \<Rightarrow> (s1\<lparr>st_db := (st_db s)\<lparr>db_sessions := filter (\<lambda>p. \<not> P (snd p)) (db_sessions (st_db s))\<rparr>\<rparr>, Inr ()))"

definition removeSessionsByServiceId :: "string \<Rightarrow> unit js \<Rightarrow> ('r, 'k) store \<Rightarrow> ('r, 'k) store \<times> unit js" where
  "removeSessionsByServiceId serviceId io s = removeSessionsWhere (\<lambda>e. se_serviceId e = serviceId) io s"

definition removeSessionsByConversation :: "string \<Rightarrow> unit js \<Rightarrow> ('r, 'k) store \<Rightarrow> ('r, 'k) store \<times> unit js" where
  "removeSessionsByConversation conversationId io s = removeSessionsWhere (\<lambda>e. se_conversationId e = conversationId) io s"

definition clearSessionStore :: "unit js \<Rightarrow> ('r, 'k) store \<Rightarrow> ('r, 'k) store \<times> unit js" where
  "clearSessionStore io s =
    (let s1 = s\<lparr>st_sessions := [], st_pending := (st_pending s)\<lparr>pe_sessions := []\<rparr>\<rparr>
     in case io of
          Inl e \<Rightarrow> (s1, Inl e)
        | Inr _ \<Rightarrow> (s1\<lparr>st_db := (st_db s)\<lparr>db_sessions := []\<rparr>\<rparr>, Inr ()))"

section \<open>Keys outside the zones\<close>

text \<open>
  These operations do not enter a zone. A key that is about to be removed is not found any more.
\<close>

definition loadPreKey :: "string \<Rightarrow> nat \<Rightarrow> ('r, 'k) store \<Rightarrow> PreKeyType option" where
  "loadPreKey ourServiceId keyId s =
    (let key = getKeyId ourServiceId keyId
     in if key \<in> set (pe_preKeysToRemove (st_pending s)) then None else js_get (st_preKeys s) key)"

definition loadKyberPreKey :: "string \<Rightarrow> nat \<Rightarrow> ('r, 'k) store \<Rightarrow> KyberPreKeyType option" where
  "loadKyberPreKey ourServiceId keyId s =
    (let key = getKeyId ourServiceId keyId
     in if key \<in> set (pe_kyberPreKeysToRemove (st_pending s)) then None else js_get (st_kyberPreKeys s) key)"

definition loadPreKeys :: "string \<Rightarrow> ('r, 'k) store \<Rightarrow> PreKeyType list" where
  "loadPreKeys ourServiceId s = filter (\<lambda>k. pre_ourServiceId k = ourServiceId) (js_values (st_preKeys s))"

definition loadKyberPreKeys :: "string \<Rightarrow> bool \<Rightarrow> ('r, 'k) store \<Rightarrow> KyberPreKeyType list" where
  "loadKyberPreKeys ourServiceId isLastResort s =
    filter (\<lambda>k. kp_ourServiceId k = ourServiceId \<and> kp_isLastResort k = isLastResort) (js_values (st_kyberPreKeys s))"

text \<open>
  New keys: an id that exists already is refused before anything is stored. The keys are given without
  their ids. \<open>bulkAdd\<close> inserts or replaces the rows.
\<close>

definition storePreKeys :: "string \<Rightarrow> (nat \<times> bytes) list \<Rightarrow> unit js \<Rightarrow> ('r, 'k) store \<Rightarrow> ('r, 'k) store \<times> unit js" where
  "storePreKeys ourServiceId keys io s =
    (if list_ex (\<lambda>(keyId, _). js_has (st_preKeys s) (getKeyId ourServiceId keyId)) keys
     then (s, throw ''storePreKeys: prekey already exists!'')
     else let toSave = map (\<lambda>(keyId, publicKey). (getKeyId ourServiceId keyId,
            \<lparr>pre_id = getKeyId ourServiceId keyId, pre_ourServiceId = ourServiceId, pre_keyId = keyId,
             pre_publicKey = publicKey\<rparr>)) keys
          in case io of
               Inl e \<Rightarrow> (s, Inl e)
             | Inr _ \<Rightarrow> (s\<lparr>st_db := (st_db s)\<lparr>db_preKeys := setAll toSave (db_preKeys (st_db s))\<rparr>,
                 st_preKeys := setAll toSave (st_preKeys s)\<rparr>, Inr ()))"

definition storeKyberPreKeys :: "string \<Rightarrow> (nat \<times> bytes \<times> bool \<times> bool) list \<Rightarrow> unit js \<Rightarrow> ('r, 'k) store \<Rightarrow>
    ('r, 'k) store \<times> unit js" where
  "storeKyberPreKeys ourServiceId keys io s =
    (if list_ex (\<lambda>(keyId, _). js_has (st_kyberPreKeys s) (getKeyId ourServiceId keyId)) keys
     then (s, throw ''storeKyberPreKey: kyber prekey already exists!'')
     else let toSave = map (\<lambda>(keyId, data, isConfirmed, isLastResort). (getKeyId ourServiceId keyId,
            \<lparr>kp_id = getKeyId ourServiceId keyId, kp_ourServiceId = ourServiceId, kp_keyId = keyId, kp_data = data,
             kp_isConfirmed = isConfirmed, kp_isLastResort = isLastResort\<rparr>)) keys
          in case io of
               Inl e \<Rightarrow> (s, Inl e)
             | Inr _ \<Rightarrow> (s\<lparr>st_db := (st_db s)\<lparr>db_kyberPreKeys := setAll toSave (db_kyberPreKeys (st_db s))\<rparr>,
                 st_kyberPreKeys := setAll toSave (st_kyberPreKeys s)\<rparr>, Inr ()))"

text \<open>The row is replaced, so the foreign key deletes its triples in the database.\<close>

definition confirmKyberPreKey :: "string \<Rightarrow> nat \<Rightarrow> unit js \<Rightarrow> ('r, 'k) store \<Rightarrow> ('r, 'k) store \<times> unit js" where
  "confirmKyberPreKey ourServiceId keyId io s =
    (let key = getKeyId ourServiceId keyId
     in case js_get (st_kyberPreKeys s) key of
          None \<Rightarrow> (s, throw ''confirmKyberPreKey: missing kyber prekey'')
        | Some item \<Rightarrow>
            (case io of
               Inl e \<Rightarrow> (s, Inl e)
             | Inr _ \<Rightarrow> let confirmed = item\<lparr>kp_isConfirmed := True\<rparr>
                 in (s\<lparr>st_db := (st_db s)\<lparr>db_kyberPreKeys := js_set (kp_id item) confirmed (db_kyberPreKeys (st_db s)),
                         db_kyberTriples := filter (\<lambda>t. kt_id t \<noteq> kp_id item) (db_kyberTriples (st_db s))\<rparr>,
                       st_kyberPreKeys := js_set key confirmed (st_kyberPreKeys s)\<rparr>, Inr ())))"

text \<open>A sender key that cannot be deserialized is logged and treated as missing.\<close>

definition getSenderKey :: "('r, 'k) LibSignal \<Rightarrow> QualifiedAddress \<Rightarrow> string \<Rightarrow> ('r, 'k) store \<Rightarrow>
    ('r, 'k) store \<times> 'k option" where
  "getSenderKey L address distributionId s =
    (let key = qualifiedAddressToString address @ ''--'' @ distributionId;
         entry = js_get (if js_has (pe_senderKeys (st_pending s)) key then pe_senderKeys (st_pending s)
           else st_senderKeys s) key
     in case entry of
          None \<Rightarrow> (s, None)
        | Some e \<Rightarrow>
            (case ce_item e of
               Some item \<Rightarrow> (s, Some item)
             | None \<Rightarrow>
                 (case deserializeSenderKey L (sk_data (ce_fromDB e)) of
                    Inl _ \<Rightarrow> (s, None)
                  | Inr item \<Rightarrow> (s\<lparr>st_senderKeys := js_set key (e\<lparr>ce_item := Some item\<rparr>) (st_senderKeys s)\<rparr>, Some item))))"

definition removeSenderKey :: "QualifiedAddress \<Rightarrow> string \<Rightarrow> unit js \<Rightarrow> ('r, 'k) store \<Rightarrow> ('r, 'k) store" where
  "removeSenderKey address distributionId io s =
    (let key = qualifiedAddressToString address @ ''--'' @ distributionId
     in case io of
          Inl _ \<Rightarrow> s
        | Inr _ \<Rightarrow> s\<lparr>st_db := (st_db s)\<lparr>db_senderKeys := js_del key (db_senderKeys (st_db s))\<rparr>,
            st_senderKeys := js_del key (st_senderKeys s)\<rparr>)"

definition removeAllSenderKeys :: "unit js \<Rightarrow> ('r, 'k) store \<Rightarrow> ('r, 'k) store \<times> unit js" where
  "removeAllSenderKeys io s =
    (let s1 = s\<lparr>st_senderKeys := [], st_pending := (st_pending s)\<lparr>pe_senderKeys := []\<rparr>\<rparr>
     in case io of
          Inl e \<Rightarrow> (s1, Inl e)
        | Inr _ \<Rightarrow> (s1\<lparr>st_db := (st_db s)\<lparr>db_senderKeys := []\<rparr>\<rparr>, Inr ()))"

section \<open>Archiving sessions\<close>

text \<open>\<open>_getAllSessions\<close>: the pending sessions hide the cached ones.\<close>

definition getAllSessions :: "('r, 'k) store \<Rightarrow> (SessionType, 'r) CacheEntryType list" where
  "getAllSessions s = js_values (setAll (pe_sessions (st_pending s)) (st_sessions s))"

definition entryAddress :: "SessionType \<Rightarrow> QualifiedAddress" where
  "entryAddress e = \<lparr>qa_ourServiceId = se_ourServiceId e, qa_serviceId = se_serviceId e, qa_deviceId = se_deviceId e\<rparr>"

definition entryRecord :: "('r, 'k) LibSignal \<Rightarrow> (SessionType, 'r) CacheEntryType \<Rightarrow> 'r js" where
  "entryRecord L e = (case ce_item e of Some r \<Rightarrow> Inr r | None \<Rightarrow> deserializeSession L (se_record (ce_fromDB e)))"

text \<open>
  \<open>archiveCurrentState\<close> changes the record itself: if it is the hydrated record of the cache, the cache has
  the archived record even before the session is stored.
\<close>

definition archivePut :: "('r, 'k) LibSignal \<Rightarrow> (string \<Rightarrow> string) \<Rightarrow> (SessionType, 'r) CacheEntryType \<Rightarrow>
    ('r, 'k) store \<Rightarrow> ('r, 'k) store option js" where
  "archivePut L conversationOf entry s =
    bindE (entryRecord L entry) (\<lambda>item.
      if \<not> hasCurrentState L item then Inr None
      else let item' = archiveCurrentState L item; key = se_id (ce_fromDB entry);
               s1 = (if ce_item entry \<noteq> None \<and> \<not> js_has (pe_sessions (st_pending s)) key
                     then s\<lparr>st_sessions := js_set key (entry\<lparr>ce_item := Some item'\<rparr>) (st_sessions s)\<rparr> else s)
           in Inr (Some (putSession L conversationOf (entryAddress (ce_fromDB entry)) item' s1)))"

definition archiveEntry :: "('r, 'k) LibSignal \<Rightarrow> (string \<Rightarrow> string) \<Rightarrow> Zone \<Rightarrow> unit js \<Rightarrow> (SessionType, 'r) CacheEntryType \<Rightarrow>
    ('r, 'k) store \<Rightarrow> ('r, 'k) store \<times> unit js" where
  "archiveEntry L conversationOf zone io entry s =
    (case archivePut L conversationOf entry s of
       Inl e \<Rightarrow> (s, Inl e)
     | Inr None \<Rightarrow> (s, Inr ())
     | Inr (Some s1) \<Rightarrow> commitUnless (z_pendingSessions zone) io s1)"

text \<open>The entry of a session; a pending one hides the cached one.\<close>

definition sessionEntry :: "string \<Rightarrow> ('r, 'k) store \<Rightarrow> (SessionType, 'r) CacheEntryType option" where
  "sessionEntry key s =
    (case js_get (pe_sessions (st_pending s)) key of Some e \<Rightarrow> Some e | None \<Rightarrow> js_get (st_sessions s) key)"

definition andThen :: "('s \<Rightarrow> 's \<times> unit js) \<Rightarrow> 's \<times> unit js \<Rightarrow> 's \<times> unit js" where
  "andThen f r = (case r of (s, Inl e) \<Rightarrow> (s, Inl e) | (s, Inr _) \<Rightarrow> f s)"

definition archiveEntries :: "('r, 'k) LibSignal \<Rightarrow> (string \<Rightarrow> string) \<Rightarrow> Zone \<Rightarrow> unit js \<Rightarrow>
    (SessionType, 'r) CacheEntryType list \<Rightarrow> ('r, 'k) store \<Rightarrow> ('r, 'k) store \<times> unit js" where
  "archiveEntries L conversationOf zone io entries s =
    fold (\<lambda>e. andThen (archiveEntry L conversationOf zone io e)) entries (s, Inr ())"

definition archiveSession :: "('r, 'k) LibSignal \<Rightarrow> (string \<Rightarrow> string) \<Rightarrow> QualifiedAddress \<Rightarrow> unit js \<Rightarrow>
    ('r, 'k) store \<Rightarrow> ('r, 'k) store \<times> unit js" where
  "archiveSession L conversationOf address io s =
    (case sessionEntry (qualifiedAddressToString address) s of
       None \<Rightarrow> (s, Inr ())
     | Some e \<Rightarrow> archiveEntry L conversationOf GLOBAL_ZONE io e s)"

definition archiveSiblingSessions :: "('r, 'k) LibSignal \<Rightarrow> (string \<Rightarrow> string) \<Rightarrow> string \<Rightarrow> nat \<Rightarrow> Zone \<Rightarrow> unit js \<Rightarrow>
    ('r, 'k) store \<Rightarrow> ('r, 'k) store \<times> unit js" where
  "archiveSiblingSessions L conversationOf serviceId deviceId zone io s =
    archiveEntries L conversationOf zone io
      (filter (\<lambda>e. se_serviceId (ce_fromDB e) = serviceId \<and> se_deviceId (ce_fromDB e) \<noteq> deviceId) (getAllSessions s)) s"

definition archiveAllSessions :: "('r, 'k) LibSignal \<Rightarrow> (string \<Rightarrow> string) \<Rightarrow> string \<Rightarrow> unit js \<Rightarrow>
    ('r, 'k) store \<Rightarrow> ('r, 'k) store \<times> unit js" where
  "archiveAllSessions L conversationOf serviceId io s =
    archiveEntries L conversationOf GLOBAL_ZONE io
      (filter (\<lambda>e. se_serviceId (ce_fromDB e) = serviceId) (getAllSessions s)) s"

section \<open>Devices\<close>

record DeviceType =
  de_serviceId :: string
  de_id :: nat
  de_registrationId :: nat

definition openDevice :: "('r, 'k) LibSignal \<Rightarrow> (SessionType, 'r) CacheEntryType \<Rightarrow> DeviceType option js" where
  "openDevice L entry =
    bindE (entryRecord L entry) (\<lambda>record.
      Inr (if hasCurrentState L record
        then Some \<lparr>de_serviceId = se_serviceId (ce_fromDB entry), de_id = se_deviceId (ce_fromDB entry),
             de_registrationId = remoteRegistrationId L record\<rparr>
        else None))"

text \<open>The open sessions with the given users, and the users without one.\<close>

definition getOpenDevices :: "('r, 'k) LibSignal \<Rightarrow> string \<Rightarrow> string list \<Rightarrow> ('r, 'k) store \<Rightarrow>
    (DeviceType list \<times> string list) js" where
  "getOpenDevices L ourServiceId serviceIds s =
    (if serviceIds = [] then Inr ([], [])
     else bindE (mapE (openDevice L) (filter (\<lambda>e. se_ourServiceId (ce_fromDB e) = ourServiceId \<and>
            se_serviceId (ce_fromDB e) \<in> set serviceIds) (getAllSessions s))) (\<lambda>found.
          let devices = List.map_filter (\<lambda>d. d) found
          in Inr (devices, filter (\<lambda>u. u \<notin> de_serviceId ` set devices) (remdups serviceIds))))"

definition getDeviceIds :: "('r, 'k) LibSignal \<Rightarrow> string \<Rightarrow> string \<Rightarrow> ('r, 'k) store \<Rightarrow> nat list js" where
  "getDeviceIds L ourServiceId serviceId s =
    bindE (getOpenDevices L ourServiceId [serviceId] s) (\<lambda>(devices, _). Inr (map de_id devices))"

definition hasSessionWith :: "string \<Rightarrow> ('r, 'k) store \<Rightarrow> bool" where
  "hasSessionWith serviceId s = list_ex (\<lambda>e. se_serviceId (ce_fromDB e) = serviceId) (getAllSessions s)"

end
