(* ===== verification/Identity_Keys.thy ===== *)
theory Identity_Keys
  imports Session_Store
begin

text \<open>
  The identity keys of the protocol store (ts/SignalProtocolStore.preload.ts): which key we know of a
  contact, how far it is verified, and whether messages may be sent to it. The operations run on a queue
  per contact, so each is one step here; a step has the state and the value or the error of the call.
  Identity_Safety has the properties.
\<close>

section \<open>Records\<close>

abbreviation VerifiedStatus_DEFAULT :: int where "VerifiedStatus_DEFAULT \<equiv> 0"
abbreviation VerifiedStatus_VERIFIED :: int where "VerifiedStatus_VERIFIED \<equiv> 1"
abbreviation VerifiedStatus_UNVERIFIED :: int where "VerifiedStatus_UNVERIFIED \<equiv> 2"

definition TIMESTAMP_THRESHOLD :: int where
  "TIMESTAMP_THRESHOLD = 5 * 1000"

definition validateVerifiedStatus :: "int \<Rightarrow> bool" where
  "validateVerifiedStatus status =
    (status = VerifiedStatus_DEFAULT \<or> status = VerifiedStatus_VERIFIED \<or> status = VerifiedStatus_UNVERIFIED)"

record IdentityKeyType =
  ik_id :: string
  ik_publicKey :: bytes
  ik_firstUse :: bool
  ik_timestamp :: int
  ik_verified :: int
  ik_nonblockingApproval :: bool

text \<open>A part of a record, as \<open>Partial\<close> has it.\<close>

record IdentityAttributes =
  at_publicKey :: "bytes option"
  at_firstUse :: "bool option"
  at_timestamp :: "int option"
  at_verified :: "int option"
  at_nonblockingApproval :: "bool option"

text \<open>The schema; an attribute that is missing does not match it.\<close>

definition validateIdentityKey :: "string \<Rightarrow> IdentityAttributes \<Rightarrow> IdentityKeyType js" where
  "validateIdentityKey key a =
    (case (at_publicKey a, at_firstUse a, at_timestamp a, at_verified a, at_nonblockingApproval a) of
       (Some publicKey, Some firstUse, Some timestamp, Some verified, Some approval) \<Rightarrow>
         if timestamp > 0 \<and> validateVerifiedStatus verified
         then Inr \<lparr>ik_id = key, ik_publicKey = publicKey, ik_firstUse = firstUse, ik_timestamp = timestamp,
           ik_verified = verified, ik_nonblockingApproval = approval\<rparr>
         else throw ''ZodError''
     | _ \<Rightarrow> throw ''ZodError'')"

definition attributesOf :: "IdentityKeyType \<Rightarrow> IdentityAttributes" where
  "attributesOf r =
    \<lparr>at_publicKey = Some (ik_publicKey r), at_firstUse = Some (ik_firstUse r), at_timestamp = Some (ik_timestamp r),
     at_verified = Some (ik_verified r), at_nonblockingApproval = Some (ik_nonblockingApproval r)\<rparr>"

definition noAttributes :: IdentityAttributes where
  "noAttributes = \<lparr>at_publicKey = None, at_firstUse = None, at_timestamp = None, at_verified = None, at_nonblockingApproval = None\<rparr>"

definition orElse :: "'a option \<Rightarrow> 'a option \<Rightarrow> 'a option" where
  "orElse a b = (case a of Some x \<Rightarrow> Some x | None \<Rightarrow> b)"

text \<open>The spread \<open>{...a, ...b}\<close>.\<close>

definition spread :: "IdentityAttributes \<Rightarrow> IdentityAttributes \<Rightarrow> IdentityAttributes" where
  "spread a b =
    \<lparr>at_publicKey = orElse (at_publicKey b) (at_publicKey a), at_firstUse = orElse (at_firstUse b) (at_firstUse a),
     at_timestamp = orElse (at_timestamp b) (at_timestamp a), at_verified = orElse (at_verified b) (at_verified a),
     at_nonblockingApproval = orElse (at_nonblockingApproval b) (at_nonblockingApproval a)\<rparr>"

section \<open>State\<close>

text \<open>What the operations use of a conversation; the previous identity key is kept decoded.\<close>

record IdentityConversation =
  ic_id :: string
  ic_previousIdentityKey :: "bytes option"

record IdentityEnv =
  ie_ourAci :: string
  ie_ourPni :: "string option"
  ie_now :: int
  ie_newConversationId :: "string \<Rightarrow> string"
  ie_conversationOf :: "string \<Rightarrow> string"

record ('r, 'k) identity_state =
  is_keys :: "(string, IdentityKeyType) jsmap"
  is_db :: "(string, IdentityKeyType) jsmap"
  is_conversations :: "(string, IdentityConversation) jsmap"
  is_keychanges :: "(string \<times> string) list"
  is_store :: "('r, 'k) store"

datatype IdentityChange = NewOrUnchanged | ReplacedExisting

datatype OurServiceIdKind = OurACI | OurPNI | UnknownKind

definition getOurServiceIdKind :: "IdentityEnv \<Rightarrow> string \<Rightarrow> OurServiceIdKind" where
  "getOurServiceIdKind E serviceId =
    (if ie_ourAci E = serviceId then OurACI
     else if ie_ourPni E = Some serviceId then OurPNI else UnknownKind)"

definition isOurServiceId :: "IdentityEnv \<Rightarrow> string \<Rightarrow> bool" where
  "isOurServiceId E serviceId = (getOurServiceIdKind E serviceId \<noteq> UnknownKind)"

definition isMoreRecentThan :: "int \<Rightarrow> int \<Rightarrow> int \<Rightarrow> bool" where
  "isMoreRecentThan now timestamp delta = (timestamp > now - delta)"

section \<open>Reading records\<close>

definition getIdentityRecord :: "string \<Rightarrow> ('r, 'k) identity_state \<Rightarrow> IdentityKeyType option" where
  "getIdentityRecord serviceId s = js_get (is_keys s) serviceId"

text \<open>The database is written before the cache; \<open>io\<close> is the outcome of the database.\<close>

definition saveIdentityKey :: "unit js \<Rightarrow> IdentityKeyType \<Rightarrow> ('r, 'k) identity_state \<Rightarrow> ('r, 'k) identity_state \<times> unit js" where
  "saveIdentityKey io data s =
    (case io of
       Inl e \<Rightarrow> (s, Inl e)
     | Inr _ \<Rightarrow>
         if ik_id data = [] then (s, throw ''createOrUpdate: Provided data did not have a truthy id'')
         else (s\<lparr>is_db := js_set (ik_id data) data (is_db s), is_keys := js_set (ik_id data) data (is_keys s)\<rparr>, Inr ()))"

text \<open>A record that is stored for a conversation moves to the contact.\<close>

definition conversationKey :: "string \<Rightarrow> string" where
  "conversationKey conversationId = ''conversation:'' @ conversationId"

definition getOrMigrateIdentityRecord :: "unit js \<Rightarrow> string \<Rightarrow> ('r, 'k) identity_state \<Rightarrow>
    ('r, 'k) identity_state \<times> IdentityKeyType option js" where
  "getOrMigrateIdentityRecord io serviceId s =
    (case getIdentityRecord serviceId s of
       Some record \<Rightarrow> (s, Inr (Some record))
     | None \<Rightarrow>
         (case js_get (is_conversations s) serviceId of
            None \<Rightarrow> (s, Inr None)
          | Some conversation \<Rightarrow>
              (case js_get (is_keys s) (conversationKey (ic_id conversation)) of
                 None \<Rightarrow> (s, Inr None)
               | Some record \<Rightarrow>
                   let newRecord = record\<lparr>ik_id := serviceId\<rparr>
                   in bindS (saveIdentityKey io newRecord s) (\<lambda>_ s1.
                      (s1\<lparr>is_keys := js_del (ik_id record) (is_keys s1), is_db := js_del (ik_id record) (is_db s1)\<rparr>,
                       Inr (Some newRecord))))))"

definition loadIdentityKey :: "unit js \<Rightarrow> string \<Rightarrow> ('r, 'k) identity_state \<Rightarrow> ('r, 'k) identity_state \<times> bytes option js" where
  "loadIdentityKey io serviceId s =
    bindS (getOrMigrateIdentityRecord io serviceId s) (\<lambda>record s1. (s1, Inr (map_option ik_publicKey record)))"

section \<open>Trust\<close>

definition isNonBlockingApprovalRequired :: "int \<Rightarrow> IdentityKeyType \<Rightarrow> bool" where
  "isNonBlockingApprovalRequired now record =
    (\<not> ik_firstUse record \<and> isMoreRecentThan now (ik_timestamp record) TIMESTAMP_THRESHOLD \<and>
     \<not> ik_nonblockingApproval record)"

text \<open>The key that is saved on a conversation; an empty one is falsy.\<close>

definition previousIdentityKey :: "string \<Rightarrow> ('r, 'k) identity_state \<Rightarrow> bytes option" where
  "previousIdentityKey serviceId s =
    (case js_get (is_conversations s) serviceId of
       None \<Rightarrow> None
     | Some conversation \<Rightarrow> (if ic_previousIdentityKey conversation = Some [] then None
         else ic_previousIdentityKey conversation))"

definition isTrustedForSending :: "int \<Rightarrow> string \<Rightarrow> bytes \<Rightarrow> IdentityKeyType option \<Rightarrow> ('r, 'k) identity_state \<Rightarrow> bool" where
  "isTrustedForSending now serviceId publicKey identityRecord s =
    (case identityRecord of
       None \<Rightarrow> (case previousIdentityKey serviceId s of Some previous \<Rightarrow> previous = publicKey | None \<Rightarrow> True)
     | Some record \<Rightarrow>
         if ik_publicKey record \<noteq> publicKey then False
         else if ik_verified record = VerifiedStatus_UNVERIFIED then False
         else \<not> isNonBlockingApprovalRequired now record)"

datatype Direction = Sending | Receiving

definition isTrustedIdentity :: "IdentityEnv \<Rightarrow> unit js \<Rightarrow> string \<Rightarrow> bytes \<Rightarrow> Direction \<Rightarrow> ('r, 'k) identity_state \<Rightarrow>
    ('r, 'k) identity_state \<times> bool js" where
  "isTrustedIdentity E io serviceId publicKey direction s =
    bindS (getOrMigrateIdentityRecord io serviceId s) (\<lambda>identityRecord s1.
      (s1, Inr (if isOurServiceId E serviceId
                then (case identityRecord of Some record \<Rightarrow> ik_publicKey record = publicKey | None \<Rightarrow> True)
                else (case direction of
                        Sending \<Rightarrow> isTrustedForSending (ie_now E) serviceId publicKey identityRecord s1
                      | Receiving \<Rightarrow> True))))"

definition isUntrusted :: "int \<Rightarrow> int \<Rightarrow> string \<Rightarrow> ('r, 'k) identity_state \<Rightarrow> bool js" where
  "isUntrusted now timestampThreshold serviceId s =
    (case getIdentityRecord serviceId s of
       None \<Rightarrow> throw ''isUntrusted: No identity record''
     | Some record \<Rightarrow> Inr (isMoreRecentThan now (ik_timestamp record) timestampThreshold \<and>
         \<not> ik_nonblockingApproval record \<and> \<not> ik_firstUse record))"

section \<open>Saving keys\<close>

definition emitKeychange :: "string \<Rightarrow> string \<Rightarrow> ('r, 'k) identity_state \<Rightarrow> ('r, 'k) identity_state" where
  "emitKeychange serviceId reason s = s\<lparr>is_keychanges := is_keychanges s @ [(serviceId, reason)]\<rparr>"

definition checkPreviousKey :: "string \<Rightarrow> bytes \<Rightarrow> string \<Rightarrow> ('r, 'k) identity_state \<Rightarrow> ('r, 'k) identity_state" where
  "checkPreviousKey serviceId publicKey ctxt s =
    (case js_get (is_conversations s) serviceId of
       None \<Rightarrow> s
     | Some conversation \<Rightarrow>
         (case previousIdentityKey serviceId s of
            None \<Rightarrow> s
          | Some previous \<Rightarrow>
              let s1 = (if previous \<noteq> publicKey
                        then emitKeychange serviceId (ctxt @ '' - previousIdentityKey check'') s else s)
              in s1\<lparr>is_conversations :=
                   js_set serviceId (conversation\<lparr>ic_previousIdentityKey := None\<rparr>) (is_conversations s1)\<rparr>))"

text \<open>A record of the cache is changed in place before it is saved.\<close>

definition approveAndSave :: "unit js \<Rightarrow> string \<Rightarrow> IdentityKeyType \<Rightarrow> bool \<Rightarrow> ('r, 'k) identity_state \<Rightarrow>
    ('r, 'k) identity_state \<times> unit js" where
  "approveAndSave io serviceId record approval s =
    (let record' = record\<lparr>ik_nonblockingApproval := approval\<rparr>
     in saveIdentityKey io record' (s\<lparr>is_keys := js_set serviceId record' (is_keys s)\<rparr>))"

definition archiveSiblings :: "('r, 'k) LibSignal \<Rightarrow> IdentityEnv \<Rightarrow> string \<Rightarrow> nat \<Rightarrow> Zone \<Rightarrow> unit js \<Rightarrow>
    ('r, 'k) identity_state \<Rightarrow> ('r, 'k) identity_state \<times> unit js" where
  "archiveSiblings L E serviceId deviceId zone io s =
    (case archiveSiblingSessions L (ie_conversationOf E) serviceId deviceId zone io (is_store s) of
       (store, r) \<Rightarrow> (s\<lparr>is_store := store\<rparr>, r))"

definition statusAfterChange :: "int \<Rightarrow> int" where
  "statusAfterChange previousStatus =
    (if previousStatus = VerifiedStatus_VERIFIED \<or> previousStatus = VerifiedStatus_UNVERIFIED
     then VerifiedStatus_UNVERIFIED else VerifiedStatus_DEFAULT)"

text \<open>The branches of \<open>saveIdentity\<close>: a first key, a changed key, and the same key again.\<close>

definition saveNewIdentity :: "IdentityEnv \<Rightarrow> unit js \<Rightarrow> string \<Rightarrow> bytes \<Rightarrow> bool \<Rightarrow> ('r, 'k) identity_state \<Rightarrow>
    ('r, 'k) identity_state \<times> IdentityChange js" where
  "saveNewIdentity E io serviceId publicKey nonblockingApproval s =
    bindS (saveIdentityKey io
        \<lparr>ik_id = serviceId, ik_publicKey = publicKey, ik_firstUse = True, ik_timestamp = ie_now E,
         ik_verified = VerifiedStatus_DEFAULT, ik_nonblockingApproval = nonblockingApproval\<rparr> s)
      (\<lambda>_ s1. (checkPreviousKey serviceId publicKey ''saveIdentity'' s1, Inr NewOrUnchanged))"

definition replaceIdentity :: "('r, 'k) LibSignal \<Rightarrow> IdentityEnv \<Rightarrow> unit js \<Rightarrow> string \<Rightarrow> nat \<Rightarrow> bytes \<Rightarrow> bool \<Rightarrow> Zone \<Rightarrow>
    IdentityKeyType \<Rightarrow> ('r, 'k) identity_state \<Rightarrow> ('r, 'k) identity_state \<times> IdentityChange js" where
  "replaceIdentity L E io serviceId deviceId publicKey nonblockingApproval zone identityRecord s =
    bindS (saveIdentityKey io
        \<lparr>ik_id = serviceId, ik_publicKey = publicKey, ik_firstUse = False, ik_timestamp = ie_now E,
         ik_verified = statusAfterChange (ik_verified identityRecord), ik_nonblockingApproval = nonblockingApproval\<rparr> s)
      (\<lambda>_ s1. bindS (archiveSiblings L E serviceId deviceId zone io (emitKeychange serviceId ''saveIdentity - change'' s1))
        (\<lambda>_ s2. (s2, Inr ReplacedExisting)))"

definition saveIdentity :: "('r, 'k) LibSignal \<Rightarrow> IdentityEnv \<Rightarrow> unit js \<Rightarrow> string \<Rightarrow> nat \<Rightarrow> bytes \<Rightarrow> bool \<Rightarrow> Zone \<Rightarrow> bool \<Rightarrow>
    ('r, 'k) identity_state \<Rightarrow> ('r, 'k) identity_state \<times> IdentityChange js" where
  "saveIdentity L E io serviceId deviceId publicKey nonblockingApproval zone noOverwrite s =
    (if publicKey = [] then (s, throw ''Empty public key'')
     else bindS (getOrMigrateIdentityRecord io serviceId s) (\<lambda>record s1.
       case record of
         None \<Rightarrow> saveNewIdentity E io serviceId publicKey nonblockingApproval s1
       | Some identityRecord \<Rightarrow>
           if noOverwrite then (s1, Inr NewOrUnchanged)
           else if ik_publicKey identityRecord \<noteq> publicKey
           then (if isOurServiceId E serviceId then (s1, Inr NewOrUnchanged)
                 else replaceIdentity L E io serviceId deviceId publicKey nonblockingApproval zone identityRecord s1)
           else if isNonBlockingApprovalRequired (ie_now E) identityRecord
           then bindS (approveAndSave io serviceId identityRecord nonblockingApproval s1)
             (\<lambda>_ s2. (s2, Inr NewOrUnchanged))
           else (s1, Inr NewOrUnchanged)))"

text \<open>A contact gets a conversation; our own phone number identity does not.\<close>

definition ensureConversation :: "IdentityEnv \<Rightarrow> string \<Rightarrow> ('r, 'k) identity_state \<Rightarrow> ('r, 'k) identity_state" where
  "ensureConversation E serviceId s =
    (if getOurServiceIdKind E serviceId = OurPNI \<or> js_has (is_conversations s) serviceId then s
     else s\<lparr>is_conversations := js_set serviceId
       \<lparr>ic_id = ie_newConversationId E serviceId, ic_previousIdentityKey = None\<rparr> (is_conversations s)\<rparr>)"

definition saveIdentityWithAttributes :: "IdentityEnv \<Rightarrow> unit js \<Rightarrow> string \<Rightarrow> IdentityAttributes \<Rightarrow>
    ('r, 'k) identity_state \<Rightarrow> ('r, 'k) identity_state \<times> unit js" where
  "saveIdentityWithAttributes E io serviceId attributes s =
    bindS (getOrMigrateIdentityRecord io serviceId s) (\<lambda>record s1.
      let s2 = ensureConversation E serviceId s1;
          updates = spread (case record of Some r \<Rightarrow> attributesOf r | None \<Rightarrow> noAttributes) attributes
      in case validateIdentityKey serviceId updates of
           Inl e \<Rightarrow> (s2, Inl e)
         | Inr data \<Rightarrow> saveIdentityKey io data s2)"

section \<open>Approval and verification\<close>

definition setApproval :: "unit js \<Rightarrow> string \<Rightarrow> bool \<Rightarrow> ('r, 'k) identity_state \<Rightarrow> ('r, 'k) identity_state \<times> unit js" where
  "setApproval io serviceId nonblockingApproval s =
    bindS (getOrMigrateIdentityRecord io serviceId s) (\<lambda>record s1.
      case record of
        None \<Rightarrow> (s1, throw ''setApproval: No identity record'')
      | Some identityRecord \<Rightarrow> approveAndSave io serviceId identityRecord nonblockingApproval s1)"

definition setVerified :: "unit js \<Rightarrow> string \<Rightarrow> int \<Rightarrow> IdentityAttributes \<Rightarrow> ('r, 'k) identity_state \<Rightarrow>
    ('r, 'k) identity_state \<times> unit js" where
  "setVerified io serviceId verifiedStatus extra s =
    (if \<not> validateVerifiedStatus verifiedStatus then (s, throw ''setVerified: Invalid verified status'')
     else bindS (getOrMigrateIdentityRecord io serviceId s) (\<lambda>record s1.
       case record of
         None \<Rightarrow> (s1, throw ''setVerified: No identity record'')
       | Some identityRecord \<Rightarrow>
           (case validateIdentityKey (ik_id identityRecord) (attributesOf identityRecord) of
              Inl e \<Rightarrow> (s1, Inl e)
            | Inr r \<Rightarrow> saveIdentityKey io
                (r\<lparr>ik_firstUse := nullish (at_firstUse extra) (ik_firstUse r),
                   ik_nonblockingApproval := nullish (at_nonblockingApproval extra) (ik_nonblockingApproval r),
                   ik_verified := verifiedStatus\<rparr>) s1)))"

definition getVerified :: "unit js \<Rightarrow> string \<Rightarrow> ('r, 'k) identity_state \<Rightarrow> ('r, 'k) identity_state \<times> int js" where
  "getVerified io serviceId s =
    bindS (getOrMigrateIdentityRecord io serviceId s) (\<lambda>record s1.
      (s1, case record of
             None \<Rightarrow> throw ''getVerified: No identity record''
           | Some r \<Rightarrow> Inr (if validateVerifiedStatus (ik_verified r) then ik_verified r else VerifiedStatus_DEFAULT)))"

text \<open>A status that another of our devices tells; the result is \<open>shouldAddVerifiedChangedMessage\<close>.\<close>

definition syncAttributes :: "IdentityEnv \<Rightarrow> bytes \<Rightarrow> int \<Rightarrow> bool \<Rightarrow> IdentityAttributes" where
  "syncAttributes E publicKey verifiedStatus hadEntry =
    \<lparr>at_publicKey = Some publicKey, at_firstUse = Some (\<not> hadEntry), at_timestamp = Some (ie_now E),
     at_verified = Some verifiedStatus, at_nonblockingApproval = Some True\<rparr>"

definition shouldAddVerifiedChangedMessage :: "int \<Rightarrow> bytes \<Rightarrow> IdentityKeyType option \<Rightarrow> bool" where
  "shouldAddVerifiedChangedMessage verifiedStatus publicKey record =
    (let keyMatches = (case record of Some r \<Rightarrow> ik_publicKey r = publicKey | None \<Rightarrow> False);
         wasVerified = (case record of Some r \<Rightarrow> ik_verified r = VerifiedStatus_VERIFIED | None \<Rightarrow> False)
     in if record \<noteq> None \<and> \<not> keyMatches then False
        else if verifiedStatus = VerifiedStatus_VERIFIED then \<not> wasVerified
        else wasVerified)"

definition updateIdentityAfterSync :: "IdentityEnv \<Rightarrow> unit js \<Rightarrow> string \<Rightarrow> int \<Rightarrow> bytes \<Rightarrow> ('r, 'k) identity_state \<Rightarrow>
    ('r, 'k) identity_state \<times> bool js" where
  "updateIdentityAfterSync E io serviceId verifiedStatus publicKey s =
    (if \<not> validateVerifiedStatus verifiedStatus then (s, throw ''Invalid verified status'')
     else bindS (getOrMigrateIdentityRecord io serviceId s) (\<lambda>record s1.
       let hadEntry = (record \<noteq> None);
           keyMatches = (case record of Some r \<Rightarrow> ik_publicKey r = publicKey | None \<Rightarrow> False);
           statusMatches = (keyMatches \<and> map_option ik_verified record = Some verifiedStatus)
       in bindS (if \<not> keyMatches \<or> \<not> statusMatches
                 then saveIdentityWithAttributes E io serviceId (syncAttributes E publicKey verifiedStatus hadEntry) s1
                 else (s1, Inr ()))
            (\<lambda>_ s2. (if \<not> hadEntry then checkPreviousKey serviceId publicKey ''updateIdentityAfterSync'' s2
                     else if \<not> keyMatches then emitKeychange serviceId ''updateIdentityAfterSync - change'' s2 else s2,
               Inr (shouldAddVerifiedChangedMessage verifiedStatus publicKey record)))))"

text \<open>The cached record is removed before the database is asked.\<close>

definition removeIdentityKey :: "unit js \<Rightarrow> string \<Rightarrow> ('r, 'k) identity_state \<Rightarrow> ('r, 'k) identity_state \<times> unit js" where
  "removeIdentityKey io serviceId s =
    (let s1 = s\<lparr>is_keys := js_del serviceId (is_keys s)\<rparr>
     in case io of
          Inl e \<Rightarrow> (s1, Inl e)
        | Inr _ \<Rightarrow> (case removeSessionsByServiceId serviceId io (is_store s) of
            (store, r) \<Rightarrow> (s1\<lparr>is_db := js_del serviceId (is_db s), is_store := store\<rparr>, r)))"

end
