(* ===== verification/Session_Zones.thy ===== *)
theory Session_Zones
  imports Session_Store
begin

text \<open>
  Calls of the protocol store that run at the same time (\<open>withZone\<close> of
  ts/SignalProtocolStore.preload.ts). A configuration is the store with the calls that have entered their
  zone; an event lets a call enter or wait, do one of its operations, end, or hear from the database. The
  runs of the store are the lists of events.

  The lemmas show that two zones never overlap, that a call that waits is let in, and where calls whose
  database write fails or takes time break that.
\<close>

section \<open>Operations of a call\<close>

datatype ('r, 'k) action =
    StoreSession QualifiedAddress 'r
  | LoadSession QualifiedAddress
  | ArchiveEntry string
  | SaveSenderKey int QualifiedAddress string 'k
  | GetSenderKey QualifiedAddress string
  | RemovePreKeys "string list"
  | RemoveKyberPreKeys "string list"
  | MarkKyberTriple KyberPreKeyTripleType
  | AddUnprocessed "UnprocessedType list"

text \<open>The part of an operation before it writes to the database, and whether it has something to write.\<close>

definition perform :: "('r, 'k) LibSignal \<Rightarrow> (string \<Rightarrow> string) \<Rightarrow> ('r, 'k) action \<Rightarrow> ('r, 'k) store \<Rightarrow>
    (('r, 'k) store \<times> bool) js" where
  "perform L conversationOf a s =
    (case a of
       StoreSession address record \<Rightarrow> Inr (putSession L conversationOf address record s, True)
     | LoadSession address \<Rightarrow> Inr (fst (loadSession L address s), False)
     | ArchiveEntry key \<Rightarrow>
         (case sessionEntry key s of
            None \<Rightarrow> Inr (s, False)
          | Some entry \<Rightarrow> bindE (archivePut L conversationOf entry s) (\<lambda>r.
              Inr (case r of None \<Rightarrow> (s, False) | Some s1 \<Rightarrow> (s1, True))))
     | SaveSenderKey now address distributionId record \<Rightarrow>
         Inr (putSenderKey L now address distributionId record s, True)
     | GetSenderKey address distributionId \<Rightarrow> Inr (fst (getSenderKey L address distributionId s), False)
     | RemovePreKeys ids \<Rightarrow> Inr (putPreKeysToRemove ids s, True)
     | RemoveKyberPreKeys ids \<Rightarrow> Inr (putKyberPreKeysToRemove ids s, True)
     | MarkKyberTriple triple \<Rightarrow> bindE (putKyberTriple triple s) (\<lambda>s1. Inr (s1, True))
     | AddUnprocessed array \<Rightarrow> Inr (putUnprocessed array s, True))"

definition collects :: "Zone \<Rightarrow> ('r, 'k) action \<Rightarrow> bool" where
  "collects zone a =
    (case a of
       StoreSession _ _ \<Rightarrow> z_pendingSessions zone
     | LoadSession _ \<Rightarrow> True
     | ArchiveEntry _ \<Rightarrow> z_pendingSessions zone
     | SaveSenderKey _ _ _ _ \<Rightarrow> z_pendingSenderKeys zone
     | GetSenderKey _ _ \<Rightarrow> True
     | RemovePreKeys _ \<Rightarrow> z_pendingPreKeysToRemove zone
     | RemoveKyberPreKeys _ \<Rightarrow> z_pendingKyberPreKeysToRemove zone
     | MarkKyberTriple _ \<Rightarrow> z_pendingKyberPreKeysToRemove zone
     | AddUnprocessed _ \<Rightarrow> z_pendingUnprocessed zone)"

text \<open>Operations of the global zone that write to the database themselves; here their write succeeds.\<close>

datatype removal =
    RemoveSession QualifiedAddress
  | RemoveSessionsByServiceId string
  | RemoveSessionsByConversation string
  | ClearSessionStore
  | RemoveAllSenderKeys

definition erase :: "removal \<Rightarrow> ('r, 'k) store \<Rightarrow> ('r, 'k) store" where
  "erase r s =
    (case r of
       RemoveSession address \<Rightarrow> removeSession address (Inr ()) s
     | RemoveSessionsByServiceId serviceId \<Rightarrow> fst (removeSessionsByServiceId serviceId (Inr ()) s)
     | RemoveSessionsByConversation conversationId \<Rightarrow> fst (removeSessionsByConversation conversationId (Inr ()) s)
     | ClearSessionStore \<Rightarrow> fst (clearSessionStore (Inr ()) s)
     | RemoveAllSenderKeys \<Rightarrow> fst (removeAllSenderKeys (Inr ()) s))"

section \<open>Runs\<close>

text \<open>
  A call runs its body, waits for the write of a commit (\<open>Writing p ended\<close>: of its end, or of one of its
  operations), or is a call whose commit at its end was refused: \<open>withZone\<close> throws then without
  leaving the zone.
\<close>

datatype ('r, 'k) phase = Running | Writing "('r, 'k) pending" bool | Threw

record ('r, 'k) conf =
  cf_store :: "('r, 'k) store"
  cf_calls :: "(nat, Zone \<times> ('r, 'k) phase) jsmap"

datatype ('r, 'k) event =
    Enter Zone nat
  | Act nat "('r, 'k) action"
  | Erase nat removal
  | EndBody nat bool
  | Written nat "unit js"

definition waiting :: "('r, 'k) conf \<Rightarrow> nat list" where
  "waiting c = map snd (st_zoneQueue (cf_store c))"

definition setPhase :: "nat \<Rightarrow> Zone \<Rightarrow> ('r, 'k) phase \<Rightarrow> ('r, 'k) store \<Rightarrow> ('r, 'k) conf \<Rightarrow> ('r, 'k) conf" where
  "setPhase n zone ph s c = c\<lparr>cf_store := s, cf_calls := js_set n (zone, ph) (cf_calls c)\<rparr>"

definition entered :: "(Zone \<times> nat) list \<Rightarrow> (nat, Zone \<times> ('r, 'k) phase) jsmap" where
  "entered next = map (\<lambda>(zone, n). (n, (zone, Running))) next"

definition leaveCall :: "nat \<Rightarrow> ('r, 'k) store \<Rightarrow> ('r, 'k) conf \<Rightarrow> ('r, 'k) conf" where
  "leaveCall n s c =
    (case leaveZone s of (s1, next) \<Rightarrow>
      c\<lparr>cf_store := s1, cf_calls := js_del n (cf_calls c) @ entered next\<rparr>)"

definition enterCall :: "Zone \<Rightarrow> nat \<Rightarrow> ('r, 'k) conf \<Rightarrow> ('r, 'k) conf" where
  "enterCall zone n c =
    (case beginZone zone n (cf_store c) of
       (s, True) \<Rightarrow> setPhase n zone Running s c
     | (s, False) \<Rightarrow> c\<lparr>cf_store := s\<rparr>)"

definition actCall :: "('r, 'k) LibSignal \<Rightarrow> (string \<Rightarrow> string) \<Rightarrow> nat \<Rightarrow> Zone \<Rightarrow> ('r, 'k) action \<Rightarrow> ('r, 'k) conf \<Rightarrow>
    ('r, 'k) conf" where
  "actCall L conversationOf n zone a c =
    (case perform L conversationOf a (cf_store c) of
       Inl _ \<Rightarrow> c
     | Inr (s, write) \<Rightarrow>
         if write \<and> \<not> collects zone a \<and> st_pending s \<noteq> noPending
         then (case startCommit s of (s1, p) \<Rightarrow> setPhase n zone (Writing p False) s1 c)
         else c\<lparr>cf_store := s\<rparr>)"

definition endCall :: "nat \<Rightarrow> Zone \<Rightarrow> bool \<Rightarrow> ('r, 'k) conf \<Rightarrow> ('r, 'k) conf" where
  "endCall n zone succeeded c =
    (case endBody succeeded (cf_store c) of
       Leave s \<Rightarrow> leaveCall n s c
     | Write s p \<Rightarrow> setPhase n zone (Writing p True) s c)"

definition writtenCall :: "nat \<Rightarrow> Zone \<Rightarrow> ('r, 'k) pending \<Rightarrow> bool \<Rightarrow> unit js \<Rightarrow> ('r, 'k) conf \<Rightarrow> ('r, 'k) conf" where
  "writtenCall n zone p ended io c =
    (case finishCommit io p (cf_store c) of
       (s, Inl _) \<Rightarrow> setPhase n zone (if ended then Threw else Running) s c
     | (s, Inr _) \<Rightarrow> if ended then leaveCall n s c else setPhase n zone Running s c)"

text \<open>An event that is not possible in a configuration has no result.\<close>

definition exec :: "('r, 'k) LibSignal \<Rightarrow> (string \<Rightarrow> string) \<Rightarrow> ('r, 'k) event \<Rightarrow> ('r, 'k) conf \<Rightarrow> ('r, 'k) conf option" where
  "exec L conversationOf ev c =
    (case ev of
       Enter zone n \<Rightarrow>
         if js_has (cf_calls c) n \<or> n \<in> set (waiting c) then None else Some (enterCall zone n c)
     | Act n a \<Rightarrow>
         (case js_get (cf_calls c) n of
            Some (zone, Running) \<Rightarrow> Some (actCall L conversationOf n zone a c)
          | _ \<Rightarrow> None)
     | Erase n r \<Rightarrow>
         (case js_get (cf_calls c) n of
            Some (zone, Running) \<Rightarrow>
              if sameZone zone GLOBAL_ZONE then Some (c\<lparr>cf_store := erase r (cf_store c)\<rparr>) else None
          | _ \<Rightarrow> None)
     | EndBody n succeeded \<Rightarrow>
         (case js_get (cf_calls c) n of
            Some (zone, Running) \<Rightarrow> Some (endCall n zone succeeded c)
          | _ \<Rightarrow> None)
     | Written n io \<Rightarrow>
         (case js_get (cf_calls c) n of
            Some (zone, Writing p ended) \<Rightarrow> Some (writtenCall n zone p ended io c)
          | _ \<Rightarrow> None))"

text \<open>The runs of the store; \<open>execAll\<close> computes them.\<close>

inductive run :: "('r, 'k) LibSignal \<Rightarrow> (string \<Rightarrow> string) \<Rightarrow> ('r, 'k) conf \<Rightarrow> ('r, 'k) event list \<Rightarrow> ('r, 'k) conf \<Rightarrow> bool"
  for L conversationOf where
  run_Nil: "run L conversationOf c [] c"
| run_Cons: "exec L conversationOf ev c = Some c' \<Longrightarrow> run L conversationOf c' evs c'' \<Longrightarrow>
    run L conversationOf c (ev # evs) c''"

inductive_cases run_ConsE [elim!]: "run L conversationOf c (ev # evs) c''"
inductive_simps run_Nil_iff [simp]: "run L conversationOf c [] c'"

fun execAll :: "('r, 'k) LibSignal \<Rightarrow> (string \<Rightarrow> string) \<Rightarrow> ('r, 'k) event list \<Rightarrow> ('r, 'k) conf \<Rightarrow> ('r, 'k) conf option" where
  "execAll L conversationOf [] c = Some c"
| "execAll L conversationOf (ev # evs) c = Option.bind (exec L conversationOf ev c) (execAll L conversationOf evs)"

lemma run_iff: "run L conversationOf c evs c' \<longleftrightarrow> execAll L conversationOf evs c = Some c'"
  by (induction evs arbitrary: c) (auto simp: bind_eq_Some_conv intro: run.intros)

lemma run_append: "run L conversationOf c evs c' \<Longrightarrow> run L conversationOf c' evs' c'' \<Longrightarrow> run L conversationOf c (evs @ evs') c''"
  by (induction rule: run.induct) (auto intro: run.intros)

text \<open>What every event keeps, every run keeps.\<close>

lemma run_invariant:
  assumes "run L conversationOf c evs c'" "I c"
    and "\<And>ev c c'. exec L conversationOf ev c = Some c' \<Longrightarrow> I c \<Longrightarrow> I c'"
  shows "I c'"
  using assms(1,2) by (induction rule: run.induct) (auto intro: assms(3))

text \<open>An event ends in one of the transformations of a configuration.\<close>

lemma exec_cases [consumes 1, case_names Enter Act Erase End Written]:
  assumes "exec L conversationOf ev c = Some c'"
  obtains (Enter) zone n where "ev = Enter zone n" "n \<notin> keyset (cf_calls c)" "n \<notin> set (waiting c)" "c' = enterCall zone n c"
  | (Act) n zone a where "ev = Act n a" "js_get (cf_calls c) n = Some (zone, Running)" "c' = actCall L conversationOf n zone a c"
  | (Erase) n zone r where "ev = Erase n r" "js_get (cf_calls c) n = Some (zone, Running)" "sameZone zone GLOBAL_ZONE"
      "c' = c\<lparr>cf_store := erase r (cf_store c)\<rparr>"
  | (End) n zone succeeded where "ev = EndBody n succeeded" "js_get (cf_calls c) n = Some (zone, Running)"
      "c' = endCall n zone succeeded c"
  | (Written) n zone p ended io where "ev = Written n io" "js_get (cf_calls c) n = Some (zone, Writing p ended)"
      "c' = writtenCall n zone p ended io c"
  using assms unfolding exec_def
  by (auto simp: js_has_keyset split: event.splits option.splits phase.splits if_splits)

section \<open>Zones do not overlap\<close>

text \<open>The fields of the store that the zones use; the operations of the calls leave them alone.\<close>

definition zoneView :: "('r, 'k) store \<Rightarrow> Zone option \<times> nat \<times> (Zone \<times> nat) list" where
  "zoneView s = (st_currentZone s, st_currentZoneDepth s, st_zoneQueue s)"

named_theorems zone_frame \<open>operations that do not touch the zones\<close>

lemma zoneView_updates [simp]:
  "zoneView (s\<lparr>st_sessions := a\<rparr>) = zoneView s" "zoneView (s\<lparr>st_senderKeys := b\<rparr>) = zoneView s"
  "zoneView (s\<lparr>st_preKeys := c\<rparr>) = zoneView s" "zoneView (s\<lparr>st_kyberPreKeys := d\<rparr>) = zoneView s"
  "zoneView (s\<lparr>st_kyberTriples := e\<rparr>) = zoneView s" "zoneView (s\<lparr>st_pending := f\<rparr>) = zoneView s"
  "zoneView (s\<lparr>st_db := g\<rparr>) = zoneView s"
  by (simp_all add: zoneView_def)

lemma zone_frame_put [zone_frame]:
  "zoneView (putSession L conversationOf address record s) = zoneView s"
  "zoneView (fst (loadSession L address s)) = zoneView s"
  "zoneView (putSenderKey L now address distributionId key s) = zoneView s"
  "zoneView (fst (getSenderKey L address distributionId s)) = zoneView s"
  "zoneView (putPreKeysToRemove ids s) = zoneView s"
  "zoneView (putKyberPreKeysToRemove ids s) = zoneView s"
  "zoneView (putUnprocessed array s) = zoneView s"
  by (simp_all add: putSession_def loadSession_def putSenderKey_def getSenderKey_def putPreKeysToRemove_def
    putKyberPreKeysToRemove_def putUnprocessed_def Let_def split: option.split sum.split)

lemma zone_frame_partial [zone_frame]:
  "putKyberTriple triple s = Inr s1 \<Longrightarrow> zoneView s1 = zoneView s"
  "archivePut L conversationOf entry s = Inr (Some s1) \<Longrightarrow> zoneView s1 = zoneView s"
  by (auto simp: putKyberTriple_def archivePut_def bindE_eq_Inr zone_frame Let_def split: if_splits)

lemma zone_frame_perform [zone_frame]:
  "perform L conversationOf a s = Inr (s1, write) \<Longrightarrow> zoneView s1 = zoneView s"
  by (cases a) (force simp: perform_def bindE_eq_Inr zone_frame split: option.splits)+

lemma zone_frame_erase [zone_frame]: "zoneView (erase r s) = zoneView s"
  by (simp add: erase_def removeSession_def removeSessionsByServiceId_def removeSessionsByConversation_def
    removeSessionsWhere_def clearSessionStore_def removeAllSenderKeys_def Let_def split: removal.split)

lemma zone_frame_commit [zone_frame]:
  "zoneView (fst (startCommit s)) = zoneView s" "zoneView (fst (finishCommit io p s)) = zoneView s"
  "zoneView (revertZoneChanges s) = zoneView s"
  by (simp_all add: startCommit_def finishCommit_def applyPending_def revertZoneChanges_def split: sum.split)

text \<open>
  The invariant: calls are entered or wait, the depth is the number of the entered ones, all of them are in
  the current zone, and while a call waits some call is in.
\<close>

definition zone_ok :: "Zone option \<times> nat \<times> (Zone \<times> nat) list \<Rightarrow> (nat \<times> Zone) list \<Rightarrow> bool" where
  "zone_ok v ins =
    (case v of (current, depth, queue) \<Rightarrow>
      distinct (map fst ins @ map snd queue) \<and> depth = length ins \<and>
      (case current of
         None \<Rightarrow> ins = [] \<and> queue = []
       | Some zone \<Rightarrow> ins \<noteq> [] \<and> (\<forall>i \<in> set ins. sameZone (snd i) zone)))"

definition zonesOf :: "('r, 'k) conf \<Rightarrow> (nat \<times> Zone) list" where
  "zonesOf c = map (\<lambda>(n, zone, ph). (n, zone)) (cf_calls c)"

definition conf_ok :: "('r, 'k) conf \<Rightarrow> bool" where
  "conf_ok c = zone_ok (zoneView (cf_store c)) (zonesOf c)"

lemma zonesOf_keys: "map fst (zonesOf c) = js_keys (cf_calls c)"
  by (simp add: zonesOf_def split_beta comp_def)

lemma zonesOf_setPhase:
  assumes "js_get (cf_calls c) n = Some (zone, ph)"
  shows "zonesOf (setPhase n zone ph' s c) = zonesOf c"
proof -
  have "map (\<lambda>(n, zone, ph). (n, zone)) (js_set n (zone, ph') m) = map (\<lambda>(n, zone, ph). (n, zone)) m"
    if "js_get m n = Some (zone, ph)" for m :: "(nat, Zone \<times> ('a, 'b) phase) jsmap"
    using that by (induction m) (auto split: if_splits)
  from this [OF assms] show ?thesis by (simp add: zonesOf_def setPhase_def)
qed

lemma sameZone_trans: "sameZone a b \<Longrightarrow> sameZone c b \<Longrightarrow> sameZone a c"
  by (simp add: sameZone_def)

lemma sameZone_sym: "sameZone a b = sameZone b a"
  by (auto simp: sameZone_def)

lemma toEnter_prefix: "queue = toEnter queue @ drop (length (toEnter queue)) queue"
proof (cases queue)
  case Nil
  then show ?thesis by (simp add: toEnter_def)
next
  case (Cons c rest)
  have "rest = takeWhile P rest @ drop (length (takeWhile P rest)) rest" for P
    by (metis takeWhile_dropWhile_id dropWhile_eq_drop)
  with Cons show ?thesis by (simp add: toEnter_def)
qed

lemma toEnter_sameZone: "queue = q # rest \<Longrightarrow> \<forall>c \<in> set (toEnter queue). sameZone (fst c) (fst q)"
  by (auto simp: toEnter_def sameZone_def dest: set_takeWhileD)

lemma enterZone_fold:
  assumes "st_currentZoneDepth s = 0" "next = q # rest"
  shows "zoneView (fold (\<lambda>c. enterZone (fst c)) next s) = (Some (fst q), length next, st_zoneQueue s)"
proof -
  have deep: "zoneView (fold (\<lambda>c. enterZone (fst c)) cs s') =
      (st_currentZone s', st_currentZoneDepth s' + length cs, st_zoneQueue s')"
    if "st_currentZoneDepth s' \<noteq> 0" for cs and s' :: "('a, 'b) store"
    using that by (induction cs arbitrary: s') (simp_all add: zoneView_def enterZone_def Let_def)
  from assms show ?thesis by (simp add: deep enterZone_def Let_def)
qed

definition viewAfterLeave :: "Zone option \<times> nat \<times> (Zone \<times> nat) list \<Rightarrow> Zone option \<times> nat \<times> (Zone \<times> nat) list" where
  "viewAfterLeave v =
    (case v of (current, depth, queue) \<Rightarrow>
      if depth - 1 \<noteq> 0 then (current, depth - 1, queue)
      else case queue of
          [] \<Rightarrow> (None, 0, [])
        | q # rest \<Rightarrow> (Some (fst q), length (toEnter queue), drop (length (toEnter queue)) queue))"

definition admitted :: "Zone option \<times> nat \<times> (Zone \<times> nat) list \<Rightarrow> (Zone \<times> nat) list" where
  "admitted v = (case v of (current, depth, queue) \<Rightarrow> if depth - 1 \<noteq> 0 then [] else toEnter queue)"

lemma leaveZone_next: "snd (leaveZone s) = admitted (zoneView s)"
  by (simp add: leaveZone_def admitted_def zoneView_def Let_def)

lemma leaveZone_view: "zoneView (fst (leaveZone s)) = viewAfterLeave (zoneView s)"
proof (cases "st_currentZoneDepth s - 1 = 0")
  case False
  then show ?thesis by (simp add: leaveZone_def viewAfterLeave_def zoneView_def Let_def)
next
  case deep: True
  define s2 where "s2 = s\<lparr>st_currentZoneDepth := st_currentZoneDepth s - 1, st_currentZone := None,
    st_zoneQueue := drop (length (toEnter (st_zoneQueue s))) (st_zoneQueue s)\<rparr>"
  have s2: "st_currentZoneDepth s2 = 0" "st_currentZone s2 = None"
    "st_zoneQueue s2 = drop (length (toEnter (st_zoneQueue s))) (st_zoneQueue s)"
    using deep by (simp_all add: s2_def)
  have leave: "fst (leaveZone s) = fold (\<lambda>c. enterZone (fst c)) (toEnter (st_zoneQueue s)) s2"
    using deep by (simp add: leaveZone_def Let_def s2_def)
  show ?thesis
  proof (cases "st_zoneQueue s")
    case Nil
    with s2 leave deep show ?thesis by (simp add: toEnter_def zoneView_def viewAfterLeave_def)
  next
    case (Cons q rest)
    then obtain more where "toEnter (st_zoneQueue s) = q # more" by (simp add: toEnter_def)
    from enterZone_fold [OF s2(1) this] Cons s2(3) leave deep show ?thesis
      by (simp add: zoneView_def viewAfterLeave_def)
  qed
qed

lemma zone_ok_leave:
  assumes ok: "zone_ok v ins" and mem: "n \<in> fst ` set ins"
  shows "zone_ok (viewAfterLeave v) (filter (\<lambda>i. fst i \<noteq> n) ins @ map (\<lambda>(zone, m). (m, zone)) (admitted v))"
proof -
  obtain current depth queue where v: "v = (current, depth, queue)" by (cases v)
  have dist: "distinct (map fst ins @ map snd queue)" and depth: "depth = length ins"
    using ok by (simp_all add: zone_ok_def v)
  obtain zone where cur: "current = Some zone" and same: "\<forall>i \<in> set ins. sameZone (snd i) zone"
    using ok mem by (auto simp: zone_ok_def v split: option.splits)
  have removed: "length (filter (\<lambda>i. fst i \<noteq> n) xs) = length xs - 1"
    if "n \<in> fst ` set xs" "distinct (map fst xs)" for xs :: "(nat \<times> Zone) list"
    using that
  proof (induction xs)
    case (Cons x xs)
    show ?case
    proof (cases "fst x = n")
      case True
      with Cons.prems have "n \<notin> fst ` set xs" by simp
      then have "filter (\<lambda>i. fst i \<noteq> n) xs = xs" by (auto simp: filter_id_conv)
      with True show ?thesis by simp
    next
      case False
      with Cons have "length (filter (\<lambda>i. fst i \<noteq> n) xs) = length xs - 1" "xs \<noteq> []" by auto
      with False show ?thesis by (cases xs) simp_all
    qed
  qed simp
  have less: "length (filter (\<lambda>i. fst i \<noteq> n) ins) = depth - 1"
    using removed [OF mem] dist depth by simp
  show ?thesis
  proof (cases "depth - 1 = 0")
    case False
    have "distinct (map fst (filter (\<lambda>i. fst i \<noteq> n) ins) @ map snd queue)"
      using dist by (auto simp: distinct_map_filter)
    moreover have "filter (\<lambda>i. fst i \<noteq> n) ins \<noteq> []" using less False by auto
    ultimately show ?thesis
      using False less same cur by (simp add: v viewAfterLeave_def admitted_def zone_ok_def)
  next
    case True
    then have none: "filter (\<lambda>i. fst i \<noteq> n) ins = []" using less by simp
    show ?thesis
    proof (cases queue)
      case Nil
      then show ?thesis using True by (simp add: none v viewAfterLeave_def admitted_def zone_ok_def toEnter_def)
    next
      case (Cons q rest)
      have "map snd queue = map snd (toEnter queue) @ map snd (drop (length (toEnter queue)) queue)"
        by (subst toEnter_prefix [of queue]) (simp only: map_append)
      then have "distinct (map snd (toEnter queue) @ map snd (drop (length (toEnter queue)) queue))"
        using dist by (metis distinct_append)
      moreover have "toEnter queue \<noteq> []" by (simp add: Cons toEnter_def)
      ultimately show ?thesis
        using True toEnter_sameZone [OF Cons] Cons
        by (simp add: none v viewAfterLeave_def admitted_def zone_ok_def split_beta comp_def)
    qed
  qed
qed

lemma conf_ok_leaveCall:
  assumes "conf_ok c" "n \<in> keyset (cf_calls c)" "zoneView s = zoneView (cf_store c)"
  shows "conf_ok (leaveCall n s c)"
proof -
  have "n \<in> fst ` set (zonesOf c)"
    using assms(2) by (simp add: keyset_def zonesOf_keys [symmetric])
  moreover have "zonesOf (leaveCall n s c) =
      filter (\<lambda>i. fst i \<noteq> n) (zonesOf c) @ map (\<lambda>(zone, m). (m, zone)) (admitted (zoneView s))"
    by (simp add: leaveCall_def split_beta zonesOf_def js_del_def filter_map comp_def entered_def leaveZone_next)
  moreover have "cf_store (leaveCall n s c) = fst (leaveZone s)"
    by (simp add: leaveCall_def split_beta)
  ultimately show ?thesis
    using zone_ok_leave [of "zoneView s" "zonesOf c" n] assms(1,3) by (simp add: conf_ok_def leaveZone_view)
qed

lemma conf_ok_setPhase:
  assumes "conf_ok c" "js_get (cf_calls c) n = Some (zone, ph)" "zoneView s = zoneView (cf_store c)"
  shows "conf_ok (setPhase n zone ph' s c)"
  using assms zonesOf_setPhase [OF assms(2)] by (simp add: conf_ok_def) (simp add: setPhase_def)

lemma conf_ok_store: "conf_ok c \<Longrightarrow> zoneView s = zoneView (cf_store c) \<Longrightarrow> conf_ok (c\<lparr>cf_store := s\<rparr>)"
  by (simp add: conf_ok_def zonesOf_def)

lemma zone_ok_enter:
  assumes "zone_ok (current, depth, queue) ins" "n \<notin> fst ` set ins" "n \<notin> snd ` set queue"
  shows "case current of
      None \<Rightarrow> zone_ok (Some zone, depth + 1, queue) (ins @ [(n, zone)])
    | Some z \<Rightarrow> if sameZone z zone then zone_ok (Some z, depth + 1, queue) (ins @ [(n, zone)])
        else zone_ok (Some z, depth, queue @ [(zone, n)]) ins"
  using assms by (auto simp: zone_ok_def sameZone_def split: option.splits)

lemma conf_ok_enterCall:
  assumes ok: "conf_ok c" and new: "n \<notin> keyset (cf_calls c)" "n \<notin> set (waiting c)"
  shows "conf_ok (enterCall zone n c)"
proof -
  let ?s = "cf_store c"
  have fresh: "js_set n x (cf_calls c) = cf_calls c @ [(n, x)]" for x
    using new(1) by (simp add: js_set_append keyset_def)
  have zones: "zonesOf (setPhase n zone ph s c) = zonesOf c @ [(n, zone)]" for s ph
    by (simp add: zonesOf_def setPhase_def fresh)
  have "n \<notin> fst ` set (zonesOf c)"
    using new(1) by (simp add: keyset_def zonesOf_keys [symmetric])
  note step = zone_ok_enter [OF ok [unfolded conf_ok_def zoneView_def] this, of zone]
  have deep: "st_currentZoneDepth ?s = 0" if "st_currentZone ?s = None"
    using ok that by (simp add: conf_ok_def zone_ok_def zoneView_def)
  have shallow: "st_currentZoneDepth ?s \<noteq> 0" if "st_currentZone ?s = Some z" for z
    using ok that by (simp add: conf_ok_def zone_ok_def zoneView_def)
  show ?thesis
  proof (cases "st_currentZone ?s")
    case None
    with step new(2) deep show ?thesis
      by (simp add: enterCall_def beginZone_def conf_ok_def zones)
        (simp add: setPhase_def zoneView_def enterZone_def Let_def waiting_def)
  next
    case (Some z)
    show ?thesis
    proof (cases "sameZone z zone")
      case True
      with step new(2) shallow [OF Some] Some show ?thesis
        by (simp add: enterCall_def beginZone_def conf_ok_def zones)
          (simp add: setPhase_def zoneView_def enterZone_def Let_def waiting_def)
    next
      case False
      with step new(2) Some show ?thesis
        by (simp add: enterCall_def beginZone_def conf_ok_def zoneView_def zonesOf_def waiting_def)
    qed
  qed
qed

text \<open>What an event does to the zones: a call enters, leaves, or only changes its phase or the store.\<close>

lemma actCall_shape:
  "\<exists>s. zoneView s = zoneView (cf_store c) \<and>
    ((\<exists>ph. actCall L conversationOf n zone a c = setPhase n zone ph s c) \<or>
     actCall L conversationOf n zone a c = c\<lparr>cf_store := s\<rparr>)"
proof (cases "perform L conversationOf a (cf_store c)")
  case (Inl e)
  then have "actCall L conversationOf n zone a c = c\<lparr>cf_store := cf_store c\<rparr>" by (simp add: actCall_def)
  then show ?thesis by blast
next
  case (Inr r)
  obtain s wr where r: "r = (s, wr)" by (cases r)
  have view: "zoneView s = zoneView (cf_store c)" using zone_frame_perform Inr r by blast
  show ?thesis
  proof (cases "wr \<and> \<not> collects zone a \<and> st_pending s \<noteq> noPending")
    case True
    then show ?thesis using view
      by (intro exI [of _ "s\<lparr>st_pending := noPending\<rparr>"]) (auto simp: actCall_def Inr r startCommit_def)
  next
    case False
    then show ?thesis using view by (intro exI [of _ s]) (auto simp: actCall_def Inr r)
  qed
qed

lemma endCall_shape:
  "\<exists>s. zoneView s = zoneView (cf_store c) \<and>
    (endCall n zone succeeded c = leaveCall n s c \<or> (\<exists>ph. endCall n zone succeeded c = setPhase n zone ph s c))"
proof (cases "endBody succeeded (cf_store c)")
  case (Leave s)
  then have "zoneView s = zoneView (cf_store c)"
    by (auto simp: endBody_def zone_frame startCommit_def split: if_splits)
  then show ?thesis using Leave by (auto simp: endCall_def)
next
  case (Write s p)
  then have "zoneView s = zoneView (cf_store c)" by (auto simp: endBody_def startCommit_def split: if_splits)
  then show ?thesis using Write by (auto simp: endCall_def)
qed

lemma writtenCall_shape:
  "\<exists>s. zoneView s = zoneView (cf_store c) \<and>
    (writtenCall n zone p ended io c = leaveCall n s c \<or> (\<exists>ph. writtenCall n zone p ended io c = setPhase n zone ph s c))"
proof -
  obtain s r where r: "finishCommit io p (cf_store c) = (s, r)" by fastforce
  then have "zoneView s = zoneView (cf_store c)" using zone_frame_commit(2) [of io p "cf_store c"] by simp
  then show ?thesis by (auto simp: writtenCall_def r split: sum.split)
qed

lemma exec_shape [consumes 1, case_names Enter Leaves Phase Stores]:
  assumes "exec L conversationOf ev c = Some c'"
  obtains (Enter) zone n where "n \<notin> keyset (cf_calls c)" "n \<notin> set (waiting c)" "c' = enterCall zone n c"
  | (Leaves) n zone ph s where "js_get (cf_calls c) n = Some (zone, ph)" "ph \<noteq> Threw"
      "zoneView s = zoneView (cf_store c)" "c' = leaveCall n s c"
  | (Phase) n zone ph ph' s where "js_get (cf_calls c) n = Some (zone, ph)" "ph \<noteq> Threw"
      "zoneView s = zoneView (cf_store c)" "c' = setPhase n zone ph' s c"
  | (Stores) s where "zoneView s = zoneView (cf_store c)" "c' = c\<lparr>cf_store := s\<rparr>"
  using assms
proof (cases rule: exec_cases)
  case (Enter zone n)
  with that(1) show ?thesis by blast
next
  case (Act n zone a)
  with actCall_shape [of c L conversationOf n zone a] that(3,4) show ?thesis by (metis phase.distinct(3))
next
  case (Erase n zone r)
  with that(4) zone_frame_erase show ?thesis by blast
next
  case (End n zone succeeded)
  with endCall_shape [of c n zone succeeded] that(2,3) show ?thesis by (metis phase.distinct(3))
next
  case (Written n zone p ended io)
  with writtenCall_shape [of c n zone p ended io] that(2,3) show ?thesis by (metis phase.distinct(5))
qed

lemma conf_ok_exec:
  assumes "exec L conversationOf ev c = Some c'" and ok: "conf_ok c"
  shows "conf_ok c'"
  using assms(1)
proof (cases rule: exec_shape)
  case (Enter zone n)
  then show ?thesis using conf_ok_enterCall ok by blast
next
  case (Leaves n zone ph s)
  then show ?thesis using conf_ok_leaveCall [OF ok js_get_keyset] by blast
next
  case (Phase n zone ph ph' s)
  then show ?thesis using conf_ok_setPhase [OF ok] by blast
next
  case (Stores s)
  then show ?thesis using conf_ok_store [OF ok] by blast
qed

text \<open>The calls at the start of a run: none is in.\<close>

definition idle :: "('r, 'k) conf \<Rightarrow> bool" where
  "idle c = (cf_calls c = [] \<and> st_currentZone (cf_store c) = None \<and> st_currentZoneDepth (cf_store c) = 0 \<and>
    st_zoneQueue (cf_store c) = [])"

lemma conf_ok_idle: "idle c \<Longrightarrow> conf_ok c"
  by (simp add: idle_def conf_ok_def zone_ok_def zoneView_def zonesOf_def)

lemma conf_ok_run: "run L conversationOf c evs c' \<Longrightarrow> conf_ok c \<Longrightarrow> conf_ok c'"
  by (rule run_invariant [where I = conf_ok]) (auto intro: conf_ok_exec)

lemma conf_ok_depth: "conf_ok c \<Longrightarrow> st_currentZoneDepth (cf_store c) = length (cf_calls c)"
  by (simp add: conf_ok_def zone_ok_def zoneView_def zonesOf_def)

section \<open>Waiting calls are let in\<close>

definition allRunning :: "('r, 'k) conf \<Rightarrow> bool" where
  "allRunning c = list_all (\<lambda>(n, zone, ph). ph = Running) (cf_calls c)"

lemma endCall_failed: "\<exists>s. endCall n zone False c = leaveCall n s c \<and> zoneView s = zoneView (cf_store c)"
  by (auto simp: endCall_def endBody_def zone_frame)

lemma leaveCall_store: "cf_store (leaveCall n s c) = fst (leaveZone s)"
  "cf_calls (leaveCall n s c) = js_del n (cf_calls c) @ entered (admitted (zoneView s))"
  by (simp_all add: leaveCall_def split_beta leaveZone_next)

lemma allRunning_leaveCall: "allRunning c \<Longrightarrow> allRunning (leaveCall n s c)"
  by (auto simp: allRunning_def leaveCall_store entered_def list_all_iff js_del_def)

lemma waiting_leaveCall:
  "waiting (leaveCall n s c) = map snd (snd (snd (viewAfterLeave (zoneView s))))"
proof -
  have "st_zoneQueue (fst (leaveZone s)) = snd (snd (zoneView (fst (leaveZone s))))" by (simp add: zoneView_def)
  then show ?thesis by (simp add: waiting_def leaveCall_store leaveZone_view)
qed

lemma progress:
  assumes ok: "conf_ok c" and running: "allRunning c" and m: "m \<in> set (waiting c)"
  obtains n c' where "run L conversationOf c [EndBody n False] c'" "conf_ok c'" "allRunning c'"
    "length (cf_calls c') + 2 * length (waiting c') < length (cf_calls c) + 2 * length (waiting c)"
    "m \<in> set (waiting c') \<or> (\<exists>zone. js_get (cf_calls c') m = Some (zone, Running))"
proof -
  have "cf_calls c \<noteq> []"
    using ok m by (auto simp: conf_ok_def zone_ok_def zoneView_def zonesOf_def waiting_def split: option.splits)
  then obtain n zone rest where calls: "cf_calls c = (n, zone, Running) # rest"
    using running by (auto simp: allRunning_def neq_Nil_conv)
  then have get: "js_get (cf_calls c) n = Some (zone, Running)" by simp
  obtain s where s: "endCall n zone False c = leaveCall n s c" "zoneView s = zoneView (cf_store c)"
    using endCall_failed by blast
  let ?c = "leaveCall n s c"
  have step: "exec L conversationOf (EndBody n False) c = Some ?c"
    using get s by (simp add: exec_def)
  have ok': "conf_ok ?c" using conf_ok_exec [OF step ok] .
  let ?q = "st_zoneQueue (cf_store c)"
  have notin: "n \<notin> set (js_keys rest)"
    using ok calls by (auto simp: conf_ok_def zone_ok_def zonesOf_keys zonesOf_def split_beta image_iff zoneView_def)
  have del: "js_del n (cf_calls c) = rest" using notin by (simp add: calls js_del_absent)
  have view: "zoneView s = (st_currentZone (cf_store c), Suc (length rest), ?q)"
    using s(2) conf_ok_depth [OF ok] calls by (simp add: zoneView_def)
  have split: "length ?q = length (toEnter ?q) + length (drop (length (toEnter ?q)) ?q)"
    using arg_cong [where f = length, OF toEnter_prefix [of ?q]] by simp
  have wait: "waiting c = map snd ?q"
    "waiting ?c = map snd (snd (snd (viewAfterLeave (st_currentZone (cf_store c), Suc (length rest), ?q))))"
    by (simp add: waiting_def) (simp add: waiting_leaveCall view)
  have less: "length (cf_calls ?c) + 2 * length (waiting ?c) < length (cf_calls c) + 2 * length (waiting c)"
  proof (cases rest)
    case Cons
    then show ?thesis using del wait
      by (simp add: leaveCall_store view viewAfterLeave_def admitted_def entered_def calls)
  next
    case Nil
    then show ?thesis using del wait split
      by (cases ?q) (simp_all add: leaveCall_store view viewAfterLeave_def admitted_def entered_def calls toEnter_def)
  qed
  have in_or_wait: "m \<in> set (waiting ?c) \<or> (\<exists>zone. js_get (cf_calls ?c) m = Some (zone, Running))"
  proof (cases "rest = [] \<and> m \<in> snd ` set (toEnter ?q)")
    case True
    then have "m \<in> set (js_keys (cf_calls ?c))"
      by (auto simp: leaveCall_store view admitted_def entered_def image_iff) force
    then obtain zone ph where "js_get (cf_calls ?c) m = Some (zone, ph)"
      by (metis js_get_eq_None_iff not_None_eq surj_pair)
    moreover from this have "ph = Running"
      using allRunning_leaveCall [OF running, of n s] by (auto simp: allRunning_def list_all_iff dest!: map_of_SomeD)
    ultimately show ?thesis by blast
  next
    case False
    have "m \<in> snd ` (set (toEnter ?q) \<union> set (drop (length (toEnter ?q)) ?q))"
      using m toEnter_prefix [of ?q] by (metis set_append list.set_map waiting_def)
    with False m wait show ?thesis
      by (cases ?q) (auto simp: viewAfterLeave_def simp del: map_eq_conv)
  qed
  from that [of n ?c] step ok' allRunning_leaveCall [OF running] less in_or_wait show ?thesis
    by (auto intro: run.intros)
qed

lemma waiting_gets_in:
  assumes "conf_ok c" "allRunning c" "n \<in> set (waiting c)"
  shows "\<exists>evs c' zone. run L conversationOf c evs c' \<and> js_get (cf_calls c') n = Some (zone, Running)"
  using assms
proof (induction "length (cf_calls c) + 2 * length (waiting c)" arbitrary: c rule: less_induct)
  case less
  obtain k c1 where step: "run L conversationOf c [EndBody k False] c1" and c1: "conf_ok c1" "allRunning c1"
    "length (cf_calls c1) + 2 * length (waiting c1) < length (cf_calls c) + 2 * length (waiting c)"
    "n \<in> set (waiting c1) \<or> (\<exists>zone. js_get (cf_calls c1) n = Some (zone, Running))"
    using progress [OF less.prems] by metis
  show ?case
  proof (cases "n \<in> set (waiting c1)")
    case True
    from less.hyps [OF c1(3,1,2) this] run_append [OF step] show ?thesis by blast
  next
    case False
    with c1(4) obtain zone where "js_get (cf_calls c1) n = Some (zone, Running)" by blast
    with step show ?thesis by (intro exI conjI)
  qed
qed

section \<open>A refused commit\<close>

lemma threw_stays:
  assumes "exec L conversationOf ev c = Some c'" and ok: "conf_ok c" and n: "js_get (cf_calls c) n = Some (zone, Threw)"
  shows "js_get (cf_calls c') n = Some (zone, Threw) \<and> st_currentZone (cf_store c') = st_currentZone (cf_store c) \<and>
    (\<exists>new. st_zoneQueue (cf_store c') = st_zoneQueue (cf_store c) @ new)"
proof -
  have leave: "js_get (cf_calls (leaveCall m s c)) n = Some (zone, Threw) \<and>
      zoneView (cf_store (leaveCall m s c)) = (st_currentZone (cf_store c), length (cf_calls c) - 1, st_zoneQueue (cf_store c))"
    if m: "js_get (cf_calls c) m = Some (z, ph)" "m \<noteq> n" and s: "zoneView s = zoneView (cf_store c)" for m z ph s
  proof -
    have "card {m, n} \<le> card (set (js_keys (cf_calls c)))"
      using m n by (intro card_mono) (auto dest: map_of_SomeD simp: rev_image_eqI)
    then have "2 \<le> length (cf_calls c)"
      using m(2) card_length [of "js_keys (cf_calls c)"] by simp
    with s conf_ok_depth [OF ok] have "admitted (zoneView s) = []"
      "viewAfterLeave (zoneView s) = (st_currentZone (cf_store c), length (cf_calls c) - 1, st_zoneQueue (cf_store c))"
      by (simp_all add: admitted_def viewAfterLeave_def zoneView_def)
    then show ?thesis
      using n m(2) by (simp add: leaveCall_store leaveZone_view js_get_del entered_def)
  qed
  have frame: "js_get (cf_calls (setPhase m z ph s c)) n = Some (zone, Threw) \<and>
      zoneView (cf_store (setPhase m z ph s c)) = zoneView (cf_store c)"
    if "m \<noteq> n" "zoneView s = zoneView (cf_store c)" for m z ph s
    using that n by (simp add: setPhase_def js_get_set)
  from assms(1) show ?thesis
  proof (cases rule: exec_shape)
    case (Enter z m)
    then have "m \<noteq> n" using n js_get_keyset by fastforce
    with Enter n show ?thesis
      by (auto simp: enterCall_def beginZone_def enterZone_def setPhase_def js_get_set Let_def conf_ok_depth [OF ok]
        split: option.split)
  next
    case (Leaves m z ph s)
    with n have "m \<noteq> n" by auto
    from leave [OF Leaves(1) this Leaves(3)] Leaves(4) show ?thesis by (simp add: zoneView_def)
  next
    case (Phase m z ph ph' s)
    with n have "m \<noteq> n" by auto
    from frame [OF this Phase(3)] Phase(4) show ?thesis by (simp add: zoneView_def)
  next
    case (Stores s)
    with n show ?thesis by (simp add: zoneView_def)
  qed
qed

lemma threw_stays_run:
  assumes "run L conversationOf c evs c'" "conf_ok c" "js_get (cf_calls c) n = Some (zone, Threw)"
  shows "js_get (cf_calls c') n = Some (zone, Threw) \<and> st_currentZone (cf_store c') = st_currentZone (cf_store c) \<and>
    (\<exists>new. st_zoneQueue (cf_store c') = st_zoneQueue (cf_store c) @ new)"
  using assms
proof (induction rule: run.induct)
  case (run_Cons ev c c' evs c'')
  from threw_stays [OF run_Cons.hyps(1) run_Cons.prems] run_Cons.IH [OF conf_ok_exec [OF run_Cons.hyps(1) run_Cons.prems(1)]]
  show ?case by auto
qed simp

section \<open>Properties\<close>

text \<open>Concrete data: records that are bytes, an empty store, the zone of a batch of envelopes, and a session.\<close>

definition plainSignal :: "(bytes, bytes) LibSignal" where
  "plainSignal =
    \<lparr>deserializeSession = Inr, serializeSession = (\<lambda>r. r), hasCurrentState = (\<lambda>r. r \<noteq> []),
     archiveCurrentState = (\<lambda>_. []), remoteRegistrationId = length,
     deserializeSenderKey = Inr, serializeSenderKey = (\<lambda>r. r)\<rparr>"

definition emptyStore :: "(bytes, bytes) store" where
  "emptyStore =
    \<lparr>st_sessions = [], st_senderKeys = [], st_preKeys = [], st_kyberPreKeys = [], st_kyberTriples = [],
     st_pending = noPending, st_currentZone = None, st_currentZoneDepth = 0, st_zoneQueue = [],
     st_db = \<lparr>db_sessions = [], db_senderKeys = [], db_preKeys = [], db_kyberPreKeys = [], db_kyberTriples = [],
       db_unprocessed = []\<rparr>\<rparr>"

definition batchZone :: "nat \<Rightarrow> Zone" where
  "batchZone n =
    \<lparr>z_id = n, z_pendingKyberPreKeysToRemove = True, z_pendingPreKeysToRemove = True,
     z_pendingSenderKeys = True, z_pendingSessions = True, z_pendingUnprocessed = True\<rparr>"

definition bobsPhone :: QualifiedAddress where
  "bobsPhone = \<lparr>qa_ourServiceId = ''us'', qa_serviceId = ''bob'', qa_deviceId = 1\<rparr>"

definition emptyConf :: "(bytes, bytes) conf" where
  "emptyConf = \<lparr>cf_store = emptyStore, cf_calls = []\<rparr>"

definition plainConversation :: "string \<Rightarrow> string" where
  "plainConversation serviceId = ''c-'' @ serviceId"

definition runPlain :: "(bytes, bytes) event list \<Rightarrow> (bytes, bytes) conf option" where
  "runPlain evs = execAll plainSignal plainConversation evs emptyConf"

lemma idle_emptyConf: "idle emptyConf"
  by (simp add: idle_def emptyConf_def emptyStore_def)

lemma run_plain: "runPlain evs = Some c \<Longrightarrow> run plainSignal plainConversation emptyConf evs c"
  by (simp add: runPlain_def run_iff)

text \<open>
C5: In every run all calls that are in have the same zone, which is the current one, the depth is their
number, and a call waits only while some call is in.
\<close>

theorem zones_never_overlap:
  assumes "run L conversationOf c evs c'" and "idle c"
  shows "list_all (\<lambda>(n, zone, ph). case st_currentZone (cf_store c') of None \<Rightarrow> False | Some z \<Rightarrow> sameZone zone z) (cf_calls c') \<and>
    distinct (js_keys (cf_calls c') @ waiting c') \<and>
    st_currentZoneDepth (cf_store c') = length (cf_calls c') \<and> (waiting c' = [] \<or> cf_calls c' \<noteq> [])"
proof -
  have "zone_ok (zoneView (cf_store c')) (zonesOf c')"
    using conf_ok_run [OF assms(1) conf_ok_idle [OF assms(2)]] by (simp add: conf_ok_def)
  then show ?thesis
    by (cases "st_currentZone (cf_store c')")
      (simp_all add: zone_ok_def zoneView_def zonesOf_keys, auto simp: zonesOf_def waiting_def list_all_iff)
qed

text \<open>Three calls of which the second waits.\<close>

definition threeCalls :: "(bytes, bytes) event list" where
  "threeCalls = [Enter (batchZone 1) 1, Enter (batchZone 2) 2, Enter (batchZone 1) 3]"

lemma threeCalls_run:
  obtains c where "runPlain threeCalls = Some c" "waiting c = [2]" "js_keys (cf_calls c) = [1, 3]" "allRunning c"
proof -
  have "case runPlain threeCalls of None \<Rightarrow> False
    | Some c \<Rightarrow> waiting c = [2] \<and> js_keys (cf_calls c) = [1, 3] \<and> allRunning c" by code_simp
  with that show ?thesis by (cases "runPlain threeCalls") auto
qed

lemma zones_never_overlap_witness:
  "\<exists>c. runPlain threeCalls = Some c \<and> st_currentZoneDepth (cf_store c) = length (cf_calls c) \<and>
     waiting c = [2] \<and> length (cf_calls c) = 2"
proof -
  obtain c where c: "runPlain threeCalls = Some c" "waiting c = [2]" "js_keys (cf_calls c) = [1, 3]"
    by (rule threeCalls_run)
  from c(3) have "length (cf_calls c) = 2" by (metis length_map length_Cons list.size(3) numeral_2_eq_2)
  with zones_never_overlap [OF run_plain [OF c(1)] idle_emptyConf] c show ?thesis by auto
qed




text \<open>A batch whose database write fails, with a call of the global zone that waits for it.\<close>

definition refusedCommit :: "(bytes, bytes) event list" where
  "refusedCommit =
    [Enter (batchZone 1) 1, Act 1 (AddUnprocessed [\<lparr>un_id = ''e1'', un_content = [7], un_isEncrypted = True\<rparr>]),
     Enter GLOBAL_ZONE 2, EndBody 1 True, Written 1 (throw ''disk I/O error'')]"

lemma refusedCommit_run:
  obtains c where "runPlain refusedCommit = Some c" "waiting c = [2]" "js_get (cf_calls c) 1 = Some (batchZone 1, Threw)"
proof -
  have "case runPlain refusedCommit of None \<Rightarrow> False
    | Some c \<Rightarrow> waiting c = [2] \<and> js_get (cf_calls c) 1 = Some (batchZone 1, Threw)" by code_simp
  with that show ?thesis by (cases "runPlain refusedCommit") auto
qed


text \<open>
  The changes a call makes while the outermost call of its zone waits for the database are neither part of
  that commit nor of one of their own: both calls succeed, the zone is left, and the changes are still
  pending. The next call that fails, in whatever zone, drops them.
\<close>

definition overlappingCalls :: "(bytes, bytes) event list" where
  "overlappingCalls =
    [Enter (batchZone 1) 1, Act 1 (AddUnprocessed [\<lparr>un_id = ''e1'', un_content = [7], un_isEncrypted = True\<rparr>]),
     EndBody 1 True,
     Enter (batchZone 1) 2, Act 2 (StoreSession bobsPhone [5]), EndBody 2 True,
     Written 1 (Inr ())]"

lemma overlapping_call_stays_pending:
  "case runPlain overlappingCalls of None \<Rightarrow> False
   | Some c \<Rightarrow> cf_calls c = [] \<and> st_currentZone (cf_store c) = None \<and>
       js_keys (pe_sessions (st_pending (cf_store c))) = [qualifiedAddressToString bobsPhone] \<and>
       db_sessions (st_db (cf_store c)) = []"
  by code_simp

lemma overlapping_call_is_dropped:
  "case runPlain (overlappingCalls @ [Enter GLOBAL_ZONE 3, EndBody 3 False]) of None \<Rightarrow> False
   | Some c \<Rightarrow> pe_sessions (st_pending (cf_store c)) = [] \<and> st_sessions (cf_store c) = [] \<and>
       db_sessions (st_db (cf_store c)) = []"
  by code_simp

text \<open>While a commit is written, a session that it contains is not found, or found as it was before.\<close>

lemma session_hidden_during_write:
  "case runPlain [Enter (batchZone 1) 1, Act 1 (StoreSession bobsPhone [5]), EndBody 1 True] of None \<Rightarrow> False
   | Some c \<Rightarrow> snd (loadSession plainSignal bobsPhone (cf_store c)) = None"
  by code_simp

text \<open>A pre key that a batch has used is found again while the commit of the batch is written.\<close>

lemma prekey_back_during_write:
  "case execAll plainSignal plainConversation [Enter (batchZone 1) 1, Act 1 (RemovePreKeys [getKeyId ''us'' 9])]
      (emptyConf\<lparr>cf_store := fst (storePreKeys ''us'' [(9, [1, 2])] (Inr ()) emptyStore)\<rparr>) of None \<Rightarrow> False
   | Some c \<Rightarrow> loadPreKey ''us'' 9 (cf_store c) = None \<and>
       (case exec plainSignal plainConversation (EndBody 1 True) c of None \<Rightarrow> False
        | Some c' \<Rightarrow> loadPreKey ''us'' 9 (cf_store c') \<noteq> None)"
  by code_simp

text \<open>A triple that a reverted call has marked is written by the next commit.\<close>

definition lastResort :: KyberPreKeyTripleType where
  "lastResort = \<lparr>kt_id = getKeyId ''us'' 3, kt_signedPreKeyId = 4, kt_baseKey = [1]\<rparr>"

lemma reverted_triple_is_committed:
  "case execAll plainSignal plainConversation
      [Enter (batchZone 1) 1, Act 1 (MarkKyberTriple lastResort), EndBody 1 False,
       Enter GLOBAL_ZONE 2, Act 2 (StoreSession bobsPhone [5]), Written 2 (Inr ())]
      (emptyConf\<lparr>cf_store := fst (storeKyberPreKeys ''us'' [(3, [1, 2], True, True)] (Inr ()) emptyStore)\<rparr>) of None \<Rightarrow> False
   | Some c \<Rightarrow> db_kyberTriples (st_db (cf_store c)) = [lastResort] \<and>
       perform plainSignal plainConversation (MarkKyberTriple lastResort) (cf_store c) = throw ''Duplicate kyber triple''"
  by code_simp

text \<open>So the retry of the reverted call is refused.\<close>

lemma reverted_triple_blocks_retry:
  "case execAll plainSignal plainConversation
      [Enter (batchZone 1) 1, Act 1 (MarkKyberTriple lastResort), EndBody 1 False, Enter (batchZone 2) 2] emptyConf of
     None \<Rightarrow> False
   | Some c \<Rightarrow> perform plainSignal plainConversation (MarkKyberTriple lastResort) (cf_store c) =
       throw ''Duplicate kyber triple''"
  by code_simp

end
