(* ===== verification/Session_Coherence.thy ===== *)
theory Session_Coherence
  imports Session_Zones
begin

text \<open>
  The caches of the protocol store (ts/SignalProtocolStore.preload.ts) and its database. The lemmas show that
  the caches mirror the database in every run, that a zone which collects all changes writes nothing before
  its end and everything or nothing at its end, and that a call reads what it has stored.
\<close>

section \<open>Dictionaries\<close>

lemma js_get_setAll: "js_get (setAll kvs m) = js_get m ++ map_of (rev kvs)"
  by (simp add: setAll_def js.lookup_fold_assign)

lemma js_get_delAll: "js_get (delAll ks m) k = (if k \<in> set ks then None else js_get m k)"
  unfolding delAll_def by (induction ks arbitrary: m) (auto simp: js_get_del)

lemma keyed_by_delAll [inv_intros]: "keyed_by f m \<Longrightarrow> keyed_by f (delAll ks m)"
  unfolding delAll_def by (induction ks arbitrary: m) (auto intro: inv_intros)

lemma keyed_by_setAll [inv_intros]: "keyed_by f m \<Longrightarrow> \<forall>(k, v) \<in> set kvs. f v = k \<Longrightarrow> keyed_by f (setAll kvs m)"
  unfolding setAll_def by (induction kvs arbitrary: m) (auto intro: inv_intros)

lemma keyed_by_setAll_keyed: "keyed_by f m \<Longrightarrow> keyed_by f p \<Longrightarrow> keyed_by f (setAll p m)"
  by (rule keyed_by_setAll) (auto simp: keyed_by_def)

lemma keyed_by_Nil [inv_intros, simp]: "keyed_by f []"
  by (simp add: keyed_by_def)

lemma keyed_by_filter: "keyed_by f m \<Longrightarrow> keyed_by f (filter P m)"
  by (auto simp: keyed_by_def distinct_map_filter)

lemma js_get_filter:
  "distinct (js_keys m) \<Longrightarrow> js_get (filter (\<lambda>p. P (snd p)) m) k =
    (case js_get m k of None \<Rightarrow> None | Some v \<Rightarrow> if P v then Some v else None)"
  by (induction m) (auto split: option.split simp: map_of_eq_None_iff dest: map_of_SomeD intro!: map_of_eq_None_iff [THEN iffD2])

text \<open>A cache mirrors a table: the rows of its entries are those of the table.\<close>

definition mirrors :: "('e \<Rightarrow> 'v) \<Rightarrow> ('k, 'e) jsmap \<Rightarrow> ('k, 'v) jsmap \<Rightarrow> bool" where
  "mirrors row cache table = (\<forall>k. map_option row (js_get cache k) = js_get table k)"

lemma mirrors_Nil [simp]: "mirrors row [] []"
  by (simp add: mirrors_def)

lemma mirrors_set: "mirrors row c d \<Longrightarrow> mirrors row (js_set k e c) (js_set k (row e) d)"
  by (simp add: mirrors_def js_get_set)

lemma mirrors_del: "mirrors row c d \<Longrightarrow> mirrors row (js_del k c) (js_del k d)"
  by (simp add: mirrors_def js_get_del)

lemma mirrors_delAll: "mirrors row c d \<Longrightarrow> mirrors row (delAll ks c) (delAll ks d)"
  by (simp add: mirrors_def js_get_delAll)

lemma mirrors_setAll: "mirrors row c d \<Longrightarrow> mirrors row (setAll kvs c) (setAll (map (map_prod (\<lambda>k. k) row) kvs) d)"
  unfolding setAll_def by (induction kvs arbitrary: c d) (auto simp: mirrors_set split_beta)

lemma mirrors_hydrate:
  "mirrors row c d \<Longrightarrow> js_get c k = Some e \<Longrightarrow> row e' = row e \<Longrightarrow> mirrors row (js_set k e' c) d"
  unfolding mirrors_def by (metis js_get_set map_upd_Some_unfold fun_upd_apply option.simps(9))

lemma keyed_rows: "keyed_by (f \<circ> row) p \<Longrightarrow>
    map (\<lambda>v. (f v, v)) (map row (js_values p)) = map (map_prod (\<lambda>k. k) row) p"
  by (auto simp: keyed_by_def)

lemma fold_js_set_rows: "fold (\<lambda>v. js_set (f v) v) vs m = setAll (map (\<lambda>v. (f v, v)) vs) m"
  unfolding setAll_def by (induction vs arbitrary: m) auto

section \<open>What a commit writes\<close>

lemma forE_fold:
  assumes "forE f xs d = Inr d'" and "\<And>x d d'. f x d = Inr d' \<Longrightarrow> d' = g x d"
  shows "d' = fold g xs d"
  using assms(1)
proof (induction xs arbitrary: d)
  case (Cons x xs)
  then obtain d1 where "f x d = Inr d1" "forE f xs d1 = Inr d'" by (auto simp: bindE_eq_Inr)
  with Cons.IH assms(2) [of x d d1] show ?case by simp
qed simp

lemma forE_createOrUpdateSession:
  assumes "forE createOrUpdateSession vs d = Inr d'"
  shows "d' = d\<lparr>db_sessions := fold (\<lambda>v. js_set (se_id v) v) vs (db_sessions d)\<rparr>"
proof -
  have "d' = fold (\<lambda>v d. d\<lparr>db_sessions := js_set (se_id v) v (db_sessions d)\<rparr>) vs d"
    using assms by (rule forE_fold) (simp add: createOrUpdateSession_def split: if_splits)
  also have "\<dots> = d\<lparr>db_sessions := fold (\<lambda>v. js_set (se_id v) v) vs (db_sessions d)\<rparr>"
    by (induction vs arbitrary: d) simp_all
  finally show ?thesis .
qed

lemma forE_saveUnprocessed:
  assumes "forE saveUnprocessed vs d = Inr d'"
  shows "d' = d\<lparr>db_unprocessed := fold (\<lambda>v. js_set (un_id v) v) vs (db_unprocessed d)\<rparr>"
proof -
  have "d' = fold (\<lambda>v d. d\<lparr>db_unprocessed := js_set (un_id v) v (db_unprocessed d)\<rparr>) vs d"
    using assms by (rule forE_fold) (simp add: saveUnprocessed_def split: if_splits)
  also have "\<dots> = d\<lparr>db_unprocessed := fold (\<lambda>v. js_set (un_id v) v) vs (db_unprocessed d)\<rparr>"
    by (induction vs arbitrary: d) simp_all
  finally show ?thesis .
qed

lemma forE_markKyberTriple:
  assumes "forE markKyberTripleSeenOrFail ts d = Inr d'"
  shows "d' = d\<lparr>db_kyberTriples := db_kyberTriples d @ ts\<rparr>"
proof -
  have "d' = fold (\<lambda>t d. d\<lparr>db_kyberTriples := db_kyberTriples d @ [t]\<rparr>) ts d"
    using assms by (rule forE_fold) (simp add: markKyberTripleSeenOrFail_def split: if_splits)
  also have "\<dots> = d\<lparr>db_kyberTriples := db_kyberTriples d @ ts\<rparr>"
    by (induction ts arbitrary: d) simp_all
  finally show ?thesis .
qed

lemma fold_createOrUpdateSenderKey:
  "fold createOrUpdateSenderKey vs d = d\<lparr>db_senderKeys := fold (\<lambda>v. js_set (sk_id v) v) vs (db_senderKeys d)\<rparr>"
  by (induction vs arbitrary: d) (auto simp: createOrUpdateSenderKey_def)

lemma commitDecryptResult_rows:
  assumes "commitDecryptResult p d = Inr d'"
  shows "db_sessions d' = setAll (map (\<lambda>v. (se_id v, v)) (map ce_fromDB (js_values (pe_sessions p)))) (db_sessions d)"
    "db_senderKeys d' = setAll (map (\<lambda>v. (sk_id v, v)) (map ce_fromDB (js_values (pe_senderKeys p)))) (db_senderKeys d)"
    "db_preKeys d' = delAll (pe_preKeysToRemove p) (db_preKeys d)"
    "db_kyberPreKeys d' = delAll (pe_kyberPreKeysToRemove p) (db_kyberPreKeys d)"
  using assms
  by (auto simp: commitDecryptResult_def Let_def bindE_eq_Inr fold_createOrUpdateSenderKey fold_js_set_rows
    removeKyberPreKeyById_def dest!: forE_createOrUpdateSession forE_saveUnprocessed forE_markKyberTriple)

section \<open>The caches mirror the database\<close>

definition coherent :: "('r, 'k) store \<Rightarrow> bool" where
  "coherent s =
    (keyed_by (se_id \<circ> ce_fromDB) (st_sessions s) \<and> keyed_by se_id (db_sessions (st_db s)) \<and>
     mirrors ce_fromDB (st_sessions s) (db_sessions (st_db s)) \<and>
     mirrors ce_fromDB (st_senderKeys s) (db_senderKeys (st_db s)) \<and>
     mirrors (\<lambda>k. k) (st_preKeys s) (db_preKeys (st_db s)) \<and>
     mirrors (\<lambda>k. k) (st_kyberPreKeys s) (db_kyberPreKeys (st_db s)))"

definition pending_keyed :: "('r, 'k) pending \<Rightarrow> bool" where
  "pending_keyed p =
    (keyed_by (se_id \<circ> ce_fromDB) (pe_sessions p) \<and> keyed_by (sk_id \<circ> ce_fromDB) (pe_senderKeys p) \<and>
     (\<forall>(k, e) \<in> set (pe_senderKeys p). ce_item e \<noteq> None))"

definition store_ok :: "('r, 'k) store \<Rightarrow> bool" where
  "store_ok s = (coherent s \<and> pending_keyed (st_pending s))"

definition phase_ok :: "('r, 'k) phase \<Rightarrow> bool" where
  "phase_ok ph = (case ph of Writing p _ \<Rightarrow> pending_keyed p | _ \<Rightarrow> True)"

definition mirror_ok :: "('r, 'k) conf \<Rightarrow> bool" where
  "mirror_ok c = (store_ok (cf_store c) \<and> list_all (\<lambda>(n, zone, ph). phase_ok ph) (cf_calls c))"

text \<open>A store whose zones are changed.\<close>

lemma store_ok_zones:
  "store_ok (s\<lparr>st_currentZone := a\<rparr>) = store_ok s" "store_ok (s\<lparr>st_currentZoneDepth := b\<rparr>) = store_ok s"
  "store_ok (s\<lparr>st_zoneQueue := q\<rparr>) = store_ok s"
  by (simp_all add: store_ok_def coherent_def)

lemma pending_keyed_noPending [simp]: "pending_keyed noPending"
  by (simp add: pending_keyed_def noPending_def)

lemma store_ok_finishCommit:
  assumes "store_ok s" "pending_keyed p"
  shows "store_ok (fst (finishCommit io p s))"
proof (cases "bindE io (\<lambda>_. commitDecryptResult p (st_db s))")
  case Inl
  with assms show ?thesis by (simp add: finishCommit_def)
next
  case (Inr d)
  then have "commitDecryptResult p (st_db s) = Inr d" by (auto simp: bindE_eq_Inr)
  note rows = commitDecryptResult_rows [OF this]
  have keys: "keyed_by (se_id \<circ> ce_fromDB) (pe_sessions p)" "keyed_by (sk_id \<circ> ce_fromDB) (pe_senderKeys p)"
    using assms(2) by (simp_all add: pending_keyed_def)
  have "keyed_by se_id (db_sessions d)"
    unfolding rows(1) using assms(1) by (intro keyed_by_setAll) (auto simp: store_ok_def coherent_def)
  moreover have "keyed_by (se_id \<circ> ce_fromDB) (setAll (pe_sessions p) (st_sessions s))"
    using assms(1) keys by (intro keyed_by_setAll_keyed) (simp_all add: store_ok_def coherent_def)
  moreover have "db_sessions d = setAll (map (map_prod (\<lambda>k. k) ce_fromDB) (pe_sessions p)) (db_sessions (st_db s))"
    "db_senderKeys d = setAll (map (map_prod (\<lambda>k. k) ce_fromDB) (pe_senderKeys p)) (db_senderKeys (st_db s))"
    by (simp_all only: rows keyed_rows [OF keys(1)] keyed_rows [OF keys(2)])
  ultimately show ?thesis
    using assms(1) rows(3,4) Inr
    by (simp add: finishCommit_def applyPending_def store_ok_def coherent_def mirrors_setAll mirrors_delAll)
qed

lemma store_ok_startCommit: "store_ok s \<Longrightarrow> store_ok (fst (startCommit s)) \<and> pending_keyed (snd (startCommit s))"
  by (simp add: store_ok_def startCommit_def coherent_def)

lemma store_ok_revert: "store_ok s \<Longrightarrow> store_ok (revertZoneChanges s)"
  by (simp add: store_ok_def revertZoneChanges_def coherent_def pending_keyed_def noPending_def)

section \<open>Operations\<close>

lemma set_js_set_all: "\<forall>p \<in> set m. P p \<Longrightarrow> P (k, v) \<Longrightarrow> \<forall>p \<in> set (js_set k v m). P p"
  using set_js_set_subset [of k v m] by auto

lemma store_ok_put [inv_intros]:
  "store_ok s \<Longrightarrow> store_ok (putSession L conversationOf address record s)"
  "store_ok s \<Longrightarrow> store_ok (putSenderKey L now address distributionId key s)"
  "store_ok s \<Longrightarrow> store_ok (putPreKeysToRemove ids s)"
  "store_ok s \<Longrightarrow> store_ok (putKyberPreKeysToRemove ids s)"
  "store_ok s \<Longrightarrow> store_ok (putUnprocessed array s)"
  by (auto simp: store_ok_def coherent_def pending_keyed_def putSession_def putSenderKey_def putPreKeysToRemove_def
    putKyberPreKeysToRemove_def putUnprocessed_def Let_def intro!: inv_intros dest: set_js_set_subset [THEN subsetD])

lemma store_ok_hydrate:
  assumes ok: "store_ok s" and e: "js_get (st_sessions s) key = Some e"
  shows "store_ok (s\<lparr>st_sessions := js_set key (e\<lparr>ce_item := i\<rparr>) (st_sessions s)\<rparr>)"
proof -
  have "se_id (ce_fromDB e) = key"
    using ok e keyed_by_get [of "se_id \<circ> ce_fromDB"] by (auto simp: store_ok_def coherent_def)
  then show ?thesis
    using ok e by (simp add: store_ok_def coherent_def keyed_by_set mirrors_hydrate)
qed

lemma store_ok_loadSession: "store_ok s \<Longrightarrow> store_ok (fst (loadSession L address s))"
proof -
  assume ok: "store_ok s"
  let ?k = "qualifiedAddressToString address"
  have "store_ok (s\<lparr>st_pending := (st_pending s)\<lparr>pe_sessions := js_set ?k (e\<lparr>ce_item := i\<rparr>) (pe_sessions (st_pending s))\<rparr>\<rparr>)"
    if "js_get (pe_sessions (st_pending s)) ?k = Some e" for e i
  proof -
    have "se_id (ce_fromDB e) = ?k"
      using ok that keyed_by_get [of "se_id \<circ> ce_fromDB"] by (auto simp: store_ok_def pending_keyed_def)
    then show ?thesis using ok by (simp add: store_ok_def pending_keyed_def coherent_def keyed_by_set)
  qed
  then show ?thesis
    using ok store_ok_hydrate [OF ok] by (auto simp: loadSession_def Let_def split: option.split sum.split if_splits)
qed

lemma store_ok_getSenderKey: "store_ok s \<Longrightarrow> store_ok (fst (getSenderKey L address distributionId s))"
proof -
  assume ok: "store_ok s"
  let ?k = "qualifiedAddressToString address @ ''--'' @ distributionId"
  have "store_ok (s\<lparr>st_senderKeys := js_set ?k (e\<lparr>ce_item := i\<rparr>) (st_senderKeys s)\<rparr>)"
    if "js_get (st_senderKeys s) ?k = Some e" for e i
    using ok that by (simp add: store_ok_def coherent_def mirrors_hydrate)
  moreover have "ce_item e \<noteq> None" if "js_get (pe_senderKeys (st_pending s)) ?k = Some e" for e
    using ok map_of_SomeD [OF that] by (auto simp: store_ok_def pending_keyed_def)
  ultimately show ?thesis
    using ok by (auto simp: getSenderKey_def Let_def simp del: append.simps split: option.split sum.split if_splits)
qed

lemma store_ok_putKyberTriple: "store_ok s \<Longrightarrow> putKyberTriple triple s = Inr s1 \<Longrightarrow> store_ok s1"
  by (auto simp: putKyberTriple_def Let_def store_ok_def coherent_def pending_keyed_def split: if_splits)

lemma store_ok_archivePut:
  assumes ok: "store_ok s" and e: "sessionEntry key s = Some e" and put: "archivePut L conversationOf e s = Inr (Some s1)"
  shows "store_ok s1"
proof -
  have key: "se_id (ce_fromDB e) = key"
    using ok e keyed_by_get [of "se_id \<circ> ce_fromDB"]
    by (auto simp: sessionEntry_def store_ok_def coherent_def pending_keyed_def split: option.splits)
  then have "js_get (st_sessions s) key = Some e" if "\<not> js_has (pe_sessions (st_pending s)) key"
    using e that by (simp add: sessionEntry_def js_has_def)
  with key put store_ok_hydrate [OF ok] ok show ?thesis
    by (auto simp: archivePut_def bindE_eq_Inr Let_def intro!: store_ok_put split: if_splits)
qed

lemma store_ok_perform:
  assumes ok: "store_ok s" and p: "perform L conversationOf a s = Inr (s1, wr)"
  shows "store_ok s1"
  using p ok store_ok_archivePut [OF ok]
  by (cases a) (force simp: perform_def bindE_eq_Inr store_ok_put store_ok_loadSession store_ok_getSenderKey
    intro: store_ok_putKyberTriple split: option.splits)+

text \<open>Removing the sessions of a kind removes the same rows everywhere.\<close>

lemma sessionIdsWhere_iff:
  assumes "keyed_by (se_id \<circ> ce_fromDB) (st_sessions s)"
  shows "k \<in> set (sessionIdsWhere P s) \<longleftrightarrow> (\<exists>e. js_get (st_sessions s) k = Some e \<and> P (ce_fromDB e))"
proof -
  have dist: "distinct (js_keys (st_sessions s))" and keys: "\<And>k e. (k, e) \<in> set (st_sessions s) \<Longrightarrow> se_id (ce_fromDB e) = k"
    using assms by (auto simp: keyed_by_def)
  show ?thesis
    using keys map_of_eq_Some_iff [OF dist] by (force simp: sessionIdsWhere_def)
qed

lemma store_ok_removeSessionsWhere: "store_ok s \<Longrightarrow> store_ok (fst (removeSessionsWhere P (Inr ()) s))"
proof -
  assume ok: "store_ok s"
  have keyed: "keyed_by (se_id \<circ> ce_fromDB) (st_sessions s)" "keyed_by se_id (db_sessions (st_db s))"
    and mir: "\<And>k. js_get (db_sessions (st_db s)) k = map_option ce_fromDB (js_get (st_sessions s) k)"
    using ok by (simp_all add: store_ok_def coherent_def mirrors_def)
  have "mirrors ce_fromDB (delAll (sessionIdsWhere P s) (st_sessions s)) (filter (\<lambda>p. \<not> P (snd p)) (db_sessions (st_db s)))"
    using keyed(2) by (auto simp: mirrors_def js_get_delAll js_get_filter [where P = "\<lambda>v. \<not> P v"] keyed_by_def mir
      sessionIdsWhere_iff [OF keyed(1)] split: option.split)
  then show ?thesis
    using ok by (simp add: removeSessionsWhere_def Let_def store_ok_def coherent_def pending_keyed_def keyed_by_delAll keyed_by_filter)
qed

lemma store_ok_erase: "store_ok s \<Longrightarrow> store_ok (erase r s)"
proof (cases r)
  case (RemoveSession address)
  then show "store_ok s \<Longrightarrow> store_ok (erase r s)"
    by (simp add: erase_def removeSession_def Let_def store_ok_def coherent_def pending_keyed_def keyed_by_del mirrors_del)
qed (simp_all add: erase_def removeSessionsByServiceId_def removeSessionsByConversation_def store_ok_removeSessionsWhere,
  simp_all add: clearSessionStore_def removeAllSenderKeys_def Let_def store_ok_def coherent_def pending_keyed_def)

section \<open>Runs\<close>

lemma store_ok_enterZone: "store_ok s \<Longrightarrow> store_ok (enterZone zone s)"
  by (simp add: enterZone_def Let_def store_ok_zones)

lemma store_ok_fold_enterZone: "store_ok s \<Longrightarrow> store_ok (fold (\<lambda>c. enterZone (fst c)) cs s)"
  by (induction cs arbitrary: s) (simp_all add: store_ok_enterZone)

lemma store_ok_leaveZone: "store_ok s \<Longrightarrow> store_ok (fst (leaveZone s))"
  by (simp add: leaveZone_def Let_def store_ok_zones store_ok_fold_enterZone)

lemma mirror_ok_setPhase: "mirror_ok c \<Longrightarrow> store_ok s \<Longrightarrow> phase_ok ph \<Longrightarrow> mirror_ok (setPhase n zone ph s c)"
  using set_js_set_subset [of n "(zone, ph)" "cf_calls c"] by (auto simp: mirror_ok_def setPhase_def list_all_iff)

lemma mirror_ok_store: "mirror_ok c \<Longrightarrow> store_ok s \<Longrightarrow> mirror_ok (c\<lparr>cf_store := s\<rparr>)"
  by (simp add: mirror_ok_def)

lemma mirror_ok_leaveCall: "mirror_ok c \<Longrightarrow> store_ok s \<Longrightarrow> mirror_ok (leaveCall n s c)"
  by (auto simp: mirror_ok_def leaveCall_store store_ok_leaveZone list_all_iff entered_def phase_ok_def set_js_del)

lemma mirror_ok_exec:
  assumes "exec L conversationOf ev c = Some c'" and ok: "mirror_ok c"
  shows "mirror_ok c'"
proof -
  have store: "store_ok (cf_store c)" using ok by (simp add: mirror_ok_def)
  from assms(1) show ?thesis
  proof (cases rule: exec_cases)
    case (Enter zone n)
    then show ?thesis
      using ok store by (auto simp: enterCall_def beginZone_def store_ok_zones store_ok_enterZone phase_ok_def
        intro!: mirror_ok_setPhase split: option.split) (simp add: mirror_ok_def store_ok_zones)
  next
    case (Act n zone a)
    show ?thesis
    proof (cases "perform L conversationOf a (cf_store c)")
      case (Inl e)
      with Act ok show ?thesis by (simp add: actCall_def)
    next
      case (Inr r)
      obtain s wr where r: "r = (s, wr)" by (cases r)
      have s: "store_ok s" using store_ok_perform [OF store] Inr r by blast
      with Act ok Inr r store_ok_startCommit [OF s] show ?thesis
        by (auto simp: actCall_def phase_ok_def intro: mirror_ok_store intro!: mirror_ok_setPhase split: prod.split)
    qed
  next
    case (Erase n zone r)
    then show ?thesis using ok by (simp add: mirror_ok_def store_ok_erase)
  next
    case (End n zone succeeded)
    then show ?thesis
      using ok store store_ok_startCommit [OF store] store_ok_revert [OF store]
      by (auto simp: endCall_def endBody_def phase_ok_def intro!: mirror_ok_leaveCall mirror_ok_setPhase split: prod.split)
  next
    case (Written n zone p ended io)
    then have "pending_keyed p"
      using ok by (auto simp: mirror_ok_def list_all_iff phase_ok_def dest!: map_of_SomeD split: prod.splits)
    then have "store_ok s" if "finishCommit io p (cf_store c) = (s, r)" for s r
      using store_ok_finishCommit [OF store, of p io] that by simp
    with Written ok show ?thesis
      by (auto simp: writtenCall_def phase_ok_def intro!: mirror_ok_leaveCall mirror_ok_setPhase split: prod.split sum.split)
  qed
qed

lemma mirror_ok_run: "run L conversationOf c evs c' \<Longrightarrow> mirror_ok c \<Longrightarrow> mirror_ok c'"
  by (rule run_invariant [where I = mirror_ok]) (auto intro: mirror_ok_exec)

lemma mirror_ok_start: "cf_calls c = [] \<Longrightarrow> store_ok (cf_store c) \<Longrightarrow> mirror_ok c"
  by (simp add: mirror_ok_def)

lemma store_ok_emptyStore: "store_ok emptyStore"
  by (simp add: store_ok_def coherent_def emptyStore_def)


definition storeAndWrite :: "(bytes, bytes) event list" where
  "storeAndWrite =
    [Enter (batchZone 1) 1, Act 1 (StoreSession bobsPhone [5]), Act 1 (SaveSenderKey 17 bobsPhone ''d'' [9]),
     EndBody 1 True, Written 1 (Inr ())]"

lemma storeAndWrite_run:
  obtains c where "runPlain storeAndWrite = Some c" "length (st_sessions (cf_store c)) = 1"
proof -
  have "case runPlain storeAndWrite of None \<Rightarrow> False | Some c \<Rightarrow> length (st_sessions (cf_store c)) = 1" by code_simp
  with that show ?thesis by (cases "runPlain storeAndWrite") auto
qed


section \<open>A batch\<close>

text \<open>Nothing is pending but triples; a reverted call leaves those.\<close>

definition dropped :: "('r, 'k) pending \<Rightarrow> bool" where
  "dropped p = (p\<lparr>pe_kyberTriples := []\<rparr> = noPending)"

definition collectsAll :: "Zone \<Rightarrow> bool" where
  "collectsAll zone =
    (z_pendingKyberPreKeysToRemove zone \<and> z_pendingPreKeysToRemove zone \<and> z_pendingSenderKeys zone \<and>
     z_pendingSessions zone \<and> z_pendingUnprocessed zone)"

lemma collectsAll_collects: "collectsAll zone \<Longrightarrow> collects zone a"
  by (auto simp: collectsAll_def collects_def split: action.split)

lemma st_db_archivePut: "archivePut L conversationOf e s = Inr (Some s1) \<Longrightarrow> st_db s1 = st_db s"
  by (auto simp: archivePut_def bindE_eq_Inr Let_def putSession_def split: if_splits)

lemma st_db_perform: "perform L conversationOf a s = Inr (s1, wr) \<Longrightarrow> st_db s1 = st_db s"
  by (cases a) (force simp: perform_def bindE_eq_Inr putSession_def loadSession_def putSenderKey_def getSenderKey_def
    putPreKeysToRemove_def putKyberPreKeysToRemove_def putKyberTriple_def putUnprocessed_def Let_def
    dest: st_db_archivePut split: option.splits sum.splits if_splits)+

text \<open>The actions of a call in a zone that collects all changes.\<close>

lemma collecting_step:
  assumes "exec L conversationOf (Act n a) c = Some c'" "js_get (cf_calls c) n = Some (zone, Running)" "collectsAll zone"
  shows "c' = c\<lparr>cf_store := cf_store c'\<rparr> \<and>
    (cf_store c' = cf_store c \<or> (\<exists>wr. perform L conversationOf a (cf_store c) = Inr (cf_store c', wr)))"
  using assms by (auto simp: exec_def actCall_def collectsAll_collects split: sum.splits)

lemma collecting_run:
  assumes "run L conversationOf c (map (Act n) acts) c'" "js_get (cf_calls c) n = Some (zone, Running)" "collectsAll zone"
    and "P (cf_store c)" "\<And>a s s1 wr. a \<in> set acts \<Longrightarrow> P s \<Longrightarrow> perform L conversationOf a s = Inr (s1, wr) \<Longrightarrow> P s1"
  shows "c' = c\<lparr>cf_store := cf_store c'\<rparr> \<and> P (cf_store c')"
  using assms
proof (induction acts arbitrary: c)
  case (Cons a acts)
  then obtain c1 where step: "exec L conversationOf (Act n a) c = Some c1" and rest: "run L conversationOf c1 (map (Act n) acts) c'"
    by auto
  from collecting_step [OF step Cons.prems(2,3)] have c1: "c1 = c\<lparr>cf_store := cf_store c1\<rparr>" and
    s: "cf_store c1 = cf_store c \<or> (\<exists>wr. perform L conversationOf a (cf_store c) = Inr (cf_store c1, wr))" by blast+
  have "P (cf_store c1)" using s Cons.prems(4,5) by (metis list.set_intros(1))
  moreover have "js_get (cf_calls c1) n = Some (zone, Running)" using c1 Cons.prems(2) by (metis conf.select_convs(2) conf.surjective conf.update_convs(1))
  ultimately have "c' = c1\<lparr>cf_store := cf_store c'\<rparr> \<and> P (cf_store c')"
    using Cons.IH [OF rest _ Cons.prems(3)] Cons.prems(5) by (metis list.set_intros(2))
  with c1 show ?case by (metis conf.surjective conf.update_convs(1))
qed simp

lemma leave_alone:
  assumes "cf_calls c = [(n, zone, ph)]" "zoneView s = (Some zone, 1, [])"
  shows "idle (leaveCall n s c) \<and> st_db (cf_store (leaveCall n s c)) = st_db s \<and>
    st_pending (cf_store (leaveCall n s c)) = st_pending s"
  using assms by (simp add: leaveCall_def leaveZone_def toEnter_def entered_def idle_def zoneView_def Let_def)

lemma batch_run:
  assumes "idle c" "collectsAll zone" "run L conversationOf c (Enter zone n # map (Act n) acts) c1"
  shows "cf_calls c1 = [(n, zone, Running)] \<and> zoneView (cf_store c1) = (Some zone, 1, []) \<and>
    st_db (cf_store c1) = st_db (cf_store c)"
proof -
  obtain c0 where enter: "exec L conversationOf (Enter zone n) c = Some c0" and acts: "run L conversationOf c0 (map (Act n) acts) c1"
    using assms(3) by auto
  then have c0: "cf_calls c0 = [(n, zone, Running)]" "zoneView (cf_store c0) = (Some zone, 1, [])"
    "st_db (cf_store c0) = st_db (cf_store c)"
    using assms(1)
    by (auto simp: exec_def enterCall_def beginZone_def enterZone_def setPhase_def idle_def zoneView_def Let_def split: if_splits)
  let ?P = "\<lambda>s. zoneView s = (Some zone, 1, []) \<and> st_db s = st_db (cf_store c)"
  have "c1 = c0\<lparr>cf_store := cf_store c1\<rparr> \<and> ?P (cf_store c1)"
  proof (rule collecting_run [OF acts _ assms(2)])
    show "js_get (cf_calls c0) n = Some (zone, Running)" by (simp add: c0)
    show "?P (cf_store c0)" by (simp add: c0)
    show "?P s1" if "?P s" "perform L conversationOf a s = Inr (s1, wr)" for a s s1 wr
      using that zone_frame_perform st_db_perform by metis
  qed
  moreover from this have "cf_calls c1 = cf_calls c0" by (metis conf.select_convs(2) conf.surjective conf.update_convs(1))
  ultimately show ?thesis using c0 by simp
qed

lemma batch_end:
  assumes alone: "cf_calls c1 = [(n, zone, Running)]" and view: "zoneView (cf_store c1) = (Some zone, 1, [])"
    and db: "st_db (cf_store c1) = st_db (cf_store c)"
  shows "case exec L conversationOf (EndBody n True) c1 of
       None \<Rightarrow> False
     | Some c2 \<Rightarrow> st_db (cf_store c2) = st_db (cf_store c) \<and>
        (case exec L conversationOf (Written n io) c2 of
           None \<Rightarrow> idle c2 \<and> st_pending (cf_store c1) = noPending
         | Some c3 \<Rightarrow> st_db (cf_store c3) = st_db (cf_store c) \<or>
             commitDecryptResult (st_pending (cf_store c1)) (st_db (cf_store c)) = Inr (st_db (cf_store c3)))"
proof -
  have top: "isInTopLevelZone (cf_store c1)" and get: "js_get (cf_calls c1) n = Some (zone, Running)"
    using alone view by (simp_all add: isInTopLevelZone_def zoneView_def)
  show ?thesis
  proof (cases "st_pending (cf_store c1) = noPending")
    case True
    then have "exec L conversationOf (EndBody n True) c1 = Some (leaveCall n (cf_store c1) c1)"
      using get top by (simp add: exec_def endCall_def endBody_def)
    with leave_alone [OF alone, of "cf_store c1"] db view True show ?thesis by (simp add: exec_def idle_def)
  next
    case False
    let ?s = "(cf_store c1)\<lparr>st_pending := noPending\<rparr>" and ?p = "st_pending (cf_store c1)"
    let ?c2 = "setPhase n zone (Writing ?p True) ?s c1"
    have e: "exec L conversationOf (EndBody n True) c1 = Some ?c2"
      using get top False by (simp add: exec_def endCall_def endBody_def startCommit_def)
    have c2: "cf_calls ?c2 = [(n, zone, Writing ?p True)]" "cf_store ?c2 = ?s"
      by (simp_all add: setPhase_def alone)
    then have w: "exec L conversationOf (Written n io) ?c2 = Some (writtenCall n zone ?p True io ?c2)"
      by (simp add: exec_def)
    have "st_db (cf_store (writtenCall n zone ?p True io ?c2)) = st_db (cf_store c) \<or>
        commitDecryptResult ?p (st_db (cf_store c)) = Inr (st_db (cf_store (writtenCall n zone ?p True io ?c2)))"
    proof (cases "bindE io (\<lambda>_. commitDecryptResult ?p (st_db ?s))")
      case (Inl e)
      then show ?thesis using db view by (simp add: writtenCall_def c2(2) finishCommit_def) (simp add: setPhase_def)
    next
      case (Inr d)
      let ?s' = "applyPending ?p (?s\<lparr>st_db := d\<rparr>)"
      have "zoneView ?s' = (Some zone, 1, [])" "st_db ?s' = d"
        using db view by (simp_all add: applyPending_def)
      with leave_alone [OF c2(1)] Inr have "st_db (cf_store (writtenCall n zone ?p True io ?c2)) = d"
        by (simp add: writtenCall_def c2(2) finishCommit_def)
      with Inr db view show ?thesis by (simp add: bindE_eq_Inr)
    qed
    with db view show ?thesis by (simp add: e w) (simp add: setPhase_def)
  qed
qed



section \<open>Reading what was stored\<close>

definition writesSession :: "('r, 'k) action \<Rightarrow> bool" where
  "writesSession a = (case a of StoreSession _ _ \<Rightarrow> True | ArchiveEntry _ \<Rightarrow> True | _ \<Rightarrow> False)"

definition hasSession :: "string \<Rightarrow> 'r \<Rightarrow> ('r, 'k) store \<Rightarrow> bool" where
  "hasSession key record s = (\<exists>e. js_get (pe_sessions (st_pending s)) key = Some e \<and> ce_item e = Some record)"

lemma hasSession_put: "hasSession (qualifiedAddressToString address) record (putSession L conversationOf address record s)"
  by (simp add: hasSession_def putSession_def Let_def js_get_set)

lemma hasSession_load: "hasSession (qualifiedAddressToString address) record s \<Longrightarrow> snd (loadSession L address s) = Some record"
  by (auto simp: hasSession_def loadSession_def Let_def js_has_def)

lemma hasSession_loadSession: "hasSession key record s \<Longrightarrow> hasSession key record (fst (loadSession L address s))"
  by (auto simp: hasSession_def loadSession_def Let_def js_get_set split: option.split sum.split)

lemma pe_sessions_frame:
  "pe_sessions (st_pending (putSenderKey L now address distributionId sk s)) = pe_sessions (st_pending s)"
  "pe_sessions (st_pending (fst (getSenderKey L address distributionId s))) = pe_sessions (st_pending s)"
  "pe_sessions (st_pending (putPreKeysToRemove ids s)) = pe_sessions (st_pending s)"
  "pe_sessions (st_pending (putKyberPreKeysToRemove ids s)) = pe_sessions (st_pending s)"
  "pe_sessions (st_pending (putUnprocessed array s)) = pe_sessions (st_pending s)"
  by (simp_all add: putSenderKey_def getSenderKey_def putPreKeysToRemove_def putKyberPreKeysToRemove_def putUnprocessed_def
    Let_def del: append.simps split: option.split sum.split)

lemma pe_sessions_putKyberTriple: "putKyberTriple triple s = Inr s1 \<Longrightarrow> pe_sessions (st_pending s1) = pe_sessions (st_pending s)"
  by (auto simp: putKyberTriple_def Let_def split: if_splits)

lemma hasSession_perform:
  assumes has: "hasSession key record s" and p: "perform L conversationOf a s = Inr (s1, wr)" and a: "\<not> writesSession a"
  shows "hasSession key record s1"
proof (cases a)
  case (LoadSession address)
  with p hasSession_loadSession [OF has] show ?thesis by (auto simp: perform_def)
next
  case (MarkKyberTriple triple)
  with p has show ?thesis
    by (auto simp: perform_def bindE_eq_Inr hasSession_def dest: pe_sessions_putKyberTriple)
qed (use p has a in \<open>auto simp: perform_def writesSession_def hasSession_def pe_sessions_frame\<close>)

lemma load_after_commit:
  assumes "hasSession (qualifiedAddressToString address) record s" "pending_keyed (st_pending s)"
    and "commitZoneChanges io s = (s', Inr ())"
  shows "snd (loadSession L address s') = Some record"
proof -
  let ?k = "qualifiedAddressToString address" and ?p = "st_pending s"
  obtain e where e: "js_get (pe_sessions ?p) ?k = Some e" "ce_item e = Some record"
    using assms(1) by (auto simp: hasSession_def)
  then have "?p \<noteq> noPending" by (auto simp: noPending_def)
  with assms(3) obtain d where s': "s' = applyPending ?p (s\<lparr>st_pending := noPending, st_db := d\<rparr>)"
    by (auto simp: commitZoneChanges_def startCommit_def finishCommit_def split: sum.splits)
  have "map_of (rev (pe_sessions ?p)) ?k = Some e"
    using e assms(2) map_of_eq_Some_iff [of "rev (pe_sessions ?p)" ?k e] map_of_SomeD [OF e(1)]
    by (simp add: pending_keyed_def keyed_by_def rev_map [symmetric])
  then have "js_get (st_sessions s') ?k = Some e" by (simp add: s' applyPending_def js_get_setAll map_add_Some_iff)
  moreover have "st_pending s' = noPending" by (simp add: s' applyPending_def)
  ultimately show ?thesis using e(2) by (simp add: loadSession_def Let_def js_has_def noPending_def)
qed

text \<open>
C17: A call that collects its changes loads the session it has stored, and after the commit every call does.
\<close>

theorem session_reads_own_write:
  assumes "run L conversationOf c (map (Act n) (StoreSession address record # acts)) c1"
    and "js_get (cf_calls c) n = Some (zone, Running)" and "collectsAll zone" and "store_ok (cf_store c)"
    and "list_all (\<lambda>a. \<not> writesSession a) acts"
  shows "snd (loadSession L address (cf_store c1)) = Some record \<and>
    (case commitZoneChanges io (cf_store c1) of
       (_, Inl _) \<Rightarrow> True
     | (s, Inr _) \<Rightarrow> snd (loadSession L address s) = Some record)"
proof -
  let ?k = "qualifiedAddressToString address"
  let ?c0 = "c\<lparr>cf_store := putSession L conversationOf address record (cf_store c)\<rparr>"
  have rest: "run L conversationOf ?c0 (map (Act n) acts) c1"
    using assms(1-3) by (auto simp: exec_def actCall_def perform_def collectsAll_collects)
  let ?P = "\<lambda>s. store_ok s \<and> hasSession ?k record s"
  have "?P (cf_store c1)"
  proof (rule collecting_run [OF rest, THEN conjunct2])
    show "js_get (cf_calls ?c0) n = Some (zone, Running)" using assms(2) by simp
    show "?P (cf_store ?c0)" using assms(4) by (simp add: store_ok_put hasSession_put)
    show "?P s1" if "a \<in> set acts" "?P s" "perform L conversationOf a s = Inr (s1, wr)" for a s s1 wr
      using that assms(5) store_ok_perform hasSession_perform by (metis list_all_iff)
  qed (rule assms(3))
  then have own: "hasSession ?k record (cf_store c1)" "pending_keyed (st_pending (cf_store c1))"
    by (simp_all add: store_ok_def)
  with load_after_commit [OF own] hasSession_load [OF own(1)] show ?thesis
    by (auto split: prod.split sum.split)
qed

lemma session_reads_own_write_witness:
  "\<exists>c c1. runPlain [Enter (batchZone 1) 1] = Some c \<and>
    run plainSignal plainConversation c (map (Act 1) [StoreSession bobsPhone [5], RemovePreKeys [''us:9'']]) c1 \<and>
    snd (loadSession plainSignal bobsPhone (cf_store c1)) = Some [5]"
proof -
  have "case runPlain [Enter (batchZone 1) 1] of None \<Rightarrow> False
    | Some c \<Rightarrow> js_get (cf_calls c) 1 = Some (batchZone 1, Running)" by code_simp
  then obtain c where c: "runPlain [Enter (batchZone 1) 1] = Some c" "js_get (cf_calls c) 1 = Some (batchZone 1, Running)"
    by (cases "runPlain [Enter (batchZone 1) 1]") auto
  let ?acts = "[RemovePreKeys [''us:9'']] :: (bytes, bytes) action list"
  obtain c1 where c1: "run plainSignal plainConversation c (map (Act 1) (StoreSession bobsPhone [5] # ?acts)) c1"
    using c(2) by (auto simp: run_iff exec_def actCall_def perform_def collects_def batchZone_def)
  have ok: "store_ok (cf_store c)"
    using mirror_ok_run [OF run_plain [OF c(1)]] by (simp add: mirror_ok_def emptyConf_def store_ok_emptyStore)
  have "collectsAll (batchZone 1)" by (simp add: collectsAll_def batchZone_def)
  from session_reads_own_write [OF c1 c(2) this ok] have "snd (loadSession plainSignal bobsPhone (cf_store c1)) = Some [5]"
    by (simp add: writesSession_def)
  with c c1 show ?thesis by (intro exI [of _ c] exI [of _ c1]) simp
qed

end
