(* ===== verification/Session_Devices.thy ===== *)
theory Session_Devices
  imports Session_Coherence
begin

text \<open>
  The sessions of a user's devices (ts/SignalProtocolStore.preload.ts): which devices have an open session,
  and that archiving the sibling sessions of a device closes all of them.
\<close>

section \<open>All sessions\<close>

lemma setAll_sessionEntry:
  assumes "store_ok s"
  shows "js_get (setAll (pe_sessions (st_pending s)) (st_sessions s)) k = sessionEntry k s"
    and "distinct (js_keys (setAll (pe_sessions (st_pending s)) (st_sessions s)))"
proof -
  have p: "distinct (js_keys (pe_sessions (st_pending s)))" and c: "distinct (js_keys (st_sessions s))"
    using assms by (simp_all add: store_ok_def pending_keyed_def coherent_def keyed_by_def)
  have "map_of (rev (pe_sessions (st_pending s))) = map_of (pe_sessions (st_pending s))"
    using p by (intro map_of_inject_set [THEN iffD2]) (simp_all add: rev_map [symmetric])
  then show "js_get (setAll (pe_sessions (st_pending s)) (st_sessions s)) k = sessionEntry k s"
    by (simp add: js_get_setAll sessionEntry_def map_add_def)
  show "distinct (js_keys (setAll (pe_sessions (st_pending s)) (st_sessions s)))"
    using c by (simp add: setAll_def js.distinct_fold_assign)
qed

lemma getAllSessions_iff: "store_ok s \<Longrightarrow> e \<in> set (getAllSessions s) \<longleftrightarrow> (\<exists>k. sessionEntry k s = Some e)"
  unfolding getAllSessions_def using setAll_sessionEntry [of s] map_of_eq_Some_iff
  by (force simp: image_iff)

lemma sessionEntry_id: "store_ok s \<Longrightarrow> sessionEntry k s = Some e \<Longrightarrow> se_id (ce_fromDB e) = k"
  using keyed_by_get [of "se_id \<circ> ce_fromDB"]
  by (auto simp: sessionEntry_def store_ok_def coherent_def pending_keyed_def split: option.splits)

lemma getAllSessions_ids: "store_ok s \<Longrightarrow> distinct (map (se_id \<circ> ce_fromDB) (getAllSessions s))"
proof -
  assume ok: "store_ok s"
  have "keyed_by (se_id \<circ> ce_fromDB) (setAll (pe_sessions (st_pending s)) (st_sessions s))"
    using ok by (intro keyed_by_setAll_keyed) (simp_all add: store_ok_def coherent_def pending_keyed_def)
  then show ?thesis unfolding getAllSessions_def by (rule keyed_by_distinct)
qed

lemma sessionEntry_commit:
  assumes ok: "store_ok s" and c: "commitZoneChanges io s = (s', Inr u)"
  shows "sessionEntry k s' = sessionEntry k s" and "store_ok s'"
proof -
  have "store_ok s' \<and> sessionEntry k s' = sessionEntry k s"
  proof (cases "st_pending s = noPending")
    case True
    with c ok show ?thesis by (simp add: commitZoneChanges_def)
  next
    case False
    let ?p = "st_pending s" and ?s = "s\<lparr>st_pending := noPending\<rparr>"
    have f: "finishCommit io ?p ?s = (s', Inr u)"
      using c False by (simp add: commitZoneChanges_def startCommit_def)
    have "store_ok s'"
      using store_ok_finishCommit [of ?s ?p io] store_ok_startCommit [OF ok] f by (simp add: startCommit_def)
    moreover obtain d where "s' = applyPending ?p (?s\<lparr>st_db := d\<rparr>)"
      using f by (auto simp: finishCommit_def split: sum.splits)
    then have "st_pending s' = noPending" "st_sessions s' = setAll (pe_sessions ?p) (st_sessions s)"
      by (simp_all add: applyPending_def)
    then have "sessionEntry k s' = js_get (setAll (pe_sessions ?p) (st_sessions s)) k"
      by (simp add: sessionEntry_def noPending_def)
    then have "sessionEntry k s' = sessionEntry k s" using setAll_sessionEntry(1) [OF ok] by simp
    ultimately show ?thesis by blast
  qed
  then show "sessionEntry k s' = sessionEntry k s" "store_ok s'" by simp_all
qed

lemma commitUnless_ok:
  assumes "store_ok s" "commitUnless b io s = (s', Inr u)"
  shows "sessionEntry k s' = sessionEntry k s" and "store_ok s'"
  using assms sessionEntry_commit [OF assms(1)] by (auto simp: commitUnless_def split: if_splits)

section \<open>Archiving\<close>

text \<open>A session is closed when its record has no current state.\<close>

definition closed :: "('r, 'k) LibSignal \<Rightarrow> (SessionType, 'r) CacheEntryType \<Rightarrow> bool" where
  "closed L e = (case entryRecord L e of Inl _ \<Rightarrow> False | Inr r \<Rightarrow> \<not> hasCurrentState L r)"

text \<open>What libsignal promises of \<open>archiveCurrentState\<close>.\<close>

definition archives :: "('r, 'k) LibSignal \<Rightarrow> bool" where
  "archives L = (\<forall>r. \<not> hasCurrentState L (archiveCurrentState L r))"

text \<open>The id of a session is its address.\<close>

definition addressed :: "SessionType \<Rightarrow> bool" where
  "addressed row = (se_id row = qualifiedAddressToString (entryAddress row))"

definition sameDevice :: "SessionType \<Rightarrow> SessionType \<Rightarrow> bool" where
  "sameDevice a b = (se_serviceId a = se_serviceId b \<and> se_deviceId a = se_deviceId b)"

definition storedEntry :: "('r, 'k) LibSignal \<Rightarrow> (string \<Rightarrow> string) \<Rightarrow> QualifiedAddress \<Rightarrow> 'r \<Rightarrow> (SessionType, 'r) CacheEntryType" where
  "storedEntry L conversationOf address record =
    \<lparr>ce_fromDB = \<lparr>se_id = qualifiedAddressToString address, se_ourServiceId = qa_ourServiceId address,
       se_serviceId = qa_serviceId address, se_conversationId = conversationOf (qa_serviceId address),
       se_deviceId = qa_deviceId address, se_record = serializeSession L record\<rparr>,
     ce_item = Some record\<rparr>"

lemma sessionEntry_putSession:
  "sessionEntry k (putSession L conversationOf address record s) =
    (if k = qualifiedAddressToString address then Some (storedEntry L conversationOf address record) else sessionEntry k s)"
  by (simp add: sessionEntry_def putSession_def storedEntry_def Let_def js_get_set split: option.split)

lemma archiveEntry_closes:
  assumes ok: "store_ok s" and L: "archives L" and e: "sessionEntry k s = Some e" "addressed (ce_fromDB e)"
    and a: "archiveEntry L conversationOf zone io e s = (s', Inr u)"
  shows "store_ok s' \<and> (\<exists>e'. sessionEntry k s' = Some e' \<and> closed L e' \<and> sameDevice (ce_fromDB e') (ce_fromDB e)) \<and>
    (\<forall>k'. k' = k \<or> sessionEntry k' s' = sessionEntry k' s)"
proof (cases "archivePut L conversationOf e s")
  case (Inl err)
  with a show ?thesis by (simp add: archiveEntry_def)
next
  case (Inr r)
  have id: "se_id (ce_fromDB e) = k" using sessionEntry_id [OF ok e(1)] .
  show ?thesis
  proof (cases r)
    case None
    with Inr have "closed L e"
      by (auto simp: archivePut_def bindE_eq_Inr closed_def Let_def split: if_splits)
    with None Inr a ok e(1) show ?thesis by (auto simp: archiveEntry_def sameDevice_def)
  next
    case (Some s1)
    then obtain item where item: "entryRecord L e = Inr item"
      and s1: "s1 = putSession L conversationOf (entryAddress (ce_fromDB e)) (archiveCurrentState L item)
        (if ce_item e \<noteq> None \<and> \<not> js_has (pe_sessions (st_pending s)) k
         then s\<lparr>st_sessions := js_set k (e\<lparr>ce_item := Some (archiveCurrentState L item)\<rparr>) (st_sessions s)\<rparr> else s)"
      using Inr id by (auto simp: archivePut_def bindE_eq_Inr Let_def split: if_splits)
    have ok1: "store_ok s1" using store_ok_archivePut [OF ok e(1)] Inr Some by simp
    have key: "qualifiedAddressToString (entryAddress (ce_fromDB e)) = k" using e(2) id by (simp add: addressed_def)
    have at: "\<exists>e'. sessionEntry k s1 = Some e' \<and> closed L e' \<and> sameDevice (ce_fromDB e') (ce_fromDB e)"
      using L by (simp add: s1 sessionEntry_putSession key storedEntry_def closed_def entryRecord_def archives_def
        sameDevice_def) (simp add: entryAddress_def)
    have others: "sessionEntry k' s1 = sessionEntry k' s" if "k' \<noteq> k" for k'
      using that by (simp add: s1 sessionEntry_putSession key) (simp add: sessionEntry_def js_get_set split: option.split)
    have "commitUnless (z_pendingSessions zone) io s1 = (s', Inr u)" using a Inr Some by (simp add: archiveEntry_def)
    from commitUnless_ok [OF ok1 this] at others show ?thesis by auto
  qed
qed

lemma archiveEntries_Cons:
  "archiveEntries L conversationOf zone io (e # es) s =
    (case archiveEntry L conversationOf zone io e s of
       (s1, Inl err) \<Rightarrow> (s1, Inl err)
     | (s1, Inr _) \<Rightarrow> archiveEntries L conversationOf zone io es s1)"
proof -
  have failed: "fold (\<lambda>e. andThen (archiveEntry L conversationOf zone io e)) es (s1, Inl err) = (s1, Inl err)" for s1 err
    by (induction es) (simp_all add: andThen_def)
  then show ?thesis by (simp add: archiveEntries_def andThen_def split: prod.split sum.split)
qed

lemma archiveEntries_close:
  assumes "store_ok s" "archives L" "distinct (map (se_id \<circ> ce_fromDB) es)"
    and "\<forall>e \<in> set es. sessionEntry (se_id (ce_fromDB e)) s = Some e \<and> addressed (ce_fromDB e)"
    and "archiveEntries L conversationOf zone io es s = (s', Inr u)"
  shows "store_ok s' \<and> (\<forall>e \<in> set es. \<exists>e'. sessionEntry (se_id (ce_fromDB e)) s' = Some e' \<and> closed L e') \<and>
    (\<forall>k. k \<in> (se_id \<circ> ce_fromDB) ` set es \<or> sessionEntry k s' = sessionEntry k s)"
  using assms
proof (induction es arbitrary: s)
  case Nil
  then show ?case by (simp add: archiveEntries_def)
next
  case (Cons e es)
  obtain s1 where s1: "archiveEntry L conversationOf zone io e s = (s1, Inr ())"
    and rest: "archiveEntries L conversationOf zone io es s1 = (s', Inr u)"
    using Cons.prems(5) by (auto simp: archiveEntries_Cons split: prod.splits sum.splits)
  let ?k = "se_id (ce_fromDB e)"
  have "store_ok s1" and here: "\<exists>e'. sessionEntry ?k s1 = Some e' \<and> closed L e'"
    and others: "\<And>k. k \<noteq> ?k \<Longrightarrow> sessionEntry k s1 = sessionEntry k s"
    using archiveEntry_closes [OF Cons.prems(1,2) _ _ s1, of ?k] Cons.prems(4) by auto
  moreover have "\<forall>e \<in> set es. sessionEntry (se_id (ce_fromDB e)) s1 = Some e \<and> addressed (ce_fromDB e)"
    using Cons.prems(3,4) others by (auto simp: image_iff)
  ultimately have IH: "store_ok s'" "\<forall>e \<in> set es. \<exists>e'. sessionEntry (se_id (ce_fromDB e)) s' = Some e' \<and> closed L e'"
    "\<forall>k. k \<in> (se_id \<circ> ce_fromDB) ` set es \<or> sessionEntry k s' = sessionEntry k s1"
    using Cons.IH [OF _ Cons.prems(2) _ _ rest] Cons.prems(3) by simp_all
  have "?k \<notin> (se_id \<circ> ce_fromDB) ` set es" using Cons.prems(3) by auto
  then have "sessionEntry ?k s' = sessionEntry ?k s1" using IH(3) by blast
  then have "\<exists>e'. sessionEntry ?k s' = Some e' \<and> closed L e'" using here by simp
  moreover have "k \<in> (se_id \<circ> ce_fromDB) ` set (e # es) \<or> sessionEntry k s' = sessionEntry k s" for k
    using IH(3) others [of k] by (cases "k = ?k") auto
  ultimately show ?case using IH(1,2) by simp
qed

lemma archiveSiblingSessions_closes:
  assumes ok: "store_ok s" and L: "archives L" and addr: "list_all (addressed \<circ> ce_fromDB) (getAllSessions s)"
    and a: "archiveSiblingSessions L conversationOf u d zone io s = (s', Inr x)"
    and e: "e \<in> set (getAllSessions s')" "se_serviceId (ce_fromDB e) = u" "se_deviceId (ce_fromDB e) \<noteq> d"
  shows "closed L e"
proof -
  let ?es = "filter (\<lambda>e. se_serviceId (ce_fromDB e) = u \<and> se_deviceId (ce_fromDB e) \<noteq> d) (getAllSessions s)"
  have entries: "sessionEntry (se_id (ce_fromDB e)) s = Some e \<and> addressed (ce_fromDB e)" if "e \<in> set (getAllSessions s)" for e
    using that addr getAllSessions_iff [OF ok, of e] sessionEntry_id [OF ok] by (auto simp: list_all_iff)
  have dist: "distinct (map (se_id \<circ> ce_fromDB) ?es)"
    using getAllSessions_ids [OF ok] by (simp add: distinct_map_filter)
  have pre: "\<forall>e \<in> set ?es. sessionEntry (se_id (ce_fromDB e)) s = Some e \<and> addressed (ce_fromDB e)"
    by (simp add: entries)
  note closing = archiveEntries_close [OF ok L dist pre a [unfolded archiveSiblingSessions_def]]
  note all = closing [THEN conjunct1] closing [THEN conjunct2, THEN conjunct1] closing [THEN conjunct2, THEN conjunct2]
  let ?k = "se_id (ce_fromDB e)"
  have at: "sessionEntry ?k s' = Some e"
    using e(1) getAllSessions_iff [OF all(1), of e] sessionEntry_id [OF all(1)] by auto
  show ?thesis
  proof (cases "?k \<in> (se_id \<circ> ce_fromDB) ` set ?es")
    case True
    then obtain e0 where "e0 \<in> set ?es" "se_id (ce_fromDB e0) = ?k" by auto
    moreover from this(1) all(2) obtain e' where "sessionEntry (se_id (ce_fromDB e0)) s' = Some e'" "closed L e'" by blast
    ultimately show ?thesis using at by simp
  next
    case False
    with all(3) have "sessionEntry ?k s' = sessionEntry ?k s" by blast
    then have "sessionEntry ?k s = Some e" using at by (rule trans [OF sym])
    then have "e \<in> set (getAllSessions s)" using getAllSessions_iff [OF ok, of e] by blast
    then have "e \<in> set ?es" by (simp add: e(2,3))
    then have "?k \<in> (se_id \<circ> ce_fromDB) ` set ?es" by (rule rev_image_eqI) simp
    with False show ?thesis by blast
  qed
qed

section \<open>Open devices\<close>

lemma set_mapE: "mapE f xs = Inr ys \<Longrightarrow> set ys = {y. \<exists>x \<in> set xs. f x = Inr y}"
  by (induction xs arbitrary: ys) (auto simp: bindE_eq_Inr)

lemma set_map_filter_iff: "y \<in> set (List.map_filter f xs) \<longleftrightarrow> (\<exists>x \<in> set xs. f x = Some y)"
  by (induction xs) (auto simp: List.map_filter_simps split: option.split)

lemma openDevice_user: "openDevice L e = Inr (Some d) \<Longrightarrow> de_serviceId d = se_serviceId (ce_fromDB e)"
  by (auto simp: openDevice_def bindE_eq_Inr split: if_splits)

definition requestedDevice :: "('r, 'k) LibSignal \<Rightarrow> string \<Rightarrow> string list \<Rightarrow> (SessionType, 'r) CacheEntryType \<Rightarrow> DeviceType option" where
  "requestedDevice L ourServiceId serviceIds e =
    (if se_ourServiceId (ce_fromDB e) = ourServiceId \<and> se_serviceId (ce_fromDB e) \<in> set serviceIds
     then (case openDevice L e of Inr d \<Rightarrow> d | Inl _ \<Rightarrow> None) else None)"

lemma requestedDevice_iff: "requestedDevice L ourServiceId serviceIds e = Some d \<longleftrightarrow>
    se_ourServiceId (ce_fromDB e) = ourServiceId \<and> se_serviceId (ce_fromDB e) \<in> set serviceIds \<and> openDevice L e = Inr (Some d)"
  by (cases "openDevice L e") (auto simp: requestedDevice_def)


end
