(* ===== verification/Identity_Safety.thy ===== *)
theory Identity_Safety
  imports Identity_Keys Session_Devices
begin

text \<open>
  Safety of the identity keys (ts/SignalProtocolStore.preload.ts): what one operation does to the record of
  a contact, and what holds along every sequence of operations on all contacts.
\<close>

section \<open>Operations and runs\<close>

datatype identity_op =
    SaveIdentity string nat bytes bool Zone bool
  | SaveAttributes string IdentityAttributes
  | SetApproval string bool
  | SetVerified string int IdentityAttributes
  | AfterSync string int bytes
  | RemoveKey string
  | CheckTrust string bytes Direction

definition identityStep :: "('r, 'k) LibSignal \<Rightarrow> IdentityEnv \<times> unit js \<times> identity_op \<Rightarrow> ('r, 'k) identity_state \<Rightarrow>
    ('r, 'k) identity_state" where
  "identityStep L ev s =
    (case ev of (E, io, op) \<Rightarrow>
      (case op of
         SaveIdentity serviceId deviceId publicKey approval zone noOverwrite \<Rightarrow>
           fst (saveIdentity L E io serviceId deviceId publicKey approval zone noOverwrite s)
       | SaveAttributes serviceId attributes \<Rightarrow> fst (saveIdentityWithAttributes E io serviceId attributes s)
       | SetApproval serviceId approval \<Rightarrow> fst (setApproval io serviceId approval s)
       | SetVerified serviceId status extra \<Rightarrow> fst (setVerified io serviceId status extra s)
       | AfterSync serviceId status publicKey \<Rightarrow> fst (updateIdentityAfterSync E io serviceId status publicKey s)
       | RemoveKey serviceId \<Rightarrow> fst (removeIdentityKey io serviceId s)
       | CheckTrust serviceId publicKey direction \<Rightarrow> fst (isTrustedIdentity E io serviceId publicKey direction s)))"

definition identityRun :: "('r, 'k) LibSignal \<Rightarrow> (IdentityEnv \<times> unit js \<times> identity_op) list \<Rightarrow> ('r, 'k) identity_state \<Rightarrow>
    ('r, 'k) identity_state" where
  "identityRun L evs s = fold (identityStep L) evs s"

text \<open>The contact of an operation, and the operations that decide about its verification.\<close>

definition subject :: "identity_op \<Rightarrow> string" where
  "subject op =
    (case op of
       SaveIdentity u _ _ _ _ _ \<Rightarrow> u | SaveAttributes u _ \<Rightarrow> u | SetApproval u _ \<Rightarrow> u | SetVerified u _ _ \<Rightarrow> u
     | AfterSync u _ _ \<Rightarrow> u | RemoveKey u \<Rightarrow> u | CheckTrust u _ _ \<Rightarrow> u)"

definition decides :: "identity_op \<Rightarrow> bool" where
  "decides op =
    (case op of SaveAttributes _ _ \<Rightarrow> True | SetVerified _ _ _ \<Rightarrow> True | AfterSync _ _ _ \<Rightarrow> True | RemoveKey _ \<Rightarrow> True | _ \<Rightarrow> False)"

text \<open>The id of a contact is none of a conversation.\<close>

definition isContact :: "string \<Rightarrow> bool" where
  "isContact u = (\<not> isPrefix ''conversation:'' u)"

section \<open>The parts of the operations\<close>

text \<open>The records stay stored under their ids.\<close>

definition keys_ok :: "('r, 'k) identity_state \<Rightarrow> bool" where
  "keys_ok s = keyed_by ik_id (is_keys s)"

lemma conversationKey_contact: "isContact u \<Longrightarrow> conversationKey i \<noteq> u"
  by (auto simp: isContact_def isPrefix_def conversationKey_def)

lemma saveIdentityKey_keys:
  "keys_ok s \<Longrightarrow> keys_ok (fst (saveIdentityKey io data s))"
  "js_get (is_keys (fst (saveIdentityKey io data s))) u =
    (if isl (snd (saveIdentityKey io data s)) \<or> u \<noteq> ik_id data then js_get (is_keys s) u else Some data)"
  by (auto simp: saveIdentityKey_def keys_ok_def js_get_set intro: keyed_by_set split: sum.split)

lemma saveIdentityKey_changes [simp]:
  "is_keychanges (fst (saveIdentityKey io data s)) = is_keychanges s"
  "is_conversations (fst (saveIdentityKey io data s)) = is_conversations s"
  "is_store (fst (saveIdentityKey io data s)) = is_store s"
  by (simp_all add: saveIdentityKey_def split: sum.split)

lemma getOrMigrate_known:
  "js_get (is_keys s) u = Some r \<Longrightarrow> getOrMigrateIdentityRecord io u s = (s, Inr (Some r))"
  by (simp add: getOrMigrateIdentityRecord_def getIdentityRecord_def)

lemma getOrMigrate_keys:
  assumes ok: "keys_ok s" and u: "isContact u"
  shows "keys_ok (fst (getOrMigrateIdentityRecord io v s))"
    and "v \<noteq> u \<Longrightarrow> js_get (is_keys (fst (getOrMigrateIdentityRecord io v s))) u = js_get (is_keys s) u"
    and "is_keychanges (fst (getOrMigrateIdentityRecord io v s)) = is_keychanges s"
proof -
  have key: "ik_id r = conversationKey i" if "js_get (is_keys s) (conversationKey i) = Some r" for r i
    using ok that keyed_by_get [of ik_id] by (auto simp: keys_ok_def)
  show "keys_ok (fst (getOrMigrateIdentityRecord io v s))"
    using ok by (auto simp: getOrMigrateIdentityRecord_def Let_def fst_bindS keys_ok_def saveIdentityKey_def
      intro!: keyed_by_del keyed_by_set split: option.split sum.split)
  show "js_get (is_keys (fst (getOrMigrateIdentityRecord io v s))) u = js_get (is_keys s) u" if "v \<noteq> u"
    using that key conversationKey_contact [OF u]
    by (auto simp: getOrMigrateIdentityRecord_def Let_def fst_bindS js_get_del js_get_set saveIdentityKey_def
      split: option.split sum.split)
  show "is_keychanges (fst (getOrMigrateIdentityRecord io v s)) = is_keychanges s"
    by (auto simp: getOrMigrateIdentityRecord_def Let_def fst_bindS split: option.split sum.split)
qed

lemma getOrMigrate_result:
  assumes ok: "keys_ok s" and u: "isContact v" and r: "snd (getOrMigrateIdentityRecord io v s) = Inr (Some r)"
  shows "ik_id r = v \<and> js_get (is_keys (fst (getOrMigrateIdentityRecord io v s))) v = Some r"
proof (cases "js_get (is_keys s) v")
  case (Some r')
  with r ok keyed_by_get [of ik_id] show ?thesis by (auto simp: getOrMigrate_known keys_ok_def)
next
  case None
  have key: "ik_id r = conversationKey i" if "js_get (is_keys s) (conversationKey i) = Some r" for r i
    using ok that keyed_by_get [of ik_id] by (auto simp: keys_ok_def)
  show ?thesis
    using None r key conversationKey_contact [OF u]
    by (auto simp: getOrMigrateIdentityRecord_def getIdentityRecord_def Let_def bindS_def js_get_del js_get_set
      saveIdentityKey_def split: option.splits sum.splits if_splits prod.splits)
qed

lemma checkPreviousKey_frame [simp]: "is_keys (checkPreviousKey u k ctxt s) = is_keys s"
  "is_store (checkPreviousKey u k ctxt s) = is_store s"
  by (auto simp: checkPreviousKey_def emitKeychange_def Let_def split: option.split)

lemma emitKeychange_frame [simp]: "is_keys (emitKeychange u reason s) = is_keys s"
  "is_keychanges (emitKeychange u reason s) = is_keychanges s @ [(u, reason)]" "is_store (emitKeychange u reason s) = is_store s"
  by (simp_all add: emitKeychange_def)

lemma archiveSiblings_frame [simp]:
  "is_keys (fst (archiveSiblings L E u d zone io s)) = is_keys s"
  "is_keychanges (fst (archiveSiblings L E u d zone io s)) = is_keychanges s"
  by (simp_all add: archiveSiblings_def split_beta)

lemma ensureConversation_frame [simp]: "is_keys (ensureConversation E u s) = is_keys s"
  "is_keychanges (ensureConversation E u s) = is_keychanges s"
  by (simp_all add: ensureConversation_def)

lemma approveAndSave_keys:
  assumes "ik_id r = u"
  shows "keys_ok s \<Longrightarrow> keys_ok (fst (approveAndSave io u r a s))"
    and "is_keys (fst (approveAndSave io u r a s)) = js_set u (r\<lparr>ik_nonblockingApproval := a\<rparr>) (is_keys s) \<or>
      is_keys (fst (approveAndSave io u r a s)) = js_set u (r\<lparr>ik_nonblockingApproval := a\<rparr>) (js_set u (r\<lparr>ik_nonblockingApproval := a\<rparr>) (is_keys s))"
    and "is_keychanges (fst (approveAndSave io u r a s)) = is_keychanges s"
  using assms by (auto simp: approveAndSave_def saveIdentityKey_def keys_ok_def Let_def intro!: keyed_by_set split: sum.split)

lemma validateIdentityKey_id: "validateIdentityKey key a = Inr r \<Longrightarrow> ik_id r = key"
  by (auto simp: validateIdentityKey_def split: option.splits if_splits)

lemma validate_attributesOf: "validateIdentityKey (ik_id r) (attributesOf r) = Inr r' \<Longrightarrow> r' = r"
  by (auto simp: validateIdentityKey_def attributesOf_def split: if_splits)

lemma saveIdentityWithAttributes_keys:
  assumes ok: "keys_ok s" and u: "isContact u"
  shows "keys_ok (fst (saveIdentityWithAttributes E io v a s))"
    and "v \<noteq> u \<Longrightarrow> js_get (is_keys (fst (saveIdentityWithAttributes E io v a s))) u = js_get (is_keys s) u"
    and "is_keychanges (fst (saveIdentityWithAttributes E io v a s)) = is_keychanges s"
  using getOrMigrate_keys [OF ok u, where io = io and v = v]
  by (auto simp: saveIdentityWithAttributes_def fst_bindS Let_def saveIdentityKey_keys keys_ok_def
    dest: validateIdentityKey_id split: sum.split)
    (auto simp: saveIdentityKey_def intro: keyed_by_set split: sum.split)

section \<open>Operations on other contacts\<close>

text \<open>What the operations on one contact keep: the records under their ids, and the record of another one.\<close>

definition recordIs :: "string \<Rightarrow> IdentityKeyType option \<Rightarrow> ('r, 'k) identity_state \<Rightarrow> bool" where
  "recordIs u r s = (keys_ok s \<and> js_get (is_keys s) u = r)"

lemma recordIs_save: "recordIs u g s \<Longrightarrow> ik_id data \<noteq> u \<Longrightarrow> recordIs u g (fst (saveIdentityKey io data s))"
  by (simp add: recordIs_def saveIdentityKey_keys)

lemma recordIs_approve: "recordIs u g s \<Longrightarrow> ik_id r = v \<Longrightarrow> v \<noteq> u \<Longrightarrow> recordIs u g (fst (approveAndSave io v r a s))"
  using approveAndSave_keys [where r = r and u = v and s = s and io = io and a = a] by (auto simp: recordIs_def js_get_set)

lemma recordIs_frame [simp]:
  "recordIs u g (checkPreviousKey v k ctxt s) = recordIs u g s"
  "recordIs u g (emitKeychange v reason s) = recordIs u g s"
  "recordIs u g (fst (archiveSiblings L E v d zone io s)) = recordIs u g s"
  by (simp_all add: recordIs_def keys_ok_def)

lemma recordIs_migrate:
  "recordIs u g s \<Longrightarrow> isContact u \<Longrightarrow> v \<noteq> u \<Longrightarrow> recordIs u g (fst (getOrMigrateIdentityRecord io v s))"
  by (simp add: recordIs_def getOrMigrate_keys)

lemma recordIs_migrated:
  assumes "recordIs u g s" "isContact v" "snd (getOrMigrateIdentityRecord io v s) = Inr (Some r)"
  shows "ik_id r = v"
  using getOrMigrate_result [OF _ assms(2,3)] assms(1) by (simp add: recordIs_def)

lemma recordIs_attributes:
  "recordIs u g s \<Longrightarrow> isContact u \<Longrightarrow> v \<noteq> u \<Longrightarrow> recordIs u g (fst (saveIdentityWithAttributes E io v a s))"
  by (simp add: recordIs_def saveIdentityWithAttributes_keys)

lemma recordIs_saveIdentity:
  assumes "recordIs u g s" "isContact u" "isContact v" "v \<noteq> u"
  shows "recordIs u g (fst (saveIdentity L E io v d k ap zone no s))"
  unfolding saveIdentity_def saveNewIdentity_def replaceIdentity_def
  using assms
  by (auto intro!: bindS_inv [where P = "recordIs u g"] recordIs_migrate recordIs_save recordIs_approve dest: recordIs_migrated split: option.split)

lemma recordIs_setVerified:
  assumes "recordIs u g s" "isContact u" "isContact v" "v \<noteq> u"
  shows "recordIs u g (fst (setVerified io v status ex s))"
proof -
  have id: "ik_id r' = v" if "snd (getOrMigrateIdentityRecord io v s) = Inr (Some r)"
    "validateIdentityKey (ik_id r) (attributesOf r) = Inr r'" for r r'
    using recordIs_migrated [OF assms(1,3) that(1)] validate_attributesOf [OF that(2)] by simp
  have step: "recordIs u g (fst (case x of None \<Rightarrow> (s1, throw ''setVerified: No identity record'')
      | Some identityRecord \<Rightarrow>
          (case validateIdentityKey (ik_id identityRecord) (attributesOf identityRecord) of
             Inl e \<Rightarrow> (s1, Inl e)
           | Inr r \<Rightarrow> saveIdentityKey io (F r) s1)))"
    if "snd (getOrMigrateIdentityRecord io v s) = Inr x" "recordIs u g s1" "\<And>r. ik_id (F r) = ik_id r" for x s1 F
  proof (cases x)
    case None
    then show ?thesis using that(2) by simp
  next
    case (Some r)
    show ?thesis
    proof (cases "validateIdentityKey (ik_id r) (attributesOf r)")
      case (Inl e)
      then show ?thesis using Some that(2) by simp
    next
      case (Inr r')
      from id [OF _ Inr] that(1) Some have "ik_id r' = v" by simp
      then have "ik_id (F r') \<noteq> u" using that(3) assms(4) by simp
      from recordIs_save [OF that(2) this] Some Inr show ?thesis by simp
    qed
  qed
  show ?thesis
    unfolding setVerified_def using assms
    by (auto intro!: bindS_inv [where P = "recordIs u g"] recordIs_migrate step)
qed

lemma recordIs_setApproval:
  assumes "recordIs u g s" "isContact u" "isContact v" "v \<noteq> u"
  shows "recordIs u g (fst (setApproval io v ap s))"
  unfolding setApproval_def using assms
  by (auto intro!: bindS_inv [where P = "recordIs u g"] recordIs_migrate recordIs_approve dest: recordIs_migrated split: option.split)

lemma recordIs_afterSync:
  assumes "recordIs u g s" "isContact u" "v \<noteq> u"
  shows "recordIs u g (fst (updateIdentityAfterSync E io v status k s))"
  unfolding updateIdentityAfterSync_def Let_def using assms
  by (auto intro!: bindS_inv [where P = "recordIs u g"] recordIs_migrate recordIs_attributes)

lemma recordIs_remove: "recordIs u g s \<Longrightarrow> v \<noteq> u \<Longrightarrow> recordIs u g (fst (removeIdentityKey io v s))"
  by (auto simp: removeIdentityKey_def recordIs_def keys_ok_def js_get_del Let_def split_beta intro: keyed_by_del split: sum.split)

lemma other_contact_unchanged:
  assumes "recordIs u g s" "isContact u" "isContact (subject op)" "subject op \<noteq> u"
  shows "recordIs u g (identityStep L (E, io, op) s)"
  using assms
  by (cases op) (auto simp: identityStep_def subject_def isTrustedIdentity_def fst_bindS
    intro!: recordIs_saveIdentity recordIs_attributes recordIs_setApproval recordIs_setVerified recordIs_afterSync
      recordIs_remove recordIs_migrate split: sum.split)

section \<open>Operations on the contact itself\<close>

text \<open>A contact with a record: what \<open>saveIdentity\<close> makes of it.\<close>

lemma saveIdentity_known:
  assumes "js_get (is_keys s) u = Some r" and "k \<noteq> []"
  shows "saveIdentity L E io u d k ap zone no s =
    (if no then (s, Inr NewOrUnchanged)
     else if ik_publicKey r \<noteq> k
     then (if isOurServiceId E u then (s, Inr NewOrUnchanged) else replaceIdentity L E io u d k ap zone r s)
     else if isNonBlockingApprovalRequired (ie_now E) r
     then bindS (approveAndSave io u r ap s) (\<lambda>_ s2. (s2, Inr NewOrUnchanged))
     else (s, Inr NewOrUnchanged))"
  using assms by (simp add: saveIdentity_def getOrMigrate_known bindS_def)

lemma replaceIdentity_record:
  assumes "keys_ok s"
  shows "keys_ok (fst (replaceIdentity L E io u d k ap zone r s))"
    and "fst (replaceIdentity L E io u d k ap zone r s) = s \<or>
      js_get (is_keys (fst (replaceIdentity L E io u d k ap zone r s))) u = Some
        \<lparr>ik_id = u, ik_publicKey = k, ik_firstUse = False, ik_timestamp = ie_now E,
         ik_verified = statusAfterChange (ik_verified r), ik_nonblockingApproval = ap\<rparr> \<and>
      is_keychanges (fst (replaceIdentity L E io u d k ap zone r s)) = is_keychanges s @ [(u, ''saveIdentity - change'')]"
proof -
  show "keys_ok (fst (replaceIdentity L E io u d k ap zone r s))"
    unfolding replaceIdentity_def using assms
    by (auto intro!: bindS_inv [where P = keys_ok] simp: saveIdentityKey_keys)
      (simp_all add: keys_ok_def saveIdentityKey_keys [unfolded keys_ok_def])
  show "fst (replaceIdentity L E io u d k ap zone r s) = s \<or>
      js_get (is_keys (fst (replaceIdentity L E io u d k ap zone r s))) u = Some
        \<lparr>ik_id = u, ik_publicKey = k, ik_firstUse = False, ik_timestamp = ie_now E,
         ik_verified = statusAfterChange (ik_verified r), ik_nonblockingApproval = ap\<rparr> \<and>
      is_keychanges (fst (replaceIdentity L E io u d k ap zone r s)) = is_keychanges s @ [(u, ''saveIdentity - change'')]"
    unfolding replaceIdentity_def
    by (cases io; cases "u = []") (auto simp: fst_bindS saveIdentityKey_def js_get_set split: sum.split)
qed

text \<open>A record that is kept up to the approval.\<close>

lemma approve_record:
  assumes "keys_ok s" "js_get (is_keys s) u = Some r"
  shows "keys_ok (fst (approveAndSave io u r a s)) \<and>
    js_get (is_keys (fst (approveAndSave io u r a s))) u = Some (r\<lparr>ik_nonblockingApproval := a\<rparr>)"
proof -
  have "ik_id r = u" using assms keyed_by_get [of ik_id] by (auto simp: keys_ok_def)
  from approveAndSave_keys [OF this, where s = s and io = io and a = a] assms(1) show ?thesis by (auto simp: js_get_set)
qed

text \<open>The record of a contact after an operation that does not decide about its verification.\<close>

definition changedRecord :: "IdentityEnv \<Rightarrow> string \<Rightarrow> bytes \<Rightarrow> bool \<Rightarrow> IdentityKeyType \<Rightarrow> IdentityKeyType" where
  "changedRecord E u k ap r =
    \<lparr>ik_id = u, ik_publicKey = k, ik_firstUse = False, ik_timestamp = ie_now E,
     ik_verified = statusAfterChange (ik_verified r), ik_nonblockingApproval = ap\<rparr>"

definition follows :: "IdentityEnv \<Rightarrow> string \<Rightarrow> IdentityKeyType \<Rightarrow> IdentityKeyType \<Rightarrow> bool" where
  "follows E u r r' =
    (r' = r \<or> (\<exists>a. r' = r\<lparr>ik_nonblockingApproval := a\<rparr>) \<or>
     (\<not> isOurServiceId E u \<and> (\<exists>k ap. r' = changedRecord E u k ap r)))"

lemma follows_intros:
  "follows E u r r" "follows E u r (r\<lparr>ik_nonblockingApproval := a\<rparr>)"
  "\<not> isOurServiceId E u \<Longrightarrow> follows E u r (changedRecord E u k ap r)"
  by (auto simp: follows_def)

lemma saveIdentity_follows:
  assumes ok: "keys_ok s" and r: "js_get (is_keys s) u = Some r"
  shows "\<exists>r'. recordIs u (Some r') (fst (saveIdentity L E io u d k ap zone no s)) \<and> follows E u r r'"
proof (cases "k = []")
  case True
  with ok r show ?thesis by (auto simp: saveIdentity_def recordIs_def follows_def)
next
  case False
  note known = saveIdentity_known [OF r False, of L E io d ap zone no]
  have same: "recordIs u (Some r) s" using ok r by (simp add: recordIs_def)
  have "\<exists>r'. recordIs u (Some r') (fst (replaceIdentity L E io u d k ap zone r s)) \<and> follows E u r r'"
    if "\<not> isOurServiceId E u"
    using replaceIdentity_record [OF ok, of L E io u d k ap zone r] same follows_intros(1,3) that
    by (auto simp: recordIs_def changedRecord_def)
  moreover have "\<exists>r'. recordIs u (Some r') (fst (bindS (approveAndSave io u r ap s) (\<lambda>_ s2. (s2, Inr NewOrUnchanged)))) \<and>
      follows E u r r'"
    using approve_record [OF ok r, of io ap] follows_intros(2) by (auto simp: fst_bindS recordIs_def split: sum.split)
  ultimately show ?thesis using same follows_intros(1) by (auto simp: known)
qed

lemma contact_step:
  assumes ok: "keys_ok s" and u: "isContact u" and r: "js_get (is_keys s) u = Some r"
    and op: "isContact (subject op)" "subject op \<noteq> u \<or> \<not> decides op"
  shows "\<exists>r'. recordIs u (Some r') (identityStep L (E, io, op) s) \<and> follows E u r r'"
proof (cases "subject op = u")
  case False
  have "recordIs u (Some r) s" using ok r by (simp add: recordIs_def)
  from other_contact_unchanged [OF this u op(1) False] follows_intros(1) show ?thesis by blast
next
  case True
  with op(2) have "\<not> decides op" by simp
  then show ?thesis
  proof (cases op)
    case (SaveIdentity v d k ap zone no)
    with True saveIdentity_follows [OF ok r] show ?thesis by (simp add: identityStep_def subject_def)
  next
    case (SetApproval v ap)
    with True r approve_record [OF ok r, of io ap] follows_intros(2) show ?thesis
      by (auto simp: identityStep_def subject_def setApproval_def getOrMigrate_known bindS_def recordIs_def)
  next
    case (CheckTrust v k dir)
    with True ok r follows_intros(1) show ?thesis
      by (auto simp: identityStep_def subject_def isTrustedIdentity_def getOrMigrate_known bindS_def recordIs_def)
  qed (auto simp: decides_def)
qed

text \<open>What follows from a record with a property has it, along a run.\<close>

lemma contact_run:
  assumes "recordIs u (Some r) s" "isContact u" "P r"
    and "list_all (\<lambda>(E, io, op). isContact (subject op) \<and> (subject op \<noteq> u \<or> \<not> decides op) \<and> Q E) evs"
    and inv: "\<And>E r r'. Q E \<Longrightarrow> follows E u r r' \<Longrightarrow> P r \<Longrightarrow> P r'"
  shows "\<exists>r'. recordIs u (Some r') (identityRun L evs s) \<and> P r'"
  using assms(1,3,4)
proof (induction evs arbitrary: s r)
  case Nil
  then show ?case by (auto simp: identityRun_def)
next
  case (Cons ev evs)
  obtain E io op where ev: "ev = (E, io, op)" by (cases ev)
  then have op: "isContact (subject op)" "subject op \<noteq> u \<or> \<not> decides op" "Q E" using Cons.prems(3) by simp_all
  obtain r' where r': "recordIs u (Some r') (identityStep L ev s)" "follows E u r r'"
    using contact_step [OF _ assms(2) _ op(1,2)] Cons.prems(1) by (metis recordIs_def ev)
  from Cons.IH [OF r'(1) inv [OF op(3) r'(2) Cons.prems(2)]] Cons.prems(3) show ?case by (simp add: identityRun_def)
qed

lemma follows_unverified: "follows E u r r' \<Longrightarrow> ik_verified r = VerifiedStatus_UNVERIFIED \<Longrightarrow> ik_verified r' = VerifiedStatus_UNVERIFIED"
  by (auto simp: follows_def changedRecord_def statusAfterChange_def)

lemma replaced_record:
  assumes "keys_ok s" "js_get (is_keys s) u = Some r"
    and "saveIdentity L E io u d k ap zone no s = (s', Inr ReplacedExisting)"
  shows "recordIs u (Some (changedRecord E u k ap r)) s' \<and> is_keychanges s' = is_keychanges s @ [(u, ''saveIdentity - change'')]"
proof -
  have "k \<noteq> []" using assms(3) by (auto simp: saveIdentity_def)
  then have rep: "replaceIdentity L E io u d k ap zone r s = (s', Inr ReplacedExisting)"
    using assms(3) saveIdentity_known [OF assms(2), of k L E io d ap zone no]
    by (auto simp: bindS_def split: if_splits sum.splits prod.splits)
  then have "s' \<noteq> s"
    by (auto simp: replaceIdentity_def bindS_def saveIdentityKey_def archiveSiblings_def emitKeychange_def
      split: sum.splits prod.splits if_splits dest!: arg_cong [where f = is_keychanges])
  with rep replaceIdentity_record [OF assms(1), of L E io u d k ap zone r] show ?thesis
    by (simp add: recordIs_def changedRecord_def)
qed

section \<open>Properties\<close>

text \<open>Concrete data: Bob is verified and has sessions with two devices.\<close>

definition bobsTablet :: QualifiedAddress where
  "bobsTablet = \<lparr>qa_ourServiceId = ''us'', qa_serviceId = ''bob'', qa_deviceId = 2\<rparr>"

definition twoDevices :: "(bytes, bytes) store" where
  "twoDevices = fst (storeSession plainSignal plainConversation bobsTablet [6] GLOBAL_ZONE (Inr ())
     (fst (storeSession plainSignal plainConversation bobsPhone [5] GLOBAL_ZONE (Inr ()) emptyStore)))"

definition bobsRecord :: IdentityKeyType where
  "bobsRecord = \<lparr>ik_id = ''bob'', ik_publicKey = [1], ik_firstUse = True, ik_timestamp = 10,
     ik_verified = VerifiedStatus_VERIFIED, ik_nonblockingApproval = True\<rparr>"

definition ourRecord :: IdentityKeyType where
  "ourRecord = bobsRecord\<lparr>ik_id := ''us''\<rparr>"

definition verifiedBob :: "(bytes, bytes) identity_state" where
  "verifiedBob = \<lparr>is_keys = [(''bob'', bobsRecord), (''us'', ourRecord)], is_db = [(''bob'', bobsRecord), (''us'', ourRecord)],
     is_conversations = [], is_keychanges = [], is_store = twoDevices\<rparr>"

definition atHome :: "int \<Rightarrow> IdentityEnv" where
  "atHome now = \<lparr>ie_ourAci = ''us'', ie_ourPni = None, ie_now = now, ie_newConversationId = (\<lambda>u. ''c-'' @ u),
     ie_conversationOf = plainConversation\<rparr>"

definition bobChanges :: "(bytes, bytes) identity_state \<times> IdentityChange js" where
  "bobChanges = saveIdentity plainSignal (atHome 1000) (Inr ()) ''bob'' 1 [2] False GLOBAL_ZONE False verifiedBob"

lemma store_ok_commit: "store_ok s \<Longrightarrow> store_ok (fst (commitZoneChanges io s))"
  using store_ok_finishCommit store_ok_startCommit [of s] by (auto simp: commitZoneChanges_def startCommit_def)

lemma store_ok_storeSession: "store_ok s \<Longrightarrow> store_ok (fst (storeSession L conversationOf address record zone io s))"
  by (simp add: storeSession_def commitUnless_def store_ok_commit store_ok_put)

lemma bobChanges_replaced: "bobChanges = (fst bobChanges, Inr ReplacedExisting)"
proof -
  have "snd bobChanges = Inr ReplacedExisting" by code_simp
  then show ?thesis by (metis prod.collapse)
qed

lemma verifiedBob_ok: "keys_ok verifiedBob" "isContact ''bob''" "isContact ''us''"
  "js_get (is_keys verifiedBob) ''bob'' = Some bobsRecord" "js_get (is_keys verifiedBob) ''us'' = Some ourRecord"
  by (simp_all add: keys_ok_def verifiedBob_def keyed_by_def bobsRecord_def ourRecord_def isContact_def isPrefix_def)

text \<open>
C3: When the key of a verified contact is replaced, no key of the contact is trusted for sending any more,
whatever is saved, approved and asked for any contact, until the verification of this contact is decided anew.
\<close>

theorem changed_key_blocks_sending:
  assumes "keys_ok s" and "isContact u" and "js_get (is_keys s) u = Some r" and "ik_verified r = VerifiedStatus_VERIFIED"
    and "saveIdentity L E io u d k ap zone no s = (s', Inr ReplacedExisting)"
    and "list_all (\<lambda>(E, io, op). isContact (subject op) \<and> (subject op \<noteq> u \<or> \<not> decides op)) evs"
  shows "case getIdentityRecord u (identityRun L evs s') of
      None \<Rightarrow> False
    | Some r' \<Rightarrow> \<forall>now key. \<not> isTrustedForSending now u key (Some r') (identityRun L evs s')"
proof -
  let ?P = "\<lambda>r. ik_verified r = VerifiedStatus_UNVERIFIED"
  have "recordIs u (Some (changedRecord E u k ap r)) s'" using replaced_record [OF assms(1,3,5)] by simp
  then obtain r' where r': "recordIs u (Some r') (identityRun L evs s')" "?P r'"
  proof (rule contact_run [where P = ?P and Q = "\<lambda>_. True", THEN exE])
    show "isContact u" by (rule assms(2))
    show "?P (changedRecord E u k ap r)" using assms(4) by (simp add: changedRecord_def statusAfterChange_def)
    show "list_all (\<lambda>(E, io, op). isContact (subject op) \<and> (subject op \<noteq> u \<or> \<not> decides op) \<and> True) evs"
      using assms(6) by simp
  qed (auto dest: follows_unverified)
  then show ?thesis by (simp add: recordIs_def getIdentityRecord_def isTrustedForSending_def)
qed

lemma changed_key_blocks_sending_witness:
  "case getIdentityRecord ''bob'' (identityRun plainSignal
       [(atHome 9000, Inr (), SetApproval ''bob'' True),
        (atHome 9001, Inr (), SaveIdentity ''bob'' 1 [3] True GLOBAL_ZONE False)] (fst bobChanges)) of
     None \<Rightarrow> False
   | Some r \<Rightarrow> ik_verified r = VerifiedStatus_UNVERIFIED \<and>
       (\<forall>now key. \<not> isTrustedForSending now ''bob'' key (Some r) (identityRun plainSignal
         [(atHome 9000, Inr (), SetApproval ''bob'' True),
          (atHome 9001, Inr (), SaveIdentity ''bob'' 1 [3] True GLOBAL_ZONE False)] (fst bobChanges)))"
proof -
  let ?evs = "[(atHome 9000, Inr (), SetApproval ''bob'' True), (atHome 9001, Inr (), SaveIdentity ''bob'' 1 [3] True GLOBAL_ZONE False)]"
  have evs: "list_all (\<lambda>(E, io, op). isContact (subject op) \<and> (subject op \<noteq> ''bob'' \<or> \<not> decides op)) ?evs"
    by (simp add: subject_def decides_def verifiedBob_ok)
  have bob: "ik_verified bobsRecord = VerifiedStatus_VERIFIED" by (simp add: bobsRecord_def)
  have "case getIdentityRecord ''bob'' (identityRun plainSignal ?evs (fst bobChanges)) of None \<Rightarrow> False
    | Some r \<Rightarrow> ik_verified r = VerifiedStatus_UNVERIFIED" by code_simp
  with changed_key_blocks_sending [OF verifiedBob_ok(1,2,4) bob bobChanges_replaced [unfolded bobChanges_def] evs]
  show ?thesis unfolding bobChanges_def by (simp split: option.split_asm)
qed

text \<open>
Our own identity keys are never replaced by keys that are saved for a session, whatever happens to other
contacts.
\<close>

theorem own_identity_kept:
  assumes "keys_ok s" and "isContact u" and "js_get (is_keys s) u = Some r"
    and "list_all (\<lambda>(E, io, op). isContact (subject op) \<and> (subject op \<noteq> u \<or> \<not> decides op) \<and> isOurServiceId E u) evs"
  shows "map_option ik_publicKey (getIdentityRecord u (identityRun L evs s)) = Some (ik_publicKey r)"
proof -
  have "recordIs u (Some r) s" using assms(1,3) by (simp add: recordIs_def)
  then obtain r' where "recordIs u (Some r') (identityRun L evs s)" "ik_publicKey r' = ik_publicKey r"
  proof (rule contact_run [where P = "\<lambda>r'. ik_publicKey r' = ik_publicKey r" and Q = "\<lambda>E. isOurServiceId E u", THEN exE])
    show "isContact u" by (rule assms(2))
    show "list_all (\<lambda>(E, io, op). isContact (subject op) \<and> (subject op \<noteq> u \<or> \<not> decides op) \<and> isOurServiceId E u) evs"
      by (rule assms(4))
  qed (auto simp: follows_def)
  then show ?thesis by (simp add: recordIs_def getIdentityRecord_def)
qed

lemma own_identity_kept_witness:
  "map_option ik_publicKey (getIdentityRecord ''us'' (identityRun plainSignal
     [(atHome 9000, Inr (), SaveIdentity ''us'' 2 [7] True GLOBAL_ZONE False),
      (atHome 9001, Inr (), SetVerified ''bob'' 1 noAttributes)] verifiedBob)) = Some [1]"
proof -
  let ?evs = "[(atHome 9000, Inr (), SaveIdentity ''us'' 2 [7] True GLOBAL_ZONE False),
    (atHome 9001, Inr (), SetVerified ''bob'' 1 noAttributes)]"
  have evs: "list_all (\<lambda>(E, io, op). isContact (subject op) \<and> (subject op \<noteq> ''us'' \<or> \<not> decides op) \<and> isOurServiceId E ''us'') ?evs"
    by (simp add: subject_def decides_def verifiedBob_ok isOurServiceId_def getOurServiceIdKind_def atHome_def)
  have "ik_publicKey ourRecord = [1]" by (simp add: ourRecord_def bobsRecord_def)
  with own_identity_kept [OF verifiedBob_ok(1,3,5) evs, of plainSignal] show ?thesis by simp
qed

text \<open>
C21: After a key was replaced, sending is trusted exactly for the new key of a contact that was not verified,
and without an approval only from five seconds on.
\<close>

theorem changed_key_needs_time:
  assumes "keys_ok s" and "js_get (is_keys s) u = Some r"
    and "saveIdentity L E io u d k ap zone no s = (s', Inr ReplacedExisting)"
  shows "isTrustedForSending now u key (getIdentityRecord u s') s' =
    (key = k \<and> ik_verified r \<noteq> VerifiedStatus_VERIFIED \<and> ik_verified r \<noteq> VerifiedStatus_UNVERIFIED \<and>
     (ap \<or> ie_now E + 5000 \<le> now))"
  using replaced_record [OF assms]
  by (auto simp: recordIs_def getIdentityRecord_def isTrustedForSending_def changedRecord_def statusAfterChange_def
    isNonBlockingApprovalRequired_def isMoreRecentThan_def TIMESTAMP_THRESHOLD_def)

lemma changed_key_needs_time_witness:
  "bobChanges = (fst bobChanges, Inr ReplacedExisting) \<and>
   \<not> isTrustedForSending 99999 ''bob'' [2] (getIdentityRecord ''bob'' (fst bobChanges)) (fst bobChanges)"
  using changed_key_needs_time [OF verifiedBob_ok(1,4) bobChanges_replaced [unfolded bobChanges_def], folded bobChanges_def]
  by (intro conjI bobChanges_replaced) (simp add: bobsRecord_def)

text \<open>What an operation that saves attributes does to a known contact.\<close>

lemma saveIdentityWithAttributes_known:
  assumes ok: "keys_ok s" and r: "js_get (is_keys s) u = Some r" and key: "at_publicKey a = Some k"
  shows "(if isl (snd (saveIdentityWithAttributes E io u a s)) then js_get (is_keys (fst (saveIdentityWithAttributes E io u a s))) u = Some r
     else \<exists>r'. js_get (is_keys (fst (saveIdentityWithAttributes E io u a s))) u = Some r' \<and> ik_publicKey r' = k) \<and>
    is_keychanges (fst (saveIdentityWithAttributes E io u a s)) = is_keychanges s"
proof (cases "validateIdentityKey u (spread (attributesOf r) a)")
  case (Inl e)
  with r show ?thesis by (simp add: saveIdentityWithAttributes_def getOrMigrate_known bindS_def)
next
  case (Inr data)
  then have "ik_id data = u" "ik_publicKey data = k"
    using key by (auto simp: validateIdentityKey_def spread_def orElse_def split: option.splits if_splits)
  with Inr r show ?thesis
    by (simp add: saveIdentityWithAttributes_def getOrMigrate_known bindS_def)
      (auto simp: saveIdentityKey_def js_get_set split: sum.split)
qed

definition announced :: "string \<Rightarrow> ('r, 'k) identity_state \<Rightarrow> ('r, 'k) identity_state \<Rightarrow> bool" where
  "announced u s s' = (\<exists>reason. is_keychanges s' = is_keychanges s @ [(u, reason)])"

lemma updateIdentityAfterSync_announces:
  assumes ok: "keys_ok s" and r: "js_get (is_keys s) u = Some r"
    and r': "js_get (is_keys (fst (updateIdentityAfterSync E io u status k s))) u = Some r'"
    and new: "ik_publicKey r' \<noteq> ik_publicKey r"
  shows "announced u s (fst (updateIdentityAfterSync E io u status k s))"
proof -
  let ?a = "syncAttributes E k status True"
  let ?w = "saveIdentityWithAttributes E io u ?a s"
  have key: "at_publicKey ?a = Some k" by (simp add: syncAttributes_def)
  note saved = saveIdentityWithAttributes_known [OF ok r key, of E io]
  have valid: "validateVerifiedStatus status"
  proof (rule ccontr)
    assume "\<not> validateVerifiedStatus status"
    with r' r new show False by (simp add: updateIdentityAfterSync_def)
  qed
  have change: "ik_publicKey r \<noteq> k"
  proof
    assume "ik_publicKey r = k"
    then have "js_get (is_keys (fst (updateIdentityAfterSync E io u status k s))) u = js_get (is_keys (fst ?w)) u \<or>
        js_get (is_keys (fst (updateIdentityAfterSync E io u status k s))) u = js_get (is_keys s) u"
      using valid r by (auto simp: updateIdentityAfterSync_def getOrMigrate_known bindS_def Let_def split: sum.split prod.split)
    with saved r r' new \<open>ik_publicKey r = k\<close> show False by (auto split: if_splits)
  qed
  then have result: "updateIdentityAfterSync E io u status k s = bindS ?w (\<lambda>_ s2.
      (emitKeychange u ''updateIdentityAfterSync - change'' s2, Inr (shouldAddVerifiedChangedMessage status k (Some r))))"
    using valid r by (simp add: updateIdentityAfterSync_def getOrMigrate_known bindS_def)
  show ?thesis
  proof (cases "snd ?w")
    case (Inl e)
    with saved r' new result show ?thesis by (simp add: fst_bindS)
  next
    case (Inr x)
    with saved result show ?thesis by (simp add: fst_bindS announced_def)
  qed
qed

text \<open>
C12: Whenever an operation for a session, a sync message or the user replaces the known key of a contact, the
listeners are told of exactly this change.
\<close>

theorem keychange_announced:
  assumes "keys_ok s" and "isContact u" and "isContact (subject op)" and "js_get (is_keys s) u = Some r"
    and "js_get (is_keys (identityStep L (E, io, op) s)) u = Some r'" and "ik_publicKey r' \<noteq> ik_publicKey r"
    and "\<forall>a. op \<noteq> SaveAttributes u a"
  shows "announced u s (identityStep L (E, io, op) s)"
proof (cases "subject op = u")
  case False
  have "recordIs u (Some r) s" using assms(1,4) by (simp add: recordIs_def)
  from other_contact_unchanged [OF this assms(2,3) False, of L E io] assms(5,6) show ?thesis by (simp add: recordIs_def)
next
  case True
  show ?thesis
  proof (cases op)
    case (SaveIdentity v d k ap zone no)
    then have v: "v = u" using True by (simp add: subject_def)
    have "k \<noteq> []" using assms(4,5,6) by (auto simp: SaveIdentity identityStep_def saveIdentity_def)
    note known = saveIdentity_known [OF assms(4) this, of L E io d ap zone no]
    have "fst (saveIdentity L E io u d k ap zone no s) = fst (replaceIdentity L E io u d k ap zone r s)"
      using assms(4,5,6) approve_record [OF assms(1,4), of io ap]
      by (auto simp: SaveIdentity v identityStep_def known fst_bindS split: if_splits sum.splits)
    with replaceIdentity_record [OF assms(1), of L E io u d k ap zone r] assms(4,5,6) show ?thesis
      by (auto simp: SaveIdentity v identityStep_def announced_def)
  next
    case (SetApproval v ap)
    with True assms(4,5,6) approve_record [OF assms(1,4), of io ap] show ?thesis
      by (auto simp: identityStep_def subject_def setApproval_def getOrMigrate_known bindS_def)
  next
    case (SetVerified v status ex)
    with True assms(4,5,6) show ?thesis
      by (auto simp: identityStep_def subject_def setVerified_def getOrMigrate_known bindS_def saveIdentityKey_def js_get_set
        dest!: validate_attributesOf split: if_splits sum.splits)
  next
    case (AfterSync v status k)
    with True assms(4,5,6) updateIdentityAfterSync_announces [OF assms(1,4)] show ?thesis
      by (simp add: identityStep_def subject_def)
  next
    case (RemoveKey v)
    with True assms(5) show ?thesis
      by (auto simp: identityStep_def subject_def removeIdentityKey_def js_get_del Let_def split_beta split: sum.splits)
  next
    case (CheckTrust v k dir)
    with True assms(4,5,6) show ?thesis
      by (simp add: identityStep_def subject_def isTrustedIdentity_def getOrMigrate_known bindS_def)
  next
    case (SaveAttributes v a)
    with True assms(7) show ?thesis by (simp add: subject_def)
  qed
qed

lemma keychange_announced_witness:
  "announced ''bob'' verifiedBob (identityStep plainSignal (atHome 1000, Inr (), AfterSync ''bob'' 1 [2]) verifiedBob)"
proof -
  let ?s = "identityStep plainSignal (atHome 1000, Inr (), AfterSync ''bob'' 1 [2]) verifiedBob"
  have "case js_get (is_keys ?s) ''bob'' of None \<Rightarrow> False | Some r \<Rightarrow> ik_publicKey r = [2]" by code_simp
  then obtain r' where r': "js_get (is_keys ?s) ''bob'' = Some r'" "ik_publicKey r' = [2]"
    by (cases "js_get (is_keys ?s) ''bob''") auto
  then have "ik_publicKey r' \<noteq> ik_publicKey bobsRecord" by (simp add: bobsRecord_def)
  from keychange_announced [OF verifiedBob_ok(1,2) _ verifiedBob_ok(4) r'(1) this] show ?thesis
    by (simp add: subject_def verifiedBob_ok)
qed

text \<open>
C10: Replacing the key of a contact closes the sessions with all its devices but the one that has told the key.
\<close>

theorem changed_key_closes_sessions:
  assumes "js_get (is_keys s) u = Some r" and "archives L" and "store_ok (is_store s)"
    and "list_all (addressed \<circ> ce_fromDB) (getAllSessions (is_store s))"
    and "saveIdentity L E io u d k ap zone no s = (s', Inr ReplacedExisting)"
  shows "list_all (\<lambda>e. se_serviceId (ce_fromDB e) = u \<and> se_deviceId (ce_fromDB e) \<noteq> d \<longrightarrow> closed L e) (getAllSessions (is_store s'))"
proof -
  have "k \<noteq> []" using assms(5) by (auto simp: saveIdentity_def)
  then have rep: "replaceIdentity L E io u d k ap zone r s = (s', Inr ReplacedExisting)"
    using assms(5) saveIdentity_known [OF assms(1), of k L E io d ap zone no]
    by (auto simp: bindS_def split: if_splits sum.splits prod.splits)
  define data where "data = changedRecord E u k ap r"
  define s1 where "s1 = emitKeychange u ''saveIdentity - change'' (fst (saveIdentityKey io data s))"
  have "archiveSiblings L E u d zone io s1 = (s', Inr ())"
    using rep by (auto simp: replaceIdentity_def bindS_def s1_def data_def changedRecord_def split: sum.splits prod.splits)
  moreover have "is_store s1 = is_store s" by (simp add: s1_def)
  ultimately have "archiveSiblingSessions L (ie_conversationOf E) u d zone io (is_store s) = (is_store s', Inr ())"
    by (auto simp: archiveSiblings_def split: prod.splits)
  from archiveSiblingSessions_closes [OF assms(3,2,4) this] show ?thesis by (simp add: list_all_iff)
qed

lemma changed_key_closes_sessions_witness:
  "length (getAllSessions (is_store (fst bobChanges))) = 2 \<and>
   list_all (\<lambda>e. se_serviceId (ce_fromDB e) = ''bob'' \<and> se_deviceId (ce_fromDB e) \<noteq> 1 \<longrightarrow> closed plainSignal e)
     (getAllSessions (is_store (fst bobChanges)))"
proof -
  have ok: "store_ok (is_store verifiedBob)"
    by (simp add: verifiedBob_def twoDevices_def store_ok_storeSession store_ok_emptyStore)
  have L: "archives plainSignal" by (simp add: archives_def plainSignal_def)
  have addr: "list_all (addressed \<circ> ce_fromDB) (getAllSessions (is_store verifiedBob))" by code_simp
  have "length (getAllSessions (is_store (fst bobChanges))) = 2" by code_simp
  with changed_key_closes_sessions [OF verifiedBob_ok(4) L ok addr bobChanges_replaced [unfolded bobChanges_def], folded bobChanges_def]
  show ?thesis by simp
qed

end
