(* ===== verification/Message_Cache.thy ===== *)
theory Message_Cache
  imports Send_State
begin

text \<open>
  The messages in memory and in the database: the attributes of a message with the history of its
  edits (ts/model-types.d.ts, ts/util/editHelpers.std.ts), the cache of message models
  (ts/services/MessageCache.preload.ts) and the query by the time a message was sent
  (\<open>getMessagesBySentAt\<close> in ts/sql/Server.node.ts).

  Of the attributes, the fields are those that the modelled code reads or writes. A model is shared
  by all who hold it; the cache has one model per id, and a change through \<open>set\<close> is a change of
  the entry of the cache (models that were never registered, or were evicted while somebody holds
  them, are not represented). The clock is an argument.
\<close>

section \<open>Messages and their edits\<close>

datatype MessageType =
  Mt_call_history | Mt_change_number_notification | Mt_chat_session_refreshed
  | Mt_conversation_merge | Mt_delivery_issue | Mt_group_v1_migration | Mt_group_v2_change
  | Mt_group | Mt_incoming | Mt_joined_signal_notification | Mt_keychange | Mt_outgoing
  | Mt_pinned_message_notification | Mt_phone_number_discovery | Mt_poll_terminate
  | Mt_profile_change | Mt_story | Mt_timer_notification | Mt_universal_timer_notification
  | Mt_contact_removed_notification | Mt_title_transition_notification | Mt_verified_change
  | Mt_message_request_response_event

record EditHistoryType =
  eh_timestamp :: int
  eh_sendStateByConversationId :: "SendStateByConversationId option"

record Message =
  m_id :: string
  m_type :: MessageType
  m_conversationId :: string
  m_timestamp :: int
  m_sent_at :: int
  m_received_at :: int
  m_serverTimestamp :: "int option"
  m_editMessageTimestamp :: "int option"
  m_editHistory :: "EditHistoryType list option"
  m_sendStateByConversationId :: "SendStateByConversationId option"
  m_storyDistributionListId :: "string option"
  m_storyId :: "string option"
  m_deletedForEveryone :: "bool option"
  m_unidentifiedDeliveries :: "string list option"
  m_source :: "string option"
  m_sourceServiceId :: "string option"
  m_readStatus :: "ReadStatus option"
  m_seenStatus :: "SeenStatus option"
  m_readAt :: "int option"
  m_expireTimer :: "int option"
  m_expirationStartTimestamp :: "int option"

definition isIncoming :: "Message \<Rightarrow> bool" where
  "isIncoming message \<longleftrightarrow> m_type message = Mt_incoming"

definition isOutgoing :: "Message \<Rightarrow> bool" where
  "isOutgoing message \<longleftrightarrow> m_type message = Mt_outgoing"

definition isStory :: "Message \<Rightarrow> bool" where
  "isStory message \<longleftrightarrow> m_type message = Mt_story"

text \<open>
  The send state of a message at a timestamp: that of the edit with this timestamp if there is
  one, else that of the message (\<open>getPropForTimestamp\<close> with the prop
  \<open>sendStateByConversationId\<close>). A partial set of attributes is a record of options, \<open>None\<close>
  where the attribute is left as it is.
\<close>

definition getPropForTimestamp :: "Message \<Rightarrow> int \<Rightarrow> SendStateByConversationId option" where
  "getPropForTimestamp message targetTimestamp =
    (case find (\<lambda>item. eh_timestamp item = targetTimestamp) (or_list (m_editHistory message)) of
       None \<Rightarrow> m_sendStateByConversationId message
     | Some targetEdit \<Rightarrow> eh_sendStateByConversationId targetEdit)"

record SendStateChanges =
  ch_editHistory :: "EditHistoryType list option"
  ch_sendStateByConversationId :: "SendStateByConversationId option"

definition getChangesForPropAtTimestamp ::
    "Message \<Rightarrow> int \<Rightarrow> SendStateByConversationId \<Rightarrow> SendStateChanges" where
  "getChangesForPropAtTimestamp message targetTimestamp val =
    (case m_editHistory message of
       None \<Rightarrow> \<lparr>ch_editHistory = None, ch_sendStateByConversationId = Some val\<rparr>
     | Some editHistory \<Rightarrow>
       (case find (\<lambda>i. eh_timestamp (editHistory ! i) = targetTimestamp) [0..<length editHistory] of
          None \<Rightarrow> \<lparr>ch_editHistory = None, ch_sendStateByConversationId = Some val\<rparr>
        | Some targetEditIndex \<Rightarrow>
          \<lparr>ch_editHistory = Some (editHistory[targetEditIndex :=
             (editHistory ! targetEditIndex)\<lparr>eh_sendStateByConversationId := Some val\<rparr>]),
           ch_sendStateByConversationId =
             (if \<not> truthy_num (m_editMessageTimestamp message) \<or>
                 m_editMessageTimestamp message = Some targetTimestamp
              then Some val else None)\<rparr>))"

definition setChanges :: "SendStateChanges \<Rightarrow> Message \<Rightarrow> Message" where
  "setChanges ch m =
    m\<lparr>m_editHistory := (case ch_editHistory ch of None \<Rightarrow> m_editHistory m | Some h \<Rightarrow> Some h),
      m_sendStateByConversationId :=
        (case ch_sendStateByConversationId ch of
           None \<Rightarrow> m_sendStateByConversationId m | Some s \<Rightarrow> Some s)\<rparr>"

text \<open>\<open>getTargetOfThisEditTimestamp\<close>: the version that an edit replaces.\<close>

definition getTargetOfThisEditTimestamp :: "Message \<Rightarrow> int \<Rightarrow> int" where
  "getTargetOfThisEditTimestamp message targetTimestamp =
    (case m_editHistory message of
       None \<Rightarrow> m_timestamp message
     | Some editHistory \<Rightarrow>
       (let sentItems = filter (\<lambda>item. eh_timestamp item \<le> targetTimestamp) editHistory;
            mostRecent = sort_key eh_timestamp sentItems;
            n = length mostRecent
        in if n > 1 then eh_timestamp (mostRecent ! (n - 2))
           else if n > 0 then eh_timestamp (mostRecent ! (n - 1))
           else m_timestamp message))"

text \<open>\<open>getMessageSentTimestamp\<close>, with the clock for a message that has no timestamp at all.\<close>

definition getMessageSentTimestamp :: "bool \<Rightarrow> int \<Rightarrow> Message \<Rightarrow> int" where
  "getMessageSentTimestamp includeEdits now message =
    (if includeEdits \<and> truthy_num (m_editMessageTimestamp message)
     then the (m_editMessageTimestamp message)
     else if m_sent_at message \<noteq> 0 then m_sent_at message
     else if m_timestamp message \<noteq> 0 then m_timestamp message
     else now)"

definition getMessageSentTimestampSet :: "Message \<Rightarrow> int list" where
  "getMessageSentTimestampSet message =
    m_sent_at message # map eh_timestamp (or_list (m_editHistory message))"

section \<open>The database\<close>

text \<open>
  The tables \<open>messages\<close> and \<open>edited_messages\<close> (the id of a message and the time of one of its
  edits). Rows with the same values of both sort keys keep the order of the table; the source
  leaves their order to the database.
\<close>

record MessageDB =
  db_messages :: "Message list"
  db_edited_messages :: "(string \<times> int) list"

definition getMessagesBySentAt :: "MessageDB \<Rightarrow> int \<Rightarrow> Message list" where
  "getMessagesBySentAt db sentAt =
    sort_key (\<lambda>m. - m_received_at m) (sort_key (\<lambda>m. - m_sent_at m)
      (filter (\<lambda>m. m_sent_at m = sentAt \<or> (m_id m, sentAt) \<in> set (db_edited_messages db))
        (db_messages db)))"

definition db_getMessageById :: "MessageDB \<Rightarrow> string \<Rightarrow> Message option" where
  "db_getMessageById db i = find (\<lambda>m. m_id m = i) (db_messages db)"

fun upsertMessage :: "Message \<Rightarrow> Message list \<Rightarrow> Message list" where
  "upsertMessage m [] = [m]"
| "upsertMessage m (r # rs) = (if m_id r = m_id m then m # rs else r # upsertMessage m rs)"

definition saveMessage :: "Message \<Rightarrow> MessageDB \<Rightarrow> MessageDB" where
  "saveMessage m db = db\<lparr>db_messages := upsertMessage m (db_messages db)\<rparr>"

section \<open>The cache of models\<close>

record MessageModel =
  mm_attributes :: Message
  mm_pendingMarkRead :: "int option"

record MessageCacheState =
  mc_messages :: "(string, MessageModel) jsmap"
  mc_messageIdsBySentAt :: "(int, string list) jsmap"
  mc_lastAccessedAt :: "(string, int) jsmap"

definition emptyMessageCache :: MessageCacheState where
  "emptyMessageCache = \<lparr>mc_messages = [], mc_messageIdsBySentAt = [], mc_lastAccessedAt = []\<rparr>"

definition newModel :: "Message \<Rightarrow> MessageModel" where
  "newModel m = \<lparr>mm_attributes = m, mm_pendingMarkRead = None\<rparr>"

lemma newModel_attributes [simp]: "mm_attributes (newModel m) = m"
  by (simp add: newModel_def)

definition getById :: "int \<Rightarrow> string \<Rightarrow> MessageCacheState \<Rightarrow> MessageModel option \<times> MessageCacheState" where
  "getById now i st =
    (case js_get (mc_messages st) i of
       None \<Rightarrow> (None, st)
     | Some model \<Rightarrow> (Some model, st\<lparr>mc_lastAccessedAt := js_set i now (mc_lastAccessedAt st)\<rparr>))"

definition addMessageToCache :: "int \<Rightarrow> MessageModel \<Rightarrow> MessageCacheState \<Rightarrow> MessageCacheState" where
  "addMessageToCache now model st =
    (let i = m_id (mm_attributes model); sentAt = m_sent_at (mm_attributes model)
     in if i = [] then st
        else if js_has (mc_messages st) i
        then st\<lparr>mc_lastAccessedAt := js_set i now (mc_lastAccessedAt st)\<rparr>
        else
          let nextIds = (case js_get (mc_messageIdsBySentAt st) sentAt of
                           Some previousIds \<Rightarrow> set_add i previousIds | None \<Rightarrow> [i])
          in st\<lparr>mc_messages := js_set i model (mc_messages st),
                mc_lastAccessedAt := js_set i now (mc_lastAccessedAt st),
                mc_messageIdsBySentAt := js_set sentAt nextIds (mc_messageIdsBySentAt st)\<rparr>)"

definition registerModel ::
    "int \<Rightarrow> MessageModel \<Rightarrow> MessageCacheState \<Rightarrow> (MessageModel \<times> MessageCacheState) js" where
  "registerModel now model st =
    (let i = m_id (mm_attributes model)
     in if i = [] then throw ''MessageCache.register: Got falsey id or message''
        else (case getById now i st of
                (Some existing, st') \<Rightarrow> Inr (existing, st')
              | (None, st') \<Rightarrow> Inr (model, addMessageToCache now model st')))"

text \<open>
  \<open>set\<close> of a registered model with \<open>_updateCaches\<close>: the attributes change and the access is noted.
  (\<open>_updateCaches\<close> also computes the ids of the messages sent at the time of the new attributes,
  but does not store them.)
\<close>

definition setMessage ::
    "int \<Rightarrow> (Message \<Rightarrow> Message) \<Rightarrow> string \<Rightarrow> MessageCacheState \<Rightarrow> MessageCacheState" where
  "setMessage now f i st =
    (case js_get (mc_messages st) i of
       None \<Rightarrow> st
     | Some model \<Rightarrow>
       st\<lparr>mc_messages := js_set i (model\<lparr>mm_attributes := f (mm_attributes model)\<rparr>) (mc_messages st),
          mc_lastAccessedAt := js_set i now (mc_lastAccessedAt st)\<rparr>)"

definition removeMessage :: "string \<Rightarrow> MessageCacheState \<Rightarrow> MessageCacheState" where
  "removeMessage i st =
    (case js_get (mc_messages st) i of
       None \<Rightarrow> st
     | Some model \<Rightarrow>
       (let sentAt = m_sent_at (mm_attributes model);
            nextIds = filter (\<lambda>j. j \<noteq> m_id (mm_attributes model))
              (nullish (js_get (mc_messageIdsBySentAt st) sentAt) [])
        in st\<lparr>mc_messageIdsBySentAt :=
                (if nextIds \<noteq> [] then js_set sentAt nextIds (mc_messageIdsBySentAt st)
                 else js_del sentAt (mc_messageIdsBySentAt st)),
              mc_messages := js_del i (mc_messages st),
              mc_lastAccessedAt := js_del i (mc_lastAccessedAt st)\<rparr>))"

definition unregister :: "string \<Rightarrow> MessageCacheState \<Rightarrow> MessageCacheState" where
  "unregister i st = (if js_has (mc_messages st) i then removeMessage i st else st)"

text \<open>The conversation of a message is looked up by its id; the selected one is shown.\<close>

definition deleteExpiredMessages ::
    "int \<Rightarrow> int \<Rightarrow> (string \<Rightarrow> string option) \<Rightarrow> string option \<Rightarrow> MessageCacheState \<Rightarrow> MessageCacheState" where
  "deleteExpiredMessages now expiryTime getMessageConversation selectedId st =
    fold (\<lambda>(i, model) s.
        let timeLastAccessed = nullish (js_get (mc_lastAccessedAt s) i) 0;
            conversation = getMessageConversation (m_conversationId (mm_attributes model));
            inActiveConversation =
              (conversation \<noteq> None \<and> truthy_str selectedId \<and> conversation = selectedId)
        in if now - timeLastAccessed > expiryTime \<and> \<not> inActiveConversation
           then unregister i s else s)
      (mc_messages st) st"

definition updateObsoleteSendState ::
    "string \<Rightarrow> string \<Rightarrow> SendStateByConversationId option \<Rightarrow> SendStateByConversationId option" where
  "updateObsoleteSendState conversationId obsoleteId sendState =
    (case sendState of
       None \<Rightarrow> None
     | Some ss \<Rightarrow>
       (case js_get ss obsoleteId of
          None \<Rightarrow> Some ss
        | Some obsoleteSendState \<Rightarrow>
          Some (fold (\<lambda>(k, v). js_set k v) (js_del obsoleteId ss)
            [(conversationId, obsoleteSendState)])))"

definition replaceObsoleteId :: "string \<Rightarrow> string \<Rightarrow> Message \<Rightarrow> Message" where
  "replaceObsoleteId conversationId obsoleteId m =
    m\<lparr>m_conversationId := conversationId,
      m_sendStateByConversationId :=
        updateObsoleteSendState conversationId obsoleteId (m_sendStateByConversationId m),
      m_editHistory := map_option (map (\<lambda>history. history\<lparr>eh_sendStateByConversationId :=
        updateObsoleteSendState conversationId obsoleteId (eh_sendStateByConversationId history)\<rparr>))
        (m_editHistory m)\<rparr>"

definition replaceAllObsoleteConversationIds ::
    "int \<Rightarrow> string \<Rightarrow> string \<Rightarrow> MessageCacheState \<Rightarrow> MessageCacheState" where
  "replaceAllObsoleteConversationIds now conversationId obsoleteId st =
    fold (\<lambda>(i, model) s.
        if m_conversationId (mm_attributes model) \<noteq> obsoleteId then s
        else setMessage now (replaceObsoleteId conversationId obsoleteId) i s)
      (mc_messages st) st"

text \<open>\<open>getById\<close> for every id in turn, and \<open>register\<close> for every row.\<close>

fun getAllById ::
    "int \<Rightarrow> string list \<Rightarrow> MessageCacheState \<Rightarrow> MessageModel list \<times> MessageCacheState" where
  "getAllById now [] st = ([], st)"
| "getAllById now (i # ids) st =
    (case getById now i st of
       (None, st') \<Rightarrow> getAllById now ids st'
     | (Some m, st') \<Rightarrow> (let (ms, st'') = getAllById now ids st' in (m # ms, st'')))"

fun registerAll ::
    "int \<Rightarrow> Message list \<Rightarrow> MessageCacheState \<Rightarrow> (MessageModel list \<times> MessageCacheState) js" where
  "registerAll now [] st = Inr ([], st)"
| "registerAll now (m # ms) st =
    bindE (registerModel now (newModel m) st) (\<lambda>(model, st').
      bindE (registerAll now ms st') (\<lambda>(models, st''). Inr (model # models, st'')))"

definition findBySentAt ::
    "int \<Rightarrow> int \<Rightarrow> (MessageModel \<Rightarrow> bool) \<Rightarrow> MessageDB \<Rightarrow> MessageCacheState \<Rightarrow>
     (MessageModel option \<times> MessageCacheState) js" where
  "findBySentAt now sentAt predicate db st =
    (let items = nullish (js_get (mc_messageIdsBySentAt st) sentAt) [];
         (models, st1) = getAllById now items st
     in case find predicate models of
          Some inMemory \<Rightarrow> Inr (Some inMemory, st1)
        | None \<Rightarrow>
          bindE (registerAll now (getMessagesBySentAt db sentAt) st1) (\<lambda>(onDisk, st2).
            Inr (find predicate onDisk, st2)))"

text \<open>\<open>getMessageById\<close> (ts/messages/getMessageById.preload.ts); reading the row does not fail.\<close>

definition getMessageById ::
    "int \<Rightarrow> string \<Rightarrow> MessageDB \<Rightarrow> MessageCacheState \<Rightarrow> (MessageModel option \<times> MessageCacheState) js" where
  "getMessageById now i db st =
    (case getById now i st of
       (Some m, st') \<Rightarrow> Inr (Some m, st')
     | (None, st') \<Rightarrow>
       (case db_getMessageById db i of
          None \<Rightarrow> Inr (None, st')
        | Some found \<Rightarrow>
          bindE (registerModel now (newModel found) st') (\<lambda>(m, st''). Inr (Some m, st''))))"

section \<open>The index of the cache\<close>

text \<open>
  The cache is consistent if its maps have no key twice, a model stands under its own id, the ids
  listed for a time are exactly those of the models sent at that time, no list is empty or has an
  id twice, and the access times are those of the models.
\<close>

definition own_ids :: "(string \<Rightarrow> MessageModel option) \<Rightarrow> bool" where
  "own_ids look \<longleftrightarrow> (\<forall>i model. look i = Some model \<longrightarrow> m_id (mm_attributes model) = i \<and> i \<noteq> [])"

definition sentAtIs :: "(string \<Rightarrow> MessageModel option) \<Rightarrow> int \<Rightarrow> string \<Rightarrow> bool" where
  "sentAtIs look t i \<longleftrightarrow> (\<exists>model. look i = Some model \<and> m_sent_at (mm_attributes model) = t)"

definition index_ok :: "(string \<Rightarrow> MessageModel option) \<Rightarrow> (int \<Rightarrow> string list option) \<Rightarrow> bool" where
  "index_ok look ids \<longleftrightarrow> (\<forall>t. (\<forall>i. i \<in> set (nullish (ids t) []) \<longleftrightarrow> sentAtIs look t i) \<and>
     distinct (nullish (ids t) []) \<and> ids t \<noteq> Some [])"

definition cache_ok :: "MessageCacheState \<Rightarrow> bool" where
  "cache_ok st \<longleftrightarrow>
    distinct (js_keys (mc_messages st)) \<and>
    own_ids (js_get (mc_messages st)) \<and>
    index_ok (js_get (mc_messages st)) (js_get (mc_messageIdsBySentAt st)) \<and>
    keyset (mc_lastAccessedAt st) = keyset (mc_messages st)"

lemma cache_ok_empty: "cache_ok emptyMessageCache"
  by (simp add: cache_ok_def emptyMessageCache_def own_ids_def index_ok_def sentAtIs_def)

lemma cache_ok_id: "cache_ok st \<Longrightarrow> js_get (mc_messages st) i = Some model \<Longrightarrow> m_id (mm_attributes model) = i \<and> i \<noteq> []"
  unfolding cache_ok_def own_ids_def by blast

lemma index_ok_ids: "index_ok look ids \<Longrightarrow> i \<in> set (nullish (ids t) []) \<longleftrightarrow> sentAtIs look t i"
  unfolding index_ok_def by blast

lemma own_ids_upd: "own_ids look \<Longrightarrow> m_id (mm_attributes m) = i \<Longrightarrow> i \<noteq> [] \<Longrightarrow> own_ids (look(i \<mapsto> m))"
  by (simp add: own_ids_def)

lemma own_ids_del: "own_ids look \<Longrightarrow> own_ids (look(i := None))"
  by (simp add: own_ids_def)

lemma sentAtIs_upd: "sentAtIs (look(i := v)) t j \<longleftrightarrow>
    (if j = i then (case v of None \<Rightarrow> False | Some m \<Rightarrow> m_sent_at (mm_attributes m) = t) else sentAtIs look t j)"
  by (auto simp: sentAtIs_def split: option.splits)

lemma index_ok_add:
  assumes "index_ok look ids" and "look i = None"
  shows "index_ok (look(i \<mapsto> m)) (ids(m_sent_at (mm_attributes m) \<mapsto>
    (case ids (m_sent_at (mm_attributes m)) of Some previous \<Rightarrow> set_add i previous | None \<Rightarrow> [i])))"
proof -
  let ?t = "m_sent_at (mm_attributes m)"
  have eq: "(case ids ?t of Some previous \<Rightarrow> set_add i previous | None \<Rightarrow> [i]) = set_add i (nullish (ids ?t) [])"
    by (simp add: set_add_def split: option.splits)
  have new: "\<not> sentAtIs look t i" for t using assms(2) by (simp add: sentAtIs_def)
  have ne: "set_add i (nullish (ids ?t) []) \<noteq> []" by (simp add: set_add_def) auto
  show ?thesis
    unfolding eq using assms(1) new ne by (auto simp: index_ok_def sentAtIs_upd distinct_set_add)
qed

lemma index_ok_del:
  assumes "index_ok look ids" and "look i = Some m" and "t = m_sent_at (mm_attributes m)"
    and "rest = filter (\<lambda>j. j \<noteq> i) (nullish (ids t) [])"
  shows "index_ok (look(i := None)) (ids(t := if rest \<noteq> [] then Some rest else None))"
proof -
  have other: "t' \<noteq> t \<Longrightarrow> \<not> sentAtIs look t' i" for t'
    using assms(2,3) by (simp add: sentAtIs_def)
  have mem: "j \<in> set rest \<longleftrightarrow> j \<noteq> i \<and> sentAtIs look t j" for j
    using index_ok_ids [OF assms(1)] by (auto simp: assms(4))
  have d: "distinct rest" using assms(1) by (simp add: assms(4) index_ok_def)
  show ?thesis
  proof (cases "rest = []")
    case True
    have "\<not> sentAtIs look t j" if "j \<noteq> i" for j using mem [of j] that unfolding True by simp
    then show ?thesis using assms(1) other True by (auto simp: index_ok_def sentAtIs_upd)
  next
    case False
    then show ?thesis using assms(1) other mem d by (auto simp: index_ok_def sentAtIs_upd)
  qed
qed

text \<open>Touching, adding and removing a model keep the cache consistent.\<close>

lemma cache_ok_touch:
  assumes "cache_ok st" and "js_get (mc_messages st) i = Some m"
  shows "cache_ok (st\<lparr>mc_lastAccessedAt := js_set i now (mc_lastAccessedAt st)\<rparr>)"
  using assms js_get_keyset [OF assms(2)] by (simp add: cache_ok_def insert_absorb)

lemma getById_simps:
  "fst (getById now i st) = js_get (mc_messages st) i"
  "mc_messages (snd (getById now i st)) = mc_messages st"
  "mc_messageIdsBySentAt (snd (getById now i st)) = mc_messageIdsBySentAt st"
  by (simp_all add: getById_def split: option.splits)

lemma cache_ok_getById: "cache_ok st \<Longrightarrow> cache_ok (snd (getById now i st))"
  by (auto simp add: getById_def intro: cache_ok_touch split: option.splits)

lemma addMessageToCache_new:
  assumes "js_get (mc_messages st) i = None" and "m_id (mm_attributes model) = i" and "i \<noteq> []"
  shows "addMessageToCache now model st =
    st\<lparr>mc_messages := js_set i model (mc_messages st),
       mc_lastAccessedAt := js_set i now (mc_lastAccessedAt st),
       mc_messageIdsBySentAt := js_set (m_sent_at (mm_attributes model))
         (case js_get (mc_messageIdsBySentAt st) (m_sent_at (mm_attributes model)) of
            Some previousIds \<Rightarrow> set_add i previousIds | None \<Rightarrow> [i]) (mc_messageIdsBySentAt st)\<rparr>"
  using assms by (simp add: addMessageToCache_def Let_def js_has_def)

lemma cache_ok_add:
  assumes "cache_ok st" and new: "js_get (mc_messages st) i = None" "m_id (mm_attributes model) = i" "i \<noteq> []"
  shows "cache_ok (addMessageToCache now model st)"
  using assms(1) own_ids_upd [of "js_get (mc_messages st)" model i]
    index_ok_add [of "js_get (mc_messages st)" "js_get (mc_messageIdsBySentAt st)" i model]
  unfolding addMessageToCache_new [OF new]
  by (simp add: cache_ok_def js_get_set js.distinct_assign new)

lemma cache_ok_remove:
  assumes "cache_ok st"
  shows "cache_ok (removeMessage i st)"
proof (cases "js_get (mc_messages st) i")
  case None
  then show ?thesis using assms by (simp add: removeMessage_def)
next
  case (Some model)
  let ?t = "m_sent_at (mm_attributes model)"
  have i: "m_id (mm_attributes model) = i" using cache_ok_id [OF assms Some] by simp
  define rest where "rest = filter (\<lambda>j. j \<noteq> i) (nullish (js_get (mc_messageIdsBySentAt st) ?t) [])"
  have eq: "removeMessage i st = st\<lparr>
      mc_messageIdsBySentAt := (if rest \<noteq> [] then js_set ?t rest (mc_messageIdsBySentAt st)
        else js_del ?t (mc_messageIdsBySentAt st)),
      mc_messages := js_del i (mc_messages st),
      mc_lastAccessedAt := js_del i (mc_lastAccessedAt st)\<rparr>"
    by (simp add: removeMessage_def Some i rest_def Let_def)
  have look: "js_get (if rest \<noteq> [] then js_set ?t rest (mc_messageIdsBySentAt st)
      else js_del ?t (mc_messageIdsBySentAt st)) =
      (js_get (mc_messageIdsBySentAt st))(?t := if rest \<noteq> [] then Some rest else None)"
    by (simp add: js_get_set js_get_del)
  have "index_ok ((js_get (mc_messages st))(i := None))
      ((js_get (mc_messageIdsBySentAt st))(?t := if rest \<noteq> [] then Some rest else None))"
    by (rule index_ok_del [where m = model])
       (use assms Some in \<open>simp_all add: cache_ok_def rest_def\<close>)
  then show ?thesis
    using assms unfolding eq cache_ok_def
    by (simp add: look js_get_del js.distinct_delete own_ids_del del: if_split)
qed

lemma cache_ok_unregister: "cache_ok st \<Longrightarrow> cache_ok (unregister i st)"
  by (simp add: unregister_def cache_ok_remove)

lemma registerModel_cases:
  "registerModel now model st = Inr (m, st') \<Longrightarrow>
    m_id (mm_attributes model) \<noteq> [] \<and>
    (case js_get (mc_messages st) (m_id (mm_attributes model)) of
       Some existing \<Rightarrow> m = existing \<and> st' = snd (getById now (m_id (mm_attributes model)) st)
     | None \<Rightarrow> m = model \<and> st' = addMessageToCache now model st)"
  by (auto simp: registerModel_def Let_def getById_def split: if_splits option.splits)

lemma cache_ok_register:
  "cache_ok st \<Longrightarrow> registerModel now model st = Inr (m, st') \<Longrightarrow> cache_ok st'"
  by (drule registerModel_cases)
     (auto simp: cache_ok_getById intro: cache_ok_add split: option.splits)

text \<open>A change of the attributes keeps the cache consistent if it keeps the id and the time sent.\<close>

lemma cache_ok_set:
  assumes "cache_ok st" and keep: "\<And>m. m_id (f m) = m_id m \<and> m_sent_at (f m) = m_sent_at m"
  shows "cache_ok (setMessage now f i st)"
proof (cases "js_get (mc_messages st) i")
  case None
  then show ?thesis using assms by (simp add: setMessage_def)
next
  case (Some model)
  define new where "new = model\<lparr>mm_attributes := f (mm_attributes model)\<rparr>"
  have i: "m_id (mm_attributes model) = i" "i \<noteq> []" using cache_ok_id [OF assms(1) Some] by simp_all
  have same: "sentAtIs ((js_get (mc_messages st))(i \<mapsto> new)) = sentAtIs (js_get (mc_messages st))"
    using Some keep by (auto simp: fun_eq_iff sentAtIs_upd) (auto simp: sentAtIs_def new_def)
  have eq: "setMessage now f i st = st\<lparr>mc_messages := js_set i new (mc_messages st),
      mc_lastAccessedAt := js_set i now (mc_lastAccessedAt st)\<rparr>"
    by (simp add: setMessage_def Some new_def)
  have "own_ids ((js_get (mc_messages st))(i \<mapsto> new))"
    using assms(1) i keep by (intro own_ids_upd) (simp_all add: cache_ok_def new_def)
  then show ?thesis
    unfolding eq cache_ok_def using assms(1)
    by (simp add: js_get_set js.distinct_assign cache_ok_def index_ok_def same)
qed

lemma cache_ok_deleteExpired: "cache_ok st \<Longrightarrow> cache_ok (deleteExpiredMessages now expiryTime gc sel st)"
  unfolding deleteExpiredMessages_def
  by (rule fold_keeps) (auto simp: Let_def cache_ok_unregister split: prod.splits)

lemma cache_ok_replaceAll:
  "cache_ok st \<Longrightarrow> cache_ok (replaceAllObsoleteConversationIds now conversationId obsoleteId st)"
  unfolding replaceAllObsoleteConversationIds_def
  by (rule fold_keeps) (auto simp: cache_ok_set replaceObsoleteId_def split: prod.splits)

text \<open>Models that are in the cache stay there when others are looked up or registered.\<close>

definition cache_le :: "MessageCacheState \<Rightarrow> MessageCacheState \<Rightarrow> bool" where
  "cache_le st st' \<longleftrightarrow> (\<forall>i m. js_get (mc_messages st) i = Some m \<longrightarrow> js_get (mc_messages st') i = Some m)"

lemma cache_le_refl: "cache_le st st"
  by (simp add: cache_le_def)

lemma cache_le_trans: "cache_le a b \<Longrightarrow> cache_le b c \<Longrightarrow> cache_le a c"
  by (simp add: cache_le_def)

lemma list_all2_set_right: "list_all2 P xs ys \<Longrightarrow> y \<in> set ys \<Longrightarrow> \<exists>x \<in> set xs. P x y"
  by (induction rule: list_all2_induct) auto

lemma list_all2_set_left: "list_all2 P xs ys \<Longrightarrow> x \<in> set xs \<Longrightarrow> \<exists>y \<in> set ys. P x y"
  by (induction rule: list_all2_induct) auto

lemma registerModel_registers:
  assumes "registerModel now model st = Inr (m, st')"
  shows "cache_le st st' \<and> js_get (mc_messages st') (m_id (mm_attributes model)) = Some m"
  using registerModel_cases [OF assms]
  by (cases "js_get (mc_messages st) (m_id (mm_attributes model))")
     (auto simp: cache_le_def getById_simps addMessageToCache_new js_get_set)

lemma registerAll_registers:
  "cache_ok st \<Longrightarrow> registerAll now ms st = Inr (models, st') \<Longrightarrow>
    cache_ok st' \<and> cache_le st st' \<and>
    list_all2 (\<lambda>row model. js_get (mc_messages st') (m_id row) = Some model) ms models"
proof (induction ms arbitrary: st models)
  case Nil
  then show ?case by (simp add: cache_le_refl)
next
  case (Cons row ms)
  then obtain model st1 rest where r: "registerModel now (newModel row) st = Inr (model, st1)"
    and rs: "registerAll now ms st1 = Inr (rest, st')" and models: "models = model # rest"
    by (auto simp: bindE_eq_Inr)
  have ok: "cache_ok st1" by (rule cache_ok_register [OF Cons.prems(1) r])
  have reg: "cache_le st st1" "js_get (mc_messages st1) (m_id row) = Some model"
    using registerModel_registers [OF r] by (simp_all add: newModel_def)
  have ih: "cache_ok st' \<and> cache_le st1 st' \<and>
      list_all2 (\<lambda>row model. js_get (mc_messages st') (m_id row) = Some model) ms rest"
    by (rule Cons.IH [OF ok rs])
  have "js_get (mc_messages st') (m_id row) = Some model"
    using ih reg(2) unfolding cache_le_def by blast
  then show ?case using ih cache_le_trans [OF reg(1)] by (simp add: models)
qed

lemma getAllById_result:
  "cache_ok st \<Longrightarrow> getAllById now ids st = (models, st') \<Longrightarrow>
    models = List.map_filter (js_get (mc_messages st)) ids \<and> cache_ok st' \<and> mc_messages st' = mc_messages st"
proof (induction ids arbitrary: st models st')
  case Nil
  then show ?case by (simp add: map_filter_def)
next
  case (Cons i ids)
  obtain s1 where g: "getById now i st = (js_get (mc_messages st) i, s1)"
    and s1: "mc_messages s1 = mc_messages st" and ok: "cache_ok s1"
    using cache_ok_getById [OF Cons.prems(1), of now i] by (metis getById_simps(1,2) prod.collapse)
  obtain ms st1 where rest: "getAllById now ids s1 = (ms, st1)" by (meson surj_pair)
  have ih: "ms = List.map_filter (js_get (mc_messages st)) ids \<and> cache_ok st1 \<and>
      mc_messages st1 = mc_messages st"
    using Cons.IH [OF ok rest] s1 by simp
  show ?case
    using Cons.prems(2) ih
    by (cases "js_get (mc_messages st) i") (auto simp: g rest map_filter_simps)
qed

text \<open>
  The search by the time sent is exact: what it finds is a registered model that satisfies the
  predicate; if it finds nothing, then neither a model of the cache sent at that time nor the
  model of a row that the database returns satisfies it.
\<close>

lemma findBySentAt_exact:
  assumes "cache_ok st" and "findBySentAt now sentAt predicate db st = Inr (found, st')"
  shows "cache_ok st' \<and> cache_le st st' \<and>
    (case found of
       Some model \<Rightarrow> predicate model \<and> js_get (mc_messages st') (m_id (mm_attributes model)) = Some model
     | None \<Rightarrow>
       (\<forall>i model. js_get (mc_messages st) i = Some model \<and> m_sent_at (mm_attributes model) = sentAt \<longrightarrow>
          \<not> predicate model) \<and>
       (\<forall>row \<in> set (getMessagesBySentAt db sentAt). \<exists>model.
          js_get (mc_messages st') (m_id row) = Some model \<and> \<not> predicate model))"
proof -
  let ?ids = "nullish (js_get (mc_messageIdsBySentAt st) sentAt) []"
  obtain models st1 where all: "getAllById now ?ids st = (models, st1)" by (meson surj_pair)
  have m: "models = List.map_filter (js_get (mc_messages st)) ?ids" and ok1: "cache_ok st1"
    and same: "mc_messages st1 = mc_messages st"
    using getAllById_result [OF assms(1) all] by simp_all
  have le1: "cache_le st st1" by (simp add: cache_le_def same)
  have inmem: "model \<in> set models \<longleftrightarrow>
      (\<exists>i. js_get (mc_messages st) i = Some model \<and> m_sent_at (mm_attributes model) = sentAt)" for model
  proof -
    have ids: "i \<in> set ?ids \<longleftrightarrow> sentAtIs (js_get (mc_messages st)) sentAt i" for i
      using assms(1) by (intro index_ok_ids) (simp add: cache_ok_def)
    have "model \<in> set models \<longleftrightarrow> (\<exists>i \<in> set ?ids. js_get (mc_messages st) i = Some model)"
      by (force simp: m map_filter_def)
    then show ?thesis unfolding Bex_def ids by (auto simp: sentAtIs_def)
  qed
  show ?thesis
  proof (cases "find predicate models")
    case (Some model)
    then have eq: "found = Some model" "st' = st1"
      using assms(2) by (simp_all add: findBySentAt_def all)
    from Some obtain i where "predicate model" and i: "js_get (mc_messages st) i = Some model"
      using inmem [of model] by (auto simp: find_Some_iff)
    moreover have "m_id (mm_attributes model) = i" using cache_ok_id [OF assms(1) i] by simp
    ultimately show ?thesis using ok1 le1 by (simp add: eq same)
  next
    case None
    then obtain onDisk where reg: "registerAll now (getMessagesBySentAt db sentAt) st1 = Inr (onDisk, st')"
      and found: "found = find predicate onDisk"
      using assms(2) by (auto simp: findBySentAt_def all bindE_eq_Inr)
    note r = registerAll_registers [OF ok1 reg]
    have le: "cache_le st st'" using cache_le_trans [OF le1] r by blast
    have ok': "cache_ok st'" and all2: "list_all2 (\<lambda>row model. js_get (mc_messages st') (m_id row) = Some model)
        (getMessagesBySentAt db sentAt) onDisk" using r by simp_all
    have regd: "js_get (mc_messages st') (m_id (mm_attributes model)) = Some model" if "model \<in> set onDisk" for model
    proof -
      from list_all2_set_right [OF all2 that] obtain row
        where row: "js_get (mc_messages st') (m_id (row :: Message)) = Some model" by blast
      then show ?thesis using cache_ok_id [OF ok' row] by simp
    qed
    have rows: "\<exists>model \<in> set onDisk. js_get (mc_messages st') (m_id row) = Some model"
      if "row \<in> set (getMessagesBySentAt db sentAt)" for row
      using list_all2_set_left [OF all2 that] by blast
    show ?thesis
    proof (cases found)
      case None
      then have disk: "\<forall>model \<in> set onDisk. \<not> predicate model" by (simp add: found find_None_iff)
      have mem: "\<not> predicate model" if "js_get (mc_messages st) i = Some model"
          "m_sent_at (mm_attributes model) = sentAt" for i model
        using \<open>find predicate models = None\<close> inmem [of model] that unfolding find_None_iff by blast
      show ?thesis using None ok' le mem rows disk by (simp only: option.case) blast
    next
      case (Some model)
      then have "predicate model" "model \<in> set onDisk" using found by (auto simp: find_Some_iff)
      then show ?thesis using Some ok' le regd [of model] by simp
    qed
  qed
qed

text \<open>
  A change of the sent time through \<open>set\<close> does not reach the index: the message is still listed under
  its old time and not under its new one.
\<close>

lemma changed_sent_at_not_indexed:
  assumes "m_id m \<noteq> []" and "m_sent_at m \<noteq> t"
  shows "let st = setMessage now (\<lambda>m. m\<lparr>m_sent_at := t\<rparr>) (m_id m)
      (addMessageToCache now (newModel m) emptyMessageCache)
    in js_get (mc_messageIdsBySentAt st) t = None \<and> js_get (mc_messageIdsBySentAt st) (m_sent_at m) = Some [m_id m]"
  using assms by (simp add: setMessage_def addMessageToCache_def emptyMessageCache_def js_has_def Let_def)

end
