(* ===== verification/Message_Receipts.thy ===== *)
theory Message_Receipts
  imports Message_Cache
begin

text \<open>
  Receipts for the messages we sent (ts/messageModifiers/MessageReceipts.preload.ts): the receipts
  in memory, the search for the message a receipt is about, the batch that applies receipts to the
  send states of messages, and the receipts that arrive before their message
  (\<open>modifyTargetMessage\<close> in ts/util/modifyTargetMessage.preload.ts).

  A receipt is stored as a task in the database before it is kept in memory; the task is removed
  when the receipt is settled, so that after a restart the open ones are processed again. The batch
  runs in the steps between which the source waits: finding the targets of one group of receipts
  after the other, changing all the messages, and finishing one message after the other.
  The settings, the conversations, the table of reactions and the clock are arguments.
\<close>

section \<open>Receipts\<close>

datatype MessageReceiptType = DeliveryReceipt | ReadReceipt | ViewReceipt

record ReceiptSyncTaskType =
  rs_messageSentAt :: int
  rs_receiptTimestamp :: int
  rs_sourceConversationId :: string
  rs_sourceDevice :: int
  rs_sourceServiceId :: string
  rs_type :: MessageReceiptType
  rs_wasSentEncrypted :: bool

record MessageReceiptAttributesType =
  rc_envelopeId :: string
  rc_syncTaskId :: string
  rc_receiptSync :: ReceiptSyncTaskType

record ReceiptEnv =
  re_readReceiptSetting :: bool
  re_storyViewReceiptsEnabled :: bool
  re_getConversationId :: "string \<Rightarrow> string option"
  re_getServiceId :: "string \<Rightarrow> string option"
  re_ownReactionAt :: "int \<Rightarrow> bool"
  re_ourAci :: string
  re_now :: int

record DeleteSentProtoRecipientOptionsType =
  dsp_timestamp :: int
  dsp_recipientServiceId :: string
  dsp_deviceId :: int

record ReceiptStore =
  st_cache :: MessageCacheState
  st_db :: MessageDB
  st_cachedReceipts :: "(string, MessageReceiptAttributesType) jsmap"
  st_syncTasks :: "(string, MessageReceiptAttributesType) jsmap"
  st_deleteSentProto :: "DeleteSentProtoRecipientOptionsType list"

definition sentAtOf :: "MessageReceiptAttributesType \<Rightarrow> int" where
  "sentAtOf r = rs_messageSentAt (rc_receiptSync r)"

definition sourceOf :: "MessageReceiptAttributesType \<Rightarrow> string" where
  "sourceOf r = rs_sourceConversationId (rc_receiptSync r)"

text \<open>\<open>remove\<close>.\<close>

definition removeReceipt :: "MessageReceiptAttributesType \<Rightarrow> ReceiptStore \<Rightarrow> ReceiptStore" where
  "removeReceipt receipt st =
    st\<lparr>st_cachedReceipts := js_del (rc_syncTaskId receipt) (st_cachedReceipts st),
       st_syncTasks := js_del (rc_syncTaskId receipt) (st_syncTasks st)\<rparr>"

section \<open>What a receipt does to a message\<close>

fun sendActionTypeOf :: "MessageReceiptType \<Rightarrow> SendActionType" where
  "sendActionTypeOf DeliveryReceipt = GotDeliveryReceipt"
| "sendActionTypeOf ReadReceipt = GotReadReceipt"
| "sendActionTypeOf ViewReceipt = GotViewedReceipt"

definition receiptAction :: "MessageReceiptAttributesType \<Rightarrow> SendAction" where
  "receiptAction receipt =
    \<lparr>sa_type = sendActionTypeOf (rs_type (rc_receiptSync receipt)),
     sa_updatedAt = Some (rs_receiptTimestamp (rc_receiptSync receipt))\<rparr>"

definition sentState :: SendState where
  "sentState = \<lparr>isAlreadyIncludedInAnotherDistributionList = None, isAllowedToReplyToStory = None,
    ss_status = SSent, ss_updatedAt = None\<rparr>"

definition getNewSendStateByConversationId ::
    "SendStateByConversationId \<Rightarrow> MessageReceiptAttributesType \<Rightarrow> SendStateByConversationId" where
  "getNewSendStateByConversationId oldSendStateByConversationId receipt =
    (let oldSendState = nullish (js_get oldSendStateByConversationId (sourceOf receipt)) sentState
     in js_set (sourceOf receipt) (sendStateReducer oldSendState (receiptAction receipt))
          oldSendStateByConversationId)"

definition updateEditWithReceipt ::
    "MessageReceiptAttributesType \<Rightarrow> EditHistoryType \<Rightarrow> EditHistoryType" where
  "updateEditWithReceipt receipt edit =
    (if sentAtOf receipt \<noteq> eh_timestamp edit then edit
     else edit\<lparr>eh_sendStateByConversationId :=
       Some (getNewSendStateByConversationId (or_list (eh_sendStateByConversationId edit)) receipt)\<rparr>)"

definition isTopLevelTarget :: "Message \<Rightarrow> int \<Rightarrow> bool" where
  "isTopLevelTarget message messageSentAt \<longleftrightarrow>
    (\<not> truthy_num (m_editMessageTimestamp message) \<and> messageSentAt = m_timestamp message) \<or>
    Some messageSentAt = m_editMessageTimestamp message"

definition updateMessageSendStateWithReceipt ::
    "MessageReceiptAttributesType \<Rightarrow> Message \<Rightarrow> Message" where
  "updateMessageSendStateWithReceipt receipt message =
    message\<lparr>
      m_editHistory := map_option (map (updateEditWithReceipt receipt)) (m_editHistory message),
      m_sendStateByConversationId :=
        (if isTopLevelTarget message (sentAtOf receipt)
         then Some (getNewSendStateByConversationId
           (or_list (m_sendStateByConversationId message)) receipt)
         else m_sendStateByConversationId message)\<rparr>"

definition shouldDropReceipt :: "ReceiptEnv \<Rightarrow> MessageReceiptAttributesType \<Rightarrow> Message \<Rightarrow> bool" where
  "shouldDropReceipt E receipt message =
    (case rs_type (rc_receiptSync receipt) of
       DeliveryReceipt \<Rightarrow> False
     | ReadReceipt \<Rightarrow> \<not> re_readReceiptSetting E
     | ViewReceipt \<Rightarrow>
         if isStory message then \<not> re_storyViewReceiptsEnabled E else \<not> re_readReceiptSetting E)"

text \<open>
  \<open>updateMessageWithReceipts\<close>: the receipts that are dropped, those that are processed (the
  ones that are still in memory), and the changed message.
\<close>

definition updateMessageWithReceipts ::
    "ReceiptEnv \<Rightarrow> (string, MessageReceiptAttributesType) jsmap \<Rightarrow> MessageReceiptAttributesType list \<Rightarrow>
     Message \<Rightarrow> MessageReceiptAttributesType list \<times> MessageReceiptAttributesType list \<times> Message" where
  "updateMessageWithReceipts E cachedReceipts receipts message =
    (let droppedReceipts = filter (\<lambda>r. shouldDropReceipt E r message) receipts;
         receiptsToProcess = filter (\<lambda>r. \<not> shouldDropReceipt E r message \<and>
           js_has cachedReceipts (rc_syncTaskId r)) receipts
     in (droppedReceipts, receiptsToProcess,
         fold updateMessageSendStateWithReceipt receiptsToProcess message))"

section \<open>The message a receipt is about\<close>

definition UNDELIVERED_SEND_STATUSES :: "SendStatus list" where
  "UNDELIVERED_SEND_STATUSES = [SPending, SFailed]"

definition isTargetFor :: "string \<Rightarrow> int \<Rightarrow> Message \<Rightarrow> bool" where
  "isTargetFor sourceConversationId targetTimestamp msg \<longleftrightarrow>
    (isOutgoing msg \<or> isStory msg) \<and>
    (case js_get (or_list (getPropForTimestamp msg targetTimestamp)) sourceConversationId of
       None \<Rightarrow> False
     | Some sendState \<Rightarrow> ss_status sendState \<notin> set UNDELIVERED_SEND_STATUSES)"

definition getTargetMessage :: "string \<Rightarrow> int \<Rightarrow> Message list \<Rightarrow> Message option" where
  "getTargetMessage sourceConversationId targetTimestamp messagesMatchingTimestamp =
    find (isTargetFor sourceConversationId targetTimestamp) messagesMatchingTimestamp"

definition storyTargets :: "string \<Rightarrow> Message list \<Rightarrow> Message list" where
  "storyTargets sourceConversationId messagesMatchingTimestamp =
    filter (\<lambda>item. truthy_str (m_storyDistributionListId item) \<and>
        m_sendStateByConversationId item \<noteq> None \<and>
        \<not> truthy_bool (m_deletedForEveryone item) \<and>
        js_has (or_list (m_sendStateByConversationId item)) sourceConversationId)
      messagesMatchingTimestamp"

text \<open>
  The state of a batch while it searches: the store, and the receipts by the message they are
  about. \<open>register\<close> gives the model in memory if there is one.
\<close>

type_synonym receiptsByMessageId = "(string, MessageReceiptAttributesType list) jsmap"

definition addTo :: "'k \<Rightarrow> 'v \<Rightarrow> ('k, 'v list) jsmap \<Rightarrow> ('k, 'v list) jsmap" where
  "addTo k v m = js_set k (nullish (js_get m k) [] @ [v]) m"

definition addReceiptAndTargetMessage ::
    "ReceiptEnv \<Rightarrow> MessageReceiptAttributesType \<Rightarrow> Message \<Rightarrow> ReceiptStore \<times> receiptsByMessageId \<Rightarrow>
     (ReceiptStore \<times> receiptsByMessageId) \<times> unit js" where
  "addReceiptAndTargetMessage E receipt msg s =
    (let (st, byId) = s
     in case registerModel (re_now E) (newModel msg) (st_cache st) of
          Inl e \<Rightarrow> (s, Inl e)
        | Inr (model, cache) \<Rightarrow>
          ((st\<lparr>st_cache := cache\<rparr>, addTo (m_id (mm_attributes model)) receipt byId), Inr ()))"

definition targetReceipt ::
    "ReceiptEnv \<Rightarrow> int \<Rightarrow> Message list \<Rightarrow> MessageReceiptAttributesType \<Rightarrow>
     ReceiptStore \<times> receiptsByMessageId \<Rightarrow> (ReceiptStore \<times> receiptsByMessageId) \<times> unit js" where
  "targetReceipt E sentAt messagesMatchingTimestamp receipt s =
    (case getTargetMessage (sourceOf receipt) sentAt messagesMatchingTimestamp of
       Some targetMessage \<Rightarrow> addReceiptAndTargetMessage E receipt targetMessage s
     | None \<Rightarrow>
       forS (addReceiptAndTargetMessage E receipt)
         (storyTargets (sourceOf receipt) messagesMatchingTimestamp) s)"

definition isForReaction :: "ReceiptEnv \<Rightarrow> ReceiptStore \<Rightarrow> int \<Rightarrow> bool" where
  "isForReaction E st sentAt \<longleftrightarrow> getMessagesBySentAt (st_db st) sentAt = [] \<and> re_ownReactionAt E sentAt"

definition targetGroup ::
    "ReceiptEnv \<Rightarrow> MessageReceiptAttributesType list \<Rightarrow> ReceiptStore \<times> receiptsByMessageId \<Rightarrow>
     (ReceiptStore \<times> receiptsByMessageId) \<times> unit js" where
  "targetGroup E receiptsForMessageSentAt s =
    (case receiptsForMessageSentAt of
       [] \<Rightarrow> (s, Inr ())
     | first # _ \<Rightarrow>
       (let sentAt = sentAtOf first
        in if isForReaction E (fst s) sentAt
           then ((fold removeReceipt receiptsForMessageSentAt (fst s), snd s), Inr ())
           else forS (targetReceipt E sentAt (getMessagesBySentAt (st_db (fst s)) sentAt))
                  receiptsForMessageSentAt s))"

text \<open>
  \<open>groupBy\<close> makes a plain object, whose keys that look like array indices come first, in
  ascending order, before the others in the order of their insertion.
\<close>

definition isArrayIndex :: "int \<Rightarrow> bool" where
  "isArrayIndex k \<longleftrightarrow> 0 \<le> k \<and> k < 4294967295"

definition objectOrder :: "(int, 'v) jsmap \<Rightarrow> (int, 'v) jsmap" where
  "objectOrder m = sort_key fst (filter (\<lambda>e. isArrayIndex (fst e)) m) @ filter (\<lambda>e. \<not> isArrayIndex (fst e)) m"

definition receiptsByMessageSentAt ::
    "MessageReceiptAttributesType list \<Rightarrow> MessageReceiptAttributesType list list" where
  "receiptsByMessageSentAt receipts =
    js_values (objectOrder (fold (\<lambda>r. addTo (sentAtOf r) r) receipts []))"

section \<open>Changing and saving the messages\<close>

text \<open>
  \<open>processReceiptsForMessage\<close> up to the change of the message, and from there on. The first part
  runs for all messages before the second part of any, as the models are in memory and the source
  waits only for promises that are resolved.
\<close>

definition startReceiptsForMessage ::
    "ReceiptEnv \<Rightarrow> string \<times> MessageReceiptAttributesType list \<Rightarrow> ReceiptStore \<Rightarrow>
     ReceiptStore \<times> (MessageReceiptAttributesType list \<times> MessageReceiptAttributesType list) js" where
  "startReceiptsForMessage E entry st =
    (let (messageId, receipts) = entry
     in case getMessageById (re_now E) messageId (st_db st) (st_cache st) of
          Inl e \<Rightarrow> (st, Inl e)
        | Inr (None, cache) \<Rightarrow>
          (st\<lparr>st_cache := cache\<rparr>, throw (''processReceiptsForMessage: Failed to find message '' @ messageId))
        | Inr (Some model, cache) \<Rightarrow>
          (let (droppedReceipts, validReceipts, attributes) =
                 updateMessageWithReceipts E (st_cachedReceipts st) receipts (mm_attributes model)
           in (st\<lparr>st_cache := setMessage (re_now E) (\<lambda>_. attributes) messageId cache\<rparr>,
               Inr (droppedReceipts, validReceipts))))"

definition wasDeliveredWithSealedSender :: "ReceiptEnv \<Rightarrow> string \<Rightarrow> Message \<Rightarrow> bool" where
  "wasDeliveredWithSealedSender E conversationId message =
    list_ex (\<lambda>identifier. re_getConversationId E identifier = Some conversationId)
      (or_list (m_unidentifiedDeliveries message))"

definition addToDeleteSentProtoBatcher ::
    "ReceiptEnv \<Rightarrow> MessageReceiptAttributesType \<Rightarrow> Message \<Rightarrow> ReceiptStore \<Rightarrow> ReceiptStore" where
  "addToDeleteSentProtoBatcher E receipt message st =
    (let sync = rc_receiptSync receipt
     in if rs_type sync = DeliveryReceipt \<and>
             wasDeliveredWithSealedSender E (sourceOf receipt) message \<and> rs_wasSentEncrypted sync \<or>
           rs_type sync = ReadReceipt
        then (case re_getServiceId E (sourceOf receipt) of
                Some recipientServiceId \<Rightarrow>
                  if recipientServiceId \<noteq> [] \<and> rs_sourceDevice sync \<noteq> 0
                  then st\<lparr>st_deleteSentProto := st_deleteSentProto st @
                    [\<lparr>dsp_timestamp = rs_messageSentAt sync, dsp_recipientServiceId = recipientServiceId,
                      dsp_deviceId = rs_sourceDevice sync\<rparr>]\<rparr>
                  else st
              | None \<Rightarrow> st)
        else st)"

definition finishReceiptsForMessage ::
    "ReceiptEnv \<Rightarrow> Message \<Rightarrow> MessageReceiptAttributesType list \<Rightarrow> MessageReceiptAttributesType list \<Rightarrow>
     ReceiptStore \<Rightarrow> ReceiptStore" where
  "finishReceiptsForMessage E message droppedReceipts validReceipts st =
    fold (\<lambda>receipt s. addToDeleteSentProtoBatcher E receipt message (removeReceipt receipt s))
      validReceipts
      (fold removeReceipt droppedReceipts (st\<lparr>st_db := saveMessage message (st_db st)\<rparr>))"

section \<open>Receipts before their message\<close>

text \<open>
  \<open>getSourceServiceId\<close> for the two types \<open>forMessage\<close> goes on with; the receipts it finds are
  removed before it returns them.
\<close>

definition sourceServiceIdOf :: "ReceiptEnv \<Rightarrow> Message \<Rightarrow> string option" where
  "sourceServiceIdOf E message =
    (if isIncoming message \<or> isStory message \<or> m_type message = Mt_pinned_message_notification
     then m_sourceServiceId message else Some (re_ourAci E))"

definition earlyReceipts :: "ReceiptEnv \<Rightarrow> Message \<Rightarrow> ReceiptStore \<Rightarrow> MessageReceiptAttributesType list" where
  "earlyReceipts E message st =
    (if \<not> isOutgoing message \<and> \<not> isStory message then []
     else if sourceServiceIdOf E message \<noteq> Some (re_ourAci E) then []
     else filter (\<lambda>item. sentAtOf item = getMessageSentTimestamp True (re_now E) message)
            (js_values (st_cachedReceipts st)))"

definition forMessage ::
    "ReceiptEnv \<Rightarrow> Message \<Rightarrow> ReceiptStore \<Rightarrow> ReceiptStore \<times> MessageReceiptAttributesType list" where
  "forMessage E message st =
    (let result = earlyReceipts E message st
     in (fold removeReceipt result st, filter (\<lambda>r. \<not> shouldDropReceipt E r message) result))"

definition applyEarlyReceipt ::
    "MessageReceiptAttributesType \<Rightarrow> SendStateByConversationId \<Rightarrow> SendStateByConversationId" where
  "applyEarlyReceipt receipt result =
    (case js_get result (sourceOf receipt) of
       None \<Rightarrow> result
     | Some oldSendState \<Rightarrow>
       js_set (sourceOf receipt) (sendStateReducer oldSendState (receiptAction receipt)) result)"

definition modifyWithEarlyReceipts ::
    "ReceiptEnv \<Rightarrow> Message \<Rightarrow> ReceiptStore \<Rightarrow> ReceiptStore \<times> Message" where
  "modifyWithEarlyReceipts E message st =
    (if isOutgoing message \<or> isStory message \<and> sourceServiceIdOf E message = Some (re_ourAci E)
     then
       let (st', receipts) = forMessage E message st;
           old = or_list (m_sendStateByConversationId message);
           new = fold applyEarlyReceipt receipts old
       in (st', if old \<noteq> new then message\<lparr>m_sendStateByConversationId := Some new\<rparr> else message)
     else (st, message))"

definition onReceipt :: "MessageReceiptAttributesType \<Rightarrow> ReceiptStore \<Rightarrow> ReceiptStore" where
  "onReceipt receipt st =
    st\<lparr>st_cachedReceipts := js_set (rc_syncTaskId receipt) receipt (st_cachedReceipts st)\<rparr>"

section \<open>The send states of a message\<close>

text \<open>
  A message has one send state per version: those of its edits, and its own. A version is a number
  in the history, or \<open>None\<close> for the message itself.
\<close>

definition sendStatesAt :: "Message \<Rightarrow> nat option \<Rightarrow> SendStateByConversationId option" where
  "sendStatesAt m version =
    (case version of
       None \<Rightarrow> m_sendStateByConversationId m
     | Some n \<Rightarrow> (if n < length (or_list (m_editHistory m))
                 then eh_sendStateByConversationId (or_list (m_editHistory m) ! n) else None))"

definition isTargetVersion :: "Message \<Rightarrow> int \<Rightarrow> nat option \<Rightarrow> bool" where
  "isTargetVersion m sentAt version =
    (case version of
       None \<Rightarrow> isTopLevelTarget m sentAt
     | Some n \<Rightarrow> n < length (or_list (m_editHistory m)) \<and>
                eh_timestamp (or_list (m_editHistory m) ! n) = sentAt)"

definition statusAt :: "Message \<Rightarrow> nat option \<Rightarrow> string \<Rightarrow> SendStatus option" where
  "statusAt m version c = map_option ss_status (js_get (or_list (sendStatesAt m version)) c)"

definition receiptStatus :: "MessageReceiptAttributesType \<Rightarrow> SendStatus" where
  "receiptStatus r = STATE_TRANSITIONS (sendActionTypeOf (rs_type (rc_receiptSync r)))"

text \<open>What receipts never change: the times of the versions and what identifies the message.\<close>

definition sameVersions :: "Message \<Rightarrow> Message \<Rightarrow> bool" where
  "sameVersions m m' \<longleftrightarrow>
    m_id m' = m_id m \<and> m_type m' = m_type m \<and> m_timestamp m' = m_timestamp m \<and>
    m_sent_at m' = m_sent_at m \<and> m_editMessageTimestamp m' = m_editMessageTimestamp m \<and>
    map eh_timestamp (or_list (m_editHistory m')) = map eh_timestamp (or_list (m_editHistory m))"

lemma sameVersions_refl: "sameVersions m m"
  by (simp add: sameVersions_def)

lemma sameVersions_trans: "sameVersions a b \<Longrightarrow> sameVersions b c \<Longrightarrow> sameVersions a c"
  by (simp add: sameVersions_def)

lemma isTargetVersion_same:
  assumes "sameVersions m m'"
  shows "isTargetVersion m' t version = isTargetVersion m t version"
proof (cases version)
  case None
  then show ?thesis using assms by (simp add: isTargetVersion_def isTopLevelTarget_def sameVersions_def)
next
  case (Some n)
  have eq: "map eh_timestamp (or_list (m_editHistory m')) = map eh_timestamp (or_list (m_editHistory m))"
    using assms by (simp add: sameVersions_def)
  then have "length (or_list (m_editHistory m')) = length (or_list (m_editHistory m))"
    by (metis length_map)
  with eq show ?thesis
    by (auto simp: Some isTargetVersion_def) (metis nth_map)+
qed

lemma or_list_map: "or_list (map_option (map f) h) = map f (or_list h)"
  by (cases h) simp_all

lemma updateEdit_timestamp: "eh_timestamp (updateEditWithReceipt r e) = eh_timestamp e"
  by (simp add: updateEditWithReceipt_def)

lemma update_fields [simp]:
  "m_id (updateMessageSendStateWithReceipt r m) = m_id m"
  "m_type (updateMessageSendStateWithReceipt r m) = m_type m"
  "m_conversationId (updateMessageSendStateWithReceipt r m) = m_conversationId m"
  "m_timestamp (updateMessageSendStateWithReceipt r m) = m_timestamp m"
  "m_sent_at (updateMessageSendStateWithReceipt r m) = m_sent_at m"
  by (simp_all add: updateMessageSendStateWithReceipt_def)

lemma sameVersions_update: "sameVersions m (updateMessageSendStateWithReceipt r m)"
  by (simp add: sameVersions_def updateMessageSendStateWithReceipt_def or_list_map updateEdit_timestamp)

lemma sameVersions_fold: "sameVersions m (fold updateMessageSendStateWithReceipt rs m)"
  by (rule fold_keeps [where P = "sameVersions m"])
     (auto intro: sameVersions_refl sameVersions_trans [OF _ sameVersions_update])

text \<open>A receipt changes exactly the versions it is about.\<close>

lemma sendStatesAt_update:
  "sendStatesAt (updateMessageSendStateWithReceipt r m) version =
    (if isTargetVersion m (sentAtOf r) version
     then Some (getNewSendStateByConversationId (or_list (sendStatesAt m version)) r)
     else sendStatesAt m version)"
  by (auto simp: sendStatesAt_def isTargetVersion_def updateMessageSendStateWithReceipt_def
      or_list_map updateEditWithReceipt_def split: option.splits)

lemma receiptAction_status:
  "ss_status (sendStateReducer st (receiptAction r)) = maxStatus (ss_status st) (receiptStatus r)"
  by (cases "rs_type (rc_receiptSync r)") (simp_all add: ss_status_reducer receiptAction_def receiptStatus_def)

lemma statusAt_update:
  "statusAt (updateMessageSendStateWithReceipt r m) version c =
    (if isTargetVersion m (sentAtOf r) version \<and> c = sourceOf r
     then Some (maxStatus (nullish (statusAt m version c) SSent) (receiptStatus r))
     else statusAt m version c)"
  by (cases "js_get (or_list (sendStatesAt m version)) c")
     (auto simp: statusAt_def sendStatesAt_update getNewSendStateByConversationId_def Let_def
       js_get_set receiptAction_status sentState_def)

text \<open>
  The result of a batch: the status of each recipient in each version is the highest of its old
  status (\<open>Sent\<close> if it had none) and the receipts from this recipient about this version.
\<close>

definition receiptsFor ::
    "Message \<Rightarrow> nat option \<Rightarrow> string \<Rightarrow> MessageReceiptAttributesType list \<Rightarrow> SendStatus list" where
  "receiptsFor m version c rs =
    map receiptStatus (filter (\<lambda>r. isTargetVersion m (sentAtOf r) version \<and> sourceOf r = c) rs)"

lemma statusAt_fold:
  "statusAt (fold updateMessageSendStateWithReceipt rs m) version c =
    (if receiptsFor m version c rs = [] then statusAt m version c
     else Some (fold (\<lambda>b a. maxStatus a b) (receiptsFor m version c rs) (nullish (statusAt m version c) SSent)))"
proof (induction rs arbitrary: m)
  case Nil
  then show ?case by (simp add: receiptsFor_def)
next
  case (Cons r rs)
  have same: "receiptsFor (updateMessageSendStateWithReceipt r m) version c rs = receiptsFor m version c rs"
    by (simp add: receiptsFor_def isTargetVersion_same [OF sameVersions_update])
  show ?case
    by (simp add: Cons.IH same statusAt_update) (simp add: receiptsFor_def)
qed

text \<open>A receipt is recorded in a message if it is about one of its versions and all these show it.\<close>

definition isAbout :: "MessageReceiptAttributesType \<Rightarrow> Message \<Rightarrow> bool" where
  "isAbout r m \<longleftrightarrow> isTopLevelTarget m (sentAtOf r) \<or>
    sentAtOf r \<in> set (map eh_timestamp (or_list (m_editHistory m)))"

definition reaches :: "SendStatus option \<Rightarrow> SendStatus \<Rightarrow> bool" where
  "reaches st s = (case st of None \<Rightarrow> False | Some s' \<Rightarrow> STATUS_NUMBERS s \<le> STATUS_NUMBERS s')"

definition recorded :: "MessageReceiptAttributesType \<Rightarrow> Message \<Rightarrow> bool" where
  "recorded r m \<longleftrightarrow> isAbout r m \<and>
    (\<forall>version. isTargetVersion m (sentAtOf r) version \<longrightarrow>
      reaches (statusAt m version (sourceOf r)) (receiptStatus r))"

lemma isAbout_same: "sameVersions m m' \<Longrightarrow> isAbout r m' = isAbout r m"
  by (simp add: isAbout_def isTopLevelTarget_def sameVersions_def)

lemma reaches_max: "reaches st s \<Longrightarrow> reaches (Some (maxStatus (nullish st d) s')) s"
  by (cases st) (auto simp: reaches_def send.rank_higher)

lemma recorded_keeps: "recorded r m \<Longrightarrow> recorded r (updateMessageSendStateWithReceipt r' m)"
  by (auto simp: recorded_def isAbout_same [OF sameVersions_update]
      isTargetVersion_same [OF sameVersions_update] statusAt_update reaches_max)

lemma recorded_now: "isAbout r m \<Longrightarrow> recorded r (updateMessageSendStateWithReceipt r m)"
  by (auto simp: recorded_def isAbout_same [OF sameVersions_update]
      isTargetVersion_same [OF sameVersions_update] statusAt_update reaches_def send.rank_higher)

lemma recorded_fold:
  assumes "recorded r m \<or> r \<in> set rs \<and> isAbout r m"
  shows "recorded r (fold updateMessageSendStateWithReceipt rs m)"
  using assms
proof (induction rs arbitrary: m)
  case (Cons r' rs)
  have "recorded r (updateMessageSendStateWithReceipt r' m) \<or>
      r \<in> set rs \<and> isAbout r (updateMessageSendStateWithReceipt r' m)"
    using Cons.prems recorded_keeps recorded_now
    by (auto simp: isAbout_same [OF sameVersions_update])
  then show ?case using Cons.IH by simp
qed simp

section \<open>Properties\<close>


text \<open>
The order in which the receipts of a batch are processed, and repetitions, do not matter for
the statuses.
\<close>

theorem receipts_batch_order:
  assumes "set rs = set rs'"
  shows "statusAt (fold updateMessageSendStateWithReceipt rs m) version c =
    statusAt (fold updateMessageSendStateWithReceipt rs' m) version c"
proof -
  have eq: "set (receiptsFor m version c rs) = set (receiptsFor m version c rs')"
    using assms by (simp add: receiptsFor_def)
  then have "receiptsFor m version c rs = [] \<longleftrightarrow> receiptsFor m version c rs' = []"
    by (metis set_empty)
  then show ?thesis
    using send.fold_higher_set [OF eq] by (simp add: statusAt_fold)
qed

text \<open>
A receipt that is there before its message changes only the send states of the message itself. If
it is about an edit, the history of edits is not changed, unlike with a receipt that arrives after
the edit; and if there is no send state for its sender, it is lost.
\<close>

definition editedMessage :: Message where
  "editedMessage =
    \<lparr>m_id = ''m'', m_type = Mt_outgoing, m_conversationId = ''bob'', m_timestamp = 7, m_sent_at = 7,
     m_received_at = 7, m_serverTimestamp = None, m_editMessageTimestamp = Some 9,
     m_editHistory = Some
       [\<lparr>eh_timestamp = 9, eh_sendStateByConversationId = Some [(''bob'', sentState)]\<rparr>,
        \<lparr>eh_timestamp = 7, eh_sendStateByConversationId = Some [(''bob'', sentState)]\<rparr>],
     m_sendStateByConversationId = Some [(''bob'', sentState)], m_storyDistributionListId = None,
     m_storyId = None, m_deletedForEveryone = None, m_unidentifiedDeliveries = None, m_source = None,
     m_sourceServiceId = None, m_readStatus = None, m_seenStatus = None, m_readAt = None,
     m_expireTimer = None, m_expirationStartTimestamp = None\<rparr>"

definition editReceipt :: MessageReceiptAttributesType where
  "editReceipt =
    \<lparr>rc_envelopeId = ''e'', rc_syncTaskId = ''t'', rc_receiptSync =
      \<lparr>rs_messageSentAt = 9, rs_receiptTimestamp = 12, rs_sourceConversationId = ''bob'', rs_sourceDevice = 1,
       rs_sourceServiceId = ''bob-aci'', rs_type = ReadReceipt, rs_wasSentEncrypted = True\<rparr>\<rparr>"

definition receiptInMemory :: "MessageReceiptAttributesType \<Rightarrow> ReceiptStore" where
  "receiptInMemory r =
    \<lparr>st_cache = emptyMessageCache, st_db = \<lparr>db_messages = [], db_edited_messages = []\<rparr>,
     st_cachedReceipts = [(rc_syncTaskId r, r)], st_syncTasks = [(rc_syncTaskId r, r)],
     st_deleteSentProto = []\<rparr>"

definition allowingEnv :: ReceiptEnv where
  "allowingEnv =
    \<lparr>re_readReceiptSetting = True, re_storyViewReceiptsEnabled = True, re_getConversationId = Some,
     re_getServiceId = Some, re_ownReactionAt = (\<lambda>_. False), re_ourAci = ''me'', re_now = 99\<rparr>"

lemma early_receipt_skips_history:
  "case modifyWithEarlyReceipts allowingEnv editedMessage (receiptInMemory editReceipt) of
     (st, m) \<Rightarrow> st_syncTasks st = [] \<and>
       statusAt m None ''bob'' = Some SRead \<and> statusAt m (Some 0) ''bob'' = Some SSent \<and>
       statusAt (updateMessageSendStateWithReceipt editReceipt editedMessage) (Some 0) ''bob'' = Some SRead"
  by code_simp

lemma early_receipt_without_record_is_lost:
  "case modifyWithEarlyReceipts allowingEnv (editedMessage\<lparr>m_sendStateByConversationId := None\<rparr>)
      (receiptInMemory editReceipt) of
     (st, m) \<Rightarrow> st_syncTasks st = [] \<and> st_cachedReceipts st = [] \<and> statusAt m None ''bob'' = None"
  by code_simp

end
