(* ===== verification/Receipt_Runs.thy ===== *)
theory Receipt_Runs
  imports Message_Receipts
begin

text \<open>
  Runs of the receipts: a state machine over the operations of \<open>Message_Receipts\<close>, with batches
  that overlap with arriving receipts and new messages, and with restarts at any point. The log of
  what became of each receipt is not in the source; it is what the theorems speak about.
\<close>

section \<open>Configurations and events\<close>

datatype receipt_phase =
  Idle
  | Targeting "MessageReceiptAttributesType list list" receiptsByMessageId
  | Updated "(string \<times> MessageReceiptAttributesType list \<times> MessageReceiptAttributesType list) list"

datatype receipt_outcome =
  ForReaction | DroppedFor string | AppliedTo string | HandedTo string | Expired

record receipt_conf =
  co_store :: ReceiptStore
  co_items :: "MessageReceiptAttributesType list"
  co_phase :: receipt_phase
  co_settled :: "(MessageReceiptAttributesType \<times> receipt_outcome) list"

text \<open>
  \<open>Arrive\<close>: the task is saved, under a new id, and the receipt kept in memory and added to the batcher.
  \<open>NewMessage\<close>: a message is registered, modified by early receipts, and saved.
  \<open>Restart\<close>: the memory is lost; tasks tried too often are deleted, the others queued again.
\<close>

datatype receipt_event =
  Arrive MessageReceiptAttributesType | Kick | TargetNext | UpdateAll | FinishNext
  | NewMessage Message | Restart "string list"

definition arrive :: "MessageReceiptAttributesType \<Rightarrow> receipt_conf \<Rightarrow> receipt_conf option" where
  "arrive r c =
    (let st = co_store c; i = rc_syncTaskId r
     in if js_has (st_syncTasks st) i \<or> i \<in> rc_syncTaskId ` fst ` set (co_settled c) then None
        else Some (c\<lparr>co_store := onReceipt r (st\<lparr>st_syncTasks := js_set i r (st_syncTasks st)\<rparr>),
                     co_items := co_items c @ [r]\<rparr>))"

definition targetNext :: "ReceiptEnv \<Rightarrow> receipt_conf \<Rightarrow> receipt_conf option" where
  "targetNext E c =
    (case co_phase c of
       Targeting (g # gs) byId \<Rightarrow>
         (case targetGroup E g (co_store c, byId) of
            ((st, byId'), result) \<Rightarrow>
              Some (c\<lparr>co_store := st,
                co_phase := (case result of Inl e \<Rightarrow> Idle | Inr _ \<Rightarrow> Targeting gs byId'),
                co_settled := co_settled c @
                  (case g of
                     [] \<Rightarrow> []
                   | r # _ \<Rightarrow> if isForReaction E (co_store c) (sentAtOf r)
                              then map (\<lambda>r. (r, ForReaction)) g else [])\<rparr>))
     | _ \<Rightarrow> None)"

fun startAll ::
    "ReceiptEnv \<Rightarrow> receiptsByMessageId \<Rightarrow> ReceiptStore \<Rightarrow>
     ReceiptStore \<times> (string \<times> MessageReceiptAttributesType list \<times> MessageReceiptAttributesType list) list" where
  "startAll E [] st = (st, [])"
| "startAll E ((i, rs) # es) st =
    (case startReceiptsForMessage E (i, rs) st of
       (st', Inl e) \<Rightarrow> startAll E es st'
     | (st', Inr (d, v)) \<Rightarrow> (let (st'', rest) = startAll E es st' in (st'', (i, d, v) # rest)))"

definition updateAll :: "ReceiptEnv \<Rightarrow> receipt_conf \<Rightarrow> receipt_conf option" where
  "updateAll E c =
    (case co_phase c of
       Targeting [] byId \<Rightarrow>
         (case startAll E byId (co_store c) of
            (st, started) \<Rightarrow> Some (c\<lparr>co_store := st, co_phase := Updated started\<rparr>))
     | _ \<Rightarrow> None)"

definition finishNext :: "ReceiptEnv \<Rightarrow> receipt_conf \<Rightarrow> receipt_conf option" where
  "finishNext E c =
    (case co_phase c of
       Updated [] \<Rightarrow> Some (c\<lparr>co_phase := Idle\<rparr>)
     | Updated ((i, d, v) # rest) \<Rightarrow>
         (case js_get (mc_messages (st_cache (co_store c))) i of
            None \<Rightarrow> None
          | Some model \<Rightarrow>
            Some (c\<lparr>co_store := finishReceiptsForMessage E (mm_attributes model) d v (co_store c),
              co_phase := Updated rest,
              co_settled := co_settled c @ map (\<lambda>r. (r, DroppedFor i)) d @ map (\<lambda>r. (r, AppliedTo i)) v\<rparr>))
     | _ \<Rightarrow> None)"

definition newMessage :: "ReceiptEnv \<Rightarrow> Message \<Rightarrow> receipt_conf \<Rightarrow> receipt_conf option" where
  "newMessage E m c =
    (let st = co_store c
     in if m_id m = [] \<or> db_getMessageById (st_db st) (m_id m) \<noteq> None \<or>
           js_has (mc_messages (st_cache st)) (m_id m) then None
        else
          let (st', m') = modifyWithEarlyReceipts E m st
          in Some (c\<lparr>co_store := st'\<lparr>
                 st_cache := addMessageToCache (re_now E) (newModel m') (st_cache st'),
                 st_db := saveMessage m' (st_db st')\<rparr>,
               co_settled := co_settled c @ map (\<lambda>r. (r,
                 if shouldDropReceipt E r m then DroppedFor (m_id m) else HandedTo (m_id m)))
                   (earlyReceipts E m st)\<rparr>))"

definition restart :: "string list \<Rightarrow> receipt_conf \<Rightarrow> receipt_conf" where
  "restart expired c =
    (let st = co_store c;
         kept = filter (\<lambda>e. fst e \<notin> set expired) (st_syncTasks st);
         gone = filter (\<lambda>e. fst e \<in> set expired) (st_syncTasks st)
     in \<lparr>co_store = fold onReceipt (js_values kept)
           (st\<lparr>st_cache := emptyMessageCache, st_cachedReceipts := [], st_syncTasks := kept,
               st_deleteSentProto := []\<rparr>),
         co_items = js_values kept, co_phase = Idle,
         co_settled = co_settled c @ map (\<lambda>r. (r, Expired)) (js_values gone)\<rparr>)"

fun exec :: "ReceiptEnv \<Rightarrow> receipt_event \<Rightarrow> receipt_conf \<Rightarrow> receipt_conf option" where
  "exec E (Arrive r) c = arrive r c"
| "exec E Kick c =
    (if co_phase c = Idle \<and> co_items c \<noteq> []
     then Some (c\<lparr>co_phase := Targeting (receiptsByMessageSentAt (co_items c)) [], co_items := []\<rparr>)
     else None)"
| "exec E TargetNext c = targetNext E c"
| "exec E UpdateAll c = updateAll E c"
| "exec E FinishNext c = finishNext E c"
| "exec E (NewMessage m) c = newMessage E m c"
| "exec E (Restart expired) c = Some (restart expired c)"

text \<open>The runs from a database, as an inductive relation: the events so far and the configuration.\<close>

definition startConf :: "MessageDB \<Rightarrow> receipt_conf" where
  "startConf db =
    \<lparr>co_store = \<lparr>st_cache = emptyMessageCache, st_db = db, st_cachedReceipts = [], st_syncTasks = [],
       st_deleteSentProto = []\<rparr>,
     co_items = [], co_phase = Idle, co_settled = []\<rparr>"

inductive receipt_run :: "ReceiptEnv \<Rightarrow> MessageDB \<Rightarrow> receipt_event list \<Rightarrow> receipt_conf \<Rightarrow> bool"
  for E :: ReceiptEnv and db :: MessageDB where
  run_start: "receipt_run E db [] (startConf db)"
| run_step: "receipt_run E db evs c \<Longrightarrow> exec E ev c = Some c' \<Longrightarrow> receipt_run E db (evs @ [ev]) c'"

inductive_cases run_stepE: "receipt_run E db (evs @ [ev]) c"

section \<open>Consistent stores\<close>

text \<open>
  The rows have distinct ids. A message that can get receipts is sent at its timestamp; once it is
  edited, its history has an entry for every time its edits were stored under, and for the original.
\<close>

definition canGetReceipts :: "Message \<Rightarrow> bool" where
  "canGetReceipts m \<longleftrightarrow> isOutgoing m \<or> isStory m \<or> m_storyDistributionListId m \<noteq> None"

definition versionsStored :: "(string \<times> int) list \<Rightarrow> Message \<Rightarrow> bool" where
  "versionsStored edited m \<longleftrightarrow> m_sent_at m = m_timestamp m \<and>
    (truthy_num (m_editMessageTimestamp m) \<longrightarrow>
       m_timestamp m \<in> set (map eh_timestamp (or_list (m_editHistory m)))) \<and>
    (\<forall>t. (m_id m, t) \<in> set edited \<longrightarrow> t \<in> set (map eh_timestamp (or_list (m_editHistory m))))"

definition rows_ok :: "MessageDB \<Rightarrow> bool" where
  "rows_ok db \<longleftrightarrow> distinct (map m_id (db_messages db)) \<and>
    (\<forall>m \<in> set (db_messages db). m_id m \<noteq> [] \<and>
      (canGetReceipts m \<longrightarrow> versionsStored (db_edited_messages db) m))"

text \<open>The model of a message is never behind its row.\<close>

definition advances :: "Message \<Rightarrow> Message \<Rightarrow> bool" where
  "advances m m' \<longleftrightarrow> sameVersions m m' \<and>
    m_storyDistributionListId m' = m_storyDistributionListId m \<and> (\<forall>r. recorded r m \<longrightarrow> recorded r m')"

definition models_ok :: "MessageDB \<Rightarrow> MessageCacheState \<Rightarrow> bool" where
  "models_ok db cache \<longleftrightarrow> cache_ok cache \<and>
    (\<forall>i model. js_get (mc_messages cache) i = Some model \<longrightarrow>
       (\<exists>row. db_getMessageById db i = Some row \<and> advances row (mm_attributes model)))"

definition tasks_ok :: "ReceiptStore \<Rightarrow> bool" where
  "tasks_ok st \<longleftrightarrow> distinct (js_keys (st_syncTasks st)) \<and> distinct (js_keys (st_cachedReceipts st)) \<and>
    (\<forall>k r. js_get (st_syncTasks st) k = Some r \<longrightarrow> rc_syncTaskId r = k) \<and>
    (\<forall>k r. js_get (st_cachedReceipts st) k = Some r \<longrightarrow> js_get (st_syncTasks st) k = Some r)"

definition store_ok :: "ReceiptStore \<Rightarrow> bool" where
  "store_ok st \<longleftrightarrow> rows_ok (st_db st) \<and> models_ok (st_db st) (st_cache st) \<and> tasks_ok st"

lemma advances_refl: "advances m m"
  by (simp add: advances_def sameVersions_refl)

lemma advances_trans: "advances a b \<Longrightarrow> advances b c \<Longrightarrow> advances a c"
  using sameVersions_trans unfolding advances_def by metis

lemma advances_fold: "advances m (fold updateMessageSendStateWithReceipt rs m)"
proof -
  have "m_storyDistributionListId (fold updateMessageSendStateWithReceipt rs m) = m_storyDistributionListId m"
    by (rule fold_keeps [where P = "\<lambda>x. m_storyDistributionListId x = m_storyDistributionListId m"])
       (simp_all add: updateMessageSendStateWithReceipt_def)
  then show ?thesis by (simp add: advances_def sameVersions_fold recorded_fold)
qed

lemma advances_isAbout: "advances m m' \<Longrightarrow> isAbout r m \<Longrightarrow> isAbout r m'"
  using isAbout_same [of m m' r] by (simp add: advances_def)

lemma versionsStored_isAbout:
  assumes "versionsStored edited m" and "m_sent_at m = sentAtOf r \<or> (m_id m, sentAtOf r) \<in> set edited"
  shows "isAbout r m"
proof (cases "m_sent_at m = sentAtOf r")
  case True
  then have "sentAtOf r = m_timestamp m" using assms(1) by (simp add: versionsStored_def)
  then show ?thesis using assms(1) unfolding versionsStored_def isAbout_def isTopLevelTarget_def by metis
next
  case False
  then show ?thesis using assms by (simp add: versionsStored_def isAbout_def)
qed

text \<open>Rows.\<close>

lemma find_upsert:
  "find (\<lambda>m. m_id m = i) (upsertMessage m rows) =
    (if i = m_id m then Some m else find (\<lambda>m. m_id m = i) rows)"
  by (induction rows) auto

lemma db_getMessageById_save:
  "db_getMessageById (saveMessage m db) i = (if i = m_id m then Some m else db_getMessageById db i)"
  by (simp add: db_getMessageById_def saveMessage_def find_upsert)

lemma saveMessage_edited [simp]: "db_edited_messages (saveMessage m db) = db_edited_messages db"
  by (simp add: saveMessage_def)

lemma set_upsert: "set (upsertMessage m rows) \<subseteq> insert m (set rows)"
  by (induction rows) auto

lemma ids_upsert:
  "map m_id (upsertMessage m rows) =
    (if m_id m \<in> set (map m_id rows) then map m_id rows else map m_id rows @ [m_id m])"
  by (induction rows) auto

lemma rows_ok_save:
  assumes "rows_ok db" and "m_id m \<noteq> []" and "canGetReceipts m \<longrightarrow> versionsStored (db_edited_messages db) m"
  shows "rows_ok (saveMessage m db)"
proof -
  have "distinct (map m_id (upsertMessage m (db_messages db)))"
    using assms(1) unfolding ids_upsert by (auto simp: rows_ok_def)
  moreover have "\<forall>x \<in> set (upsertMessage m (db_messages db)). m_id x \<noteq> [] \<and>
      (canGetReceipts x \<longrightarrow> versionsStored (db_edited_messages db) x)"
    using set_upsert [of m "db_messages db"] assms by (auto simp: rows_ok_def)
  ultimately show ?thesis by (simp add: rows_ok_def saveMessage_def)
qed

lemma rows_ok_get:
  assumes "rows_ok db" and "m \<in> set (db_messages db)"
  shows "db_getMessageById db (m_id m) = Some m"
proof -
  have "distinct (map m_id ms) \<Longrightarrow> m \<in> set ms \<Longrightarrow> find (\<lambda>x. m_id x = m_id m) ms = Some m" for ms :: "Message list"
    by (induction ms) (auto simp: image_iff)
  then show ?thesis using assms by (simp add: db_getMessageById_def rows_ok_def)
qed

lemma db_getMessageById_mem: "db_getMessageById db i = Some m \<Longrightarrow> m \<in> set (db_messages db) \<and> m_id m = i"
  by (auto simp: db_getMessageById_def find_Some_iff)

lemma set_getMessagesBySentAt:
  "set (getMessagesBySentAt db t) =
    {m \<in> set (db_messages db). m_sent_at m = t \<or> (m_id m, t) \<in> set (db_edited_messages db)}"
  by (auto simp: getMessagesBySentAt_def)

text \<open>Caches: what a later one has of an earlier one.\<close>

definition cache_advances :: "MessageCacheState \<Rightarrow> MessageCacheState \<Rightarrow> bool" where
  "cache_advances a b \<longleftrightarrow> (\<forall>i model. js_get (mc_messages a) i = Some model \<longrightarrow>
    (\<exists>model'. js_get (mc_messages b) i = Some model' \<and> advances (mm_attributes model) (mm_attributes model')))"

lemma cache_advances_refl: "cache_advances a a"
  unfolding cache_advances_def using advances_refl by blast

lemma cache_advances_trans: "cache_advances a b \<Longrightarrow> cache_advances b c \<Longrightarrow> cache_advances a c"
  unfolding cache_advances_def using advances_trans by meson

lemma cache_le_advances: "cache_le a b \<Longrightarrow> cache_advances a b"
  unfolding cache_le_def cache_advances_def using advances_refl by blast

lemma register_row:
  assumes "models_ok db cache" and "rows_ok db" and "row \<in> set (db_messages db)"
  shows "\<exists>model cache'. registerModel now (newModel row) cache = Inr (model, cache') \<and>
    models_ok db cache' \<and> cache_le cache cache' \<and> m_id (mm_attributes model) = m_id row \<and>
    js_get (mc_messages cache') (m_id row) = Some model \<and> advances row (mm_attributes model)"
proof -
  have ne: "m_id row \<noteq> []" and get: "db_getMessageById db (m_id row) = Some row"
    using assms(2,3) rows_ok_get by (auto simp: rows_ok_def)
  have ok: "cache_ok cache" using assms(1) by (simp add: models_ok_def)
  obtain model cache' where reg: "registerModel now (newModel row) cache = Inr (model, cache')"
    using ne by (cases "js_get (mc_messages cache) (m_id row)")
      (auto simp: registerModel_def Let_def getById_def newModel_def)
  have le: "cache_le cache cache'" and look: "js_get (mc_messages cache') (m_id row) = Some model"
    using registerModel_registers [OF reg] by (simp_all add: newModel_def)
  have ok': "cache_ok cache'" by (rule cache_ok_register [OF ok reg])
  have cases: "case js_get (mc_messages cache) (m_id row) of
      Some existing \<Rightarrow> model = existing \<and> mc_messages cache' = mc_messages cache
    | None \<Rightarrow> model = newModel row \<and> mc_messages cache' = js_set (m_id row) model (mc_messages cache)"
    using registerModel_cases [OF reg] ne
    by (cases "js_get (mc_messages cache) (m_id row)")
       (auto simp: newModel_def getById_simps addMessageToCache_new)
  have adv: "advances row (mm_attributes model)"
  proof (cases "js_get (mc_messages cache) (m_id row)")
    case None
    then show ?thesis using cases by (simp add: newModel_def advances_refl)
  next
    case (Some existing)
    then obtain row' where "db_getMessageById db (m_id row) = Some row'" "advances row' (mm_attributes existing)"
      using assms(1) unfolding models_ok_def by blast
    then show ?thesis using cases get Some by simp
  qed
  have "models_ok db cache'"
    unfolding models_ok_def
  proof (intro conjI allI impI)
    fix i m assume m: "js_get (mc_messages cache') i = Some m"
    show "\<exists>row. db_getMessageById db i = Some row \<and> advances row (mm_attributes m)"
    proof (cases "i = m_id row")
      case True
      then show ?thesis using m look get adv by auto
    next
      case False
      then have "js_get (mc_messages cache) i = Some m"
        using m cases by (cases "js_get (mc_messages cache) (m_id row)") (auto simp: js_get_set)
      then show ?thesis using assms(1) by (auto simp: models_ok_def)
    qed
  qed (rule ok')
  moreover have "m_id (mm_attributes model) = m_id row" using cache_ok_id [OF ok' look] by simp
  ultimately show ?thesis using reg le look adv by blast
qed

lemma set_model:
  assumes "models_ok db cache" and "js_get (mc_messages cache) i = Some model"
    and "advances (mm_attributes model) m"
  shows "models_ok db (setMessage now (\<lambda>_. m) i cache) \<and> cache_advances cache (setMessage now (\<lambda>_. m) i cache) \<and>
    map_option mm_attributes (js_get (mc_messages (setMessage now (\<lambda>_. m) i cache)) i) = Some m"
proof -
  define f where "f x = (if x = mm_attributes model then m else x)" for x
  have eq: "setMessage now (\<lambda>_. m) i cache = setMessage now f i cache"
    by (simp add: setMessage_def assms(2) f_def)
  have keep: "m_id (f x) = m_id x \<and> m_sent_at (f x) = m_sent_at x" for x
    using assms(3) by (simp add: f_def advances_def sameVersions_def)
  have look: "js_get (mc_messages (setMessage now f i cache)) j =
      (if j = i then Some (model\<lparr>mm_attributes := m\<rparr>) else js_get (mc_messages cache) j)" for j
    by (simp add: setMessage_def assms(2) f_def js_get_set)
  have "cache_ok (setMessage now f i cache)"
    using assms(1) keep by (intro cache_ok_set) (auto simp: models_ok_def)
  moreover have "\<exists>row. db_getMessageById db i = Some row \<and> advances row m"
    using assms(1,2) advances_trans [OF _ assms(3)] unfolding models_ok_def by blast
  ultimately have "models_ok db (setMessage now f i cache)"
    using assms(1) unfolding models_ok_def look by auto
  moreover have "cache_advances cache (setMessage now f i cache)"
    using assms advances_refl by (auto simp: cache_advances_def look)
  ultimately show ?thesis by (simp add: eq look)
qed

text \<open>Tasks.\<close>

lemma removeReceipt_fields [simp]:
  "st_db (removeReceipt r st) = st_db st" "st_cache (removeReceipt r st) = st_cache st"
  by (simp_all add: removeReceipt_def)

lemma tasks_ok_remove: "tasks_ok st \<Longrightarrow> tasks_ok (removeReceipt r st)"
  by (auto simp: tasks_ok_def removeReceipt_def js_get_del js.distinct_delete)

lemma fold_remove:
  "st_db (fold removeReceipt rs st) = st_db st" "st_cache (fold removeReceipt rs st) = st_cache st"
  "tasks_ok st \<Longrightarrow> tasks_ok (fold removeReceipt rs st)"
  by (induction rs arbitrary: st) (simp_all add: tasks_ok_remove)

lemma fold_remove_tasks:
  "js_get (st_syncTasks (fold removeReceipt rs st)) k =
    (if k \<in> rc_syncTaskId ` set rs then None else js_get (st_syncTasks st) k)"
  "js_get (st_cachedReceipts (fold removeReceipt rs st)) k =
    (if k \<in> rc_syncTaskId ` set rs then None else js_get (st_cachedReceipts st) k)"
  by (induction rs arbitrary: st) (auto simp: removeReceipt_def js_get_del)

section \<open>The invariant of the runs\<close>

definition droppable :: "ReceiptEnv \<Rightarrow> MessageReceiptAttributesType \<Rightarrow> bool" where
  "droppable E r \<longleftrightarrow>
    (case rs_type (rc_receiptSync r) of
       DeliveryReceipt \<Rightarrow> False
     | ReadReceipt \<Rightarrow> \<not> re_readReceiptSetting E
     | ViewReceipt \<Rightarrow> \<not> re_readReceiptSetting E \<or> \<not> re_storyViewReceiptsEnabled E)"

definition outcome_ok ::
    "ReceiptEnv \<Rightarrow> MessageDB \<Rightarrow> MessageReceiptAttributesType \<Rightarrow> receipt_outcome \<Rightarrow> bool" where
  "outcome_ok E db r outcome =
    (case outcome of
       ForReaction \<Rightarrow> re_ownReactionAt E (sentAtOf r)
     | DroppedFor i \<Rightarrow> droppable E r
     | AppliedTo i \<Rightarrow> (case db_getMessageById db i of None \<Rightarrow> False | Some m \<Rightarrow> recorded r m)
     | HandedTo i \<Rightarrow> db_getMessageById db i \<noteq> None
     | Expired \<Rightarrow> True)"

definition modelHas :: "MessageCacheState \<Rightarrow> string \<Rightarrow> (Message \<Rightarrow> bool) \<Rightarrow> bool" where
  "modelHas cache i P = (case js_get (mc_messages cache) i of None \<Rightarrow> False | Some model \<Rightarrow> P (mm_attributes model))"

definition targets_ok :: "MessageCacheState \<Rightarrow> receiptsByMessageId \<Rightarrow> bool" where
  "targets_ok cache byId \<longleftrightarrow> (\<forall>(i, rs) \<in> set byId. \<forall>r \<in> set rs. modelHas cache i (isAbout r))"

definition started_ok ::
    "ReceiptEnv \<Rightarrow> MessageCacheState \<Rightarrow>
     (string \<times> MessageReceiptAttributesType list \<times> MessageReceiptAttributesType list) list \<Rightarrow> bool" where
  "started_ok E cache started \<longleftrightarrow> (\<forall>(i, d, v) \<in> set started.
    (\<forall>r \<in> set d. droppable E r) \<and> (\<forall>r \<in> set v. modelHas cache i (recorded r)))"

definition groups_ok :: "MessageReceiptAttributesType list list \<Rightarrow> bool" where
  "groups_ok gs \<longleftrightarrow> (\<forall>g \<in> set gs. \<forall>r \<in> set g. sentAtOf r = sentAtOf (hd g))"

fun phase_ok :: "ReceiptEnv \<Rightarrow> MessageCacheState \<Rightarrow> receipt_phase \<Rightarrow> bool" where
  "phase_ok E cache Idle = True"
| "phase_ok E cache (Targeting gs byId) = (groups_ok gs \<and> targets_ok cache byId)"
| "phase_ok E cache (Updated started) = started_ok E cache started"

text \<open>The receipts a batch still holds are tasks, or are settled.\<close>

fun held :: "receipt_phase \<Rightarrow> MessageReceiptAttributesType set" where
  "held Idle = {}"
| "held (Targeting gs byId) = (\<Union>g \<in> set gs. set g) \<union> (\<Union>e \<in> set byId. set (snd e))"
| "held (Updated started) = (\<Union>e \<in> set started. set (fst (snd e)) \<union> set (snd (snd e)))"

definition settledIds :: "(MessageReceiptAttributesType \<times> receipt_outcome) list \<Rightarrow> string set" where
  "settledIds settled = rc_syncTaskId ` fst ` set settled"

definition known ::
    "(string, MessageReceiptAttributesType) jsmap \<Rightarrow> (MessageReceiptAttributesType \<times> receipt_outcome) list \<Rightarrow>
     MessageReceiptAttributesType \<Rightarrow> bool" where
  "known tasks settled r \<longleftrightarrow> js_get tasks (rc_syncTaskId r) = Some r \<or> rc_syncTaskId r \<in> settledIds settled"

definition log_ok :: "receipt_conf \<Rightarrow> bool" where
  "log_ok c \<longleftrightarrow>
    (\<forall>k \<in> settledIds (co_settled c). js_get (st_syncTasks (co_store c)) k = None) \<and>
    (\<forall>r \<in> set (co_items c) \<union> held (co_phase c). known (st_syncTasks (co_store c)) (co_settled c) r)"

definition conf_ok :: "ReceiptEnv \<Rightarrow> receipt_conf \<Rightarrow> bool" where
  "conf_ok E c \<longleftrightarrow> store_ok (co_store c) \<and> phase_ok E (st_cache (co_store c)) (co_phase c) \<and>
    (\<forall>(r, outcome) \<in> set (co_settled c). outcome_ok E (st_db (co_store c)) r outcome) \<and> log_ok c"

lemma settledIds_append: "settledIds (a @ b) = settledIds a \<union> settledIds b"
  by (simp add: settledIds_def image_Un)

lemma settledIds_map: "settledIds (map (\<lambda>r. (r, f r)) rs) = rc_syncTaskId ` set rs"
  by (simp add: settledIds_def image_image)

text \<open>Settling known receipts: their tasks go, and nothing else.\<close>

lemma settle_known:
  assumes disjoint: "\<forall>k \<in> settledIds settled. js_get tasks k = None"
    and known: "\<forall>r \<in> R. known tasks settled r"
    and tasks': "\<And>k. js_get tasks' k = (if k \<in> rc_syncTaskId ` R then None else js_get tasks k)"
    and settled': "settledIds settled' = settledIds settled \<union> rc_syncTaskId ` R"
  shows "\<forall>k \<in> settledIds settled'. js_get tasks' k = None"
    and "known tasks settled r \<Longrightarrow> known tasks' settled' r"
    and "js_get tasks k = Some r \<Longrightarrow> js_get tasks' k = Some r \<or> r \<in> R"
proof -
  show "\<forall>k \<in> settledIds settled'. js_get tasks' k = None"
    using disjoint by (auto simp: settled' tasks')
  show "known tasks settled r \<Longrightarrow> known tasks' settled' r"
    by (auto simp: known_def tasks' settled')
  show "js_get tasks' k = Some r \<or> r \<in> R" if "js_get tasks k = Some r"
  proof (cases "k \<in> rc_syncTaskId ` R")
    case False
    then show ?thesis using that by (simp add: tasks')
  next
    case True
    then obtain r' where r': "r' \<in> R" "rc_syncTaskId r' = k" by auto
    then have "js_get tasks k = Some r'"
      using known disjoint that by (force simp: known_def)
    then show ?thesis using that r' by simp
  qed
qed

lemma modelHas_advances:
  assumes "cache_advances cache cache'" and "modelHas cache i P"
    and "\<And>m m'. advances m m' \<Longrightarrow> P m \<Longrightarrow> P m'"
  shows "modelHas cache' i P"
proof -
  obtain model where m: "js_get (mc_messages cache) i = Some model" "P (mm_attributes model)"
    using assms(2) by (auto simp: modelHas_def split: option.splits)
  then obtain model' where "js_get (mc_messages cache') i = Some model'"
      "advances (mm_attributes model) (mm_attributes model')"
    using assms(1) unfolding cache_advances_def by blast
  then show ?thesis using m(2) assms(3) by (auto simp: modelHas_def)
qed

lemma targets_ok_advances: "targets_ok cache byId \<Longrightarrow> cache_advances cache cache' \<Longrightarrow> targets_ok cache' byId"
  unfolding targets_ok_def using modelHas_advances advances_isAbout by fastforce

lemma started_ok_advances: "started_ok E cache l \<Longrightarrow> cache_advances cache cache' \<Longrightarrow> started_ok E cache' l"
  unfolding started_ok_def using modelHas_advances [where P = "recorded _"] by (fastforce simp: advances_def)

section \<open>Finding the targets\<close>

definition targeting_ok ::
    "ReceiptStore \<Rightarrow> ReceiptStore \<times> receiptsByMessageId \<Rightarrow> bool" where
  "targeting_ok st0 s \<longleftrightarrow> models_ok (st_db st0) (st_cache (fst s)) \<and> targets_ok (st_cache (fst s)) (snd s) \<and>
    rows_ok (st_db st0) \<and> st_db (fst s) = st_db st0 \<and> st_syncTasks (fst s) = st_syncTasks st0 \<and>
    st_cachedReceipts (fst s) = st_cachedReceipts st0"

lemma set_addTo: "(i, rs) \<in> set (addTo k v m) \<Longrightarrow>
    (i, rs) \<in> set m \<or> i = k \<and> (\<exists>old. rs = old @ [v] \<and> (old = [] \<or> (k, old) \<in> set m))"
  using set_js_set_subset [of k "nullish (js_get m k) [] @ [v]" m]
  by (cases "js_get m k") (auto simp: addTo_def dest: map_of_SomeD)

lemma targeting_ok_add:
  assumes "targeting_ok st0 s" and "msg \<in> set (db_messages (st_db st0))" and "isAbout r msg"
  shows "targeting_ok st0 (fst (addReceiptAndTargetMessage E r msg s)) \<and>
    snd (addReceiptAndTargetMessage E r msg s) = Inr ()"
proof -
  obtain st byId where s: "s = (st, byId)" by (cases s)
  obtain model cache' where reg: "registerModel (re_now E) (newModel msg) (st_cache st) = Inr (model, cache')"
    and ok: "models_ok (st_db st0) cache'" and le: "cache_le (st_cache st) cache'"
    and i: "m_id (mm_attributes model) = m_id msg" and look: "js_get (mc_messages cache') (m_id msg) = Some model"
    and adv: "advances msg (mm_attributes model)"
    using register_row [of "st_db st0" "st_cache st" msg "re_now E"] assms(1,2) s
    by (auto simp: targeting_ok_def)
  have about: "modelHas cache' (m_id msg) (isAbout r)"
    using look advances_isAbout [OF adv assms(3)] by (simp add: modelHas_def)
  have old: "targets_ok cache' byId"
    using assms(1) s targets_ok_advances [OF _ cache_le_advances [OF le]] by (simp add: targeting_ok_def)
  have "targets_ok cache' (addTo (m_id msg) r byId)"
    unfolding targets_ok_def
  proof clarify
    fix j rs r' assume "(j, rs) \<in> set (addTo (m_id msg) r byId)" and r': "r' \<in> set rs"
    from set_addTo [OF this(1)] show "modelHas cache' j (isAbout r')"
      using old about r' unfolding targets_ok_def by fastforce
  qed
  then show ?thesis
    using assms(1) ok by (simp add: s addReceiptAndTargetMessage_def reg i targeting_ok_def)
qed

lemma targeting_ok_receipt:
  assumes "targeting_ok st0 s" and sentAt: "sentAtOf r = t"
  shows "targeting_ok st0 (fst (targetReceipt E t (getMessagesBySentAt (st_db st0) t) r s))"
proof -
  have about: "isAbout r msg" and row: "msg \<in> set (db_messages (st_db st0))"
    if "msg \<in> set (getMessagesBySentAt (st_db st0) t)" "canGetReceipts msg" for msg
  proof -
    have "m_sent_at msg = sentAtOf r \<or> (m_id msg, sentAtOf r) \<in> set (db_edited_messages (st_db st0))"
      and mem: "msg \<in> set (db_messages (st_db st0))"
      using that(1) by (auto simp: set_getMessagesBySentAt sentAt)
    moreover have "versionsStored (db_edited_messages (st_db st0)) msg"
      using assms(1) mem that(2) by (simp add: targeting_ok_def rows_ok_def)
    ultimately show "isAbout r msg" using versionsStored_isAbout by blast
    show "msg \<in> set (db_messages (st_db st0))" by (rule mem)
  qed
  show ?thesis
  proof (cases "getTargetMessage (sourceOf r) t (getMessagesBySentAt (st_db st0) t)")
    case (Some msg)
    then have "msg \<in> set (getMessagesBySentAt (st_db st0) t)" "canGetReceipts msg"
      by (auto simp: getTargetMessage_def find_Some_iff isTargetFor_def canGetReceipts_def)
    then show ?thesis
      using targeting_ok_add [OF assms(1) row about] Some by (simp add: targetReceipt_def)
  next
    case None
    have "targeting_ok st0 (fst (forS (addReceiptAndTargetMessage E r)
        (storyTargets (sourceOf r) (getMessagesBySentAt (st_db st0) t)) s))"
    proof (rule forS_keeps [where P = "targeting_ok st0"])
      fix msg s assume "msg \<in> set (storyTargets (sourceOf r) (getMessagesBySentAt (st_db st0) t))"
        and ok: "targeting_ok st0 s"
      then have "msg \<in> set (getMessagesBySentAt (st_db st0) t)" "canGetReceipts msg"
        by (auto simp: storyTargets_def canGetReceipts_def truthy_str_def split: option.splits)
      then show "targeting_ok st0 (fst (addReceiptAndTargetMessage E r msg s))"
        using targeting_ok_add [OF ok row about] by blast
    qed (rule assms(1))
    then show ?thesis using None by (simp add: targetReceipt_def)
  qed
qed

lemma targetGroup_cases:
  assumes "targeting_ok st (st, byId)" and "\<forall>r \<in> set g. sentAtOf r = sentAtOf (hd g)"
  shows "if g \<noteq> [] \<and> isForReaction E st (sentAtOf (hd g))
    then targetGroup E g (st, byId) = ((fold removeReceipt g st, byId), Inr ())
    else targeting_ok st (fst (targetGroup E g (st, byId)))"
proof (cases g)
  case Nil
  then show ?thesis using assms(1) by (simp add: targetGroup_def)
next
  case (Cons r rs)
  have "targeting_ok st (fst (forS (targetReceipt E (sentAtOf r) (getMessagesBySentAt (st_db st) (sentAtOf r))) g (st, byId)))"
    using assms(2) Cons
    by (intro forS_keeps [where P = "targeting_ok st"] targeting_ok_receipt assms(1)) auto
  then show ?thesis by (simp add: Cons targetGroup_def Let_def)
qed

text \<open>The receipts of the groups are those of the batch.\<close>

lemma groups_fold:
  assumes "\<forall>(k, rs) \<in> set m. (\<forall>r \<in> set rs. sentAtOf r = k \<and> P r) \<and> rs \<noteq> []" and "\<forall>r \<in> set rs. P r"
  shows "\<forall>(k, rs) \<in> set (fold (\<lambda>r. addTo (sentAtOf r) r) rs m). (\<forall>r \<in> set rs. sentAtOf r = k \<and> P r) \<and> rs \<noteq> []"
  using assms
proof (induction rs arbitrary: m)
  case (Cons r rs)
  have "\<forall>(k, rs) \<in> set (addTo (sentAtOf r) r m). (\<forall>r \<in> set rs. sentAtOf r = k \<and> P r) \<and> rs \<noteq> []"
    using Cons.prems by (force dest!: set_addTo)
  then show ?case using Cons by simp
qed simp

lemma receiptsByMessageSentAt_ok:
  assumes "\<forall>r \<in> set rs. P r"
  shows "groups_ok (receiptsByMessageSentAt rs) \<and> (\<forall>g \<in> set (receiptsByMessageSentAt rs). \<forall>r \<in> set g. P r)"
proof -
  define M where "M = fold (\<lambda>r. addTo (sentAtOf r) r) rs []"
  have M: "\<forall>(k, g) \<in> set M. (\<forall>r \<in> set g. sentAtOf r = k \<and> P r) \<and> g \<noteq> []"
    unfolding M_def by (rule groups_fold) (use assms in auto)
  have all: "g \<noteq> [] \<and> (\<exists>k. \<forall>r \<in> set g. sentAtOf r = k \<and> P r)"
    if g: "g \<in> set (receiptsByMessageSentAt rs)" for g
  proof -
    obtain k where "(k, g) \<in> set (objectOrder M)"
      using g by (auto simp: receiptsByMessageSentAt_def M_def)
    then have "(k, g) \<in> set M" by (auto simp: objectOrder_def)
    then show ?thesis using M by blast
  qed
  have "sentAtOf r = sentAtOf (hd g) \<and> P r" if "g \<in> set (receiptsByMessageSentAt rs)" "r \<in> set g" for g r
    using all [OF that(1)] that(2) hd_in_set [of g] by auto
  then show ?thesis unfolding groups_ok_def by blast
qed

lemma targetGroup_held:
  assumes "\<forall>e \<in> set byId. \<forall>r \<in> set (snd e). R r" and "\<forall>r \<in> set g. R r"
  shows "\<forall>e \<in> set (snd (fst (targetGroup E g (st, byId)))). \<forall>r \<in> set (snd e). R r"
proof -
  define P where "P s = (\<forall>e \<in> set (snd s). \<forall>r \<in> set (snd e). R r)" for s :: "ReceiptStore \<times> receiptsByMessageId"
  have add: "P (fst (addReceiptAndTargetMessage E r msg s))" if "P s" "R r" for r msg s
    using that by (cases s)
      (force simp: P_def addReceiptAndTargetMessage_def dest!: set_addTo split: sum.splits)
  have receipt: "P (fst (targetReceipt E t ms r s))" if "P s" "R r" for t ms r s
    using that by (auto simp: targetReceipt_def intro!: forS_keeps [where P = P] add split: option.splits)
  have "P (fst (targetGroup E g (st, byId)))"
  proof (cases g)
    case Nil
    then show ?thesis using assms by (simp add: targetGroup_def P_def)
  next
    case (Cons r rs)
    have "P (fst (forS (targetReceipt E t ms) g (st, byId)))" for t ms
      using assms by (intro forS_keeps [where P = P] receipt) (auto simp: P_def)
    then show ?thesis using assms(1) by (simp add: Cons targetGroup_def Let_def P_def)
  qed
  then show ?thesis by (simp add: P_def)
qed

section \<open>Changing and saving the messages\<close>

lemma updateMessageWithReceipts_result:
  assumes "updateMessageWithReceipts E cached rs m = (d, v, m')"
  shows "d = filter (\<lambda>r. shouldDropReceipt E r m) rs \<and> set v \<subseteq> set rs \<and> advances m m' \<and>
    (\<forall>r \<in> set v. isAbout r m \<longrightarrow> recorded r m')"
  using assms by (auto simp: updateMessageWithReceipts_def Let_def advances_fold recorded_fold)

lemma shouldDrop_droppable: "shouldDropReceipt E r m \<Longrightarrow> droppable E r"
  by (auto simp: shouldDropReceipt_def droppable_def split: MessageReceiptType.splits if_splits)

lemma startReceipts_ok:
  assumes "store_ok st" and "\<forall>r \<in> set rs. modelHas (st_cache st) i (isAbout r)"
  shows "case startReceiptsForMessage E (i, rs) st of (st', result) \<Rightarrow>
    store_ok st' \<and> cache_advances (st_cache st) (st_cache st') \<and> st_db st' = st_db st \<and>
    st_syncTasks st' = st_syncTasks st \<and>
    (case result of
       Inl e \<Rightarrow> True
     | Inr (d, v) \<Rightarrow> started_ok E (st_cache st') [(i, d, v)] \<and> set d \<union> set v \<subseteq> set rs)"
proof -
  have models: "models_ok (st_db st) (st_cache st)" and rows: "rows_ok (st_db st)"
    using assms(1) by (simp_all add: store_ok_def)
  show ?thesis
  proof (cases "getMessageById (re_now E) i (st_db st) (st_cache st)")
    case (Inl e)
    then show ?thesis using assms(1) by (simp add: startReceiptsForMessage_def cache_advances_refl)
  next
    case (Inr found)
    obtain m cache where found: "found = (m, cache)" by (cases found)
    have ok: "models_ok (st_db st) cache \<and> cache_le (st_cache st) cache \<and>
        (\<forall>model. m = Some model \<longrightarrow> js_get (mc_messages cache) i = Some model)"
    proof (cases "js_get (mc_messages (st_cache st)) i")
      case (Some model)
      then have "m = Some model" and cache: "cache = snd (getById (re_now E) i (st_cache st))"
        using Inr found by (auto simp: getMessageById_def getById_def Some)
      moreover have "models_ok (st_db st) cache"
        using models cache_ok_getById by (auto simp: models_ok_def cache getById_simps)
      ultimately show ?thesis using Some by (simp add: cache_le_def getById_simps)
    next
      case None
      then show ?thesis
      proof (cases "db_getMessageById (st_db st) i")
        case None
        then show ?thesis using \<open>js_get (mc_messages (st_cache st)) i = None\<close> Inr found models
          by (simp add: getMessageById_def getById_def cache_le_refl)
      next
        case (Some row)
        then have row: "row \<in> set (db_messages (st_db st))" "m_id row = i"
          using db_getMessageById_mem by blast+
        obtain model cache' where "registerModel (re_now E) (newModel row) (st_cache st) = Inr (model, cache')"
            "models_ok (st_db st) cache'" "cache_le (st_cache st) cache'"
            "js_get (mc_messages cache') i = Some model"
          using register_row [OF models rows row(1), of "re_now E"] row(2) by blast
        then show ?thesis using Some Inr found \<open>js_get (mc_messages (st_cache st)) i = None\<close>
          by (simp add: getMessageById_def getById_def)
      qed
    qed
    show ?thesis
    proof (cases m)
      case None
      then show ?thesis using Inr found ok assms(1) cache_le_advances
        by (simp add: startReceiptsForMessage_def store_ok_def tasks_ok_def)
    next
      case (Some model)
      obtain d v m' where upd: "updateMessageWithReceipts E (st_cachedReceipts st) rs (mm_attributes model) = (d, v, m')"
        by (metis prod_cases3)
      have res: "d = filter (\<lambda>r. shouldDropReceipt E r (mm_attributes model)) rs" "set v \<subseteq> set rs"
          "advances (mm_attributes model) m'" "\<forall>r \<in> set v. isAbout r (mm_attributes model) \<longrightarrow> recorded r m'"
        using updateMessageWithReceipts_result [OF upd] by simp_all
      have look: "js_get (mc_messages cache) i = Some model" using ok Some by blast
      have about: "isAbout r (mm_attributes model)" if "r \<in> set rs" for r
      proof -
        have "modelHas cache i (isAbout r)"
          using assms(2) that ok modelHas_advances [OF cache_le_advances] advances_isAbout by blast
        then show ?thesis using look by (simp add: modelHas_def)
      qed
      define cache' where "cache' = setMessage (re_now E) (\<lambda>_. m') i cache"
      have set: "models_ok (st_db st) cache'" "cache_advances cache cache'"
          "map_option mm_attributes (js_get (mc_messages cache') i) = Some m'"
        using set_model [OF _ look res(3)] ok unfolding cache'_def by blast+
      have "started_ok E cache' [(i, d, v)]"
        using set(3) res about shouldDrop_droppable by (fastforce simp: started_ok_def modelHas_def)
      moreover have "cache_advances (st_cache st) cache'"
        using ok set(2) cache_le_advances cache_advances_trans by blast
      ultimately show ?thesis
        using Inr found Some upd set(1) assms(1) res(1,2)
        by (auto simp: startReceiptsForMessage_def store_ok_def tasks_ok_def cache'_def)
    qed
  qed
qed

lemma startAll_ok:
  "store_ok st \<Longrightarrow> targets_ok (st_cache st) byId \<Longrightarrow> startAll E byId st = (st', started) \<Longrightarrow>
    store_ok st' \<and> cache_advances (st_cache st) (st_cache st') \<and> st_db st' = st_db st \<and>
    st_syncTasks st' = st_syncTasks st \<and> started_ok E (st_cache st') started \<and>
    held (Updated started) \<subseteq> held (Targeting [] byId)"
proof (induction byId arbitrary: st st' started)
  case Nil
  then show ?case by (simp add: cache_advances_refl started_ok_def)
next
  case (Cons e es)
  obtain i rs where e: "e = (i, rs)" by (cases e)
  obtain st1 result where start: "startReceiptsForMessage E (i, rs) st = (st1, result)" by (meson surj_pair)
  have "\<forall>r \<in> set rs. modelHas (st_cache st) i (isAbout r)"
    using Cons.prems(2) by (simp add: targets_ok_def e)
  from startReceipts_ok [OF Cons.prems(1) this, of E]
  have one: "store_ok st1" "cache_advances (st_cache st) (st_cache st1)" "st_db st1 = st_db st"
      "st_syncTasks st1 = st_syncTasks st"
      "case result of Inl e \<Rightarrow> True
       | Inr (d, v) \<Rightarrow> started_ok E (st_cache st1) [(i, d, v)] \<and> set d \<union> set v \<subseteq> set rs"
    by (simp_all add: start)
  have targets: "targets_ok (st_cache st1) es"
    using targets_ok_advances [OF _ one(2), of es] Cons.prems(2) by (simp add: targets_ok_def)
  obtain st2 rest where rest: "startAll E es st1 = (st2, rest)" by (meson surj_pair)
  note ih = Cons.IH [OF one(1) targets]
  show ?case
  proof (cases result)
    case (Inl err)
    then have "startAll E es st1 = (st', started)" using Cons.prems(3) start by (simp add: e)
    from ih [OF this] show ?thesis
      using one cache_advances_trans [OF one(2)] by auto
  next
    case (Inr dv)
    obtain d v where dv: "dv = (d, v)" by (cases dv)
    have eqs: "st' = st2" "started = (i, d, v) # rest"
      using Cons.prems(3) start rest by (simp_all add: e Inr dv)
    have ih2: "store_ok st2" "cache_advances (st_cache st1) (st_cache st2)" "st_db st2 = st_db st1"
        "st_syncTasks st2 = st_syncTasks st1" "started_ok E (st_cache st2) rest"
        "held (Updated rest) \<subseteq> held (Targeting [] es)"
      using Cons.IH [OF one(1) targets rest] by simp_all
    have "started_ok E (st_cache st2) [(i, d, v)]" and sub: "set d \<union> set v \<subseteq> set rs"
      using one(5) started_ok_advances [OF _ ih2(2)] by (simp_all add: Inr dv)
    then have "started_ok E (st_cache st2) started"
      using ih2(5) by (simp add: started_ok_def eqs(2))
    then show ?thesis
      using ih2 one cache_advances_trans [OF one(2) ih2(2)] sub by (auto simp: eqs e)
  qed
qed

lemma finish_fields:
  "st_db (finishReceiptsForMessage E m d v st) = saveMessage m (st_db st)"
  "st_cache (finishReceiptsForMessage E m d v st) = st_cache st"
  "js_get (st_syncTasks (finishReceiptsForMessage E m d v st)) k =
    (if k \<in> rc_syncTaskId ` set (d @ v) then None else js_get (st_syncTasks st) k)"
  "tasks_ok st \<Longrightarrow> tasks_ok (finishReceiptsForMessage E m d v st)"
proof -
  have tasks_removed: "st_syncTasks (removeReceipt r s) = js_del (rc_syncTaskId r) (st_syncTasks s)" for r s
    by (simp add: removeReceipt_def)
  have batch: "st_db (addToDeleteSentProtoBatcher E r m s) = st_db s"
    "st_cache (addToDeleteSentProtoBatcher E r m s) = st_cache s"
    "st_syncTasks (addToDeleteSentProtoBatcher E r m s) = st_syncTasks s"
    "tasks_ok s \<Longrightarrow> tasks_ok (addToDeleteSentProtoBatcher E r m s)" for r s
    by (auto simp: addToDeleteSentProtoBatcher_def Let_def tasks_ok_def split: option.splits)
  define st0 where "st0 = fold removeReceipt d (st\<lparr>st_db := saveMessage m (st_db st)\<rparr>)"
  have loop: "st_db (fold (\<lambda>r s. addToDeleteSentProtoBatcher E r m (removeReceipt r s)) v s) = st_db s \<and>
      st_cache (fold (\<lambda>r s. addToDeleteSentProtoBatcher E r m (removeReceipt r s)) v s) = st_cache s \<and>
      js_get (st_syncTasks (fold (\<lambda>r s. addToDeleteSentProtoBatcher E r m (removeReceipt r s)) v s)) k =
        (if k \<in> rc_syncTaskId ` set v then None else js_get (st_syncTasks s) k) \<and>
      (tasks_ok s \<longrightarrow> tasks_ok (fold (\<lambda>r s. addToDeleteSentProtoBatcher E r m (removeReceipt r s)) v s))" for s
    by (induction v arbitrary: s) (auto simp: batch tasks_ok_remove tasks_removed js_get_del)
  have start: "st_db st0 = saveMessage m (st_db st)" "st_cache st0 = st_cache st"
      "js_get (st_syncTasks st0) k = (if k \<in> rc_syncTaskId ` set d then None else js_get (st_syncTasks st) k)"
      "tasks_ok st \<Longrightarrow> tasks_ok st0"
    using fold_remove(3) [of "st\<lparr>st_db := saveMessage m (st_db st)\<rparr>" d]
    by (simp_all add: st0_def fold_remove(1,2) fold_remove_tasks) (simp_all add: tasks_ok_def)
  show "st_db (finishReceiptsForMessage E m d v st) = saveMessage m (st_db st)"
    "st_cache (finishReceiptsForMessage E m d v st) = st_cache st"
    "js_get (st_syncTasks (finishReceiptsForMessage E m d v st)) k =
      (if k \<in> rc_syncTaskId ` set (d @ v) then None else js_get (st_syncTasks st) k)"
    "tasks_ok st \<Longrightarrow> tasks_ok (finishReceiptsForMessage E m d v st)"
    using loop [of st0] start by (auto simp: finishReceiptsForMessage_def st0_def)
qed

section \<open>Every step keeps the invariant\<close>

definition rows_advance :: "MessageDB \<Rightarrow> MessageDB \<Rightarrow> bool" where
  "rows_advance db db' \<longleftrightarrow> db_edited_messages db' = db_edited_messages db \<and>
    (\<forall>i m. db_getMessageById db i = Some m \<longrightarrow> (\<exists>m'. db_getMessageById db' i = Some m' \<and> advances m m'))"

definition step_ok :: "ReceiptEnv \<Rightarrow> receipt_conf \<Rightarrow> receipt_conf \<Rightarrow> bool" where
  "step_ok E c c' \<longleftrightarrow> conf_ok E c' \<and> rows_advance (st_db (co_store c)) (st_db (co_store c')) \<and>
    set (co_settled c) \<subseteq> set (co_settled c') \<and>
    (\<forall>k r. js_get (st_syncTasks (co_store c)) k = Some r \<longrightarrow>
       js_get (st_syncTasks (co_store c')) k = Some r \<or> (\<exists>outcome. (r, outcome) \<in> set (co_settled c')))"

lemma rows_advance_refl: "rows_advance db db"
  using advances_refl by (auto simp: rows_advance_def)

lemma rows_advance_save:
  assumes "\<And>row. db_getMessageById db (m_id m) = Some row \<Longrightarrow> advances row m"
  shows "rows_advance db (saveMessage m db)"
  using assms advances_refl by (auto simp: rows_advance_def db_getMessageById_save)

lemma outcome_ok_advance: "outcome_ok E db r o' \<Longrightarrow> rows_advance db db' \<Longrightarrow> outcome_ok E db' r o'"
  by (cases o') (force simp: outcome_ok_def rows_advance_def advances_def split: option.splits)+

lemma conf_ok_intro:
  assumes "conf_ok E c" and "store_ok (co_store c')" and "phase_ok E (st_cache (co_store c')) (co_phase c')"
    and "rows_advance (st_db (co_store c)) (st_db (co_store c'))"
    and "co_settled c' = co_settled c @ new"
    and "\<forall>(r, outcome) \<in> set new. outcome_ok E (st_db (co_store c')) r outcome"
    and "\<forall>r \<in> fst ` set new. known (st_syncTasks (co_store c)) (co_settled c) r"
    and "\<And>k. js_get (st_syncTasks (co_store c')) k =
      (if k \<in> rc_syncTaskId ` fst ` set new then None else js_get (st_syncTasks (co_store c)) k)"
    and held: "set (co_items c') \<union> held (co_phase c') \<subseteq>
      set (co_items c) \<union> held (co_phase c) \<union> {r. js_get (st_syncTasks (co_store c')) (rc_syncTaskId r) = Some r}"
  shows "step_ok E c c'"
proof -
  have log: "\<forall>k \<in> settledIds (co_settled c). js_get (st_syncTasks (co_store c)) k = None"
    and inflight: "\<forall>r \<in> set (co_items c) \<union> held (co_phase c). known (st_syncTasks (co_store c)) (co_settled c) r"
    using assms(1) by (simp_all add: conf_ok_def log_ok_def)
  have ids: "settledIds (co_settled c') = settledIds (co_settled c) \<union> rc_syncTaskId ` fst ` set new"
    by (simp add: assms(5) settledIds_def image_Un)
  note settle = settle_known [OF log assms(7,8) ids]
  have "log_ok c'"
    unfolding log_ok_def
  proof (intro conjI ballI)
    fix r assume "r \<in> set (co_items c') \<union> held (co_phase c')"
    with held inflight have "known (st_syncTasks (co_store c)) (co_settled c) r \<or>
        js_get (st_syncTasks (co_store c')) (rc_syncTaskId r) = Some r" by blast
    then show "known (st_syncTasks (co_store c')) (co_settled c') r"
      using settle(2) unfolding known_def by blast
  qed (use settle(1) in blast)
  moreover have "\<forall>(r, o') \<in> set (co_settled c'). outcome_ok E (st_db (co_store c')) r o'"
    using assms(1,6) outcome_ok_advance [OF _ assms(4)] by (auto simp: conf_ok_def assms(5))
  moreover have "js_get (st_syncTasks (co_store c')) k = Some r \<or> (\<exists>o'. (r, o') \<in> set (co_settled c'))"
    if "js_get (st_syncTasks (co_store c)) k = Some r" for k r
    using settle(3) [OF that] by (auto simp: assms(5))
  ultimately show ?thesis using assms(2-4) by (auto simp: step_ok_def conf_ok_def assms(5))
qed

lemma arrive_ok:
  assumes "conf_ok E c" and "arrive r c = Some c'"
  shows "step_ok E c c'"
proof -
  let ?i = "rc_syncTaskId r" and ?st = "co_store c"
  have new: "js_get (st_syncTasks ?st) ?i = None" "?i \<notin> settledIds (co_settled c)"
    and c': "c' = c\<lparr>co_store := onReceipt r (?st\<lparr>st_syncTasks := js_set ?i r (st_syncTasks ?st)\<rparr>),
      co_items := co_items c @ [r]\<rparr>"
    using assms(2) by (auto simp: arrive_def Let_def js_has_def settledIds_def split: if_splits)
  have st: "tasks_ok ?st" "store_ok ?st" using assms(1) by (simp_all add: conf_ok_def store_ok_def)
  have notCached: "js_get (st_cachedReceipts ?st) ?i = None"
    using st(1) new(1) unfolding tasks_ok_def by (cases "js_get (st_cachedReceipts ?st) ?i") auto
  have tasks: "tasks_ok (co_store c')"
    using st(1) unfolding tasks_ok_def c' onReceipt_def
    by (simp add: js.distinct_assign js_get_set)
  have known: "known (st_syncTasks (co_store c')) (co_settled c') r'"
    if "known (st_syncTasks ?st) (co_settled c) r'" for r'
    using that new by (auto simp: known_def c' onReceipt_def js_get_set)
  have "log_ok c'"
    using assms(1) known new by (auto simp: conf_ok_def log_ok_def c' onReceipt_def js_get_set)
       (auto simp: known_def js_get_set)
  then have "conf_ok E c'"
    using assms(1) tasks by (auto simp: conf_ok_def store_ok_def c' onReceipt_def)
  then show ?thesis
    using new by (auto simp: step_ok_def c' onReceipt_def rows_advance_refl js_get_set)
qed

lemma kick_ok:
  assumes "conf_ok E c" and "exec E Kick c = Some c'"
  shows "step_ok E c c'"
proof -
  have c': "c' = c\<lparr>co_phase := Targeting (receiptsByMessageSentAt (co_items c)) [], co_items := []\<rparr>"
    and idle: "co_phase c = Idle"
    using assms(2) by (auto split: if_splits)
  have groups: "groups_ok (receiptsByMessageSentAt (co_items c)) \<and>
      (\<forall>g \<in> set (receiptsByMessageSentAt (co_items c)). \<forall>r \<in> set g. r \<in> set (co_items c))"
    by (rule receiptsByMessageSentAt_ok) simp
  show ?thesis
    by (rule conf_ok_intro [OF assms(1), where new = "[]"])
       (use assms(1) groups in \<open>auto simp: c' idle conf_ok_def targets_ok_def rows_advance_refl\<close>)
qed

lemma targetNext_ok:
  assumes "conf_ok E c" and "targetNext E c = Some c'"
  shows "step_ok E c c'"
proof -
  obtain g gs byId where ph: "co_phase c = Targeting (g # gs) byId"
    using assms(2) by (auto simp: targetNext_def split: receipt_phase.splits list.splits)
  obtain st byId' result where t: "targetGroup E g (co_store c, byId) = ((st, byId'), result)"
    by (metis prod.collapse)
  have g: "\<forall>r \<in> set g. sentAtOf r = sentAtOf (hd g)" and gs: "groups_ok gs" and tg: "targets_ok (st_cache (co_store c)) byId"
    using assms(1) by (simp_all add: conf_ok_def ph groups_ok_def)
  have ok: "store_ok (co_store c)" using assms(1) by (simp add: conf_ok_def)
  then have tok: "targeting_ok (co_store c) (co_store c, byId)"
    using tg by (simp add: targeting_ok_def store_ok_def)
  have held: "\<forall>e \<in> set byId'. \<forall>r \<in> set (snd e). r \<in> held (co_phase c)"
    using targetGroup_held [of byId "\<lambda>r. r \<in> held (co_phase c)" g E "co_store c"]
    by (auto simp: ph t)
  note cases = targetGroup_cases [OF tok g]
  show ?thesis
  proof (cases "g \<noteq> [] \<and> isForReaction E (co_store c) (sentAtOf (hd g))")
    case True
    then obtain r rs where gr: "g = r # rs" by (cases g) auto
    have eqs: "st = fold removeReceipt g (co_store c)" "byId' = byId" "result = Inr ()"
      using cases [of E] True t by auto
    have c': "c' = c\<lparr>co_store := fold removeReceipt g (co_store c), co_phase := Targeting gs byId,
        co_settled := co_settled c @ map (\<lambda>r. (r, ForReaction)) g\<rparr>"
      using assms(2) True by (simp add: targetNext_def ph t eqs) (simp add: gr)
    have known: "\<forall>r \<in> set g. known (st_syncTasks (co_store c)) (co_settled c) r"
      using assms(1) by (simp add: conf_ok_def log_ok_def ph)
    have own: "\<forall>r \<in> set g. re_ownReactionAt E (sentAtOf r)"
    proof
      fix r assume "r \<in> set g"
      then have "sentAtOf r = sentAtOf (hd g)" using g by blast
      then show "re_ownReactionAt E (sentAtOf r)" using True by (simp only: isForReaction_def)
    qed
    show ?thesis
    proof (rule conf_ok_intro [OF assms(1), where new = "map (\<lambda>r. (r, ForReaction)) g"])
      show "store_ok (co_store c')"
        using ok by (simp add: c' store_ok_def fold_remove)
      show "set (co_items c') \<union> held (co_phase c') \<subseteq> set (co_items c) \<union> held (co_phase c) \<union>
          {r. js_get (st_syncTasks (co_store c')) (rc_syncTaskId r) = Some r}"
        by (auto simp: c' ph)
    qed (use known own gs tg in \<open>simp_all add: c' fold_remove fold_remove_tasks rows_advance_refl outcome_ok_def image_image\<close>)
  next
    case False
    then have "targeting_ok (co_store c) (st, byId')" using cases [of E] t by (simp only: if_not_P [OF False] fst_conv if_False)
    then have st: "models_ok (st_db (co_store c)) (st_cache st)" "targets_ok (st_cache st) byId'"
        "st_db st = st_db (co_store c)" "st_syncTasks st = st_syncTasks (co_store c)"
        "st_cachedReceipts st = st_cachedReceipts (co_store c)"
      by (simp_all add: targeting_ok_def)
    have c': "c' = c\<lparr>co_store := st, co_phase := (case result of Inl e \<Rightarrow> Idle | Inr _ \<Rightarrow> Targeting gs byId')\<rparr>"
      using assms(2) False t by (cases g) (auto simp: targetNext_def ph)
    show ?thesis
    proof (rule conf_ok_intro [OF assms(1), where new = "[]"])
      show "store_ok (co_store c')"
        using ok st by (simp add: c' store_ok_def tasks_ok_def)
      show "phase_ok E (st_cache (co_store c')) (co_phase c')"
        using gs st(2) by (cases result) (simp_all add: c')
      show "set (co_items c') \<union> held (co_phase c') \<subseteq> set (co_items c) \<union> held (co_phase c) \<union>
          {r. js_get (st_syncTasks (co_store c')) (rc_syncTaskId r) = Some r}"
        using held by (cases result) (auto simp: c' ph)
    qed (simp_all add: c' st rows_advance_refl)
  qed
qed

lemma updateAll_ok:
  assumes "conf_ok E c" and "updateAll E c = Some c'"
  shows "step_ok E c c'"
proof -
  obtain byId where ph: "co_phase c = Targeting [] byId"
    using assms(2) by (auto simp: updateAll_def split: receipt_phase.splits list.splits)
  obtain st started where s: "startAll E byId (co_store c) = (st, started)" by (meson surj_pair)
  have c': "c' = c\<lparr>co_store := st, co_phase := Updated started\<rparr>"
    using assms(2) by (simp add: updateAll_def ph s)
  have ok: "store_ok (co_store c)" "targets_ok (st_cache (co_store c)) byId"
    using assms(1) by (simp_all add: conf_ok_def ph)
  note res = startAll_ok [OF ok s]
  show ?thesis
    by (rule conf_ok_intro [OF assms(1), where new = "[]"])
       (use res in \<open>auto simp: c' ph rows_advance_refl\<close>)
qed

lemma finishNext_ok:
  assumes "conf_ok E c" and "finishNext E c = Some c'"
  shows "step_ok E c c'"
proof (cases "co_phase c = Updated []")
  case True
  then have c': "c' = c\<lparr>co_phase := Idle\<rparr>" using assms(2) by (simp add: finishNext_def)
  show ?thesis
    by (rule conf_ok_intro [OF assms(1), where new = "[]"])
       (use assms(1) in \<open>auto simp: c' True conf_ok_def rows_advance_refl\<close>)
next
  case False
  obtain i d v rest where ph: "co_phase c = Updated ((i, d, v) # rest)"
    using assms(2) False by (auto simp: finishNext_def split: receipt_phase.splits list.splits)
  obtain model where model: "js_get (mc_messages (st_cache (co_store c))) i = Some model"
    using assms(2) by (auto simp: finishNext_def ph split: option.splits)
  let ?m = "mm_attributes model" and ?st = "co_store c"
  have c': "c' = c\<lparr>co_store := finishReceiptsForMessage E ?m d v ?st, co_phase := Updated rest,
      co_settled := co_settled c @ map (\<lambda>r. (r, DroppedFor i)) d @ map (\<lambda>r. (r, AppliedTo i)) v\<rparr>"
    using assms(2) by (simp add: finishNext_def ph model)
  have ok: "rows_ok (st_db ?st)" "models_ok (st_db ?st) (st_cache ?st)" "tasks_ok ?st"
    and started: "started_ok E (st_cache ?st) ((i, d, v) # rest)"
    using assms(1) by (simp_all add: conf_ok_def store_ok_def ph)
  obtain row where row: "db_getMessageById (st_db ?st) i = Some row" and adv: "advances row ?m"
    using ok(2) model unfolding models_ok_def by blast
  have id: "m_id ?m = i" "i \<noteq> []"
    using cache_ok_id [OF _ model] ok(2) by (auto simp: models_ok_def)
  have "canGetReceipts ?m \<Longrightarrow> versionsStored (db_edited_messages (st_db ?st)) ?m"
  proof -
    assume "canGetReceipts ?m"
    then have "canGetReceipts row"
      using adv by (simp add: advances_def sameVersions_def canGetReceipts_def isOutgoing_def isStory_def)
    then have "versionsStored (db_edited_messages (st_db ?st)) row"
      using ok(1) db_getMessageById_mem [OF row] by (auto simp: rows_ok_def)
    then show ?thesis
      using adv by (simp add: versionsStored_def advances_def sameVersions_def)
  qed
  then have rows: "rows_ok (saveMessage ?m (st_db ?st))"
    using rows_ok_save [OF ok(1)] id by simp
  have radv: "rows_advance (st_db ?st) (saveMessage ?m (st_db ?st))"
    using row adv id by (intro rows_advance_save) simp
  have "models_ok (saveMessage ?m (st_db ?st)) (st_cache ?st)"
    using ok(2) model id(1) advances_refl by (auto simp: models_ok_def db_getMessageById_save)
  then have store: "store_ok (co_store c')"
    using rows ok(3) by (simp add: store_ok_def c' finish_fields)
  have applied: "\<forall>r \<in> set v. outcome_ok E (st_db (co_store c')) r (AppliedTo i)"
    using started model id by (simp add: started_ok_def modelHas_def outcome_ok_def c' finish_fields db_getMessageById_save)
  have dropped: "\<forall>r \<in> set d. outcome_ok E (st_db (co_store c')) r (DroppedFor i)"
    using started by (simp add: started_ok_def outcome_ok_def)
  have known: "\<forall>r \<in> set d \<union> set v. known (st_syncTasks ?st) (co_settled c) r"
    using assms(1) by (auto simp: conf_ok_def log_ok_def ph)
  show ?thesis
  proof (rule conf_ok_intro [OF assms(1),
      where new = "map (\<lambda>r. (r, DroppedFor i)) d @ map (\<lambda>r. (r, AppliedTo i)) v"])
    show "phase_ok E (st_cache (co_store c')) (co_phase c')"
      using started by (simp add: c' finish_fields(2) started_ok_def)
    show "js_get (st_syncTasks (co_store c')) k =
        (if k \<in> rc_syncTaskId ` fst ` set (map (\<lambda>r. (r, DroppedFor i)) d @ map (\<lambda>r. (r, AppliedTo i)) v)
         then None else js_get (st_syncTasks (co_store c)) k)" for k
      by (simp add: c' finish_fields(3) image_Un image_image)
    show "set (co_items c') \<union> held (co_phase c') \<subseteq> set (co_items c) \<union> held (co_phase c) \<union>
        {r. js_get (st_syncTasks (co_store c')) (rc_syncTaskId r) = Some r}"
      by (auto simp: c' ph)
  qed (use store radv known applied dropped in \<open>auto simp: c' finish_fields(1)\<close>)
qed

lemma modifyWithEarlyReceipts_result:
  "modifyWithEarlyReceipts E m st = (st', m') \<Longrightarrow>
    st' = fold removeReceipt (earlyReceipts E m st) st \<and> sameVersions m m' \<and>
    m_storyDistributionListId m' = m_storyDistributionListId m"
  by (auto simp: modifyWithEarlyReceipts_def forMessage_def Let_def earlyReceipts_def sameVersions_def
      split: if_splits)

lemma newMessage_ok:
  assumes "conf_ok E c" and "newMessage E m c = Some c'"
    and wf: "canGetReceipts m \<longrightarrow> versionsStored (db_edited_messages (st_db (co_store c))) m"
  shows "step_ok E c c'"
proof -
  let ?st = "co_store c" and ?rs = "earlyReceipts E m (co_store c)"
  obtain st' m' where mod: "modifyWithEarlyReceipts E m ?st = (st', m')" by (meson surj_pair)
  have st': "st' = fold removeReceipt ?rs ?st" and same: "sameVersions m m'"
    and story: "m_storyDistributionListId m' = m_storyDistributionListId m"
    using modifyWithEarlyReceipts_result [OF mod] by simp_all
  have fresh: "m_id m \<noteq> []" "db_getMessageById (st_db ?st) (m_id m) = None"
      "js_get (mc_messages (st_cache ?st)) (m_id m) = None"
    and c': "c' = c\<lparr>co_store := st'\<lparr>st_cache := addMessageToCache (re_now E) (newModel m') (st_cache st'),
        st_db := saveMessage m' (st_db st')\<rparr>,
      co_settled := co_settled c @ map (\<lambda>r. (r,
        if shouldDropReceipt E r m then DroppedFor (m_id m) else HandedTo (m_id m))) ?rs\<rparr>"
    using assms(2) by (auto simp: newMessage_def Let_def js_has_def mod split: if_splits)
  have id: "m_id m' = m_id m" using same by (simp add: sameVersions_def)
  have ok: "rows_ok (st_db ?st)" "models_ok (st_db ?st) (st_cache ?st)" "tasks_ok ?st"
    using assms(1) by (simp_all add: conf_ok_def store_ok_def)
  have "canGetReceipts m' \<longrightarrow> versionsStored (db_edited_messages (st_db ?st)) m'"
    using wf same story
    by (simp add: canGetReceipts_def isOutgoing_def isStory_def versionsStored_def sameVersions_def)
  then have rows: "rows_ok (saveMessage m' (st_db ?st))"
    using rows_ok_save [OF ok(1)] fresh(1) id by simp
  have cok: "cache_ok (addMessageToCache (re_now E) (newModel m') (st_cache ?st))"
    using cache_ok_add [of "st_cache ?st" "m_id m" "newModel m'"] fresh id ok(2)
    by (simp add: newModel_def models_ok_def)
  have look: "js_get (mc_messages (addMessageToCache (re_now E) (newModel m') (st_cache ?st))) j =
      (if j = m_id m then Some (newModel m') else js_get (mc_messages (st_cache ?st)) j)" for j
    using addMessageToCache_new [of "st_cache ?st" "m_id m" "newModel m'"] fresh id
    by (simp add: newModel_def js_get_set)
  have models: "models_ok (saveMessage m' (st_db ?st)) (addMessageToCache (re_now E) (newModel m') (st_cache ?st))"
    unfolding models_ok_def look db_getMessageById_save
    using ok(2) cok id advances_refl by (auto simp: models_ok_def newModel_attributes)
  have adv: "cache_advances (st_cache ?st) (addMessageToCache (re_now E) (newModel m') (st_cache ?st))"
    using fresh(3) advances_refl by (auto simp: cache_advances_def look)
  have radv: "rows_advance (st_db ?st) (saveMessage m' (st_db ?st))"
    using fresh(2) id by (intro rows_advance_save) simp
  have tasks: "js_get (st_syncTasks ?st) (rc_syncTaskId r) = Some r" if "r \<in> set ?rs" for r
  proof -
    from that obtain k where "(k, r) \<in> set (st_cachedReceipts ?st)"
      by (auto simp: earlyReceipts_def split: if_splits)
    then have "js_get (st_cachedReceipts ?st) k = Some r"
      using ok(3) by (intro map_of_is_SomeI) (simp_all add: tasks_ok_def)
    then have "js_get (st_syncTasks ?st) k = Some r" using ok(3) unfolding tasks_ok_def by blast
    moreover have "rc_syncTaskId r = k" using ok(3) calculation unfolding tasks_ok_def by blast
    ultimately show ?thesis by simp
  qed
  show ?thesis
  proof (rule conf_ok_intro [OF assms(1), 
      where new = "map (\<lambda>r. (r, if shouldDropReceipt E r m then DroppedFor (m_id m) else HandedTo (m_id m))) ?rs"])
    show "store_ok (co_store c')"
      using rows models fold_remove(3) [OF ok(3)]
      by (simp add: store_ok_def c' st' fold_remove(1,2)) (simp add: tasks_ok_def)
    show "phase_ok E (st_cache (co_store c')) (co_phase c')"
      using assms(1) targets_ok_advances [OF _ adv] started_ok_advances [OF _ adv]
      by (cases "co_phase c") (simp_all add: conf_ok_def c' st' fold_remove(2))
    show "\<forall>(r, outcome) \<in> set (map (\<lambda>r. (r, if shouldDropReceipt E r m then DroppedFor (m_id m)
        else HandedTo (m_id m))) ?rs). outcome_ok E (st_db (co_store c')) r outcome"
      using shouldDrop_droppable id
      by (auto simp: outcome_ok_def c' st' fold_remove(1) db_getMessageById_save)
    show "\<forall>r \<in> fst ` set (map (\<lambda>r. (r, if shouldDropReceipt E r m then DroppedFor (m_id m)
        else HandedTo (m_id m))) ?rs). known (st_syncTasks (co_store c)) (co_settled c) r"
      using tasks by (auto simp: known_def)
  qed (use radv in \<open>auto simp: c' st' fold_remove(1) fold_remove_tasks image_image\<close>)
qed

lemma js_get_filter_keys:
  "js_get (filter (\<lambda>e. P (fst e)) m) k = (if P k then js_get m k else None)"
  by (induction m) auto

lemma fold_onReceipt_fields:
  "st_db (fold onReceipt rs st) = st_db st" "st_cache (fold onReceipt rs st) = st_cache st"
  "st_syncTasks (fold onReceipt rs st) = st_syncTasks st"
  by (induction rs arbitrary: st) (simp_all add: onReceipt_def)

lemma tasks_ok_onReceipt:
  assumes "tasks_ok st" and "js_get (st_syncTasks st) (rc_syncTaskId r) = Some r"
  shows "tasks_ok (onReceipt r st) \<and> st_syncTasks (onReceipt r st) = st_syncTasks st"
proof -
  have same: "st_syncTasks (onReceipt r st) = st_syncTasks st" by (simp add: onReceipt_def)
  have "js_get (st_syncTasks st) k = Some r'" if "js_get (st_cachedReceipts (onReceipt r st)) k = Some r'" for k r'
  proof (cases "k = rc_syncTaskId r")
    case True
    then show ?thesis using that assms(2) by (simp add: onReceipt_def js_get_set)
  next
    case False
    then have "js_get (st_cachedReceipts st) k = Some r'" using that by (simp add: onReceipt_def js_get_set)
    then show ?thesis using assms(1) unfolding tasks_ok_def by blast
  qed
  moreover have "distinct (js_keys (st_cachedReceipts (onReceipt r st)))"
    using assms(1) by (simp add: onReceipt_def tasks_ok_def js.distinct_assign)
  ultimately show ?thesis using assms(1) unfolding tasks_ok_def same by blast
qed

lemma restart_ok:
  assumes "conf_ok E c"
  shows "step_ok E c (restart expired c)"
proof -
  let ?st = "co_store c"
  define kept where "kept = filter (\<lambda>e. fst e \<notin> set expired) (st_syncTasks ?st)"
  define gone where "gone = filter (\<lambda>e. fst e \<in> set expired) (st_syncTasks ?st)"
  define st0 where "st0 = ?st\<lparr>st_cache := emptyMessageCache, st_cachedReceipts := [],
    st_syncTasks := kept, st_deleteSentProto := []\<rparr>"
  have c': "restart expired c = \<lparr>co_store = fold onReceipt (js_values kept) st0, co_items = js_values kept,
      co_phase = Idle, co_settled = co_settled c @ map (\<lambda>r. (r, Expired)) (js_values gone)\<rparr>"
    by (simp add: restart_def kept_def gone_def st0_def Let_def)
  have ok: "rows_ok (st_db ?st)" "models_ok (st_db ?st) (st_cache ?st)" "tasks_ok ?st"
    using assms by (simp_all add: conf_ok_def store_ok_def)
  have own: "js_get (st_syncTasks ?st) k = Some r \<Longrightarrow> rc_syncTaskId r = k" for k r
    using ok(3) unfolding tasks_ok_def by blast
  have mem: "(k, r) \<in> set (st_syncTasks ?st) \<Longrightarrow> js_get (st_syncTasks ?st) k = Some r" for k r
    using ok(3) by (intro map_of_is_SomeI) (simp_all add: tasks_ok_def)
  have look: "js_get kept k = (if k \<notin> set expired then js_get (st_syncTasks ?st) k else None)" for k
    unfolding kept_def by (rule js_get_filter_keys)
  have dist: "distinct (js_keys kept)"
    using ok(3) unfolding kept_def tasks_ok_def by (simp add: distinct_map_filter)
  have keptTask: "js_get kept (rc_syncTaskId r) = Some r" if "r \<in> set (js_values kept)" for r
  proof -
    obtain k where k: "(k, r) \<in> set (st_syncTasks ?st)" "k \<notin> set expired"
      using \<open>r \<in> set (js_values kept)\<close> by (auto simp: kept_def)
    then have "rc_syncTaskId r = k" using mem own by blast
    then show ?thesis using k mem by (simp add: look)
  qed
  have "tasks_ok (fold onReceipt (js_values kept) st0)"
  proof (rule fold_keeps [where P = "\<lambda>s. tasks_ok s \<and> st_syncTasks s = kept", THEN conjunct1])
    have "rc_syncTaskId r = k" if "js_get kept k = Some r" for k r
      using that own [of k r] unfolding look by (simp split: if_splits)
    then show "tasks_ok st0 \<and> st_syncTasks st0 = kept"
      using dist by (simp add: tasks_ok_def st0_def)
    show "tasks_ok (onReceipt r s) \<and> st_syncTasks (onReceipt r s) = kept"
      if r: "r \<in> set (js_values kept)" and s: "tasks_ok s \<and> st_syncTasks s = kept" for r s
      using s keptTask [OF r] tasks_ok_onReceipt by simp
  qed
  then have store: "store_ok (co_store (restart expired c))"
    using ok(1) by (simp add: store_ok_def c' fold_onReceipt_fields st0_def models_ok_def cache_ok_empty)
      (simp add: emptyMessageCache_def)
  show ?thesis
  proof (rule conf_ok_intro [OF assms, where new = "map (\<lambda>r. (r, Expired)) (js_values gone)"])
    show "store_ok (co_store (restart expired c))" by (rule store)
    show "\<forall>r \<in> fst ` set (map (\<lambda>r. (r, Expired)) (js_values gone)).
        known (st_syncTasks (co_store c)) (co_settled c) r"
      using mem own by (force simp: known_def gone_def)
    show "js_get (st_syncTasks (co_store (restart expired c))) k =
        (if k \<in> rc_syncTaskId ` fst ` set (map (\<lambda>r. (r, Expired)) (js_values gone))
         then None else js_get (st_syncTasks (co_store c)) k)" for k
    proof (cases "js_get (st_syncTasks ?st) k")
      case None
      then show ?thesis by (simp add: c' fold_onReceipt_fields st0_def look)
    next
      case (Some r)
      have "k \<in> rc_syncTaskId ` set (js_values gone) \<longleftrightarrow> k \<in> set expired"
      proof
        assume "k \<in> rc_syncTaskId ` set (js_values gone)"
        then obtain j r' where "(j, r') \<in> set (st_syncTasks ?st)" "j \<in> set expired" "rc_syncTaskId r' = k"
          by (auto simp: gone_def)
        then show "k \<in> set expired" using mem own by blast
      next
        assume "k \<in> set expired"
        then have "r \<in> set (js_values gone)" using map_of_SomeD [OF Some] by (force simp: gone_def)
        then show "k \<in> rc_syncTaskId ` set (js_values gone)" using own [OF Some] by blast
      qed
      then show ?thesis by (simp add: c' fold_onReceipt_fields st0_def look image_image)
    qed
    show "set (co_items (restart expired c)) \<union> held (co_phase (restart expired c)) \<subseteq>
        set (co_items c) \<union> held (co_phase c) \<union>
        {r. js_get (st_syncTasks (co_store (restart expired c))) (rc_syncTaskId r) = Some r}"
      using keptTask by (auto simp: c' fold_onReceipt_fields st0_def)
  qed (simp_all add: c' fold_onReceipt_fields st0_def rows_advance_refl outcome_ok_def)
qed

section \<open>Properties of the runs\<close>

text \<open>New messages that can get receipts have the versions their rows promise.\<close>

definition events_ok :: "MessageDB \<Rightarrow> receipt_event list \<Rightarrow> bool" where
  "events_ok db evs \<longleftrightarrow> list_all (\<lambda>ev. case ev of
     NewMessage m \<Rightarrow> if canGetReceipts m then versionsStored (db_edited_messages db) m else True
   | _ \<Rightarrow> True) evs"

lemma exec_ok:
  assumes "conf_ok E c" and "exec E ev c = Some c'" and "events_ok (st_db (co_store c)) [ev]"
  shows "step_ok E c c'"
proof (cases ev)
  case (Arrive r)
  then show ?thesis using assms arrive_ok by simp
next
  case Kick
  then show ?thesis using assms kick_ok by blast
next
  case TargetNext
  then show ?thesis using assms targetNext_ok by simp
next
  case UpdateAll
  then show ?thesis using assms updateAll_ok by simp
next
  case FinishNext
  then show ?thesis using assms finishNext_ok by simp
next
  case (NewMessage m)
  then show ?thesis using assms newMessage_ok by (simp add: events_ok_def split: if_splits)
next
  case (Restart expired)
  then show ?thesis using assms restart_ok by auto
qed

lemma conf_ok_start: "rows_ok db \<Longrightarrow> conf_ok E (startConf db)"
  by (simp add: conf_ok_def startConf_def store_ok_def models_ok_def cache_ok_empty tasks_ok_def
      log_ok_def settledIds_def) (simp add: emptyMessageCache_def)

lemma arrive_task: "exec E (Arrive r) c = Some c' \<Longrightarrow> js_get (st_syncTasks (co_store c')) (rc_syncTaskId r) = Some r"
  by (auto simp: arrive_def Let_def onReceipt_def js_get_set split: if_splits)

lemma run_keeps:
  assumes "receipt_run E db evs c" and "rows_ok db" and "events_ok db evs"
  shows "conf_ok E c \<and> db_edited_messages (st_db (co_store c)) = db_edited_messages db \<and>
    (\<forall>r. Arrive r \<in> set evs \<longrightarrow> js_get (st_syncTasks (co_store c)) (rc_syncTaskId r) = Some r \<or>
      (\<exists>outcome. (r, outcome) \<in> set (co_settled c)))"
  using assms
proof (induction rule: receipt_run.induct)
  case run_start
  then show ?case by (simp add: conf_ok_start) (simp add: startConf_def)
next
  case (run_step evs c ev c')
  have evs: "events_ok db evs" using run_step.prems(2) by (simp add: events_ok_def)
  note ih = run_step.IH [OF run_step.prems(1) evs]
  have "events_ok (st_db (co_store c)) [ev]"
    using run_step.prems(2) ih by (cases ev) (simp_all add: events_ok_def)
  then have step: "step_ok E c c'" using exec_ok run_step.hyps(2) ih by blast
  show ?case
  proof (intro conjI allI impI)
    fix r assume "Arrive r \<in> set (evs @ [ev])"
    then consider "Arrive r \<in> set evs" | "ev = Arrive r" by auto
    then show "js_get (st_syncTasks (co_store c')) (rc_syncTaskId r) = Some r \<or>
        (\<exists>outcome. (r, outcome) \<in> set (co_settled c'))"
    proof cases
      case 1
      then show ?thesis using ih step unfolding step_ok_def by blast
    next
      case 2
      then show ?thesis using run_step.hyps(2) arrive_task by blast
    qed
  qed (use step ih in \<open>simp_all add: step_ok_def rows_advance_def\<close>)
qed


text \<open>Runs can be computed.\<close>

fun execAll :: "ReceiptEnv \<Rightarrow> receipt_event list \<Rightarrow> receipt_conf \<Rightarrow> receipt_conf option" where
  "execAll E [] c = Some c"
| "execAll E (ev # evs) c = (case exec E ev c of None \<Rightarrow> None | Some c' \<Rightarrow> execAll E evs c')"

lemma execAll_run: "receipt_run E db evs c \<Longrightarrow> execAll E evs' c = Some c' \<Longrightarrow> receipt_run E db (evs @ evs') c'"
proof (induction evs' arbitrary: evs c)
  case (Cons ev evs')
  then obtain c1 where c1: "exec E ev c = Some c1" "execAll E evs' c1 = Some c'"
    by (auto split: option.splits)
  have "receipt_run E db ((evs @ [ev]) @ evs') c'"
    by (rule Cons.IH [OF run_step [OF Cons.prems(1) c1(1)] c1(2)])
  then show ?case by simp
qed simp

definition exampleSent :: "string \<Rightarrow> int \<Rightarrow> SendStateByConversationId \<Rightarrow> Message" where
  "exampleSent i sentAt sendStates =
    \<lparr>m_id = i, m_type = Mt_outgoing, m_conversationId = ''bob'', m_timestamp = sentAt, m_sent_at = sentAt,
     m_received_at = sentAt, m_serverTimestamp = None, m_editMessageTimestamp = None, m_editHistory = None,
     m_sendStateByConversationId = Some sendStates, m_storyDistributionListId = None, m_storyId = None,
     m_deletedForEveryone = None, m_unidentifiedDeliveries = None, m_source = None, m_sourceServiceId = None,
     m_readStatus = None, m_seenStatus = None, m_readAt = None, m_expireTimer = None,
     m_expirationStartTimestamp = None\<rparr>"

definition exampleReceipt :: "string \<Rightarrow> MessageReceiptType \<Rightarrow> int \<Rightarrow> MessageReceiptAttributesType" where
  "exampleReceipt i type sentAt =
    \<lparr>rc_envelopeId = i, rc_syncTaskId = i, rc_receiptSync =
      \<lparr>rs_messageSentAt = sentAt, rs_receiptTimestamp = sentAt + 5, rs_sourceConversationId = ''bob'',
       rs_sourceDevice = 1, rs_sourceServiceId = ''bob-aci'', rs_type = type, rs_wasSentEncrypted = True\<rparr>\<rparr>"

definition exampleReceiptEnv :: ReceiptEnv where
  "exampleReceiptEnv =
    \<lparr>re_readReceiptSetting = True, re_storyViewReceiptsEnabled = True, re_getConversationId = Some,
     re_getServiceId = Some, re_ownReactionAt = (\<lambda>_. False), re_ourAci = ''me'', re_now = 99\<rparr>"

definition exampleDB :: MessageDB where
  "exampleDB = \<lparr>db_messages = [exampleSent ''m'' 7 [(''bob'', sentState)]], db_edited_messages = []\<rparr>"

definition exampleEvents :: "receipt_event list" where
  "exampleEvents = [Arrive (exampleReceipt ''r1'' ReadReceipt 7), Restart [], Kick, TargetNext, UpdateAll,
     Arrive (exampleReceipt ''r2'' ViewReceipt 8), FinishNext, FinishNext]"


end
