(* ===== verification/Message_Send.thy ===== *)
theory Message_Send
  imports Message_Receipts
begin

text \<open>
  The send states of a message we send: what \<open>send\<close> and \<open>sendSyncMessage\<close>
  (ts/messages/send.preload.ts) and \<open>markFailed\<close> (ts/test-node/util/messageFailures.preload.ts)
  make of the result of sending, and what an edit makes of the versions (the history part of
  \<open>handleEditMessage\<close> in ts/util/handleEditMessage.preload.ts and \<open>sendEditedMessage\<close> in
  ts/util/sendEditedMessage.preload.ts).

  Once a message is edited its send states are stored twice: with the message, and with the edit in
  its history. The theorems say when the two agree, with the receipts of \<open>Message_Receipts\<close> in
  between. Conversations, the clock and the result of sending are arguments.
\<close>

section \<open>The result of sending\<close>

record SendError =
  se_name :: string
  se_serviceId :: "string option"
  se_identifier :: "string option"
  se_number :: "string option"

record CallbackResultType =
  cr_success :: bool
  cr_sendIsNotFinal :: bool
  cr_successfulServiceIds :: "string list option"
  cr_unidentifiedDeliveries :: "string list option"
  cr_errors :: "SendError list"

record SendEnv =
  sv_conversation :: "string \<Rightarrow> string option"
  sv_conversationIsGroup :: bool
  sv_ourConversationId :: string
  sv_now :: int

definition lookupConversation :: "SendEnv \<Rightarrow> string option \<Rightarrow> string option" where
  "lookupConversation E i = (case i of None \<Rightarrow> None | Some s \<Rightarrow> sv_conversation E s)"

definition errorConversation :: "SendEnv \<Rightarrow> SendError \<Rightarrow> string option" where
  "errorConversation E err =
    (case lookupConversation E (se_serviceId err) of
       Some c \<Rightarrow> Some c
     | None \<Rightarrow>
       (case lookupConversation E (se_identifier err) of
          Some c \<Rightarrow> Some c | None \<Rightarrow> lookupConversation E (se_number err)))"

definition sendStep ::
    "SendEnv \<Rightarrow> SendActionType \<Rightarrow> string option \<Rightarrow> SendStateByConversationId \<Rightarrow> SendStateByConversationId" where
  "sendStep E type conversationId states =
    (case conversationId of
       None \<Rightarrow> states
     | Some c \<Rightarrow>
       (case js_get states c of
          None \<Rightarrow> states
        | Some previousSendState \<Rightarrow>
          js_set c (sendStateReducer previousSendState
            \<lparr>sa_type = type, sa_updatedAt = Some (sv_now E)\<rparr>) states))"

definition successesOf :: "CallbackResultType \<Rightarrow> string list" where
  "successesOf result =
    (if cr_sendIsNotFinal result then [] else or_list (cr_successfulServiceIds result))"

definition sendStatesAfter ::
    "SendEnv \<Rightarrow> CallbackResultType \<Rightarrow> bool \<Rightarrow> SendStateByConversationId \<Rightarrow> SendStateByConversationId" where
  "sendStatesAfter E result saveErrors states =
    (let sent = fold (\<lambda>serviceId. sendStep E ActSent (sv_conversation E serviceId)) (successesOf result) states
     in if \<not> saveErrors \<and> \<not> cr_sendIsNotFinal result
        then fold (\<lambda>err. sendStep E ActFailed (errorConversation E err)) (cr_errors result) sent
        else sent)"

definition errorsToSaveOf :: "SendEnv \<Rightarrow> CallbackResultType \<Rightarrow> SendError list" where
  "errorsToSaveOf E result =
    filter (\<lambda>err. \<not> (se_name err = ''UnregisteredUserError'' \<and> sv_conversationIsGroup E)) (cr_errors result)"

definition unionOf :: "'a list \<Rightarrow> 'a list \<Rightarrow> 'a list" where
  "unionOf xs ys = fold set_add (xs @ ys) []"

record SendOutcome =
  so_message :: Message
  so_errorsToSave :: "SendError list"
  so_setRegistered :: "string list"
  so_setUnregistered :: "string list"
  so_sendSyncMessage :: bool

definition send ::
    "SendEnv \<Rightarrow> Message \<Rightarrow> int \<Rightarrow> CallbackResultType \<Rightarrow> bool \<Rightarrow> bool \<Rightarrow> SendOutcome" where
  "send E message targetTimestamp result saveErrors doNotSendSyncMessage =
    (let states = sendStatesAfter E result saveErrors (or_list (getPropForTimestamp message targetTimestamp));
         sentToAtLeastOneRecipient = (cr_success result \<or> successesOf result \<noteq> []);
         latestEditTimestamp = m_editMessageTimestamp message;
         sendIsLatest = (\<not> truthy_num latestEditTimestamp \<or> latestEditTimestamp = Some targetTimestamp);
         newUnidentifiedDeliveries =
           (if sendIsLatest \<and> \<not> cr_sendIsNotFinal result
            then or_list (cr_unidentifiedDeliveries result) else []);
         updated = message\<lparr>
           m_expirationStartTimestamp :=
             (if truthy_num (m_expirationStartTimestamp message) then m_expirationStartTimestamp message
              else if sentToAtLeastOneRecipient then Some (sv_now E) else None),
           m_unidentifiedDeliveries :=
             Some (unionOf (or_list (m_unidentifiedDeliveries message)) newUnidentifiedDeliveries)\<rparr>
     in \<lparr>so_message = setChanges (getChangesForPropAtTimestamp message targetTimestamp states) updated,
         so_errorsToSave = errorsToSaveOf E result,
         so_setRegistered = List.map_filter (sv_conversation E) (successesOf result),
         so_setUnregistered = List.map_filter (errorConversation E)
           (filter (\<lambda>err. se_name err = ''UnregisteredUserError'') (cr_errors result)),
         so_sendSyncMessage = (sentToAtLeastOneRecipient \<and> \<not> doNotSendSyncMessage)\<rparr>)"

text \<open>What the sync message tells our other devices: who the version was sent to.\<close>

definition conversationIdsSentTo :: "SendEnv \<Rightarrow> Message \<Rightarrow> int \<Rightarrow> string list" where
  "conversationIdsSentTo E message targetTimestamp =
    filter (\<lambda>c. c \<noteq> sv_ourConversationId E)
      (map fst (filter (\<lambda>e. isSent (ss_status (snd e))) (or_list (getPropForTimestamp message targetTimestamp))))"

text \<open>\<open>sendSyncMessage\<close>, once the sync message is sent: our own send state.\<close>

definition syncMessageSent :: "SendEnv \<Rightarrow> Message \<Rightarrow> int \<Rightarrow> Message" where
  "syncMessageSent E message targetTimestamp =
    (let sendStateByConversationId = or_list (getPropForTimestamp message targetTimestamp)
     in case js_get sendStateByConversationId (sv_ourConversationId E) of
          None \<Rightarrow> message
        | Some ourOldSendState \<Rightarrow>
          (let ourNewSendState = sendStateReducer ourOldSendState
                 \<lparr>sa_type = ActSent, sa_updatedAt = Some (sv_now E)\<rparr>
           in if ourNewSendState \<noteq> ourOldSendState
              then setChanges (getChangesForPropAtTimestamp message targetTimestamp
                (js_set (sv_ourConversationId E) ourNewSendState sendStateByConversationId)) message
              else message))"

definition markFailed :: "SendEnv \<Rightarrow> Message \<Rightarrow> int option \<Rightarrow> Message" where
  "markFailed E message editMessageTimestamp =
    (let targetTimestamp = (if truthy_num editMessageTimestamp then the editMessageTimestamp else m_timestamp message);
         states = or_list (getPropForTimestamp message targetTimestamp);
         newStates = map (\<lambda>(c, st). (c, sendStateReducer st
           \<lparr>sa_type = ActFailed, sa_updatedAt = Some (sv_now E)\<rparr>)) states
     in setChanges (getChangesForPropAtTimestamp message targetTimestamp newStates) message)"

section \<open>Edits\<close>

text \<open>
  The history of a message after an edit with a timestamp and send states: the first edit moves the
  message itself into the history, and an edit that is there already is dropped.
\<close>

definition editHistoryOf :: "Message \<Rightarrow> EditHistoryType list" where
  "editHistoryOf mainMessage =
    (case m_editHistory mainMessage of
       Some h \<Rightarrow> h
     | None \<Rightarrow>
       [\<lparr>eh_timestamp = m_timestamp mainMessage,
         eh_sendStateByConversationId = Some (or_list (m_sendStateByConversationId mainMessage))\<rparr>])"

definition applyEdit :: "Message \<Rightarrow> int \<Rightarrow> SendStateByConversationId option \<Rightarrow> Message" where
  "applyEdit mainMessage timestamp sendStates =
    (if list_ex (\<lambda>edit. eh_timestamp edit = timestamp) (editHistoryOf mainMessage) then mainMessage
     else mainMessage\<lparr>
       m_editHistory := Some (\<lparr>eh_timestamp = timestamp, eh_sendStateByConversationId = sendStates\<rparr> #
         editHistoryOf mainMessage),
       m_editMessageTimestamp := Some timestamp\<rparr>)"

text \<open>\<open>sendEditedMessage\<close>: every recipient and we ourselves are pending for the new version.\<close>

definition pendingStates :: "int \<Rightarrow> string list \<Rightarrow> SendStateByConversationId" where
  "pendingStates timestamp recipientConversationIds =
    js_of_pairs (map (\<lambda>c. (c, \<lparr>isAlreadyIncludedInAnotherDistributionList = None,
      isAllowedToReplyToStory = None, ss_status = SPending, ss_updatedAt = Some timestamp\<rparr>))
      recipientConversationIds)"

definition sendEditedMessage :: "SendEnv \<Rightarrow> Message \<Rightarrow> int \<Rightarrow> string list \<Rightarrow> Message" where
  "sendEditedMessage E targetMessage timestamp recipients =
    (let states = pendingStates timestamp
           (List.map_filter (sv_conversation E) recipients @ [sv_ourConversationId E])
     in (applyEdit targetMessage timestamp (Some states))\<lparr>m_sendStateByConversationId := Some states\<rparr>)"

section \<open>Reading back what was set\<close>

lemma find_Some_nth: "find P xs = (case find (\<lambda>i. P (xs ! i)) [0..<length xs] of None \<Rightarrow> None | Some i \<Rightarrow> Some (xs ! i))"
proof (cases "find (\<lambda>i. P (xs ! i)) [0..<length xs]")
  case None
  then have "\<forall>i < length xs. \<not> P (xs ! i)" by (auto simp: find_None_iff)
  then have "find P xs = None" by (auto simp: find_None_iff in_set_conv_nth)
  then show ?thesis by (simp only: None option.case)
next
  case (Some i)
  then have i: "i < length xs" "P (xs ! i)" "\<forall>j < i. \<not> P (xs ! j)"
    by (auto simp: find_Some_iff)
  then have "find P xs = Some (xs ! i)" by (auto simp: find_Some_iff)
  then show ?thesis by (simp only: Some option.case)
qed

lemma find_update:
  assumes "find (\<lambda>i. P (xs ! i)) [0..<length xs] = Some i" and "P y = P (xs ! i)"
  shows "find P (xs[i := y]) = Some y"
proof -
  have i: "i < length xs" "P (xs ! i)" "\<forall>j < i. \<not> P (xs ! j)"
    using assms(1) by (auto simp: find_Some_iff)
  then have "\<forall>j < i. \<not> P (xs[i := y] ! j)" "P (xs[i := y] ! i)" using assms(2) by simp_all
  then show ?thesis using i(1) by (auto simp: find_Some_iff intro!: exI [of _ i])
qed

lemma find_update_other:
  assumes "\<not> P y" and "\<not> P (xs ! i)"
  shows "find P (xs[i := y]) = find P xs"
  using assms
proof (induction xs arbitrary: i)
  case (Cons x xs)
  then show ?case by (cases i) simp_all
qed simp

lemma getProp_getChanges:
  "getPropForTimestamp (setChanges (getChangesForPropAtTimestamp m t v) m') t = Some v"
  if "m_editHistory m' = m_editHistory m"
proof (cases "m_editHistory m")
  case None
  then show ?thesis using that by (simp add: getPropForTimestamp_def getChangesForPropAtTimestamp_def setChanges_def)
next
  case (Some h)
  show ?thesis
  proof (cases "find (\<lambda>i. eh_timestamp (h ! i) = t) [0..<length h]")
    case None
    then have "find (\<lambda>e. eh_timestamp e = t) h = None" by (subst find_Some_nth) simp
    then show ?thesis using None Some that
      by (simp add: getPropForTimestamp_def getChangesForPropAtTimestamp_def setChanges_def)
  next
    case (Some i)
    have t: "eh_timestamp (h ! i) = t" using Some by (auto simp: find_Some_iff)
    have "find (\<lambda>e. eh_timestamp e = t) (h[i := (h ! i)\<lparr>eh_sendStateByConversationId := Some v\<rparr>]) =
        Some ((h ! i)\<lparr>eh_sendStateByConversationId := Some v\<rparr>)"
      using find_update [OF Some] t by simp
    then show ?thesis using Some \<open>m_editHistory m = Some h\<close>
      by (simp add: getPropForTimestamp_def getChangesForPropAtTimestamp_def setChanges_def)
  qed
qed

section \<open>Send states after sending\<close>

lemma js_get_sendStep:
  "js_get (sendStep E type conversationId states) c =
    (if conversationId = Some c
     then map_option (\<lambda>st. sendStateReducer st \<lparr>sa_type = type, sa_updatedAt = Some (sv_now E)\<rparr>) (js_get states c)
     else js_get states c)"
  by (auto simp: sendStep_def js_get_set split: option.splits)

lemma status_sendSteps:
  "map_option ss_status (js_get (fold (\<lambda>x. sendStep E type (f x)) xs states) c) =
    (if list_ex (\<lambda>x. f x = Some c) xs then map_option (nextStatus type) (map_option ss_status (js_get states c))
     else map_option ss_status (js_get states c))"
proof (induction xs arbitrary: states)
  case (Cons x xs)
  have one: "map_option ss_status (js_get (sendStep E type (f x) states) c) =
      (if f x = Some c then map_option (nextStatus type) (map_option ss_status (js_get states c))
       else map_option ss_status (js_get states c))"
    by (cases "js_get states c") (simp_all add: js_get_sendStep ss_status_reducer nextStatus_def)
  show ?case
    unfolding fold_simps Cons.IH one by (cases "js_get states c") (simp_all add: nextStatus_idem)
qed simp

text \<open>
  What sending makes of the status of a recipient: at least \<open>Sent\<close> for those it succeeded for;
  \<open>Pending\<close> becomes \<open>Failed\<close> for those with an error; all else stays.
\<close>

definition statusAfterSend :: "bool \<Rightarrow> bool \<Rightarrow> SendStatus \<Rightarrow> SendStatus" where
  "statusAfterSend succeeded failed old =
    (let sent = (if succeeded then maxStatus old SSent else old)
     in if failed \<and> sent = SPending then SFailed else sent)"

lemma status_sendStatesAfter:
  "map_option ss_status (js_get (sendStatesAfter E result saveErrors states) c) =
    map_option (statusAfterSend
        (list_ex (\<lambda>serviceId. sv_conversation E serviceId = Some c) (successesOf result))
        (\<not> saveErrors \<and> \<not> cr_sendIsNotFinal result \<and>
          list_ex (\<lambda>err. errorConversation E err = Some c) (cr_errors result)))
      (map_option ss_status (js_get states c))"
proof -
  have fail: "nextStatus ActFailed s = (if s = SPending then SFailed else s)" for s
    by (cases s) (simp_all add: nextStatus_def maxStatus_def)
  have sent: "nextStatus ActSent s = maxStatus s SSent" for s
    by (simp add: nextStatus_def)
  show ?thesis
  proof (cases "\<not> saveErrors \<and> \<not> cr_sendIsNotFinal result")
    case True
    then have eq: "sendStatesAfter E result saveErrors states =
        fold (\<lambda>err. sendStep E ActFailed (errorConversation E err)) (cr_errors result)
          (fold (\<lambda>serviceId. sendStep E ActSent (sv_conversation E serviceId)) (successesOf result) states)"
      by (simp add: sendStatesAfter_def)
    show ?thesis
      unfolding eq status_sendSteps using True
      by (cases "js_get states c") (simp_all add: fail sent statusAfterSend_def)
  next
    case False
    then have eq: "sendStatesAfter E result saveErrors states =
        fold (\<lambda>serviceId. sendStep E ActSent (sv_conversation E serviceId)) (successesOf result) states"
      by (auto simp: sendStatesAfter_def)
    show ?thesis
      unfolding eq status_sendSteps using False
      by (cases "js_get states c") (auto simp: sent statusAfterSend_def)
  qed
qed

section \<open>The versions of a message agree\<close>

definition versionsAgree :: "Message \<Rightarrow> bool" where
  "versionsAgree m \<longleftrightarrow>
    (if truthy_num (m_editMessageTimestamp m)
     then (case find (\<lambda>e. Some (eh_timestamp e) = m_editMessageTimestamp m) (or_list (m_editHistory m)) of
             None \<Rightarrow> False
           | Some e \<Rightarrow> eh_sendStateByConversationId e = m_sendStateByConversationId m)
     else True)"

text \<open>
  The operations on a message we sent from this device. A result is for a version that the message
  has; the time of an edit is not the time of a version.
\<close>

datatype message_op =
  OwnEdit int "string list" | SendResult int CallbackResultType bool | SyncMessageSent int
  | SendGivenUp "int option" | Receipt MessageReceiptAttributesType

definition hasVersion :: "Message \<Rightarrow> int \<Rightarrow> bool" where
  "hasVersion m t = (case m_editHistory m of None \<Rightarrow> True | Some h \<Rightarrow> list_ex (\<lambda>e. eh_timestamp e = t) h)"

fun opAllowed :: "Message \<Rightarrow> message_op \<Rightarrow> bool" where
  "opAllowed m (OwnEdit t recipients) = (t \<noteq> 0 \<and> \<not> list_ex (\<lambda>e. eh_timestamp e = t) (editHistoryOf m))"
| "opAllowed m (SendResult t result saveErrors) = hasVersion m t"
| "opAllowed m (SyncMessageSent t) = hasVersion m t"
| "opAllowed m (SendGivenUp t) = (case t of None \<Rightarrow> True | Some t \<Rightarrow> hasVersion m t)"
| "opAllowed m (Receipt r) = True"

fun opStep :: "SendEnv \<Rightarrow> message_op \<Rightarrow> Message \<Rightarrow> Message" where
  "opStep E (OwnEdit t recipients) m = sendEditedMessage E m t recipients"
| "opStep E (SendResult t result saveErrors) m = so_message (send E m t result saveErrors False)"
| "opStep E (SyncMessageSent t) m = syncMessageSent E m t"
| "opStep E (SendGivenUp t) m = markFailed E m t"
| "opStep E (Receipt r) m = updateMessageSendStateWithReceipt r m"

fun runOps :: "SendEnv \<Rightarrow> message_op list \<Rightarrow> Message \<Rightarrow> Message option" where
  "runOps E [] m = Some m"
| "runOps E (oper # opers) m = (if opAllowed m oper then runOps E opers (opStep E oper m) else None)"

text \<open>A message without a history is not edited, and the original version stays in the history.\<close>

definition versions_ok :: "Message \<Rightarrow> bool" where
  "versions_ok m \<longleftrightarrow> versionsAgree m \<and> hasVersion m (m_timestamp m) \<and>
    (m_editHistory m = None \<longrightarrow> m_editMessageTimestamp m = None) \<and>
    (m_editHistory m \<noteq> None \<longrightarrow> truthy_num (m_editMessageTimestamp m))"

lemma setChanges_fields [simp]:
  "m_timestamp (setChanges ch m) = m_timestamp m"
  "m_editMessageTimestamp (setChanges ch m) = m_editMessageTimestamp m"
  by (simp_all add: setChanges_def)

lemma versions_ok_setChanges:
  assumes "versions_ok m" and "hasVersion m t"
    and same: "m_editHistory m' = m_editHistory m" "m_timestamp m' = m_timestamp m"
      "m_editMessageTimestamp m' = m_editMessageTimestamp m"
      "m_sendStateByConversationId m' = m_sendStateByConversationId m"
  shows "versions_ok (setChanges (getChangesForPropAtTimestamp m t v) m')"
proof (cases "m_editHistory m")
  case None
  then show ?thesis
    using assms by (simp add: versions_ok_def versionsAgree_def hasVersion_def
        getChangesForPropAtTimestamp_def setChanges_def)
next
  case (Some h)
  obtain e where edit: "m_editMessageTimestamp m = Some e" "e \<noteq> 0"
    using assms(1) Some by (auto simp: versions_ok_def truthy_num_def split: option.splits)
  have "find (\<lambda>e. eh_timestamp e = t) h \<noteq> None"
    using assms(2) Some by (auto simp: hasVersion_def find_None_iff list_ex_iff)
  then obtain i where i: "find (\<lambda>i. eh_timestamp (h ! i) = t) [0..<length h] = Some i"
    by (subst (asm) find_Some_nth) (auto split: option.splits)
  then have ti: "eh_timestamp (h ! i) = t" by (auto simp: find_Some_iff)
  define y where "y = (h ! i)\<lparr>eh_sendStateByConversationId := Some v\<rparr>"
  have y: "eh_timestamp y = t" "eh_sendStateByConversationId y = Some v" by (simp_all add: y_def ti)
  have "i < length h" using i by (auto simp: find_Some_iff)
  then have times: "map eh_timestamp (h[i := y]) = map eh_timestamp h"
    by (metis list_update_id map_update ti y(1))
  have has: "list_ex (\<lambda>e. eh_timestamp e = t') (h[i := y]) = list_ex (\<lambda>e. eh_timestamp e = t') h" for t'
  proof -
    have eq: "list_ex (\<lambda>e. eh_timestamp e = t') l = list_ex (\<lambda>x. x = t') (map eh_timestamp l)"
      for l :: "EditHistoryType list" by (auto simp: list_ex_iff)
    show ?thesis unfolding eq times ..
  qed
  have agree: "case find (\<lambda>x. Some (eh_timestamp x) = Some e) (h[i := y]) of None \<Rightarrow> False
      | Some x \<Rightarrow> eh_sendStateByConversationId x = (if e = t then Some v else m_sendStateByConversationId m)"
  proof (cases "e = t")
    case True
    then show ?thesis using find_update [OF i, of y] ti y by simp
  next
    case False
    then have "find (\<lambda>x. eh_timestamp x = e) (h[i := y]) = find (\<lambda>x. eh_timestamp x = e) h"
      using ti y by (intro find_update_other) auto
    then show ?thesis
      using assms(1) False by (simp add: versions_ok_def versionsAgree_def edit Some)
  qed
  have ch: "getChangesForPropAtTimestamp m t v = \<lparr>ch_editHistory = Some (h[i := y]),
      ch_sendStateByConversationId = (if e = t then Some v else None)\<rparr>"
    using edit by (simp add: getChangesForPropAtTimestamp_def Some i y_def)
  obtain x where x: "find (\<lambda>x. eh_timestamp x = e) (h[i := y]) = Some x"
      "eh_sendStateByConversationId x = (if e = t then Some v else m_sendStateByConversationId m)"
    using agree by (auto split: option.splits)
  show ?thesis
    using x assms(1) same edit
    by (simp add: versions_ok_def versionsAgree_def hasVersion_def ch setChanges_def Some has split: if_splits)
qed

lemma versions_ok_receipt:
  assumes "versions_ok m"
  shows "versions_ok (updateMessageSendStateWithReceipt r m)"
proof (cases "m_editHistory m")
  case None
  then show ?thesis using assms
    by (simp add: versions_ok_def versionsAgree_def hasVersion_def updateMessageSendStateWithReceipt_def)
next
  case (Some h)
  obtain e where edit: "m_editMessageTimestamp m = Some e" "e \<noteq> 0"
    using assms Some by (auto simp: versions_ok_def truthy_num_def split: option.splits)
  obtain x where x: "find (\<lambda>x. eh_timestamp x = e) h = Some x"
      "eh_sendStateByConversationId x = m_sendStateByConversationId m"
    using assms by (auto simp: versions_ok_def versionsAgree_def edit Some split: option.splits)
  have te: "eh_timestamp x = e" using x(1) by (auto simp: find_Some_iff)
  have find_map: "find (\<lambda>x. eh_timestamp x = e) (map (updateEditWithReceipt r) h) =
      map_option (updateEditWithReceipt r) (find (\<lambda>x. eh_timestamp x = e) h)"
    by (induction h) (simp_all add: updateEdit_timestamp)
  have has: "list_ex (\<lambda>x. eh_timestamp x = t) (map (updateEditWithReceipt r) h) =
      list_ex (\<lambda>x. eh_timestamp x = t) h" for t
    by (simp add: list_ex_iff updateEdit_timestamp)
  have "eh_sendStateByConversationId (updateEditWithReceipt r x) =
      (if sentAtOf r = e then Some (getNewSendStateByConversationId (or_list (m_sendStateByConversationId m)) r)
       else m_sendStateByConversationId m)"
    by (simp add: updateEditWithReceipt_def te x(2))
  then show ?thesis
    using assms edit x(1)
    by (auto simp: versions_ok_def versionsAgree_def hasVersion_def updateMessageSendStateWithReceipt_def
        Some has find_map isTopLevelTarget_def)
qed

lemma versions_ok_edit:
  assumes "versions_ok m" and "opAllowed m (OwnEdit t recipients)"
  shows "versions_ok (sendEditedMessage E m t recipients)"
proof -
  have orig: "list_ex (\<lambda>e. eh_timestamp e = m_timestamp m) (editHistoryOf m)"
    using assms(1) by (auto simp: versions_ok_def hasVersion_def editHistoryOf_def split: option.splits)
  show ?thesis
    using assms(2) orig
    by (simp add: versions_ok_def versionsAgree_def hasVersion_def sendEditedMessage_def Let_def applyEdit_def)
qed

lemma versions_ok_step:
  assumes "versions_ok m" and "opAllowed m oper"
  shows "versions_ok (opStep E oper m)"
proof (cases oper)
  case (OwnEdit t recipients)
  then show ?thesis using assms versions_ok_edit by simp
next
  case (SendResult t result saveErrors)
  then show ?thesis using assms by (simp add: send_def Let_def versions_ok_setChanges)
next
  case (SyncMessageSent t)
  then show ?thesis using assms
    by (simp add: syncMessageSent_def Let_def versions_ok_setChanges split: option.splits)
next
  case (SendGivenUp t)
  have "hasVersion m (if truthy_num t then the t else m_timestamp m)"
    using assms SendGivenUp by (cases t) (auto simp: versions_ok_def)
  then show ?thesis using assms(1) by (simp add: SendGivenUp markFailed_def Let_def versions_ok_setChanges)
next
  case (Receipt r)
  then show ?thesis using assms versions_ok_receipt by simp
qed

lemma versions_ok_run: "versions_ok m \<Longrightarrow> runOps E opers m = Some m' \<Longrightarrow> versions_ok m'"
proof (induction opers arbitrary: m)
  case (Cons oper opers)
  then have allowed: "opAllowed m oper" and rest: "runOps E opers (opStep E oper m) = Some m'"
    by (auto split: if_splits)
  show ?case by (rule Cons.IH [OF versions_ok_step [OF Cons.prems(1) allowed] rest])
qed simp

section \<open>Properties\<close>

text \<open>
C8: The send states of a message and of the current version in its history agree after every run
of sends, edits, failures and receipts of a message from this device: whoever reads the one, like
the timeline, or the other, like a receipt or a repeated send, sees the same delivery state.
\<close>

theorem versions_agree:
  "case runOps E opers (m\<lparr>m_editHistory := None, m_editMessageTimestamp := None\<rparr>) of
     None \<Rightarrow> True
   | Some m' \<Rightarrow> versionsAgree m' \<and>
       (if m_editHistory m' = None then True
        else getPropForTimestamp m' (the (m_editMessageTimestamp m')) = m_sendStateByConversationId m')"
proof (cases "runOps E opers (m\<lparr>m_editHistory := None, m_editMessageTimestamp := None\<rparr>)")
  case (Some m')
  have "versions_ok (m\<lparr>m_editHistory := None, m_editMessageTimestamp := None\<rparr>)"
    by (simp add: versions_ok_def versionsAgree_def hasVersion_def)
  then have ok: "versions_ok m'" using versions_ok_run Some by blast
  have "getPropForTimestamp m' (the (m_editMessageTimestamp m')) = m_sendStateByConversationId m'"
    if edited: "m_editHistory m' \<noteq> None"
  proof -
    obtain e where "m_editMessageTimestamp m' = Some e" "e \<noteq> 0"
      using ok edited by (auto simp: versions_ok_def truthy_num_def split: option.splits)
    then show ?thesis
      using ok by (auto simp: versions_ok_def versionsAgree_def getPropForTimestamp_def split: option.splits)
  qed
  then show ?thesis using Some ok by (simp add: versions_ok_def)
qed simp

text \<open>
C13: The result of a send, version by version: a recipient of the version that the send succeeded
for is at least \<open>Sent\<close>, one with an error goes from \<open>Pending\<close> to \<open>Failed\<close>, every
other status stays, nobody becomes a recipient, and a result that is not final changes nothing. The
errors are kept except that a group does not show unregistered members.
\<close>

theorem send_result_statuses:
  "let outcome = send E m t result saveErrors noSync;
       states = or_list (getPropForTimestamp m t);
       states' = or_list (getPropForTimestamp (so_message outcome) t)
   in (\<forall>c. map_option ss_status (js_get states' c) =
        map_option (statusAfterSend
            (list_ex (\<lambda>serviceId. sv_conversation E serviceId = Some c) (successesOf result))
            (\<not> saveErrors \<and> \<not> cr_sendIsNotFinal result \<and>
              list_ex (\<lambda>err. errorConversation E err = Some c) (cr_errors result)))
          (map_option ss_status (js_get states c))) \<and>
      (if cr_sendIsNotFinal result then states' = states else True) \<and>
      so_errorsToSave outcome = (if sv_conversationIsGroup E
        then filter (\<lambda>err. se_name err \<noteq> ''UnregisteredUserError'') (cr_errors result)
        else cr_errors result)"
proof -
  have readBack: "getPropForTimestamp (so_message (send E m t result saveErrors noSync)) t =
      Some (sendStatesAfter E result saveErrors (or_list (getPropForTimestamp m t)))"
    by (simp add: send_def Let_def getProp_getChanges)
  have keep: "sendStatesAfter E result saveErrors states = states" if "cr_sendIsNotFinal result" for states
    using that by (simp add: sendStatesAfter_def successesOf_def)
  show ?thesis
    unfolding Let_def readBack or_list_simps status_sendStatesAfter
    by (simp add: keep send_def Let_def errorsToSaveOf_def)
qed

text \<open>
An edit we sent from another device arrives with its own send states. It becomes the current version
of the message, but the send states of the message itself stay those of the version before.
\<close>

definition someSendEnv :: SendEnv where
  "someSendEnv = \<lparr>sv_conversation = Some, sv_conversationIsGroup = False, sv_ourConversationId = ''me'', sv_now = 50\<rparr>"

lemma synced_edit_keeps_old_status:
  "let m = (editedMessage\<lparr>m_editHistory := None, m_editMessageTimestamp := None,
         m_sendStateByConversationId := Some [(''bob'', sentState\<lparr>ss_status := SRead\<rparr>)]\<rparr>);
       m' = applyEdit m 9 (Some [(''bob'', sentState)])
   in \<not> versionsAgree m' \<and> statusAt m' None ''bob'' = Some SRead \<and> statusAt m' (Some 0) ''bob'' = Some SSent"
  by code_simp

end
