(* ===== verification/Read_Syncs.thy ===== *)
theory Read_Syncs
  imports Message_Cache
begin

text \<open>
  Messages read or viewed on another device: the read and view syncs in memory
  (ts/messageModifiers/ReadSyncs.preload.ts and ViewSyncs.preload.ts), what they make of a message
  (ts/services/MessageUpdater.preload.ts), and the syncs that arrive before their message
  (\<open>modifyTargetMessage\<close> in ts/util/modifyTargetMessage.preload.ts).

  As with receipts, a sync is a task in the database and kept in memory until it is settled. The
  lookup of the sender, of reactions and poll votes, and the clock are arguments; an operation runs
  without interruption. The effects on conversations and the writes that are queued are lists.
\<close>

section \<open>Syncs\<close>

record ReadSyncAttributesType =
  ry_syncTaskId :: string
  ry_readAt :: int
  ry_senderId :: string
  ry_senderAci :: string
  ry_timestamp :: int

record ViewSyncAttributesType =
  vy_syncTaskId :: string
  vy_senderId :: string
  vy_timestamp :: int
  vy_viewedAt :: int

record SyncEnv =
  ye_senderId :: "string option \<Rightarrow> string option \<Rightarrow> string option"
  ye_markReactionAsRead :: "string \<Rightarrow> int \<Rightarrow> string option"
  ye_markPollVoteAsRead :: "int \<Rightarrow> string option"
  ye_hasConversation :: "string \<Rightarrow> bool"
  ye_startupQueueAvailable :: bool
  ye_ourAci :: string
  ye_now :: int

datatype sync_effect =
  QueueUpdateMessage Message
  | OnReadMessage Message int
  | SetArchived string
  | PollVotesRead string

record SyncStore =
  sy_cache :: MessageCacheState
  sy_db :: MessageDB
  sy_readSyncs :: "(string, ReadSyncAttributesType) jsmap"
  sy_viewSyncs :: "(string, ViewSyncAttributesType) jsmap"
  sy_syncTasks :: "string list"
  sy_effects :: "sync_effect list"

definition emitSync :: "sync_effect \<Rightarrow> SyncStore \<Rightarrow> SyncStore" where
  "emitSync e st = st\<lparr>sy_effects := sy_effects st @ [e]\<rparr>"

definition removeTask :: "string \<Rightarrow> SyncStore \<Rightarrow> SyncStore" where
  "removeTask i st = st\<lparr>sy_syncTasks := filter (\<lambda>j. j \<noteq> i) (sy_syncTasks st)\<rparr>"

definition removeReadSync :: "ReadSyncAttributesType \<Rightarrow> SyncStore \<Rightarrow> SyncStore" where
  "removeReadSync sync st =
    removeTask (ry_syncTaskId sync) (st\<lparr>sy_readSyncs := js_del (ry_syncTaskId sync) (sy_readSyncs st)\<rparr>)"

definition removeViewSync :: "ViewSyncAttributesType \<Rightarrow> SyncStore \<Rightarrow> SyncStore" where
  "removeViewSync sync st =
    removeTask (vy_syncTaskId sync) (st\<lparr>sy_viewSyncs := js_del (vy_syncTaskId sync) (sy_viewSyncs st)\<rparr>)"

section \<open>Marking a message\<close>

definition isMessageUnread :: "Message \<Rightarrow> bool" where
  "isMessageUnread message \<longleftrightarrow> m_readStatus message = Some RUnread"

definition or_now :: "int option \<Rightarrow> int \<Rightarrow> int" where
  "or_now v now = (if truthy_num v then the v else now)"

definition markReadOrViewed :: "int \<Rightarrow> Message \<Rightarrow> ReadStatus \<Rightarrow> int option \<Rightarrow> Message" where
  "markReadOrViewed now messageAttrs readStatus timestamp =
    messageAttrs\<lparr>
      m_readAt := timestamp,
      m_readStatus := Some (maxReadStatus (nullish (m_readStatus messageAttrs) RRead) readStatus),
      m_seenStatus := Some Seen,
      m_expirationStartTimestamp :=
        (if truthy_num (m_expireTimer messageAttrs) \<and> \<not> truthy_num (m_expirationStartTimestamp messageAttrs)
         then Some (min now (or_now timestamp now)) else m_expirationStartTimestamp messageAttrs)\<rparr>"

definition markRead :: "int \<Rightarrow> Message \<Rightarrow> int option \<Rightarrow> Message" where
  "markRead now messageAttrs readAt = markReadOrViewed now messageAttrs RRead readAt"

definition markViewed :: "int \<Rightarrow> Message \<Rightarrow> int option \<Rightarrow> Message" where
  "markViewed now messageAttrs viewedAt = markReadOrViewed now messageAttrs RViewed viewedAt"

definition senderOf :: "SyncEnv \<Rightarrow> Message \<Rightarrow> string option" where
  "senderOf E message = ye_senderId E (m_source message) (m_sourceServiceId message)"

section \<open>A sync arrives\<close>

definition isReadSyncTarget :: "SyncEnv \<Rightarrow> ReadSyncAttributesType \<Rightarrow> Message \<Rightarrow> bool" where
  "isReadSyncTarget E sync item \<longleftrightarrow>
    (isIncoming item \<or> m_type item = Mt_poll_terminate \<or> m_type item = Mt_pinned_message_notification) \<and>
    senderOf E item = Some (ry_senderId sync)"

definition maybeItIsAReactionReadSync :: "SyncEnv \<Rightarrow> ReadSyncAttributesType \<Rightarrow> bool" where
  "maybeItIsAReactionReadSync E sync \<longleftrightarrow>
    ye_markReactionAsRead E (ry_senderAci sync) (ry_timestamp sync) = Some (ye_ourAci E)"

definition maybeItIsAPollVoteReadSync :: "SyncEnv \<Rightarrow> ReadSyncAttributesType \<Rightarrow> SyncStore \<Rightarrow> SyncStore \<times> bool js" where
  "maybeItIsAPollVoteReadSync E sync st =
    (case ye_markPollVoteAsRead E (ry_timestamp sync) of
       None \<Rightarrow> (st, Inr False)
     | Some pollMessageId \<Rightarrow>
       (case getMessageById (ye_now E) pollMessageId (sy_db st) (sy_cache st) of
          Inr (Some model, cache) \<Rightarrow> (emitSync (PollVotesRead pollMessageId) (st\<lparr>sy_cache := cache\<rparr>), Inr True)
        | Inr (None, cache) \<Rightarrow> (st\<lparr>sy_cache := cache\<rparr>, Inr False)
        | Inl e \<Rightarrow> (st, Inl e)))"

text \<open>
  The body of \<open>onSync\<close> after \<open>register\<close>: an unread message is marked; for another one the
  expiration starts at the time of the sync if that is earlier.
\<close>

definition earlierStart :: "int \<Rightarrow> Message \<Rightarrow> int \<Rightarrow> Message" where
  "earlierStart now message readAt =
    message\<lparr>m_expirationStartTimestamp :=
      Some (min now (min (or_now (m_expirationStartTimestamp message) now) (or_now (Some readAt) now)))\<rparr>"

definition onReadSync :: "SyncEnv \<Rightarrow> ReadSyncAttributesType \<Rightarrow> SyncStore \<Rightarrow> SyncStore" where
  "onReadSync E sync st0 =
    (let st = st0\<lparr>sy_readSyncs := js_set (ry_syncTaskId sync) sync (sy_readSyncs st0)\<rparr>
     in case find (isReadSyncTarget E sync) (getMessagesBySentAt (sy_db st) (ry_timestamp sync)) of
          None \<Rightarrow>
            (let foundReaction = maybeItIsAReactionReadSync E sync;
                 (st1, foundPollVote) = maybeItIsAPollVoteReadSync E sync st
             in case foundPollVote of
                  Inl e \<Rightarrow> removeReadSync sync st1
                | Inr found \<Rightarrow> if foundReaction \<or> found then removeReadSync sync st1 else st1)
        | Some found \<Rightarrow>
            (case registerModel (ye_now E) (newModel found) (sy_cache st) of
               Inl e \<Rightarrow> removeReadSync sync st
             | Inr (model, cache) \<Rightarrow>
               (let i = m_id found;
                    message = mm_attributes model;
                    readAt = min (ry_readAt sync) (ye_now E);
                    unread = isMessageUnread message;
                    message' = (if unread then markRead (ye_now E) message (Some readAt)
                                else earlierStart (ye_now E) message readAt);
                    st1 = st\<lparr>sy_cache := setMessage (ye_now E) (\<lambda>_. message') i cache\<rparr>;
                    known = ye_hasConversation E (m_conversationId message')
                in if unread \<and> ye_startupQueueAvailable E \<and> \<not> known then removeReadSync sync st1
                   else
                     removeReadSync sync (emitSync (QueueUpdateMessage message')
                       (if unread \<and> known then emitSync (OnReadMessage message' readAt) st1 else st1)))))"

definition onViewSync :: "SyncEnv \<Rightarrow> ViewSyncAttributesType \<Rightarrow> SyncStore \<Rightarrow> SyncStore" where
  "onViewSync E sync st0 =
    (let st = st0\<lparr>sy_viewSyncs := js_set (vy_syncTaskId sync) sync (sy_viewSyncs st0)\<rparr>
     in case find (\<lambda>item. senderOf E item = Some (vy_senderId sync))
               (getMessagesBySentAt (sy_db st) (vy_timestamp sync)) of
          None \<Rightarrow> st
        | Some found \<Rightarrow>
            (case registerModel (ye_now E) (newModel found) (sy_cache st) of
               Inl e \<Rightarrow> removeViewSync sync st
             | Inr (model, cache) \<Rightarrow>
               (let i = m_id found; message = mm_attributes model; st1 = st\<lparr>sy_cache := cache\<rparr>
                in if m_readStatus message \<noteq> Some RViewed
                   then
                     let message' = markViewed (ye_now E) message (Some (vy_viewedAt sync))
                     in removeViewSync sync (emitSync (QueueUpdateMessage message')
                          (st1\<lparr>sy_cache := setMessage (ye_now E) (\<lambda>_. message') i cache\<rparr>))
                   else removeViewSync sync st1)))"

section \<open>Syncs before their message\<close>

definition readSyncForMessage ::
    "SyncEnv \<Rightarrow> Message \<Rightarrow> SyncStore \<Rightarrow> SyncStore \<times> ReadSyncAttributesType option" where
  "readSyncForMessage E message st =
    (case find (\<lambda>item. Some (ry_senderId item) = senderOf E message \<and>
            ry_timestamp item = getMessageSentTimestamp True (ye_now E) message)
          (js_values (sy_readSyncs st)) of
       None \<Rightarrow> (st, None)
     | Some foundSync \<Rightarrow> (removeReadSync foundSync st, Some foundSync))"

definition viewSyncsForMessage ::
    "SyncEnv \<Rightarrow> Message \<Rightarrow> SyncStore \<Rightarrow> SyncStore \<times> ViewSyncAttributesType list" where
  "viewSyncsForMessage E message st =
    (let matchingSyncs = filter (\<lambda>item. Some (vy_senderId item) = senderOf E message \<and>
            vy_timestamp item = getMessageSentTimestamp True (ye_now E) message)
          (js_values (sy_viewSyncs st))
     in (fold removeViewSync matchingSyncs st, matchingSyncs))"

definition minOf :: "int \<Rightarrow> int list \<Rightarrow> int" where
  "minOf now ts = fold min ts now"

text \<open>
  The part of \<open>modifyTargetMessage\<close> for incoming messages, and for stories. A model has, besides
  its attributes, the time that it is to be marked as read at once it is stored.
\<close>

definition modifyIncoming ::
    "SyncEnv \<Rightarrow> bool \<Rightarrow> bool \<Rightarrow> MessageModel \<Rightarrow> SyncStore \<Rightarrow> SyncStore \<times> MessageModel" where
  "modifyIncoming E isFirstRun unarchives model st =
    (let message = mm_attributes model; now = ye_now E;
         (st1, maybeSingleReadSync) = readSyncForMessage E message st;
         readSyncs = (case maybeSingleReadSync of None \<Rightarrow> [] | Some s \<Rightarrow> [s]);
         (st2, viewSyncs) = viewSyncsForMessage E message st1;
         markReadAt = minOf now (map ry_readAt readSyncs @ map vy_viewedAt viewSyncs);
         (st3, model1) =
           (if readSyncs \<noteq> [] \<or> viewSyncs \<noteq> []
            then (st2,
              model\<lparr>mm_attributes := message\<lparr>
                  m_expirationStartTimestamp :=
                    (if truthy_num (m_expireTimer message)
                     then Some (min (nullish (m_expirationStartTimestamp message) now) markReadAt)
                     else m_expirationStartTimestamp message),
                  m_readStatus := Some (if viewSyncs \<noteq> [] then RViewed else RRead),
                  m_seenStatus := Some Seen\<rparr>,
                mm_pendingMarkRead := Some (min (nullish (mm_pendingMarkRead model) now) markReadAt)\<rparr>)
            else
              (if isFirstRun \<and> unarchives then emitSync (SetArchived (m_conversationId message)) st2 else st2,
               model))
     in if \<not> isFirstRun \<and> truthy_num (mm_pendingMarkRead model1)
        then (if ye_hasConversation E (m_conversationId (mm_attributes model1))
              then emitSync (OnReadMessage (mm_attributes model1) (the (mm_pendingMarkRead model1))) st3
              else st3,
              model1\<lparr>mm_pendingMarkRead := None\<rparr>)
        else (st3, model1))"

definition MAX_SAFE_DATE :: int where
  "MAX_SAFE_DATE = 8640000000000000"

definition getStoryExpirationStartTimestamp :: "int \<Rightarrow> Message \<Rightarrow> int" where
  "getStoryExpirationStartTimestamp now message =
    minOf (m_timestamp message)
      [(case m_serverTimestamp message of
          Some t \<Rightarrow> if t > 0 then t else MAX_SAFE_DATE
        | None \<Rightarrow> MAX_SAFE_DATE), now]"

definition modifyStory :: "SyncEnv \<Rightarrow> MessageModel \<Rightarrow> SyncStore \<Rightarrow> SyncStore \<times> MessageModel" where
  "modifyStory E model st =
    (let message = mm_attributes model; now = ye_now E;
         (st1, viewSyncs) = viewSyncsForMessage E message st;
         model1 =
           (if viewSyncs \<noteq> []
            then model\<lparr>mm_attributes := message\<lparr>m_readStatus := Some RViewed, m_seenStatus := Some Seen\<rparr>,
              mm_pendingMarkRead := Some (min (nullish (mm_pendingMarkRead model) now)
                (minOf now (map vy_viewedAt viewSyncs)))\<rparr>
            else model);
         message1 = mm_attributes model1
     in (st1,
         if truthy_num (m_expirationStartTimestamp message1) then model1
         else model1\<lparr>mm_attributes := message1\<lparr>m_expirationStartTimestamp :=
           Some (getStoryExpirationStartTimestamp now message1)\<rparr>\<rparr>))"

definition modifyWithSyncs ::
    "SyncEnv \<Rightarrow> bool \<Rightarrow> bool \<Rightarrow> MessageModel \<Rightarrow> SyncStore \<Rightarrow> SyncStore \<times> MessageModel" where
  "modifyWithSyncs E isFirstRun unarchives model st =
    (if isIncoming (mm_attributes model) then modifyIncoming E isFirstRun unarchives model st
     else if isStory (mm_attributes model) then modifyStory E model st
     else (st, model))"

section \<open>Syncs only advance a message\<close>

definition readRank :: "Message \<Rightarrow> nat" where
  "readRank m = READ_STATUS_NUMBERS (nullish (m_readStatus m) RRead)"

definition startsNoLater :: "Message \<Rightarrow> Message \<Rightarrow> bool" where
  "startsNoLater m m' =
    (if truthy_num (m_expirationStartTimestamp m)
     then (case m_expirationStartTimestamp m' of
             None \<Rightarrow> False | Some t \<Rightarrow> t \<le> the (m_expirationStartTimestamp m))
     else True)"

definition advanced :: "Message \<Rightarrow> Message \<Rightarrow> bool" where
  "advanced m m' \<longleftrightarrow> readRank m \<le> readRank m' \<and> startsNoLater m m'"

definition modelsAdvance :: "MessageCacheState \<Rightarrow> MessageCacheState \<Rightarrow> string \<Rightarrow> bool" where
  "modelsAdvance cache cache' i =
    (case js_get (mc_messages cache) i of
       None \<Rightarrow> True
     | Some model \<Rightarrow>
       (case js_get (mc_messages cache') i of
          None \<Rightarrow> False | Some model' \<Rightarrow> advanced (mm_attributes model) (mm_attributes model')))"

lemma advanced_refl: "advanced m m"
  by (simp add: advanced_def startsNoLater_def truthy_num_def split: option.splits)

lemma advanced_mark: "advanced m (markReadOrViewed now m status ts)"
  by (auto simp: advanced_def startsNoLater_def markReadOrViewed_def readRank_def read.rank_higher
      truthy_num_def split: option.splits)

lemma advanced_earlierStart: "advanced m (earlierStart now m readAt)"
  by (auto simp: advanced_def startsNoLater_def earlierStart_def readRank_def or_now_def)

lemma modelsAdvance_refl: "modelsAdvance cache cache i"
  by (simp add: modelsAdvance_def advanced_refl split: option.splits)

lemma modelsAdvance_le: "cache_le cache cache' \<Longrightarrow> modelsAdvance cache cache' i"
  by (auto simp: modelsAdvance_def cache_le_def advanced_refl split: option.splits)

lemma modelsAdvance_set:
  assumes "registerModel now (newModel found) cache = Inr (model, cache1)" and "advanced (mm_attributes model) m"
  shows "modelsAdvance cache (setMessage now' (\<lambda>_. m) (m_id found) cache1) i"
proof -
  have le: "cache_le cache cache1" and look: "js_get (mc_messages cache1) (m_id found) = Some model"
    using registerModel_registers [OF assms(1)] by (simp_all add: newModel_def)
  show ?thesis
  proof (cases "js_get (mc_messages cache) i")
    case None
    then show ?thesis by (simp add: modelsAdvance_def)
  next
    case (Some old)
    then have "js_get (mc_messages cache1) i = Some old" using le by (simp add: cache_le_def)
    then show ?thesis using Some look assms(2)
      by (cases "i = m_id found") (simp_all add: modelsAdvance_def setMessage_def js_get_set advanced_refl)
  qed
qed

lemma removeSync_cache [simp]:
  "sy_cache (removeReadSync sync st) = sy_cache st" "sy_cache (removeViewSync vsync st) = sy_cache st"
  "sy_cache (emitSync e st) = sy_cache st"
  by (simp_all add: removeReadSync_def removeViewSync_def removeTask_def emitSync_def)

lemma pollVote_cache: "modelsAdvance (sy_cache st) (sy_cache (fst (maybeItIsAPollVoteReadSync E sync st))) i"
proof (cases "ye_markPollVoteAsRead E (ry_timestamp sync)")
  case None
  then show ?thesis by (simp add: maybeItIsAPollVoteReadSync_def modelsAdvance_refl)
next
  case (Some poll)
  have get: "modelsAdvance (sy_cache st) cache i"
    if "getMessageById (ye_now E) poll (sy_db st) (sy_cache st) = Inr (m, cache)" for m cache
  proof (cases "js_get (mc_messages (sy_cache st)) poll")
    case None
    then show ?thesis using that registerModel_registers
      by (auto simp: getMessageById_def getById_def bindE_eq_Inr modelsAdvance_refl
          split: option.splits intro!: modelsAdvance_le)
  next
    case (Some model)
    then have "mc_messages cache = mc_messages (sy_cache st)"
      using that by (auto simp: getMessageById_def getById_def)
    then show ?thesis by (simp add: modelsAdvance_le cache_le_def)
  qed
  then show ?thesis
    using Some by (auto simp: maybeItIsAPollVoteReadSync_def modelsAdvance_refl split: sum.splits option.splits)
qed


section \<open>The order of a message and its sync\<close>

text \<open>
  The sync after its message: the message is in the database. The sync before its message: the
  message is registered, modified in the two runs, and stored in between.
\<close>

definition emptySyncStore :: "string list \<Rightarrow> SyncStore" where
  "emptySyncStore tasks =
    \<lparr>sy_cache = emptyMessageCache, sy_db = \<lparr>db_messages = [], db_edited_messages = []\<rparr>,
     sy_readSyncs = [], sy_viewSyncs = [], sy_syncTasks = tasks, sy_effects = []\<rparr>"

definition messageThenSync :: "SyncEnv \<Rightarrow> Message \<Rightarrow> ReadSyncAttributesType \<Rightarrow> SyncStore" where
  "messageThenSync E m sync =
    onReadSync E sync ((emptySyncStore [ry_syncTaskId sync])\<lparr>sy_db :=
      \<lparr>db_messages = [m], db_edited_messages = []\<rparr>\<rparr>)"

definition syncThenMessage :: "SyncEnv \<Rightarrow> Message \<Rightarrow> ReadSyncAttributesType \<Rightarrow> SyncStore \<times> MessageModel" where
  "syncThenMessage E m sync =
    (let st1 = onReadSync E sync (emptySyncStore [ry_syncTaskId sync]);
         (st2, model1) = modifyWithSyncs E True False (newModel m) st1;
         st3 = st2\<lparr>sy_db := saveMessage (mm_attributes model1) (sy_db st2)\<rparr>
     in modifyWithSyncs E False False model1 st3)"

definition readTimes :: "sync_effect list \<Rightarrow> int list" where
  "readTimes effects = List.map_filter (\<lambda>e. case e of OnReadMessage m t \<Rightarrow> Some t | _ \<Rightarrow> None) effects"

definition isFor :: "SyncEnv \<Rightarrow> ReadSyncAttributesType \<Rightarrow> Message \<Rightarrow> bool" where
  "isFor E sync m \<longleftrightarrow> isIncoming m \<and> isMessageUnread m \<and> m_id m \<noteq> [] \<and>
    senderOf E m = Some (ry_senderId sync) \<and> m_sent_at m = ry_timestamp sync \<and> m_sent_at m \<noteq> 0 \<and>
    m_editMessageTimestamp m = None \<and> m_expirationStartTimestamp m = None \<and>
    ry_readAt sync > 0 \<and> ye_now E > 0 \<and> ye_hasConversation E (m_conversationId m)"

lemma messageThenSync_result:
  assumes "isFor E sync m"
  shows "messageThenSync E m sync =
    removeReadSync sync (emitSync (QueueUpdateMessage (markRead (ye_now E) m (Some (min (ry_readAt sync) (ye_now E)))))
      (emitSync (OnReadMessage (markRead (ye_now E) m (Some (min (ry_readAt sync) (ye_now E))))
          (min (ry_readAt sync) (ye_now E)))
        \<lparr>sy_cache = setMessage (ye_now E) (\<lambda>_. markRead (ye_now E) m (Some (min (ry_readAt sync) (ye_now E)))) (m_id m)
            (addMessageToCache (ye_now E) (newModel m) emptyMessageCache),
         sy_db = \<lparr>db_messages = [m], db_edited_messages = []\<rparr>,
         sy_readSyncs = [(ry_syncTaskId sync, sync)], sy_viewSyncs = [],
         sy_syncTasks = [ry_syncTaskId sync], sy_effects = []\<rparr>))"
proof -
  have rows: "getMessagesBySentAt \<lparr>db_messages = [m], db_edited_messages = []\<rparr> (ry_timestamp sync) = [m]"
    using assms by (simp add: getMessagesBySentAt_def isFor_def)
  have reg: "registerModel (ye_now E) (newModel m) emptyMessageCache =
      Inr (newModel m, addMessageToCache (ye_now E) (newModel m) emptyMessageCache)"
    using assms by (simp add: registerModel_def newModel_def getById_def emptyMessageCache_def isFor_def)
  have target: "isReadSyncTarget E sync m" and unread: "isMessageUnread m"
    and conv: "ye_hasConversation E (m_conversationId (markRead (ye_now E) m ts))" for ts
    using assms by (simp_all add: isReadSyncTarget_def isFor_def markRead_def markReadOrViewed_def)
  show ?thesis
    unfolding messageThenSync_def onReadSync_def Let_def emptySyncStore_def
    by (simp add: rows target reg unread conv)
qed

lemma syncThenMessage_result:
  assumes "isFor E sync m" and "\<not> maybeItIsAReactionReadSync E sync"
    and "ye_markPollVoteAsRead E (ry_timestamp sync) = None"
  defines "readAt \<equiv> min (ry_readAt sync) (ye_now E)"
  defines "m' \<equiv> m\<lparr>m_expirationStartTimestamp := (if truthy_num (m_expireTimer m) then Some (min (ye_now E) readAt)
        else m_expirationStartTimestamp m), m_readStatus := Some RRead, m_seenStatus := Some Seen\<rparr>"
  shows "syncThenMessage E m sync =
    (emitSync (OnReadMessage m' readAt)
      \<lparr>sy_cache = emptyMessageCache, sy_db = \<lparr>db_messages = [m'], db_edited_messages = []\<rparr>,
       sy_readSyncs = [], sy_viewSyncs = [], sy_syncTasks = [], sy_effects = []\<rparr>,
     newModel m')"
proof -
  have sent: "getMessageSentTimestamp True (ye_now E) m = ry_timestamp sync"
    "getMessageSentTimestamp True (ye_now E) m' = ry_timestamp sync"
    using assms(1) by (simp_all add: getMessageSentTimestamp_def isFor_def m'_def)
  have sender: "senderOf E m = Some (ry_senderId sync)" "senderOf E m' = Some (ry_senderId sync)"
    using assms(1) by (simp_all add: isFor_def senderOf_def m'_def)
  have inc: "isIncoming m" "isIncoming m'" "ye_hasConversation E (m_conversationId m')"
    using assms(1) by (simp_all add: isFor_def isIncoming_def m'_def)
  have pos: "readAt \<noteq> 0" using assms(1) by (auto simp: isFor_def readAt_def min_def)
  have first: "onReadSync E sync (emptySyncStore [ry_syncTaskId sync]) =
      (emptySyncStore [ry_syncTaskId sync])\<lparr>sy_readSyncs := [(ry_syncTaskId sync, sync)]\<rparr>"
    using assms(2,3) by (simp add: onReadSync_def emptySyncStore_def getMessagesBySentAt_def Let_def
        maybeItIsAPollVoteReadSync_def)
  have run1: "modifyWithSyncs E True False (newModel m)
      ((emptySyncStore [ry_syncTaskId sync])\<lparr>sy_readSyncs := [(ry_syncTaskId sync, sync)]\<rparr>) =
      (emptySyncStore [], (newModel m')\<lparr>mm_pendingMarkRead := Some readAt\<rparr>)"
  proof -
    have start: "m_expirationStartTimestamp m = None" using assms(1) by (simp add: isFor_def)
    show ?thesis
      by (simp add: modifyWithSyncs_def inc modifyIncoming_def newModel_def readSyncForMessage_def
        emptySyncStore_def sender sent viewSyncsForMessage_def removeReadSync_def removeTask_def
        m'_def readAt_def minOf_def start Let_def)
  qed
  have run2: "modifyWithSyncs E False False ((newModel m')\<lparr>mm_pendingMarkRead := Some readAt\<rparr>)
      ((emptySyncStore [])\<lparr>sy_db := db\<rparr>) =
      (emitSync (OnReadMessage m' readAt) ((emptySyncStore [])\<lparr>sy_db := db\<rparr>), newModel m')" for db
    by (simp add: modifyWithSyncs_def inc modifyIncoming_def newModel_def readSyncForMessage_def
        emptySyncStore_def viewSyncsForMessage_def pos)
  show ?thesis
    unfolding syncThenMessage_def Let_def first run1 prod.case run2
    by (simp add: emptySyncStore_def newModel_def saveMessage_def)
qed

text \<open>
C14: Whether a message or the sync that it was read on another device comes first makes no
difference for its read and seen status, for the start of its timer, and for the time up to which
older messages of the conversation are marked; in both orders the sync is settled.
\<close>

theorem sync_order_irrelevant:
  assumes "isFor E sync m" and "\<not> maybeItIsAReactionReadSync E sync"
    and "ye_markPollVoteAsRead E (ry_timestamp sync) = None"
  shows "let after = messageThenSync E m sync; (before, model) = syncThenMessage E m sync
   in (case js_get (mc_messages (sy_cache after)) (m_id m) of
         None \<Rightarrow> False
       | Some model' \<Rightarrow>
           m_readStatus (mm_attributes model') = m_readStatus (mm_attributes model) \<and>
           m_readStatus (mm_attributes model) = Some RRead \<and>
           m_seenStatus (mm_attributes model') = m_seenStatus (mm_attributes model) \<and>
           m_expirationStartTimestamp (mm_attributes model') = m_expirationStartTimestamp (mm_attributes model)) \<and>
      readTimes (sy_effects after) = readTimes (sy_effects before) \<and>
      sy_syncTasks after = [] \<and> sy_syncTasks before = [] \<and>
      sy_readSyncs after = [] \<and> sy_readSyncs before = []"
proof -
  have unread: "m_readStatus m = Some RUnread" and start: "m_expirationStartTimestamp m = None"
    and pos: "ry_readAt sync > 0" "ye_now E > 0" and id: "m_id m \<noteq> []"
    using assms(1) by (simp_all add: isFor_def isMessageUnread_def)
  have nz: "min (ry_readAt sync) (ye_now E) \<noteq> 0" using pos by (simp add: min_def)
  have cache: "js_get (mc_messages (setMessage now f (m_id m)
      (addMessageToCache now (newModel m) emptyMessageCache))) (m_id m) =
      Some ((newModel m)\<lparr>mm_attributes := f m\<rparr>)" for now f
    using id by (simp add: addMessageToCache_def newModel_def emptyMessageCache_def js_has_def setMessage_def Let_def)
  show ?thesis
    unfolding messageThenSync_result [OF assms(1)] syncThenMessage_result [OF assms] Let_def prod.case
    using nz
    by (simp add: cache markRead_def markReadOrViewed_def unread start or_now_def maxReadStatus_def
        removeReadSync_def removeTask_def emitSync_def readTimes_def map_filter_def)
qed

definition incomingMessage :: Message where
  "incomingMessage =
    \<lparr>m_id = ''m'', m_type = Mt_incoming, m_conversationId = ''bob'', m_timestamp = 7, m_sent_at = 7,
     m_received_at = 8, m_serverTimestamp = None, m_editMessageTimestamp = None, m_editHistory = None,
     m_sendStateByConversationId = None, m_storyDistributionListId = None, m_storyId = None,
     m_deletedForEveryone = None, m_unidentifiedDeliveries = None, m_source = None,
     m_sourceServiceId = Some ''bob-aci'', m_readStatus = Some RUnread, m_seenStatus = Some Unseen,
     m_readAt = None, m_expireTimer = Some 30, m_expirationStartTimestamp = None\<rparr>"

definition readSync :: ReadSyncAttributesType where
  "readSync = \<lparr>ry_syncTaskId = ''t'', ry_readAt = 20, ry_senderId = ''bob-aci'', ry_senderAci = ''bob-aci'',
    ry_timestamp = 7\<rparr>"

definition syncEnv :: SyncEnv where
  "syncEnv = \<lparr>ye_senderId = (\<lambda>e164 serviceId. serviceId), ye_markReactionAsRead = (\<lambda>_ _. None),
    ye_markPollVoteAsRead = (\<lambda>_. None), ye_hasConversation = (\<lambda>_. True),
    ye_startupQueueAvailable = False, ye_ourAci = ''me'', ye_now = 50\<rparr>"

theorem sync_order_irrelevant_witness:
  "case syncThenMessage syncEnv incomingMessage readSync of
     (before, model) \<Rightarrow> readTimes (sy_effects (messageThenSync syncEnv incomingMessage readSync)) =
       readTimes (sy_effects before) \<and> m_readStatus (mm_attributes model) = Some RRead"
proof -
  have "isFor syncEnv readSync incomingMessage"
    by (simp add: isFor_def syncEnv_def readSync_def incomingMessage_def isIncoming_def isMessageUnread_def senderOf_def)
  from sync_order_irrelevant [OF this] show ?thesis
    by (simp add: syncEnv_def maybeItIsAReactionReadSync_def Let_def split_beta split: option.splits)
qed

text \<open>
  What the order does change: \<open>readAt\<close> is only set by the sync that finds its message.
\<close>

lemma early_sync_leaves_readAt:
  "map_option (\<lambda>model. m_readAt (mm_attributes model))
      (js_get (mc_messages (sy_cache (messageThenSync syncEnv incomingMessage readSync))) ''m'') = Some (Some 20) \<and>
   m_readAt (mm_attributes (snd (syncThenMessage syncEnv incomingMessage readSync))) = None"
  by code_simp

text \<open>
  In the second run the read status is set without regard to the one the message has: a message that
  an early view sync made viewed in the first run goes back to read when a read sync came in between.
\<close>

lemma late_read_sync_lowers_status:
  "let viewSync = \<lparr>vy_syncTaskId = ''v'', vy_senderId = ''bob-aci'', vy_timestamp = 7, vy_viewedAt = 21\<rparr>;
       (st1, model1) = modifyWithSyncs syncEnv True False (newModel incomingMessage)
         (onViewSync syncEnv viewSync (emptySyncStore [''v'', ''t'']));
       (st2, model2) = modifyWithSyncs syncEnv False False model1 (onReadSync syncEnv readSync st1)
   in m_readStatus (mm_attributes model1) = Some RViewed \<and> m_readStatus (mm_attributes model2) = Some RRead"
  by code_simp

text \<open>
  A read sync marks the event of a pinned message if it finds it; before the event it is kept, but
  \<open>modifyTargetMessage\<close> asks for read syncs only for incoming messages.
\<close>

lemma early_read_sync_skips_pin_event:
  "let event = incomingMessage\<lparr>m_type := Mt_pinned_message_notification\<rparr>;
       (st, model) = modifyWithSyncs syncEnv True False (newModel event)
         (onReadSync syncEnv readSync (emptySyncStore [''t'']))
   in isReadSyncTarget syncEnv readSync event \<and> isMessageUnread (mm_attributes model) \<and>
      sy_syncTasks st = [''t'']"
  by code_simp

end
