(* ===== verification/Sync_Tasks.thy ===== *)
theory Sync_Tasks
  imports JS_Prelude
begin

text \<open>
  The tasks that sync messages and receipts leave in the database until they are settled: the table
  \<open>syncTasks\<close> (ts/sql/Server.node.ts) and the loop that queues all of them when the program starts
  (ts/util/syncTasks.preload.ts). What the handlers do with a task is modelled in \<open>Receipt_Runs\<close>
  and \<open>Read_Syncs\<close>; here a task that is queued goes to one handler. The parser of the stored data
  (a schema of a library), the lookup of conversations, the size of a batch and the clock are arguments.
\<close>

section \<open>The table\<close>

datatype SyncTaskTypeName =
  Delete_message | Delete_conversation | Delete_local_conversation | Delete_single_attachment
  | Task_Delivery | Task_Read | Task_View | Task_ReadSync | Task_ViewSync

record SyncTaskRow =
  tk_rowid :: int
  tk_id :: string
  tk_attempts :: int
  tk_createdAt :: int
  tk_data :: string
  tk_envelopeId :: string
  tk_sentAt :: int
  tk_type :: "SyncTaskTypeName option"

text \<open>
  A row gets the next row id. The type is a string of the database; \<open>None\<close> stands for one that no
  version of the program knows. Inserting an id twice is refused.
\<close>

definition nextRowid :: "SyncTaskRow list \<Rightarrow> int" where
  "nextRowid rows = (if rows = [] then 1 else Max (set (map tk_rowid rows)) + 1)"

definition saveSyncTask :: "SyncTaskRow \<Rightarrow> SyncTaskRow list \<Rightarrow> SyncTaskRow list js" where
  "saveSyncTask task rows =
    (if tk_id task \<in> set (map tk_id rows) then throw ''UNIQUE constraint failed: syncTasks.id''
     else Inr (rows @ [task\<lparr>tk_rowid := nextRowid rows\<rparr>]))"

definition saveSyncTasks :: "SyncTaskRow list \<Rightarrow> SyncTaskRow list \<Rightarrow> SyncTaskRow list js" where
  "saveSyncTasks tasks rows = forE saveSyncTask tasks rows"

definition removeSyncTaskById :: "string \<Rightarrow> SyncTaskRow list \<Rightarrow> SyncTaskRow list" where
  "removeSyncTaskById i rows = filter (\<lambda>r. tk_id r \<noteq> i) rows"

definition removeSyncTasks :: "string list \<Rightarrow> SyncTaskRow list \<Rightarrow> SyncTaskRow list" where
  "removeSyncTasks ids rows = filter (\<lambda>r. tk_id r \<notin> set ids) rows"

definition incremented :: "SyncTaskRow \<Rightarrow> SyncTaskRow" where
  "incremented row = row\<lparr>tk_attempts := tk_attempts row + 1\<rparr>"

definition incrementAllSyncTaskAttempts :: "SyncTaskRow list \<Rightarrow> SyncTaskRow list" where
  "incrementAllSyncTaskAttempts rows = map incremented rows"

definition MAX_SYNC_TASK_ATTEMPTS :: int where
  "MAX_SYNC_TASK_ATTEMPTS = 5"

definition expired :: "int \<Rightarrow> SyncTaskRow \<Rightarrow> bool" where
  "expired now row \<longleftrightarrow> tk_attempts row \<ge> MAX_SYNC_TASK_ATTEMPTS \<and> tk_createdAt row < now - 2 * 86400000"

definition dequeueOldestSyncTasks ::
    "int \<Rightarrow> nat \<Rightarrow> int option \<Rightarrow> bool \<Rightarrow> SyncTaskTypeName list option \<Rightarrow> SyncTaskRow list \<Rightarrow>
     (SyncTaskRow list \<times> int option) \<times> SyncTaskRow list" where
  "dequeueOldestSyncTasks now limit previousRowId incrementAttempts syncTaskTypes rows0 =
    (let rows = filter (\<lambda>r. \<not> expired now r) rows0;
         hasType = (\<lambda>r. case syncTaskTypes of
             None \<Rightarrow> True | Some [] \<Rightarrow> True
           | Some ts \<Rightarrow> (case tk_type r of None \<Rightarrow> False | Some t \<Rightarrow> t \<in> set ts));
         selected = take limit (sort_key tk_rowid
           (filter (\<lambda>r. tk_rowid r > nullish previousRowId 0 \<and> hasType r) rows))
     in if selected = [] then (([], None), rows)
        else
          let firstRowId = tk_rowid (hd selected); lastRowId = tk_rowid (List.last selected);
              changes = (\<lambda>r. incrementAttempts \<and> firstRowId \<le> tk_rowid r \<and> tk_rowid r \<le> lastRowId \<and> hasType r)
          in ((map (\<lambda>r. if incrementAttempts then incremented r else r) selected, Some lastRowId),
              map (\<lambda>r. if changes r then incremented r else r) rows))"

section \<open>Queueing\<close>

datatype task_outcome =
  ToDeletesForMe | ToDeleteConversation string | ToDeleteLocalConversation string | ToReceipts
  | ToReadSyncs | ToViewSyncs | LeftInDatabase | Removed

record TaskEnv =
  te_parse :: "string \<Rightarrow> SyncTaskTypeName option"
  te_conversation :: "string \<Rightarrow> string option"

definition queueSyncTask :: "TaskEnv \<Rightarrow> SyncTaskRow \<Rightarrow> task_outcome" where
  "queueSyncTask E task =
    (case tk_type task of
       None \<Rightarrow> Removed
     | Some _ \<Rightarrow>
       (case te_parse E (tk_data task) of
          None \<Rightarrow> Removed
        | Some Delete_message \<Rightarrow> ToDeletesForMe
        | Some Delete_conversation \<Rightarrow>
            (case te_conversation E (tk_data task) of None \<Rightarrow> LeftInDatabase | Some c \<Rightarrow> ToDeleteConversation c)
        | Some Delete_local_conversation \<Rightarrow>
            (case te_conversation E (tk_data task) of None \<Rightarrow> LeftInDatabase | Some c \<Rightarrow> ToDeleteLocalConversation c)
        | Some Delete_single_attachment \<Rightarrow> ToDeletesForMe
        | Some Task_Delivery \<Rightarrow> ToReceipts
        | Some Task_Read \<Rightarrow> ToReceipts
        | Some Task_View \<Rightarrow> ToReceipts
        | Some Task_ReadSync \<Rightarrow> ToReadSyncs
        | Some Task_ViewSync \<Rightarrow> ToViewSyncs))"

text \<open>
  The jobs that delete a conversation remove their task when they are done: one that another
  device asked for only with a good result, one that concerns this device only in any case.
\<close>

definition deletionDone :: "string \<Rightarrow> task_outcome \<Rightarrow> bool \<Rightarrow> SyncTaskRow list \<Rightarrow> SyncTaskRow list" where
  "deletionDone i outcome result rows =
    (case outcome of
       ToDeleteConversation c \<Rightarrow> if result then removeSyncTaskById i rows else rows
     | ToDeleteLocalConversation c \<Rightarrow> removeSyncTaskById i rows
     | _ \<Rightarrow> rows)"

definition queueSyncTasks ::
    "TaskEnv \<Rightarrow> SyncTaskRow list \<Rightarrow> SyncTaskRow list \<Rightarrow> (SyncTaskRow \<times> task_outcome) list \<times> SyncTaskRow list" where
  "queueSyncTasks E tasks rows =
    (map (\<lambda>t. (t, queueSyncTask E t)) tasks,
     fold (\<lambda>t. if queueSyncTask E t = Removed then removeSyncTaskById (tk_id t) else (\<lambda>rows. rows)) tasks rows)"

text \<open>
  \<open>runAllSyncTasks\<close>: batch after batch, until none is left. The handlers only start to work when
  the loop waits; what they remove in the meantime is not represented here, and the clock stands
still while the program starts.
\<close>

definition processSyncTasksBatch ::
    "TaskEnv \<Rightarrow> int \<Rightarrow> nat \<Rightarrow> int option \<Rightarrow> SyncTaskRow list \<Rightarrow>
     ((SyncTaskRow \<times> task_outcome) list \<times> int option) \<times> SyncTaskRow list" where
  "processSyncTasksBatch E now limit previousRowId rows =
    (let ((tasks, lastRowId), rows1) = dequeueOldestSyncTasks now limit previousRowId True None rows;
         (queued, rows2) = queueSyncTasks E tasks rows1
     in ((queued, lastRowId), rows2))"

definition dropRemoved :: "TaskEnv \<Rightarrow> SyncTaskRow \<Rightarrow> SyncTaskRow list \<Rightarrow> SyncTaskRow list" where
  "dropRemoved E t rows = (if queueSyncTask E t = Removed then removeSyncTaskById (tk_id t) rows else rows)"

lemma fold_dropRemoved:
  "fold (dropRemoved E) tasks rows =
    filter (\<lambda>r. \<forall>t\<in>set tasks. queueSyncTask E t = Removed \<longrightarrow> tk_id r \<noteq> tk_id t) rows"
  by (induction tasks arbitrary: rows)
     (auto simp: dropRemoved_def removeSyncTaskById_def filter_filter intro!: filter_cong)

lemma queue_rows:
  "snd (queueSyncTasks E tasks rows) =
    filter (\<lambda>r. \<forall>t\<in>set tasks. queueSyncTask E t = Removed \<longrightarrow> tk_id r \<noteq> tk_id t) rows"
proof -
  have "(\<lambda>t. if queueSyncTask E t = Removed then removeSyncTaskById (tk_id t) else (\<lambda>rows. rows)) = dropRemoved E"
    by (rule ext, rule ext) (simp add: dropRemoved_def)
  then show ?thesis by (simp add: queueSyncTasks_def fold_dropRemoved)
qed

lemma set_queue_rows: "set (snd (queueSyncTasks E tasks rows)) \<subseteq> set rows"
  by (simp add: queue_rows)

lemma tk_rowid_incremented [simp]: "tk_rowid (incremented r) = tk_rowid r" "tk_id (incremented r) = tk_id r"
  by (simp_all add: incremented_def)

definition left :: "int option \<Rightarrow> SyncTaskRow list \<Rightarrow> nat" where
  "left previousRowId rows = card {i \<in> set (map tk_rowid rows). i > nullish previousRowId 0}"

lemma processBatch_less:
  assumes "processSyncTasksBatch E now limit previousRowId rows = ((queued, Some lastRowId), rows')"
  shows "left (Some lastRowId) rows' < left previousRowId rows"
proof -
  obtain tasks rows1 where d: "dequeueOldestSyncTasks now limit previousRowId True None rows = ((tasks, Some lastRowId), rows1)"
    and r': "rows' = snd (queueSyncTasks E tasks rows1)"
    using assms by (auto simp: processSyncTasksBatch_def Let_def split: prod.splits)
  define selected where "selected = take limit (sort_key tk_rowid
      (filter (\<lambda>r. tk_rowid r > nullish previousRowId 0) (filter (\<lambda>r. \<not> expired now r) rows)))"
  have sel: "selected \<noteq> []" "lastRowId = tk_rowid (List.last selected)"
    "set (map tk_rowid rows1) \<subseteq> set (map tk_rowid rows)"
    using d by (auto simp: dequeueOldestSyncTasks_def selected_def Let_def split: if_splits)
  have "List.last selected \<in> set selected" using sel(1) by simp
  then have mem: "List.last selected \<in> set rows \<and> tk_rowid (List.last selected) > nullish previousRowId 0"
    using set_take_subset unfolding selected_def by fastforce
  have rows': "set (map tk_rowid rows') \<subseteq> set (map tk_rowid rows)"
    using set_queue_rows [of E tasks rows1] sel(3) unfolding r' by auto
  have "{i \<in> set (map tk_rowid rows'). i > lastRowId} \<subset> {i \<in> set (map tk_rowid rows). i > nullish previousRowId 0}"
    using rows' mem sel(2) by auto
  then show ?thesis unfolding left_def by (intro psubset_card_mono) simp_all
qed

function runSyncTasksFrom ::
    "TaskEnv \<Rightarrow> int \<Rightarrow> nat \<Rightarrow> int option \<Rightarrow> SyncTaskRow list \<Rightarrow>
     (SyncTaskRow \<times> task_outcome) list \<times> SyncTaskRow list" where
  "runSyncTasksFrom E now limit previousRowId rows =
    (case processSyncTasksBatch E now limit previousRowId rows of
       ((queued, None), rows') \<Rightarrow> (queued, rows')
     | ((queued, Some lastRowId), rows') \<Rightarrow>
         (case runSyncTasksFrom E now limit (Some lastRowId) rows' of (rest, rows'') \<Rightarrow> (queued @ rest, rows'')))"
  by pat_completeness auto
termination
  by (relation "measure (\<lambda>(E, now, limit, previousRowId, rows). left previousRowId rows)")
     (auto dest: processBatch_less [OF sym])

declare runSyncTasksFrom.simps [simp del]

definition runAllSyncTasks ::
    "TaskEnv \<Rightarrow> int \<Rightarrow> nat \<Rightarrow> SyncTaskRow list \<Rightarrow> (SyncTaskRow \<times> task_outcome) list \<times> SyncTaskRow list" where
  "runAllSyncTasks E now limit rows = runSyncTasksFrom E now limit None rows"

section \<open>Every task is queued once\<close>

text \<open>
  The rows as the database keeps them: row ids are positive and the order of the list, ids are unique.
\<close>

definition task_rows_ok :: "SyncTaskRow list \<Rightarrow> bool" where
  "task_rows_ok rows \<longleftrightarrow> sorted_wrt (<) (map tk_rowid rows) \<and> distinct (map tk_id rows) \<and> list_all (\<lambda>r. tk_rowid r > 0) rows"

text \<open>What one batch that has selected the row ids from \<open>a\<close> to \<open>b\<close> leaves of a row, and what all batches do.\<close>

definition batchRow :: "TaskEnv \<Rightarrow> int \<Rightarrow> int \<Rightarrow> int \<Rightarrow> SyncTaskRow \<Rightarrow> SyncTaskRow list" where
  "batchRow E now a b r =
    (if expired now r then []
     else if a \<le> tk_rowid r \<and> tk_rowid r \<le> b then (if queueSyncTask E r = Removed then [] else [incremented r])
     else [r])"

definition finalRow :: "TaskEnv \<Rightarrow> int \<Rightarrow> int \<Rightarrow> SyncTaskRow \<Rightarrow> SyncTaskRow list" where
  "finalRow E now p r =
    (if expired now r then []
     else if tk_rowid r \<le> p then [r]
     else if queueSyncTask E r = Removed \<or> expired now (incremented r) then [] else [incremented r])"

lemma incremented_keeps [simp]:
  "tk_data (incremented r) = tk_data r" "tk_type (incremented r) = tk_type r"
  by (simp_all add: incremented_def)

lemma queueSyncTask_incremented [simp]: "queueSyncTask E (incremented r) = queueSyncTask E r"
  by (simp only: queueSyncTask_def incremented_keeps)

lemma sorted_less_last_take:
  fixes f :: "'a \<Rightarrow> int"
  assumes "sorted_wrt (<) (map f xs)" "take n xs \<noteq> []"
  shows "filter (\<lambda>r. f r > f (List.last (take n xs))) xs = List.drop n xs"
proof -
  define ys zs where "ys = take n xs" and "zs = List.drop n xs"
  have xs: "xs = ys @ zs" by (simp add: ys_def zs_def)
  have srt: "sorted_wrt (<) (map f ys)" "\<forall>y\<in>set ys. \<forall>z\<in>set zs. f y < f z"
    using assms(1) unfolding xs by (auto simp: sorted_wrt_append)
  have "\<not> f y > f (List.last ys)" if y: "y \<in> set ys" for y
  proof -
    obtain us where us: "ys = us @ [List.last ys]" using assms(2) unfolding ys_def [symmetric]
      by (metis append_butlast_last_id)
    then have "y \<in> set us \<or> y = List.last ys" using y by (metis Un_iff set_append empty_iff insert_iff list.set)
    moreover have "\<forall>u\<in>set us. f u < f (List.last ys)"
      using srt(1) by (subst (asm) us) (auto simp: sorted_wrt_append)
    ultimately show ?thesis by auto
  qed
  moreover have "List.last ys \<in> set ys" using assms(2) by (simp add: ys_def)
  ultimately show ?thesis
    unfolding ys_def [symmetric] zs_def [symmetric] using srt(2) xs by (auto simp: filter_empty_conv intro!: filter_True)
qed

lemma sorted_within_take:
  fixes f :: "'a \<Rightarrow> int"
  assumes "sorted_wrt (<) (map f xs)" "take n xs \<noteq> []" "r \<in> set xs"
  shows "r \<in> set (take n xs) \<longleftrightarrow> f r \<le> f (List.last (take n xs))"
proof -
  have "distinct xs" using assms(1) by (induction xs) auto
  then have "r \<in> set (List.drop n xs) \<longleftrightarrow> r \<notin> set (take n xs)"
    using assms(3) by (metis Un_iff append_take_drop_id disjoint_iff distinct_append set_append)
  moreover have "r \<in> set (List.drop n xs) \<longleftrightarrow> f r > f (List.last (take n xs))"
    using assms(3) by (subst sorted_less_last_take [OF assms(1,2), symmetric]) auto
  ultimately show ?thesis by auto
qed

lemma dequeued:
  assumes ok: "task_rows_ok rows" and todo: "todo = filter (\<lambda>r. tk_rowid r > nullish p 0 \<and> \<not> expired now r) rows"
  shows "dequeueOldestSyncTasks now limit p True None rows =
    (if take limit todo = [] then (([], None), filter (\<lambda>r. \<not> expired now r) rows)
     else ((map incremented (take limit todo), Some (tk_rowid (List.last (take limit todo)))),
       map (\<lambda>r. if tk_rowid (hd (take limit todo)) \<le> tk_rowid r \<and> tk_rowid r \<le> tk_rowid (List.last (take limit todo))
                then incremented r else r) (filter (\<lambda>r. \<not> expired now r) rows)))"
proof -
  have "sorted_wrt (<) (map tk_rowid todo)"
    using ok unfolding todo task_rows_ok_def by (auto simp: sorted_wrt_map intro: sorted_wrt_filter)
  then have "sort_key tk_rowid todo = todo"
    by (intro sort_key_id_if_sorted) (rule strict_sorted_imp_sorted)
  moreover have "filter (\<lambda>r. tk_rowid r > nullish p 0) (filter (\<lambda>r. \<not> expired now r) rows) = todo"
    unfolding todo by (auto intro: filter_cong)
  ultimately show ?thesis by (simp add: dequeueOldestSyncTasks_def Let_def cong: if_cong)
qed

text \<open>One batch, on the rows one by one.\<close>

lemma concat_filter_map:
  "filter Q (map g (filter P xs)) = concat (map (\<lambda>x. if P x \<and> Q (g x) then [g x] else []) xs)"
  by (induction xs) auto

lemma hd_take_least:
  fixes f :: "'a \<Rightarrow> int"
  assumes "sorted_wrt (<) (map f xs)" "take n xs \<noteq> []" "r \<in> set xs"
  shows "f (hd (take n xs)) \<le> f r" "hd (take n xs) \<in> set xs"
  using assms by (cases xs; cases n; auto)+

lemma selected_iff:
  assumes ok: "task_rows_ok rows" and todo: "todo = filter (\<lambda>r. tk_rowid r > nullish p 0 \<and> \<not> expired now r) rows"
    and sel: "take limit todo \<noteq> []" and r: "r \<in> set rows"
  shows "r \<in> set (take limit todo) \<longleftrightarrow> \<not> expired now r \<and>
    tk_rowid (hd (take limit todo)) \<le> tk_rowid r \<and> tk_rowid r \<le> tk_rowid (List.last (take limit todo))"
proof -
  have srt: "sorted_wrt (<) (map tk_rowid todo)"
    using ok unfolding todo task_rows_ok_def by (auto simp: sorted_wrt_map intro: sorted_wrt_filter)
  have ne: "hd todo \<in> set todo" using sel by (cases todo) auto
  have low: "nullish p 0 < tk_rowid (hd (take limit todo))"
    using hd_take_least(2) [OF srt sel ne] unfolding todo by simp
  show ?thesis
  proof (cases "r \<in> set todo")
    case True
    moreover from True have "\<not> expired now r" unfolding todo by simp
    ultimately show ?thesis
      using sorted_within_take [OF srt sel True] hd_take_least(1) [OF srt sel True] by simp
  next
    case False
    then have "r \<notin> set (take limit todo)" by (auto dest: in_set_takeD)
    moreover have "expired now r \<or> tk_rowid r \<le> nullish p 0" using False r unfolding todo by auto
    ultimately show ?thesis using low by linarith
  qed
qed

lemma removed_iff:
  assumes "inj_on tk_id (set rows)" "set S \<subseteq> set rows" "r \<in> set rows" "tk_id r' = tk_id r"
  shows "(\<forall>t\<in>set (map incremented S). queueSyncTask E t = Removed \<longrightarrow> tk_id r' \<noteq> tk_id t) \<longleftrightarrow>
    \<not> (r \<in> set S \<and> queueSyncTask E r = Removed)"
proof -
  have "t = r" if "t \<in> set S" "tk_id r = tk_id t" for t
    using inj_onD [OF assms(1) that(2) assms(3)] that(1) assms(2) by blast
  then show ?thesis using assms(4) by auto
qed

lemma batch_rows:
  assumes ok: "task_rows_ok rows" and todo: "todo = filter (\<lambda>r. tk_rowid r > nullish p 0 \<and> \<not> expired now r) rows"
    and S: "S = take limit todo" "S \<noteq> []" and ab: "a = tk_rowid (hd S)" "b = tk_rowid (List.last S)"
  shows "snd (queueSyncTasks E (map incremented S)
      (map (\<lambda>r. if a \<le> tk_rowid r \<and> tk_rowid r \<le> b then incremented r else r) (filter (\<lambda>r. \<not> expired now r) rows)))
    = concat (map (batchRow E now a b) rows)"
proof -
  let ?g = "\<lambda>r. if a \<le> tk_rowid r \<and> tk_rowid r \<le> b then incremented r else r"
  have dist: "inj_on tk_id (set rows)" using ok by (simp add: task_rows_ok_def distinct_map)
  have sub: "set S \<subseteq> set rows" unfolding S(1) todo by (auto dest: in_set_takeD)
  have step: "(if \<not> expired now r \<and> (\<forall>t\<in>set (map incremented S). queueSyncTask E t = Removed \<longrightarrow> tk_id (?g r) \<noteq> tk_id t)
       then [?g r] else []) = batchRow E now a b r" if r: "r \<in> set rows" for r
  proof -
    have id: "tk_id (?g r) = tk_id r" by simp
    have inS: "r \<in> set S \<longleftrightarrow> \<not> expired now r \<and> a \<le> tk_rowid r \<and> tk_rowid r \<le> b"
      using selected_iff [OF ok todo _ r, of limit] S ab by blast
    show ?thesis unfolding removed_iff [OF dist sub r id] inS batchRow_def by simp
  qed
  show ?thesis unfolding queue_rows concat_filter_map
    by (rule arg_cong [where f = concat], rule map_cong [OF refl], rule step)
qed

lemma batch_step:
  assumes ok: "task_rows_ok rows" and todo: "todo = filter (\<lambda>r. tk_rowid r > nullish p 0 \<and> \<not> expired now r) rows"
    and S: "S = take limit todo" "S \<noteq> []" and ab: "a = tk_rowid (hd S)" "b = tk_rowid (List.last S)"
  shows "processSyncTasksBatch E now limit p rows =
    ((map (\<lambda>r. (incremented r, queueSyncTask E r)) S, Some b), concat (map (batchRow E now a b) rows))"
proof -
  have "fst (queueSyncTasks E (map incremented S) rs) = map (\<lambda>r. (incremented r, queueSyncTask E r)) S" for rs
    by (simp add: queueSyncTasks_def)
  then have "queueSyncTasks E (map incremented S)
      (map (\<lambda>r. if a \<le> tk_rowid r \<and> tk_rowid r \<le> b then incremented r else r) (filter (\<lambda>r. \<not> expired now r) rows))
    = (map (\<lambda>r. (incremented r, queueSyncTask E r)) S, concat (map (batchRow E now a b) rows))"
    using batch_rows [OF ok todo S ab, of E] by (simp only: prod_eq_iff fst_conv snd_conv simp_thms)
  then show ?thesis
    using S(2) unfolding processSyncTasksBatch_def dequeued [OF ok todo] S(1) [symmetric] ab [symmetric]
    by simp
qed

lemma no_batch_left:
  assumes "task_rows_ok rows" "limit > 0" "filter (\<lambda>r. tk_rowid r > nullish p 0 \<and> \<not> expired now r) rows = []"
  shows "processSyncTasksBatch E now limit p rows = (([], None), filter (\<lambda>r. \<not> expired now r) rows)"
  using dequeued [OF assms(1) assms(3) [symmetric]]
  by (simp add: processSyncTasksBatch_def queueSyncTasks_def)

lemma batchRow_cases: "batchRow E now a b r \<in> {[], [r], [incremented r]}"
  by (simp add: batchRow_def)

lemma task_rows_ok_batch:
  assumes "task_rows_ok rows"
  shows "task_rows_ok (concat (map (batchRow E now a b) rows))"
  using assms
proof (induction rows)
  case (Cons r rows)
  let ?rest = "concat (map (batchRow E now a b) rows)"
  have keys: "tk_rowid x \<in> tk_rowid ` set rows \<and> tk_id x \<in> tk_id ` set rows" if mem: "x \<in> set ?rest" for x
  proof -
    obtain y where y: "y \<in> set rows" "x \<in> set (batchRow E now a b y)" using mem by auto
    then have "x = y \<or> x = incremented y" using batchRow_cases [of E now a b y] by auto
    then show ?thesis using y(1) by auto
  qed
  have rest: "task_rows_ok ?rest" and r: "tk_rowid r > 0" "tk_id r \<notin> tk_id ` set rows" "\<forall>y\<in>set rows. tk_rowid r < tk_rowid y"
    using Cons by (auto simp: task_rows_ok_def)
  have one: "task_rows_ok (x # ?rest)" if "x = r \<or> x = incremented r" for x
  proof -
    have "tk_rowid x = tk_rowid r" "tk_id x = tk_id r" using that by auto
    then show ?thesis using rest r keys unfolding task_rows_ok_def by fastforce
  qed
  have "concat (map (batchRow E now a b) (r # rows)) = batchRow E now a b r @ ?rest" by simp
  then show ?case using batchRow_cases [of E now a b r] rest one by auto
qed (simp add: task_rows_ok_def)

lemma batch_todo:
  assumes ok: "task_rows_ok rows" and todo: "todo = filter (\<lambda>r. tk_rowid r > nullish p 0 \<and> \<not> expired now r) rows"
    and S: "take limit todo \<noteq> []" and b: "b = tk_rowid (List.last (take limit todo))"
  shows "filter (\<lambda>r. tk_rowid r > b \<and> \<not> expired now r) (concat (map (batchRow E now a b) rows)) = List.drop limit todo"
proof -
  have srt: "sorted_wrt (<) (map tk_rowid todo)"
    using ok unfolding todo task_rows_ok_def by (auto simp: sorted_wrt_map intro: sorted_wrt_filter)
  have low: "nullish p 0 < b" using last_in_set [OF S] unfolding b todo by (auto dest: in_set_takeD)
  have "filter (\<lambda>r. tk_rowid r > b \<and> \<not> expired now r) (concat (map (batchRow E now a b) rows))
      = filter (\<lambda>r. tk_rowid r > b \<and> \<not> expired now r) rows"
    by (induction rows) (auto simp: batchRow_def)
  also have "\<dots> = filter (\<lambda>r. tk_rowid r > b) todo"
    unfolding todo filter_filter using low by (auto intro!: filter_cong)
  also have "\<dots> = List.drop limit todo" unfolding b by (rule sorted_less_last_take [OF srt S])
  finally show ?thesis .
qed

lemma concat_map_concat: "concat (map f (concat (map g xs))) = concat (map (\<lambda>x. concat (map f (g x))) xs)"
  by (induction xs) simp_all

lemma finalRow_batch:
  assumes "nullish p 0 < a" "a \<le> b" "\<And>r. r \<in> set rows \<Longrightarrow> \<not> expired now r \<Longrightarrow> nullish p 0 < tk_rowid r \<Longrightarrow> a \<le> tk_rowid r"
  shows "concat (map (finalRow E now b) (concat (map (batchRow E now a b) rows))) = concat (map (finalRow E now (nullish p 0)) rows)"
proof -
  have "concat (map (finalRow E now b) (batchRow E now a b r)) = finalRow E now (nullish p 0) r" if "r \<in> set rows" for r
    using assms(1,2) assms(3) [OF that] by (auto simp: batchRow_def finalRow_def)
  then have "map (\<lambda>r. concat (map (finalRow E now b) (batchRow E now a b r))) rows = map (finalRow E now (nullish p 0)) rows"
    by (intro map_cong refl)
  then show ?thesis unfolding concat_map_concat by (simp only:)
qed

lemma runSyncTasksFrom_exact:
  assumes "task_rows_ok rows" "limit > 0"
  shows "runSyncTasksFrom E now limit p rows =
    (map (\<lambda>r. (incremented r, queueSyncTask E r)) (filter (\<lambda>r. tk_rowid r > nullish p 0 \<and> \<not> expired now r) rows),
     concat (map (finalRow E now (nullish p 0)) rows))"
  using assms
proof (induction E now limit p rows rule: runSyncTasksFrom.induct)
  case (1 E now limit p rows)
  define todo where todo: "todo = filter (\<lambda>r. tk_rowid r > nullish p 0 \<and> \<not> expired now r) rows"
  show ?case
  proof (cases "todo = []")
    case True
    have "concat (map (finalRow E now (nullish p 0)) rows) = filter (\<lambda>r. \<not> expired now r) rows"
      using True unfolding todo by (induction rows) (auto simp: finalRow_def split: if_splits)
    then show ?thesis
      using no_batch_left [OF 1(2,3), of p now E] True unfolding todo
      by (subst runSyncTasksFrom.simps) simp
  next
    case False
    define S a b where "S = take limit todo" and a: "a = tk_rowid (hd S)" and b: "b = tk_rowid (List.last S)"
    then have S: "S = take limit todo" "S \<noteq> []" using False 1(3) by (auto simp: S_def)
    define rows' where rows': "rows' = concat (map (batchRow E now a b) rows)"
    note step = batch_step [OF 1(2) todo S a b, of E, folded rows']
    have srt: "sorted_wrt (<) (map tk_rowid todo)"
      using 1(2) unfolding todo task_rows_ok_def by (auto simp: sorted_wrt_map intro: sorted_wrt_filter)
    have IH: "runSyncTasksFrom E now limit (Some b) rows' =
        (map (\<lambda>r. (incremented r, queueSyncTask E r)) (filter (\<lambda>r. tk_rowid r > b \<and> \<not> expired now r) rows'),
         concat (map (finalRow E now b) rows'))"
      using 1(1) [OF step [symmetric] refl refl] task_rows_ok_batch [OF 1(2)] 1(3) unfolding rows' by simp
    have rest: "filter (\<lambda>r. tk_rowid r > b \<and> \<not> expired now r) rows' = List.drop limit todo"
      unfolding rows' using batch_todo [OF 1(2) todo, of limit b] S b by simp
    have least: "a \<le> tk_rowid r" if "r \<in> set todo" for r
      using hd_take_least(1) [OF srt _ that] S a by auto
    have "hd S \<in> set todo" "List.last S \<in> set todo"
      using hd_in_set [OF S(2)] last_in_set [OF S(2)] S(1) by (metis in_set_takeD)+
    then have "nullish p 0 < a" "a \<le> b" using least a b unfolding todo by auto
    then have fin: "concat (map (finalRow E now b) rows') = concat (map (finalRow E now (nullish p 0)) rows)"
      unfolding rows' using least by (intro finalRow_batch) (auto simp: todo)
    show ?thesis
      by (subst runSyncTasksFrom.simps) (simp add: step IH rest fin S(1) todo [symmetric] map_append [symmetric] del: map_append)
  qed
qed

text \<open>
C11: Every stored task that has not expired is queued exactly once and in the order of its row, with
one attempt more, whatever the size of a batch is. Afterwards the database has the tasks that were
read and not dropped by the loop, except those whose attempts are used up and that are older than
two days.
\<close>

theorem every_task_queued_once:
  assumes "task_rows_ok rows" "limit > 0"
  shows "runAllSyncTasks E now limit rows =
    (map (\<lambda>r. (incremented r, queueSyncTask E r)) (filter (\<lambda>r. \<not> expired now r) rows),
     filter (\<lambda>r. queueSyncTask E r \<noteq> Removed \<and> \<not> expired now r)
       (map incremented (filter (\<lambda>r. \<not> expired now r) rows)))"
proof -
  have pos: "filter (\<lambda>r. tk_rowid r > 0 \<and> \<not> expired now r) rows = filter (\<lambda>r. \<not> expired now r) rows"
    using assms(1) by (auto simp: task_rows_ok_def list_all_iff intro!: filter_cong)
  have "concat (map (finalRow E now 0) rows) = concat (map (\<lambda>x. if \<not> expired now x \<and>
      queueSyncTask E (incremented x) \<noteq> Removed \<and> \<not> expired now (incremented x) then [incremented x] else []) rows)"
    using assms(1) by (intro arg_cong [where f = concat] map_cong refl)
      (auto simp: task_rows_ok_def list_all_iff finalRow_def)
  then show ?thesis
    using runSyncTasksFrom_exact [OF assms, of E now None] pos
    by (simp add: runAllSyncTasks_def concat_filter_map)
qed

definition exampleRows :: "SyncTaskRow list" where
  "exampleRows =
    [\<lparr>tk_rowid = 2, tk_id = ''a'', tk_attempts = 0, tk_createdAt = 9, tk_data = ''r'', tk_envelopeId = ''e1'', tk_sentAt = 8, tk_type = Some Task_Read\<rparr>,
     \<lparr>tk_rowid = 3, tk_id = ''b'', tk_attempts = 5, tk_createdAt = 9, tk_data = ''r'', tk_envelopeId = ''e2'', tk_sentAt = 8, tk_type = Some Task_Read\<rparr>,
     \<lparr>tk_rowid = 7, tk_id = ''c'', tk_attempts = 1, tk_createdAt = 9, tk_data = ''?'', tk_envelopeId = ''e3'', tk_sentAt = 8, tk_type = None\<rparr>]"

definition exampleTasks :: TaskEnv where
  "exampleTasks = \<lparr>te_parse = (\<lambda>d. if d = ''r'' then Some Task_Read else None), te_conversation = (\<lambda>_. None)\<rparr>"

lemma every_task_queued_once_witness:
  "map snd (fst (runAllSyncTasks exampleTasks 900000000 1 exampleRows)) = [ToReceipts, Removed]"
proof -
  have ok: "task_rows_ok exampleRows" by (simp add: task_rows_ok_def exampleRows_def)
  show ?thesis
    unfolding every_task_queued_once [OF ok zero_less_one]
    by (simp add: exampleRows_def exampleTasks_def expired_def MAX_SYNC_TASK_ATTEMPTS_def queueSyncTask_def)
qed

end
