(* ===== verification/Spec2Isabelle.thy ===== *)
theory Spec2Isabelle
  imports Send_State Group_Roster Group_State Group_Decrypt Group_Diff Group_Membership Group_Avatar Group_Update Call_Tombstones Group_Own_Attributes Group_Link Group_Modify Identity_Safety Receipt_Runs Message_Send Read_Syncs Sync_Tasks
begin

text \<open>
  A verification library for the core logic of Signal Desktop (TypeScript, under src/ts): what the
  program decides about groups, messages, receipts, calls and keys, without its user interface.

  \<^bold>\<open>The program.\<close> Envelopes from the server are decrypted with the keys of the protocol store. Messages
  go to the handlers of messages, receipts and sync messages to theirs, group changes to the groups
  engine, call events to the history of calls. All of them change records in the database (ts/sql) and
  objects in memory. The source is asynchronous; each function here is a part that runs
  without interruption, and where other calls come in between and this matters, the theory has a
  state machine of the parts (Session_Zones, Receipt_Runs, Call_Runs).

  \<^bold>\<open>Conventions\<close> (\<open>JS_Prelude\<close>). A thrown error is the left side of a sum with its message, an effect
  with an error is a pair of state and sum. A dictionary is an association list in insertion order
  (\<open>jsmap\<close>, with the interface \<open>keyed_dict\<close>), numbers are unbounded integers, since the modelled
  numbers are counters, enum values and milliseconds. Bytes are lists of \<open>8 word\<close>. Names are those of the
  source except where they clash. What is not under src/ is an argument, mostly a field of a record:
  \<open>env\<close> (conversations, clock, the group cipher and decoders), \<open>Server\<close> (requests and their results),
  \<open>App\<close> (the rest of the application), \<open>BuildEnv\<close>, \<open>ModifyWorld\<close> (what one attempt meets),
  \<open>CallEnv\<close>, \<open>LibSignal\<close> (records of the protocol library), \<open>IdentityEnv\<close>, \<open>LinkCodec\<close>, \<open>ReceiptEnv\<close>, \<open>SendEnv\<close>,
  \<open>SyncEnv\<close>, \<open>TaskEnv\<close>. Theorems name what they assume of these arguments, and their witnesses
  give functions that satisfy it.

  \<^bold>\<open>Groups\<close> (ts/groups.preload.ts and its helpers).
  \<^item> Group_Types has the data: the attributes of a conversation, decrypted changes and states, the
    details shown in the timeline. Group_Membership answers questions about service ids,
    conversations and members; Group_Avatar downloads avatars.
  \<^item> Group_Decrypt: \<open>decryptGroupChange\<close>, \<open>decryptGroupState\<close>. Its errors are characterized,
    and what it lets through can be applied.
  \<^item> Group_Apply: \<open>applyGroupChange\<close>, action by action. Group_Roster proves that it refines \<open>rosterSpec\<close>,
    a specification on the sets of members, invited, asking and banned, and that its result is well-formed. Group_State: \<open>applyGroupState\<close>.
  \<^item> Group_Diff: \<open>extractDiffs\<close> reports exactly the members that came and went.
  \<^item> Group_Integrate integrates a log of changes, Group_Fetch fetches it from the server (credentials,
    pages, the ways to fall back) and believes only what is signed; Group_Update saves the result;
    Group_Messages merges and stores its messages; Group_Endorsements holds the proofs for sending.
  \<^item> Group_Build writes our own changes; Group_Own_Changes and Group_Own_Attributes follow them through
    decryption and application to their effect. Group_Modify sends them, with at most five attempts.
    Group_Link builds and parses invite links.

  \<^bold>\<open>Messages.\<close>
  \<^item> Send_State: the send status per recipient (ts/messages/MessageSendState.std.ts), the read and
    seen status, their migrations. The three share the locale \<open>ranked_status\<close>: a status only rises,
    and the order of events does not matter.
  \<^item> Message_Cache: attributes, the versions of an edited message, the cache of models and its index
    by sent time (ts/services/MessageCache.preload.ts), the query by sent time; the index is
    exact and the search finds what there is.
  \<^item> Message_Receipts and Receipt_Runs: receipts (ts/messageModifiers/MessageReceipts.preload.ts), from
    arrival to the saved message. In every run no receipt is lost unless its outcome is recorded.
  \<^item> Message_Send: what sending and editing make of the send states (ts/messages/send.preload.ts); the
    send states of a message and of its latest edit agree.
  \<^item> Read_Syncs: messages read or viewed on another device, before and after the message.
  \<^item> Sync_Tasks: the table of pending tasks and the loop over it at startup; every task is queued once.
  \<^item> Message_Ids (ts/util/generateMessageId.node.ts) and Bytes_Codec (hexadecimal, base64, UUIDs, as
    instances of the locale \<open>text_codec\<close>).

  \<^bold>\<open>Calls\<close> (ts/util/callDisposition.preload.ts, ts/types/CallDisposition.std.ts). Call_Status: the
  transitions of a record, Call_Sync: its protocol messages, Call_History: the tables and the store,
  Call_Actions: the handlers, Call_Runs: all handlers as a step relation with its
  invariant, Call_Tombstones: deleted calls stay deleted.

  \<^bold>\<open>Keys\<close> (ts/SignalProtocolStore.preload.ts). Session_Store: sessions, sender keys, pre keys and
  the transactions over them (zones); Session_Zones: overlapping calls, of which never two zones are in;
  Session_Coherence: the caches mirror the database and a batch is written in whole or not at
  all; Session_Devices: the open sessions of a user; Identity_Keys and Identity_Safety: trust in
  the keys of a contact, which blocks sending after a change until it is decided anew.

  \<^bold>\<open>Loops.\<close> \<open>modifyLoop\<close> recurses on the number of attempts, five in the source. \<open>fetchPages\<close>
  follows the pages of the server and may not end; it is a partial function, and
  a property of Group_Fetch shows that it ends if every page ends at or after the version it was asked to
  start with and, when no revision is asked for, none ends after the last revision of the group. \<open>runSyncTasksFrom\<close> ends since every batch leaves fewer rows above its last row id; this
  is its termination proof. All other recursion is on data, so there is no fuel.

  \<^bold>\<open>What the properties do not say.\<close> Cryptography is abstract: that signatures and ciphers are sound
  is assumed of the library, where it is needed at all. Database operations do what they say; they fail
  where the model has an error result for them (the commit of a zone does).

  \<^bold>\<open>Not modelled\<close>
  \<^item> The user interface (ts/components, ts/axo, ts/quill, ts/hooks, ts/mediaEditor, ts/state with its
    ducks, selectors and smart components, except the slice of the call history): rendering and its state,
    which the logic above does not depend on.
  \<^item> The network and the queue of envelopes (ts/textsecure, but for the paginated group log), jobs
    (ts/jobs), calling itself (ts/services/calling.preload.ts, RingRTC), storage service and backups
    (ts/services): long sequences of calls to services, of the same kind as the modelled code but not done.
  \<^item> The rest of the database (ts/sql): queries and schema migrations, whose meaning is that of SQL.
  \<^item> Reactions, polls, pins, deletes, view-once messages, the content of edits (ts/messageModifiers);
    ConversationModel and ConversationController; attachments and link previews.
  \<^item> The rest of the protocol store: signed pre keys, hydrating the caches, light session resets, the
    keys of our phone number identity, key transparency, removing all data.
  \<^item> Creating and migrating groups, joining by a link; grouped queries of the call history.
  \<^item> Main process, windows, updater, workers, build scripts, tests, generated and vendored code.
\<close>

end
